(* ===== verification/Bank_Prelude.thy ===== *)
theory Bank_Prelude
  imports
    Complex_Main
    "HOL-Library.Word"
    "HOL-Library.AList"
    "HOL-Library.Multiset"
    "HOL-Library.Char_ord"
    "HOL-Library.List_Lexorder"
    "HOL-Library.Product_Lexorder"
begin

text \<open>
  What every component of the bank shares: Go's signed 64-bit integers as \<open>int\<close> with the
  wrap-around written out, the error values the packages return, the state-and-error monad in
  which a service method is a function from a state to a result and the state it leaves behind
  (also on the error path, because Go keeps what was written before an early return), the
  lemmas on association lists that stand for Go maps, and the named collections of facts the
  component proofs draw on.
\<close>

section \<open>Collections\<close>

named_theorems op_simps \<open>evaluation of the state-and-error monad\<close>
named_theorems pres \<open>rules that an operation preserves a predicate on states\<close>
named_theorems wrap_simps \<open>arithmetic modulo the 64-bit wrap-around\<close>

section \<open>Signed 64-bit integers\<close>

text \<open>
  A Go \<open>int64\<close> (and \<open>int\<close>, which has 64 bits on the supported platforms) is an \<open>int\<close> in
  the range \<open>in64\<close>; every addition, subtraction, negation and multiplication of the source that
  can leave the range is followed by \<open>wrap64\<close>, which is two's complement wrap-around.
\<close>

type_synonym int64 = int

definition min64 :: int where "min64 = - (2 ^ 63)"

definition max64 :: int where "max64 = 2 ^ 63 - 1"

definition in64 :: "int \<Rightarrow> bool" where
  "in64 x \<longleftrightarrow> min64 \<le> x \<and> x \<le> max64"

definition wrap64 :: "int \<Rightarrow> int64" where
  "wrap64 x = (x + 2 ^ 63) mod 2 ^ 64 - 2 ^ 63"

text \<open>Go's integer division and remainder truncate towards zero.\<close>

definition go_quot :: "int \<Rightarrow> int \<Rightarrow> int" where
  "go_quot a b = sgn a * sgn b * (\<bar>a\<bar> div \<bar>b\<bar>)"

definition go_rem :: "int \<Rightarrow> int \<Rightarrow> int" where
  "go_rem a b = a - b * go_quot a b"

section \<open>Errors\<close>

text \<open>
  One datatype per package, a constructor per \<open>errors.New\<close> or \<open>fmt.Errorf\<close> of the source with
  the values the message prints. \<open>Ctx\<close> is an error wrapped with the verb \<open>w\<close>: the text
  around it is dropped except for a tag, the wrapped error is kept, as \<open>errors.Is\<close> sees it.
\<close>

datatype clock_err =
    DurationNotPositive | DaysNotPositive | TargetNotAfterNow

datatype ledger_err =
    UnknownCurrency string | EmptyAmount | InvalidAmount string | TooManyPlaces string int
  | AmountOutOfRange string | AccountIdRequired | AccountExists string | DecodeEvent string
  | TooFewEntries | EntryCurrencyMismatch string string | EntryNotPositive
  | NoSuchAccount string | AccountCurrencyMismatch string string string
  | BadDirection string | Unbalanced int int | TotalNotPositive
  | BadTransition string string string

datatype fx_err =
    NoRateProvider | FxAccountsRequired | FxAccountNotFound string
  | FxFromCurrency string string | ZeroRate | UnknownRounding string | AmountOverflow
  | InvalidDecimal string | DecimalPlaces string int | DecimalRange string
  | MissingPairs | MalformedPairs | NoPair string string | RoundingNotString
  | NoStaticRate string string | ExpectedString | InvalidInteger string | ExpectedNumber
  | MissingThresholds | InvalidPrice string

datatype account_err =
    AccValidation string | AmountNotPositive | MissingConditions | MalformedCondition
  | UnknownWaterfallRule string | ConditionsExhausted | NoFundingLegs | MalformedLeg
  | UnknownFundingCurrency string | ErrDeclined

datatype rules_err =
    NoEvaluator string | NotRegistered string | RulesValidation "string list"
  | ExamplesFailed int | SchemaLoad string | ReadRegistry string | ParseRegistry string
  | EmptyRegistry | LoadProblems "string list" | NoOpenVersion string

datatype loan_err =
    MissingField string | FieldNotNumber string | FieldNotString string
  | FieldNotObject string | FieldNotArray string | NoBandMatched | BandNotNumber
  | TierNotObject | NoTiers | FactorNotObject | NoTierMatched
  | ErrApplicantNotFound | ErrNotApproved "string list" | ErrInsufficientFunds string int int
  | CannotRepay string | NoUnpaid | CannotMiss string | NoInstallment | CannotDefaultRepaid
  | DecodeLoan string | NilLoan string

datatype dash_err =
    NotRational | BadNumericString string | MissingNumeric | NotConvertible | DashMissing string
  | DashNotString string | MissingTargets

datatype sim_err =
    SimValidation "string list" | UnknownStepType string | NoActiveLoan

datatype demo_err =
    ErrScenarioNotFound string | ErrStepNotFound string | ErrPreviousStepNotRun string string
  | EmptyFieldPath | NoSegments string | EmptyDocument | BadIndex string | NotSequence int | IndexRange int int
  | NotMapping int string | KeyNotFound string | NothingToSet | NotScalar | DecodeScalar | UnsupportedValue
  | ReadScenarios string | ParseScenarios string | NoScenarios | MissingScenarioID | DuplicateScenario string
  | NoSteps string | MissingStepID string int | DuplicateStep string string | StepRequires string string string
  | UnknownAction string string string | MalformedPath string | ParseRule string | MarshalRule string | MarshalRequest string

datatype store_err =
    Unavailable | UniqueViolation | OutOfRange | NoRows | DDLRefused | ReadDir | ReadFile string | TestFailed string

datatype err =
    ErrNotFound
  | ErrConflict
  | EClock clock_err
  | ELedger ledger_err
  | EFx fx_err
  | EAccount account_err
  | ERules rules_err
  | ELoan loan_err
  | EDash dash_err
  | ESim sim_err
  | EDemo demo_err
  | EStore store_err
  | EEncode string
  | Ctx string err

fun errors_Is :: "err \<Rightarrow> err \<Rightarrow> bool" where
  "errors_Is (Ctx c e) t = (Ctx c e = t \<or> errors_Is e t)"
| "errors_Is e t = (e = t)"

type_synonym 'a res = "err + 'a"

section \<open>Operations: state passing with errors\<close>

type_synonym ('s, 'a) oper = "'s \<Rightarrow> 'a res \<times> 's"

definition returnE :: "'a \<Rightarrow> ('s, 'a) oper" where
  "returnE x s = (Inr x, s)"

definition throwE :: "err \<Rightarrow> ('s, 'a) oper" where
  "throwE e s = (Inl e, s)"

definition bindE :: "('s, 'a) oper \<Rightarrow> ('a \<Rightarrow> ('s, 'b) oper) \<Rightarrow> ('s, 'b) oper" where
  "bindE m f s = (case m s of (Inl e, s') \<Rightarrow> (Inl e, s') | (Inr x, s') \<Rightarrow> f x s')"

definition getE :: "('s \<Rightarrow> 'a) \<Rightarrow> ('s, 'a) oper" where
  "getE f s = (Inr (f s), s)"

definition modifyE :: "('s \<Rightarrow> 's) \<Rightarrow> ('s, unit) oper" where
  "modifyE f s = (Inr (), f s)"

definition liftE :: "'a res \<Rightarrow> ('s, 'a) oper" where
  "liftE r s = (r, s)"

text \<open>
  \<open>guardE\<close> is an early return with an error; \<open>attemptE\<close> hands the error to the caller as a
  value, for code that looks at it before it decides to propagate it; \<open>foreachE\<close> is a
  \<open>for range\<close> loop that stops at the first error and \<open>mapE\<close> one that collects results.
\<close>

definition guardE :: "bool \<Rightarrow> err \<Rightarrow> ('s, unit) oper" where
  "guardE b e = (if b then returnE () else throwE e)"

definition attemptE :: "('s, 'a) oper \<Rightarrow> ('s, 'a res) oper" where
  "attemptE m s = (case m s of (r, s') \<Rightarrow> (Inr r, s'))"

definition ctxE :: "string \<Rightarrow> ('s, 'a) oper \<Rightarrow> ('s, 'a) oper" where
  "ctxE c m s = (case m s of (Inl e, s') \<Rightarrow> (Inl (Ctx c e), s') | (Inr x, s') \<Rightarrow> (Inr x, s'))"

fun foreachE :: "'x list \<Rightarrow> ('x \<Rightarrow> ('s, unit) oper) \<Rightarrow> ('s, unit) oper" where
  "foreachE [] f = returnE ()"
| "foreachE (x # xs) f = bindE (f x) (\<lambda>_. foreachE xs f)"

fun mapE :: "('x \<Rightarrow> ('s, 'y) oper) \<Rightarrow> 'x list \<Rightarrow> ('s, 'y list) oper" where
  "mapE f [] = returnE []"
| "mapE f (x # xs) = bindE (f x) (\<lambda>y. bindE (mapE f xs) (\<lambda>ys. returnE (y # ys)))"

text \<open>The same for the error part alone, for pure code that can fail.\<close>

definition bindR :: "'a res \<Rightarrow> ('a \<Rightarrow> 'b res) \<Rightarrow> 'b res" where
  "bindR r f = (case r of Inl e \<Rightarrow> Inl e | Inr x \<Rightarrow> f x)"

definition ctxR :: "string \<Rightarrow> 'a res \<Rightarrow> 'a res" where
  "ctxR c r = (case r of Inl e \<Rightarrow> Inl (Ctx c e) | Inr x \<Rightarrow> Inr x)"

definition ofOption :: "err \<Rightarrow> 'a option \<Rightarrow> 'a res" where
  "ofOption e v = (case v of None \<Rightarrow> Inl e | Some x \<Rightarrow> Inr x)"

fun mapR :: "('x \<Rightarrow> 'y res) \<Rightarrow> 'x list \<Rightarrow> 'y list res" where
  "mapR f [] = Inr []"
| "mapR f (x # xs) = bindR (f x) (\<lambda>y. bindR (mapR f xs) (\<lambda>ys. Inr (y # ys)))"

text \<open>Hoare-style statements: an operation keeps a predicate, whatever it returns.\<close>

definition preserves :: "('s \<Rightarrow> bool) \<Rightarrow> ('s, 'a) oper \<Rightarrow> bool" where
  "preserves P m \<longleftrightarrow> (\<forall>s. P s \<longrightarrow> P (snd (m s)))"

definition keeps :: "('s \<Rightarrow> 'v) \<Rightarrow> ('s, 'a) oper \<Rightarrow> bool" where
  "keeps f m \<longleftrightarrow> (\<forall>s. f (snd (m s)) = f s)"

section \<open>Go maps as association lists\<close>

text \<open>
  A Go map that the code iterates over is an association list with distinct keys; \<open>map_of\<close>
  reads it and \<open>AList.update\<close> writes it. A missing key reads as the zero value.
\<close>

definition getOr :: "'v \<Rightarrow> ('k \<times> 'v) list \<Rightarrow> 'k \<Rightarrow> 'v" where
  "getOr z m k = (case map_of m k of None \<Rightarrow> z | Some v \<Rightarrow> v)"

definition addTo :: "'k \<Rightarrow> int \<Rightarrow> ('k \<times> int) list \<Rightarrow> ('k \<times> int) list" where
  "addTo k d m = AList.update k (wrap64 (getOr 0 m k + d)) m"

section \<open>Lemmas: 64-bit arithmetic\<close>

lemma wrap64_id [simp]: "in64 x \<Longrightarrow> wrap64 x = x"
  by (simp add: in64_def wrap64_def min64_def max64_def)

lemma in64_wrap64 [simp]: "in64 (wrap64 x)"
proof -
  have "0 \<le> (x + 2 ^ 63) mod 2 ^ 64" and "(x + 2 ^ 63) mod 2 ^ 64 < (2 ^ 64 :: int)"
    by simp_all
  then show ?thesis by (simp add: in64_def wrap64_def min64_def max64_def)
qed

lemma wrap64_mod: "wrap64 x mod 2 ^ 64 = x mod 2 ^ 64"
proof -
  have "wrap64 x mod 2 ^ 64 = ((x + 2 ^ 63) mod 2 ^ 64 - 2 ^ 63) mod 2 ^ 64"
    by (simp add: wrap64_def)
  also have "\<dots> = (x + 2 ^ 63 - 2 ^ 63) mod 2 ^ 64"
    by (rule mod_diff_left_eq)
  finally show ?thesis by simp
qed

lemma wrap64_eq_iff: "wrap64 x = wrap64 y \<longleftrightarrow> x mod 2 ^ 64 = y mod 2 ^ 64"
proof
  assume "wrap64 x = wrap64 y"
  then have "wrap64 x mod 2 ^ 64 = wrap64 y mod 2 ^ 64" by simp
  then show "x mod 2 ^ 64 = y mod 2 ^ 64" by (simp only: wrap64_mod)
next
  assume "x mod 2 ^ 64 = y mod 2 ^ 64"
  then have "(x + 2 ^ 63) mod 2 ^ 64 = (y + 2 ^ 63) mod 2 ^ 64"
    by (rule mod_add_cong) simp
  then show "wrap64 x = wrap64 y" by (simp only: wrap64_def)
qed

lemma wrap64_wrap64 [wrap_simps, simp]: "wrap64 (wrap64 x) = wrap64 x"
  by simp

lemma wrap64_add_left [wrap_simps]: "wrap64 (wrap64 x + y) = wrap64 (x + y)"
  unfolding wrap64_eq_iff by (rule mod_add_cong) (simp_all only: wrap64_mod)

lemma wrap64_add_right [wrap_simps]: "wrap64 (x + wrap64 y) = wrap64 (x + y)"
  unfolding wrap64_eq_iff by (rule mod_add_cong) (simp_all only: wrap64_mod)

lemma wrap64_diff_left [wrap_simps]: "wrap64 (wrap64 x - y) = wrap64 (x - y)"
  unfolding wrap64_eq_iff by (rule mod_diff_cong) (simp_all only: wrap64_mod)

lemma wrap64_diff_right [wrap_simps]: "wrap64 (x - wrap64 y) = wrap64 (x - y)"
  unfolding wrap64_eq_iff by (rule mod_diff_cong) (simp_all only: wrap64_mod)

lemma wrap64_mult_left [wrap_simps]: "wrap64 (wrap64 x * y) = wrap64 (x * y)"
  unfolding wrap64_eq_iff by (rule mod_mult_cong) (simp_all only: wrap64_mod)

lemma wrap64_0 [simp]: "wrap64 0 = 0"
  by (simp add: wrap64_def)

lemma in64_0 [simp]: "in64 0"
  by (simp add: in64_def min64_def max64_def)

lemma wrap64_sum_list [wrap_simps]:
  "wrap64 (sum_list (map (\<lambda>x. wrap64 (f x)) xs)) = wrap64 (sum_list (map f xs))"
proof (induction xs)
  case (Cons a xs)
  have "wrap64 (wrap64 (f a) + sum_list (map (\<lambda>x. wrap64 (f x)) xs))
      = wrap64 (f a + wrap64 (sum_list (map (\<lambda>x. wrap64 (f x)) xs)))"
    by (simp only: wrap64_add_left wrap64_add_right)
  also have "\<dots> = wrap64 (f a + sum_list (map f xs))"
    by (simp only: Cons.IH wrap64_add_right)
  finally show ?case by simp
qed simp

text \<open>The wrap-around is the signed reading of a 64-bit machine word.\<close>

lemma wrap64_word: "wrap64 x = sint (word_of_int x :: 64 word)"
proof -
  have "sint (word_of_int x :: 64 word) = signed_take_bit 63 x"
    by (simp add: sint_sbintrunc')
  also have "\<dots> = (x + 2 ^ 63) mod 2 ^ 64 - 2 ^ 63"
    by (simp add: signed_take_bit_eq_take_bit_shift take_bit_eq_mod)
  finally show ?thesis by (simp add: wrap64_def)
qed

lemma go_quot_nonneg: "0 \<le> a \<Longrightarrow> 0 < b \<Longrightarrow> go_quot a b = a div b"
  by (cases "a = 0") (simp_all add: go_quot_def)

section \<open>Lemmas: the monad\<close>

lemma returnE_app [op_simps]: "returnE x s = (Inr x, s)"
  by (simp add: returnE_def)

lemma throwE_app [op_simps]: "throwE e s = (Inl e, s)"
  by (simp add: throwE_def)

lemma getE_app [op_simps]: "getE f s = (Inr (f s), s)"
  by (simp add: getE_def)

lemma modifyE_app [op_simps]: "modifyE f s = (Inr (), f s)"
  by (simp add: modifyE_def)

lemma liftE_app [op_simps]: "liftE r s = (r, s)"
  by (simp add: liftE_def)

lemma guardE_app [op_simps]: "guardE b e s = (if b then (Inr (), s) else (Inl e, s))"
  by (simp add: guardE_def op_simps)

lemma bindE_Inr [op_simps]: "m s = (Inr x, s') \<Longrightarrow> bindE m f s = f x s'"
  by (simp add: bindE_def)

lemma bindE_Inl [op_simps]: "m s = (Inl e, s') \<Longrightarrow> bindE m f s = (Inl e, s')"
  by (simp add: bindE_def)

lemma bindE_getE [op_simps]: "bindE (getE g) f s = f (g s) s"
  by (simp add: bindE_def op_simps)

lemma bindE_liftE [op_simps]: "bindE (liftE (Inr x)) f s = f x s"
  by (simp add: bindE_def op_simps)

lemma liftE_bind: "bindE (liftE (Inr x)) f = f x"
  by (rule ext) (simp add: op_simps)

lemma bindE_returnE [op_simps]: "bindE (returnE x) f s = f x s"
  by (simp add: bindE_def op_simps)

lemma bindE_modifyE [op_simps]: "bindE (modifyE g) f s = f () (g s)"
  by (simp add: bindE_def op_simps)

lemma bindE_guardE [op_simps]:
  "bindE (guardE b e) f s = (if b then f () s else (Inl e, s))"
  by (simp add: bindE_def op_simps)

lemma bindE_assoc: "bindE (bindE m f) g = bindE m (\<lambda>x. bindE (f x) g)"
  by (rule ext) (auto simp: bindE_def split: prod.splits sum.splits)

lemma bindE_eq_Inr:
  "bindE m f s = (Inr y, t) \<longleftrightarrow> (\<exists>x s'. m s = (Inr x, s') \<and> f x s' = (Inr y, t))"
  by (auto simp: bindE_def split: prod.splits sum.splits)

lemma bindE_eq_Inl:
  "bindE m f s = (Inl e, t) \<longleftrightarrow>
     m s = (Inl e, t) \<or> (\<exists>x s'. m s = (Inr x, s') \<and> f x s' = (Inl e, t))"
  by (auto simp: bindE_def split: prod.splits sum.splits)

lemma bindE_InrE [elim]:
  assumes "bindE m f s = (Inr y, t)"
  obtains x s' where "m s = (Inr x, s')" and "f x s' = (Inr y, t)"
  using assms by (auto simp: bindE_eq_Inr)

lemma succeeds: "isl (fst m) = False \<Longrightarrow> \<exists>x t. m = (Inr x, t)"
  by (cases m; cases "fst m") auto

lemma fails: "isl (fst m) = True \<Longrightarrow> \<exists>e t. m = (Inl e, t)"
  by (cases m; cases "fst m") auto

lemma ctxE_eq_Inr: "ctxE c m s = (Inr y, t) \<longleftrightarrow> m s = (Inr y, t)"
  by (auto simp: ctxE_def split: prod.splits sum.splits)

lemma ctxE_eq_Inl: "ctxE c m s = (Inl e, t) \<longleftrightarrow> (\<exists>e'. m s = (Inl e', t) \<and> e = Ctx c e')"
  by (auto simp: ctxE_def split: prod.splits sum.splits)

lemma bindR_eq_Inr: "bindR r f = Inr y \<longleftrightarrow> (\<exists>x. r = Inr x \<and> f x = Inr y)"
  by (auto simp: bindR_def split: sum.splits)

lemma bindR_simps [simp]: "bindR (Inr x) f = f x" "bindR (Inl e) f = Inl e"
  by (simp_all add: bindR_def)

lemma ctxR_eq_Inr [simp]: "ctxR c r = Inr y \<longleftrightarrow> r = Inr y"
  by (auto simp: ctxR_def split: sum.splits)

lemma ctxR_Inr [simp]: "ctxR c (Inr y) = Inr y"
  by (simp add: ctxR_def)

lemma mapR_Inr_length: "mapR f xs = Inr ys \<Longrightarrow> length ys = length xs"
  by (induction xs arbitrary: ys) (auto simp: bindR_eq_Inr)

lemma mapR_all: "(\<And>x. x \<in> set xs \<Longrightarrow> f x = Inr (g x)) \<Longrightarrow> mapR f xs = Inr (map g xs)"
  by (induction xs) simp_all

section \<open>Lemmas: preservation\<close>

lemma preservesI: "(\<And>s. P s \<Longrightarrow> P (snd (m s))) \<Longrightarrow> preserves P m"
  by (simp add: preserves_def)

lemma preservesD: "preserves P m \<Longrightarrow> P s \<Longrightarrow> P (snd (m s))"
  by (simp add: preserves_def)

lemma preserves_result: "preserves P m \<Longrightarrow> P s \<Longrightarrow> m s = (r, t) \<Longrightarrow> P t"
  by (auto dest: preservesD)

lemma preserves_returnE [pres]: "preserves P (returnE x)"
  by (simp add: preserves_def op_simps)

lemma preserves_throwE [pres]: "preserves P (throwE e)"
  by (simp add: preserves_def op_simps)

lemma preserves_getE [pres]: "preserves P (getE f)"
  by (simp add: preserves_def op_simps)

lemma preserves_liftE [pres]: "preserves P (liftE r)"
  by (simp add: preserves_def op_simps)

lemma preserves_guardE [pres]: "preserves P (guardE b e)"
  by (simp add: preserves_def op_simps)

lemma preserves_modifyE: "(\<And>s. P s \<Longrightarrow> P (f s)) \<Longrightarrow> preserves P (modifyE f)"
  by (simp add: preserves_def op_simps)

lemma preserves_bindE [pres]:
  "preserves P m \<Longrightarrow> (\<And>x. preserves P (f x)) \<Longrightarrow> preserves P (bindE m f)"
  by (auto simp: preserves_def bindE_def split: prod.splits sum.splits)

lemma preserves_getlift:
  "(\<And>s x. g s = Inr x \<Longrightarrow> preserves P (f x)) \<Longrightarrow> preserves P (bindE (getE g) (\<lambda>q. bindE (liftE q) f))"
  by (auto simp: preserves_def op_simps bindE_def split: sum.split)

lemma preserves_attemptE [pres]: "preserves P m \<Longrightarrow> preserves P (attemptE m)"
  by (auto simp: preserves_def attemptE_def split: prod.splits)

lemma preserves_ctxE [pres]: "preserves P m \<Longrightarrow> preserves P (ctxE c m)"
  by (auto simp: preserves_def ctxE_def split: prod.splits sum.splits)

lemma preserves_if [pres]:
  "preserves P m \<Longrightarrow> preserves P m' \<Longrightarrow> preserves P (if b then m else m')"
  by simp

lemma preserves_case_option [pres]:
  "preserves P m \<Longrightarrow> (\<And>x. preserves P (f x)) \<Longrightarrow> preserves P (case v of None \<Rightarrow> m | Some x \<Rightarrow> f x)"
  by (simp split: option.split)

lemma preserves_case_sum [pres]:
  "(\<And>e. preserves P (f e)) \<Longrightarrow> (\<And>x. preserves P (g x)) \<Longrightarrow>
     preserves P (case v of Inl e \<Rightarrow> f e | Inr x \<Rightarrow> g x)"
  by (simp split: sum.split)

lemma preserves_case_prod [pres]:
  "(\<And>x y. preserves P (f x y)) \<Longrightarrow> preserves P (case v of (x, y) \<Rightarrow> f x y)"
  by (simp split: prod.split)

lemma preserves_foreachE [pres]:
  "(\<And>x. preserves P (f x)) \<Longrightarrow> preserves P (foreachE xs f)"
  by (induction xs) (auto intro: pres)

lemma preserves_mapE [pres]:
  "(\<And>x. preserves P (f x)) \<Longrightarrow> preserves P (mapE f xs)"
  by (induction xs) (auto intro: pres)

lemma preserves_mapE_on:
  "(\<And>x. x \<in> set xs \<Longrightarrow> preserves P (f x)) \<Longrightarrow> preserves P (mapE f xs)"
  by (induction xs) (auto intro!: preserves_bindE preserves_returnE)

lemma preserves_foreachE_on:
  "(\<And>x. x \<in> set xs \<Longrightarrow> preserves P (f x)) \<Longrightarrow> preserves P (foreachE xs f)"
  by (induction xs) (auto intro!: preserves_bindE preserves_returnE)

lemma preserves_bindE_res:
  assumes "preserves P m" and "\<And>s x s'. P s \<Longrightarrow> m s = (Inr x, s') \<Longrightarrow> preserves P (f x)"
  shows "preserves P (bindE m f)"
proof (rule preservesI)
  fix s assume s: "P s"
  obtain r s' where run: "m s = (r, s')" by (cases "m s")
  have s': "P s'" using preserves_result [OF assms(1) s run] .
  show "P (snd (bindE m f s))"
  proof (cases r)
    case (Inr x)
    then show ?thesis using preservesD [OF assms(2) [OF s run [unfolded Inr]] s'] run by (simp add: op_simps)
  qed (use s' run in \<open>simp add: op_simps\<close>)
qed

lemma keeps_preserves: "keeps f m \<longleftrightarrow> (\<forall>v. preserves (\<lambda>s. f s = v) m)"
  by (auto simp: keeps_def preserves_def)

section \<open>Lemmas: association lists\<close>

lemma getOr_Nil [simp]: "getOr z [] k = z"
  by (simp add: getOr_def)

lemma getOr_update [simp]:
  "getOr z (AList.update k v m) j = (if j = k then v else getOr z m j)"
  by (simp add: getOr_def update_conv')

lemma getOr_addTo: "getOr 0 (addTo k d m) j = (if j = k then wrap64 (getOr 0 m k + d) else getOr 0 m j)"
  by (simp add: addTo_def)

lemma map_of_update [simp]:
  "map_of (AList.update k v m) j = (if j = k then Some v else map_of m j)"
  by (simp add: update_conv')

lemma distinct_update_keys [simp]:
  "distinct (map fst m) \<Longrightarrow> distinct (map fst (AList.update k v m))"
  by (rule distinct_update)

lemma update_new: "map_of m k = None \<Longrightarrow> AList.update k v m = m @ [(k, v)]"
  by (induction m) (auto split: if_splits)

lemma update_same: "map_of m k = Some v \<Longrightarrow> AList.update k v m = m"
  by (induction m) (auto split: if_splits)

section \<open>Lemmas: lists\<close>

lemma find_unique:
  assumes "x \<in> set xs" and "P x" and only: "\<And>y. y \<in> set xs \<Longrightarrow> P y \<Longrightarrow> y = x"
  shows "find P xs = Some x"
proof (cases "find P xs")
  case None
  with assms(1,2) show ?thesis by (auto simp: find_None_iff)
next
  case (Some y)
  then have "y \<in> set xs" and "P y" by (auto simp: find_Some_iff)
  with Some only show ?thesis by blast
qed

lemma length_filter_sort: "length (filter P (sort_key f xs)) = length (filter P xs)"
proof -
  have "size (mset (filter P (sort_key f xs))) = size (mset (filter P xs))"
    by (simp add: mset_filter)
  then show ?thesis by (simp only: size_mset)
qed

end
