(* ===== verification/Go_Strings.thy ===== *)
theory Go_Strings
  imports Bank_Prelude
begin

text \<open>
  The part of Go's \<open>strings\<close> and \<open>strconv\<close> packages the bank uses, on strings as lists of
  bytes: decimal formatting and parsing of integers, trimming, suffixes, splitting. The main
  fact is that \<open>ParseInt\<close> reads back what \<open>FormatInt\<close> wrote.
\<close>

section \<open>Decimal digits\<close>

definition digitChar :: "nat \<Rightarrow> char" where
  "digitChar d = char_of (48 + d)"

definition isDigitChar :: "char \<Rightarrow> bool" where
  "isDigitChar c \<longleftrightarrow> 48 \<le> (of_char c :: nat) \<and> (of_char c :: nat) \<le> 57"

definition digitVal :: "char \<Rightarrow> nat" where
  "digitVal c = (of_char c :: nat) - 48"

fun natStr :: "nat \<Rightarrow> string" where
  "natStr n = (if n < 10 then [digitChar n] else natStr (n div 10) @ [digitChar (n mod 10)])"

declare natStr.simps [simp del]

definition decVal :: "string \<Rightarrow> nat" where
  "decVal s = foldl (\<lambda>a c. 10 * a + digitVal c) 0 s"

text \<open>\<open>strconv.FormatInt(n, 10)\<close>, and \<open>strconv.Itoa\<close> which is the same on \<open>int\<close>.\<close>

definition FormatInt :: "int \<Rightarrow> string" where
  "FormatInt n = (if n < 0 then CHR ''-'' # natStr (nat (- n)) else natStr (nat n))"

text \<open>
  \<open>strconv.ParseInt(s, 10, 64)\<close>: an optional sign, at least one digit, nothing else, and a
  value in range. \<open>None\<close> stands for both the syntax and the range error.
\<close>

definition ParseInt :: "string \<Rightarrow> int64 option" where
  "ParseInt s =
     (let neg = (s \<noteq> [] \<and> hd s = CHR ''-'');
          ds = (if s \<noteq> [] \<and> (hd s = CHR ''-'' \<or> hd s = CHR ''+'') then tl s else s)
      in if ds = [] \<or> \<not> list_all isDigitChar ds then None
         else let v = (if neg then - int (decVal ds) else int (decVal ds))
              in if in64 v then Some v else None)"

text \<open>
  What the call returns beside the error, for code that ignores it: zero for a syntax error, the
  nearest bound for a value out of range.
\<close>

definition ParseIntVal :: "string \<Rightarrow> int64" where
  "ParseIntVal s =
     (let neg = (s \<noteq> [] \<and> hd s = CHR ''-'');
          ds = (if s \<noteq> [] \<and> (hd s = CHR ''-'' \<or> hd s = CHR ''+'') then tl s else s)
      in if ds = [] \<or> \<not> list_all isDigitChar ds then 0
         else max min64 (min max64 (if neg then - int (decVal ds) else int (decVal ds))))"

section \<open>Trimming, cutting and case\<close>

text \<open>
  \<open>strings.TrimSpace\<close> drops Unicode white space: the six ASCII characters and the multi-byte
  encodings of U+0085, U+00A0, U+1680, U+2000 to U+200A, U+2028, U+2029, U+202F, U+205F and
  U+3000. The right end is trimmed on the reversed string with the byte patterns reversed.
\<close>

definition asciiSpace :: "nat \<Rightarrow> bool" where
  "asciiSpace b \<longleftrightarrow> b = 32 \<or> (9 \<le> b \<and> b \<le> 13)"

definition wideSpace :: "nat \<Rightarrow> nat \<Rightarrow> nat \<Rightarrow> bool" where
  "wideSpace a b c \<longleftrightarrow>
     (a = 225 \<and> b = 154 \<and> c = 128) \<or>
     (a = 226 \<and> b = 128 \<and> (128 \<le> c \<and> c \<le> 138 \<or> c = 168 \<or> c = 169 \<or> c = 175)) \<or>
     (a = 226 \<and> b = 129 \<and> c = 159) \<or>
     (a = 227 \<and> b = 128 \<and> c = 128)"

fun trimLeftSpace :: "string \<Rightarrow> string" where
  "trimLeftSpace [] = []"
| "trimLeftSpace (x # xs) =
     (if asciiSpace (of_char x) then trimLeftSpace xs
      else case xs of
        y # ys \<Rightarrow>
          if (of_char x :: nat) = 194 \<and> ((of_char y :: nat) = 133 \<or> (of_char y :: nat) = 160)
          then trimLeftSpace ys
          else (case ys of
            z # zs \<Rightarrow> if wideSpace (of_char x) (of_char y) (of_char z) then trimLeftSpace zs
                      else x # xs
          | [] \<Rightarrow> x # xs)
      | [] \<Rightarrow> x # xs)"

fun trimLeftSpaceRev :: "string \<Rightarrow> string" where
  "trimLeftSpaceRev [] = []"
| "trimLeftSpaceRev (x # xs) =
     (if asciiSpace (of_char x) then trimLeftSpaceRev xs
      else case xs of
        y # ys \<Rightarrow>
          if (of_char y :: nat) = 194 \<and> ((of_char x :: nat) = 133 \<or> (of_char x :: nat) = 160)
          then trimLeftSpaceRev ys
          else (case ys of
            z # zs \<Rightarrow> if wideSpace (of_char z) (of_char y) (of_char x) then trimLeftSpaceRev zs
                      else x # xs
          | [] \<Rightarrow> x # xs)
      | [] \<Rightarrow> x # xs)"

definition TrimSpace :: "string \<Rightarrow> string" where
  "TrimSpace s = rev (trimLeftSpaceRev (rev (trimLeftSpace s)))"

text \<open>\<open>strings.TrimLeft(s, cutset)\<close> with a one-character cut set.\<close>

definition TrimLeft :: "string \<Rightarrow> char \<Rightarrow> string" where
  "TrimLeft s c = dropWhile (\<lambda>x. x = c) s"

text \<open>\<open>strings.ToLower\<close>; only ASCII letters have a lower case here.\<close>

definition toLowerChar :: "char \<Rightarrow> char" where
  "toLowerChar c = (if 65 \<le> (of_char c :: nat) \<and> (of_char c :: nat) \<le> 90
     then char_of ((of_char c :: nat) + 32) else c)"

definition ToLower :: "string \<Rightarrow> string" where
  "ToLower s = map toLowerChar s"

definition HasSuffix :: "string \<Rightarrow> string \<Rightarrow> bool" where
  "HasSuffix s suf \<longleftrightarrow> length suf \<le> length s \<and> drop (length s - length suf) s = suf"

definition TrimSuffix :: "string \<Rightarrow> string \<Rightarrow> string" where
  "TrimSuffix s suf = (if HasSuffix s suf then take (length s - length suf) s else s)"

text \<open>\<open>strings.Split(s, sep)\<close> with a one-character separator.\<close>

fun splitOn :: "char \<Rightarrow> string \<Rightarrow> string list" where
  "splitOn sep [] = [[]]"
| "splitOn sep (c # cs) =
     (if c = sep then [] # splitOn sep cs
      else case splitOn sep cs of p # ps \<Rightarrow> (c # p) # ps | [] \<Rightarrow> [[c]])"

fun joinWith :: "string \<Rightarrow> string list \<Rightarrow> string" where
  "joinWith sep [] = []"
| "joinWith sep [x] = x"
| "joinWith sep (x # y # ys) = x @ sep @ joinWith sep (y # ys)"

section \<open>Lemmas: digits\<close>

lemma of_char_digitChar [simp]: "d < 10 \<Longrightarrow> of_char (digitChar d) = (48 + d :: nat)"
  by (simp add: digitChar_def)

lemma isDigitChar_digitChar [simp]: "d < 10 \<Longrightarrow> isDigitChar (digitChar d)"
  by (simp add: isDigitChar_def)

lemma digitVal_digitChar [simp]: "d < 10 \<Longrightarrow> digitVal (digitChar d) = d"
  by (simp add: digitVal_def)

lemma digitChar_zero: "digitChar 0 = CHR ''0''"
  by code_simp

lemma isDigitChar_not_sign [simp]: "\<not> isDigitChar CHR ''-''" "\<not> isDigitChar CHR ''+''" "\<not> isDigitChar CHR ''.''"
  by (simp_all add: isDigitChar_def)

lemma natStr_not_Nil [simp]: "natStr n \<noteq> []"
  by (subst natStr.simps) simp

lemma natStr_digits: "list_all isDigitChar (natStr n)"
proof (induction n rule: natStr.induct)
  case (1 n)
  then show ?case by (subst natStr.simps) simp
qed

lemma decVal_snoc: "decVal (s @ [c]) = 10 * decVal s + digitVal c"
  by (simp add: decVal_def)

lemma decVal_Nil [simp]: "decVal [] = 0"
  by (simp add: decVal_def)

lemma decVal_natStr [simp]: "decVal (natStr n) = n"
proof (induction n rule: natStr.induct)
  case (1 n)
  show ?case
  proof (cases "n < 10")
    case True
    then show ?thesis by (subst natStr.simps) (simp add: decVal_def)
  next
    case False
    with "1.IH" have "decVal (natStr (n div 10)) = n div 10" by simp
    with False show ?thesis by (subst natStr.simps) (simp add: decVal_snoc)
  qed
qed

lemma foldl_dec: "foldl (\<lambda>a c. 10 * a + digitVal c) v s = v * 10 ^ length s + decVal s"
proof (induction s rule: rev_induct)
  case (snoc c s)
  then show ?case by (simp add: decVal_snoc algebra_simps)
qed simp

lemma decVal_append: "decVal (s @ t) = decVal s * 10 ^ length t + decVal t"
proof -
  have "decVal (s @ t) = foldl (\<lambda>a c. 10 * a + digitVal c) (decVal s) t"
    by (simp add: decVal_def)
  then show ?thesis by (simp add: foldl_dec)
qed

lemma decVal_Cons0 [simp]: "decVal (CHR ''0'' # s) = decVal s"
  by (simp add: decVal_def digitVal_def)

lemma decVal_zeros [simp]: "decVal (replicate k (CHR ''0'') @ s) = decVal s"
  by (induction k) simp_all

lemma decVal_TrimLeft [simp]: "decVal (TrimLeft s (CHR ''0'')) = decVal s"
  unfolding TrimLeft_def by (induction s) simp_all

lemma digits_TrimLeft: "list_all isDigitChar s \<Longrightarrow> list_all isDigitChar (TrimLeft s c)"
  unfolding TrimLeft_def list_all_iff by (auto dest: set_dropWhileD)

lemma digit_hd: "list_all isDigitChar s \<Longrightarrow> s \<noteq> [] \<Longrightarrow> hd s \<noteq> CHR ''-'' \<and> hd s \<noteq> CHR ''+''"
  by (cases s) (auto simp: isDigitChar_def)

text \<open>\<open>ParseInt\<close> on unsigned digits, and after \<open>FormatInt\<close>.\<close>

lemma ParseInt_digits:
  assumes "list_all isDigitChar s" and "s \<noteq> []"
  shows "ParseInt s = (if in64 (int (decVal s)) then Some (int (decVal s)) else None)"
  using assms digit_hd [OF assms] by (simp add: ParseInt_def Let_def)

lemma ParseInt_FormatInt [simp]:
  assumes "in64 n"
  shows "ParseInt (FormatInt n) = Some n"
proof (cases "n < 0")
  case True
  with assms show ?thesis
    by (simp add: FormatInt_def ParseInt_def Let_def natStr_digits)
next
  case False
  with assms show ?thesis
    by (simp add: FormatInt_def ParseInt_digits natStr_digits)
qed

lemma ParseInt_in64: "ParseInt s = Some v \<Longrightarrow> in64 v"
  by (auto simp: ParseInt_def Let_def split: if_splits)

section \<open>Lemmas: trimming\<close>

definition plainChar :: "char \<Rightarrow> bool" where
  "plainChar c \<longleftrightarrow> 33 \<le> (of_char c :: nat) \<and> (of_char c :: nat) \<le> 126"

lemma trimLeftSpace_plain: "s = [] \<or> plainChar (hd s) \<Longrightarrow> trimLeftSpace s = s"
  by (cases s) (auto simp: plainChar_def asciiSpace_def wideSpace_def split: list.splits)

lemma trimLeftSpaceRev_plain: "list_all plainChar s \<Longrightarrow> trimLeftSpaceRev s = s"
  by (cases s) (auto simp: plainChar_def asciiSpace_def wideSpace_def split: list.splits)

lemma TrimSpace_plain [simp]:
  assumes "list_all plainChar s"
  shows "TrimSpace s = s"
proof -
  have "trimLeftSpace s = s"
    by (rule trimLeftSpace_plain) (use assms in \<open>cases s; simp\<close>)
  moreover have "trimLeftSpaceRev (rev s) = rev s"
    by (rule trimLeftSpaceRev_plain) (use assms in \<open>simp add: list_all_iff\<close>)
  ultimately show ?thesis by (simp add: TrimSpace_def)
qed

lemma plainChar_digit [simp]: "isDigitChar c \<Longrightarrow> plainChar c"
  by (simp add: plainChar_def isDigitChar_def)

lemma plainChar_signs [simp]: "plainChar CHR ''-''" "plainChar CHR ''.''" "plainChar CHR ''+''"
  by (simp_all add: plainChar_def)

lemma list_all_plain_digits: "list_all isDigitChar s \<Longrightarrow> list_all plainChar s"
  by (simp add: list_all_iff)

lemma splitOn_not_Nil [simp]: "splitOn c s \<noteq> []"
  by (induction s) (auto split: list.splits)

lemma joinWith_splitOn: "joinWith [c] (splitOn c s) = s"
proof (induction s)
  case (Cons x xs)
  then obtain p ps where ps: "splitOn c xs = p # ps" by (cases "splitOn c xs") auto
  with Cons.IH show ?case by (cases ps) auto
qed simp

lemma TrimSuffix_append [simp]: "TrimSuffix (s @ suf) suf = s"
  by (simp add: TrimSuffix_def HasSuffix_def)

lemma splitOn_none: "c \<notin> set s \<Longrightarrow> splitOn c s = [s]"
  by (induction s) auto

lemma FormatInt_no_newline [simp]: "CHR 0x0A \<notin> set (FormatInt n)"
proof -
  have "CHR 0x0A \<notin> set (natStr k)" for k
    using natStr_digits [of k] by (auto simp: list_all_iff isDigitChar_def)
  then show ?thesis by (simp add: FormatInt_def)
qed

end
