(* ===== verification/Go_Values.thy ===== *)
theory Go_Values
  imports Go_Strings
begin

text \<open>
  The dynamic values the rules engine and the event log pass around: Go's \<open>any\<close> as the rule
  evaluators see it, the JSON documents that \<open>encoding/json\<close> writes and reads, and finite
  binary floating-point numbers by the rational they denote. Objects are association lists;
  the order of the keys of a JSON object carries no meaning.
\<close>

section \<open>Floating-point values\<close>

datatype float64 = Fin rat | PInf | NInf | NaN

text \<open>
  \<open>int64(f)\<close> truncates towards zero. For a value out of range the language leaves the result to
  the implementation; the amd64 instruction gives the smallest integer.
\<close>

definition truncRat :: "rat \<Rightarrow> int" where
  "truncRat r = (if r < 0 then - \<lfloor>- r\<rfloor> else \<lfloor>r\<rfloor>)"

definition float_to_int64 :: "float64 \<Rightarrow> int64" where
  "float_to_int64 f =
     (case f of Fin r \<Rightarrow> (if in64 (truncRat r) then truncRat r else min64) | _ \<Rightarrow> min64)"

text \<open>
  \<open>fl64\<close> rounds a rational to the nearest 64-bit floating-point number, ties to even, with the
  53-bit significand and the exponent range of the format; every arithmetic operation on
  \<open>float64\<close> and every decimal read into one ends with it. The sign of zero is not kept.
\<close>

function bitLen :: "int \<Rightarrow> int" where
  "bitLen n = (if n \<le> 0 then 0 else 1 + bitLen (n div 2))"
  by pat_completeness auto
termination
  by (relation "measure nat") auto

declare bitLen.simps [simp del]

definition pow2 :: "int \<Rightarrow> rat" where
  "pow2 q = (if 0 \<le> q then 2 ^ nat q else 1 / 2 ^ nat (- q))"

definition roundHalfEven :: "rat \<Rightarrow> int" where
  "roundHalfEven r =
     (let f = \<lfloor>r\<rfloor>; d = r - of_int f
      in if d < 1 / 2 \<or> d = 1 / 2 \<and> even f then f else f + 1)"

definition exponentOf :: "rat \<Rightarrow> int" where
  "exponentOf a =
     (case quotient_of a of (n, d) \<Rightarrow>
        let e = bitLen n - bitLen d
        in if a < pow2 e then e - 1 else e)"

definition fl64 :: "rat \<Rightarrow> float64" where
  "fl64 r =
     (if r = 0 then Fin 0
      else let a = \<bar>r\<bar>;
               q = max (exponentOf a - 52) (- 1074);
               v = of_int (roundHalfEven (a / pow2 q)) * pow2 q
           in if pow2 1024 \<le> v then (if r < 0 then NInf else PInf)
              else Fin (if r < 0 then - v else v))"

section \<open>Values of type any\<close>

datatype gval =
    GNil
  | GBool bool
  | GInt int
  | GInt64 int64
  | GFloat float64
  | GStr string
  | GStrs "string list"
  | GList "gval list"
  | GMap "(string \<times> gval) list"

type_synonym gmap = "(string \<times> gval) list"

text \<open>
  Reading a key of a \<open>map[string]any\<close>: a missing key is the nil value, which fails every type
  assertion but one to \<open>nil\<close>.
\<close>

definition gget :: "gmap \<Rightarrow> string \<Rightarrow> gval" where
  "gget m k = getOr GNil m k"

fun asStr :: "gval \<Rightarrow> string option" where
  "asStr (GStr s) = Some s"
| "asStr _ = None"

fun asBool :: "gval \<Rightarrow> bool option" where
  "asBool (GBool b) = Some b"
| "asBool _ = None"

fun asMap :: "gval \<Rightarrow> gmap option" where
  "asMap (GMap m) = Some m"
| "asMap _ = None"

fun asList :: "gval \<Rightarrow> gval list option" where
  "asList (GList l) = Some l"
| "asList _ = None"

text \<open>The comma-ok assertion with the zero value on failure, \<open>s, _ := v.(string)\<close>.\<close>

definition strOr :: "gval \<Rightarrow> string" where
  "strOr v = (case asStr v of Some s \<Rightarrow> s | None \<Rightarrow> '''')"

definition boolOr :: "gval \<Rightarrow> bool" where
  "boolOr v = (case asBool v of Some b \<Rightarrow> b | None \<Rightarrow> False)"

definition int64Or :: "gval \<Rightarrow> int64" where
  "int64Or v = (case v of GInt64 n \<Rightarrow> n | _ \<Rightarrow> 0)"

section \<open>JSON\<close>

text \<open>
  A document of \<open>encoding/json\<close>. A \<open>time.Time\<close> is written in RFC 3339 with nanoseconds, which
  denotes the instant exactly: \<open>JTime\<close> stands for that text.
\<close>

datatype json =
    JNull
  | JBool bool
  | JNum rat
  | JStr string
  | JTime int
  | JArr "json list"
  | JObj "(string \<times> json) list"

text \<open>
  \<open>json.Unmarshal\<close> into a struct field: a missing key and \<open>null\<close> leave the zero value, a
  document of the wrong shape is an error, keys of the document the struct does not have are
  ignored.
\<close>

definition jfield :: "(string \<times> json) list \<Rightarrow> string \<Rightarrow> json" where
  "jfield ob k = getOr JNull ob k"

fun jStr :: "json \<Rightarrow> string option" where
  "jStr JNull = Some ''''"
| "jStr (JStr s) = Some s"
| "jStr _ = None"

fun jInt :: "json \<Rightarrow> int option" where
  "jInt JNull = Some 0"
| "jInt (JNum r) =
     (if snd (quotient_of r) = 1 \<and> in64 (fst (quotient_of r)) then Some (fst (quotient_of r)) else None)"
| "jInt _ = None"

fun jBool :: "json \<Rightarrow> bool option" where
  "jBool JNull = Some False"
| "jBool (JBool b) = Some b"
| "jBool _ = None"

fun jTime :: "int \<Rightarrow> json \<Rightarrow> int option" where
  "jTime z JNull = Some z"
| "jTime z (JTime t) = Some t"
| "jTime z _ = None"

fun jArr :: "json \<Rightarrow> json list option" where
  "jArr JNull = Some []"
| "jArr (JArr xs) = Some xs"
| "jArr _ = None"

fun jObj :: "json \<Rightarrow> (string \<times> json) list option" where
  "jObj JNull = Some []"
| "jObj (JObj ob) = Some ob"
| "jObj _ = None"

definition jInt_of :: "int \<Rightarrow> json" where
  "jInt_of n = JNum (of_int n)"

text \<open>
  \<open>json.Marshal\<close> of a dynamic value fails only on the floating-point values JSON has no text for.
\<close>

fun marshal :: "gval \<Rightarrow> json option" and
  marshalList :: "gval list \<Rightarrow> json list option" and
  marshalMap :: "gmap \<Rightarrow> (string \<times> json) list option" where
  "marshal GNil = Some JNull"
| "marshal (GBool b) = Some (JBool b)"
| "marshal (GInt n) = Some (jInt_of n)"
| "marshal (GInt64 n) = Some (jInt_of n)"
| "marshal (GFloat (Fin r)) = Some (JNum r)"
| "marshal (GFloat _) = None"
| "marshal (GStr s) = Some (JStr s)"
| "marshal (GStrs ss) = Some (JArr (map JStr ss))"
| "marshal (GList xs) = map_option JArr (marshalList xs)"
| "marshal (GMap m) = map_option JObj (marshalMap m)"
| "marshalList [] = Some []"
| "marshalList (x # xs) =
     (case (marshal x, marshalList xs) of (Some j, Some js) \<Rightarrow> Some (j # js) | _ \<Rightarrow> None)"
| "marshalMap [] = Some []"
| "marshalMap ((k, v) # m) =
     (case (marshal v, marshalMap m) of (Some j, Some js) \<Rightarrow> Some ((k, j) # js) | _ \<Rightarrow> None)"

section \<open>Lemmas\<close>

lemma jInt_jInt_of [simp]: "in64 n \<Longrightarrow> jInt (jInt_of n) = Some n"
  by (simp add: jInt_of_def)

lemma jInt_in64: "jInt j = Some n \<Longrightarrow> in64 n"
  by (cases j) (auto split: if_splits)

lemma jfield_Cons [simp]: "jfield ((k', v) # ob) k = (if k = k' then v else jfield ob k)"
  by (simp add: jfield_def getOr_def)

lemma jfield_Nil [simp]: "jfield [] k = JNull"
  by (simp add: jfield_def)

lemma gget_Cons [simp]: "gget ((k', v) # m) k = (if k = k' then v else gget m k)"
  by (simp add: gget_def getOr_def)

lemma gget_Nil [simp]: "gget [] k = GNil"
  by (simp add: gget_def)

lemma strOr_simps [simp]: "strOr (GStr s) = s"
  by (simp add: strOr_def)

lemma boolOr_simps [simp]: "boolOr (GBool b) = b"
  by (simp add: boolOr_def)

lemma truncRat_of_int [simp]: "truncRat (of_int n) = n"
  by (simp add: truncRat_def flip: of_int_minus)

lemma in64_float_to_int64: "in64 (float_to_int64 f)"
  by (cases f) (simp_all add: float_to_int64_def in64_def min64_def max64_def)

lemma in64_min64 [simp]: "in64 min64"
  by (simp add: in64_def min64_def max64_def)

section \<open>Decimal strings as rationals\<close>

text \<open>
  \<open>big.Rat.SetString\<close> on decimal text: an optional sign, digits with at most one point and an
  optional decimal exponent, or a quotient of two decimal integers. The other forms the method
  accepts (base prefixes, digit separators, binary exponents) are read as errors here; the schemas
  of the rules only let digits and a point through.
\<close>

definition digitsOnly :: "string \<Rightarrow> bool" where
  "digitsOnly s \<longleftrightarrow> s \<noteq> [] \<and> list_all isDigitChar s"

definition plainInt :: "string \<Rightarrow> bool" where
  "plainInt s \<longleftrightarrow> digitsOnly s \<and> (hd s \<noteq> CHR ''0'' \<or> length s = 1)"

definition unsignedMantissa :: "string \<Rightarrow> rat option" where
  "unsignedMantissa m =
     (let ip = takeWhile (\<lambda>c. c \<noteq> CHR ''.'') m;
          fp = (if CHR ''.'' \<in> set m then tl (dropWhile (\<lambda>c. c \<noteq> CHR ''.'') m) else [])
      in if list_all isDigitChar (ip @ fp) \<and> ip @ fp \<noteq> []
         then Some (of_nat (decVal (ip @ fp)) / 10 ^ length fp) else None)"

definition isExpChar :: "char \<Rightarrow> bool" where
  "isExpChar c \<longleftrightarrow> c = CHR ''e'' \<or> c = CHR ''E''"

definition scaleExp :: "rat \<Rightarrow> string \<Rightarrow> rat option" where
  "scaleExp r ex =
     (let neg = (ex \<noteq> [] \<and> hd ex = CHR ''-'');
          ds = (if ex \<noteq> [] \<and> (hd ex = CHR ''-'' \<or> hd ex = CHR ''+'') then tl ex else ex)
      in if digitsOnly ds
         then Some (if neg then r / 10 ^ decVal ds else r * 10 ^ decVal ds) else None)"

definition unsignedRat :: "string \<Rightarrow> rat option" where
  "unsignedRat s =
     (if CHR ''/'' \<in> set s then
        (let a = takeWhile (\<lambda>c. c \<noteq> CHR ''/'') s; b = tl (dropWhile (\<lambda>c. c \<noteq> CHR ''/'') s)
         in if plainInt a \<and> plainInt b \<and> decVal b \<noteq> 0
            then Some (of_nat (decVal a) / of_nat (decVal b)) else None)
      else if list_ex isExpChar s then
        Option.bind (unsignedMantissa (takeWhile (\<lambda>c. \<not> isExpChar c) s))
          (\<lambda>r. scaleExp r (tl (dropWhile (\<lambda>c. \<not> isExpChar c) s)))
      else unsignedMantissa s)"

definition SetString :: "string \<Rightarrow> rat option" where
  "SetString s =
     (case s of
        [] \<Rightarrow> None
      | c # cs \<Rightarrow>
          if c = CHR ''-'' then map_option uminus (unsignedRat cs)
          else if c = CHR ''+'' then unsignedRat cs
          else unsignedRat s)"

end
