(* ===== verification/Go_Float.thy ===== *)
theory Go_Float
  imports Go_Values
begin

text \<open>
  Arithmetic and comparison of \<open>float64\<close> values, conversion from integers and
  \<open>strconv.ParseFloat\<close>. Every operation rounds its exact result once. The sign of a zero is not
  kept; a quotient by zero is the one by the positive zero.
\<close>

section \<open>Comparison\<close>

fun flLess :: "float64 \<Rightarrow> float64 \<Rightarrow> bool" where
  "flLess (Fin a) (Fin b) = (a < b)"
| "flLess (Fin a) PInf = True"
| "flLess NInf (Fin b) = True"
| "flLess NInf PInf = True"
| "flLess _ _ = False"

definition flEq :: "float64 \<Rightarrow> float64 \<Rightarrow> bool" where
  "flEq a b \<longleftrightarrow> a \<noteq> NaN \<and> a = b"

definition flLeq :: "float64 \<Rightarrow> float64 \<Rightarrow> bool" where
  "flLeq a b \<longleftrightarrow> flLess a b \<or> flEq a b"

section \<open>Arithmetic\<close>

fun flAdd :: "float64 \<Rightarrow> float64 \<Rightarrow> float64" where
  "flAdd (Fin a) (Fin b) = fl64 (a + b)"
| "flAdd NaN _ = NaN"
| "flAdd _ NaN = NaN"
| "flAdd PInf NInf = NaN"
| "flAdd NInf PInf = NaN"
| "flAdd PInf _ = PInf"
| "flAdd _ PInf = PInf"
| "flAdd NInf _ = NInf"
| "flAdd _ NInf = NInf"

definition signed :: "bool \<Rightarrow> float64" where
  "signed neg = (if neg then NInf else PInf)"

fun flMul :: "float64 \<Rightarrow> float64 \<Rightarrow> float64" where
  "flMul (Fin a) (Fin b) = fl64 (a * b)"
| "flMul NaN _ = NaN"
| "flMul _ NaN = NaN"
| "flMul PInf (Fin b) = (if b = 0 then NaN else signed (b < 0))"
| "flMul NInf (Fin b) = (if b = 0 then NaN else signed (0 < b))"
| "flMul (Fin a) PInf = (if a = 0 then NaN else signed (a < 0))"
| "flMul (Fin a) NInf = (if a = 0 then NaN else signed (0 < a))"
| "flMul PInf PInf = PInf"
| "flMul NInf NInf = PInf"
| "flMul _ _ = NInf"

fun flDiv :: "float64 \<Rightarrow> float64 \<Rightarrow> float64" where
  "flDiv (Fin a) (Fin b) =
     (if b = 0 then (if a = 0 then NaN else signed (a < 0)) else fl64 (a / b))"
| "flDiv NaN _ = NaN"
| "flDiv _ NaN = NaN"
| "flDiv (Fin a) _ = Fin 0"
| "flDiv PInf (Fin b) = signed (b < 0)"
| "flDiv NInf (Fin b) = signed (\<not> b < 0)"
| "flDiv _ _ = NaN"

definition floatOfInt :: "int \<Rightarrow> float64" where
  "floatOfInt n = fl64 (of_int n)"

section \<open>Parsing\<close>

text \<open>
  \<open>strconv.ParseFloat(s, 64)\<close>: a decimal with an optional exponent, or the name of an infinity or
  of not-a-number in any case; \<open>None\<close> is a syntax error or a value out of range. Hexadecimal
  literals are not read.
\<close>

definition unsignedFloat :: "string \<Rightarrow> float64 option" where
  "unsignedFloat s =
     (let w = ToLower s
      in if w = ''inf'' \<or> w = ''infinity'' then Some PInf
         else
           (let r = (if list_ex isExpChar s
                     then Option.bind (unsignedMantissa (takeWhile (\<lambda>c. \<not> isExpChar c) s))
                            (\<lambda>m. scaleExp m (tl (dropWhile (\<lambda>c. \<not> isExpChar c) s)))
                     else unsignedMantissa s)
            in case r of
                 None \<Rightarrow> None
               | Some x \<Rightarrow> (case fl64 x of Fin y \<Rightarrow> Some (Fin y) | _ \<Rightarrow> None)))"

fun flNeg :: "float64 \<Rightarrow> float64" where
  "flNeg (Fin a) = Fin (- a)"
| "flNeg PInf = NInf"
| "flNeg NInf = PInf"
| "flNeg NaN = NaN"

definition ParseFloat :: "string \<Rightarrow> float64 option" where
  "ParseFloat s =
     (if ToLower s = ''nan'' then Some NaN
      else case s of
        [] \<Rightarrow> None
      | c # cs \<Rightarrow>
          if c = CHR ''-'' then map_option flNeg (unsignedFloat cs)
          else if c = CHR ''+'' then unsignedFloat cs
          else unsignedFloat s)"

section \<open>Lemmas\<close>

text \<open>Integers of up to 53 bits are floating-point numbers: nothing is rounded.\<close>

lemma bitLen_bound:
  fixes n :: int
  shows "0 < n \<Longrightarrow> n < 2 ^ nat (bitLen n) \<and> 2 ^ nat (bitLen n - 1) \<le> n \<and> 1 \<le> bitLen n"
proof (induction n rule: bitLen.induct)
  case (1 n)
  show ?case
  proof (cases "n = 1")
    case True
    have "bitLen 0 = 0" by (subst bitLen.simps) simp
    then have "bitLen 1 = 1" by (subst bitLen.simps) simp
    then show ?thesis using True by simp
  next
    case False
    with 1 have IH: "n div 2 < 2 ^ nat (bitLen (n div 2))" "2 ^ nat (bitLen (n div 2) - 1) \<le> n div 2"
      "1 \<le> bitLen (n div 2)" by auto
    define k where "k = nat (bitLen (n div 2) - 1)"
    have k: "bitLen (n div 2) = int k + 1" using IH(3) by (simp add: k_def)
    have "bitLen n = 1 + bitLen (n div 2)" using 1(2) by (subst bitLen.simps) simp
    then have b: "bitLen n = int k + 2" using k by simp
    have "n div 2 < 2 ^ Suc k" "2 ^ k \<le> n div 2" using IH(1,2) by (simp_all add: k nat_add_distrib)
    then show ?thesis by (auto simp: b nat_add_distrib)
  qed
qed

lemma roundHalfEven_of_int [simp]: "roundHalfEven (of_int n) = n"
  by (simp add: roundHalfEven_def)

lemma fl64_small:
  assumes "0 < n" "n < 2 ^ 53"
  shows "fl64 (of_int n) = Fin (of_int n)"
proof -
  note b = bitLen_bound [OF assms(1)]
  have one: "bitLen 1 = 1"
  proof -
    have "bitLen 0 = 0" by (subst bitLen.simps) simp
    then show ?thesis by (subst bitLen.simps) simp
  qed
  have "nat (bitLen n - 1) < 53"
  proof (rule ccontr)
    assume "\<not> nat (bitLen n - 1) < 53"
    then have "(2::int) ^ 53 \<le> 2 ^ nat (bitLen n - 1)" by (intro power_increasing) auto
    then show False using b assms(2) by linarith
  qed
  then obtain k where k: "bitLen n = int k + 1" "k < 53" using b by (intro that [of "nat (bitLen n - 1)"]) auto
  have "\<not> (of_int n :: rat) < pow2 (int k)"
  proof -
    have "(2 :: int) ^ k \<le> n" using b k by simp
    then have "(of_int (2 ^ k) :: rat) \<le> of_int n" by (simp only: of_int_le_iff)
    then show ?thesis by (simp add: pow2_def)
  qed
  then have e: "exponentOf (of_int n) = int k"
    using k by (simp add: exponentOf_def one Let_def)
  define j where "j = 52 - k"
  have q: "max (int k - 52) (- 1074) = - int j" using k(2) by (auto simp: j_def)
  have p: "pow2 (- int j) = 1 / 2 ^ j" by (cases "j = 0") (simp_all add: pow2_def)
  have "of_int n / pow2 (- int j) = of_int (n * 2 ^ j)" by (simp add: p)
  then have "of_int (roundHalfEven (of_int n / pow2 (- int j))) * pow2 (- int j) = of_int n"
    by (simp only: roundHalfEven_of_int p) simp
  moreover have "\<not> pow2 1024 \<le> (of_int n :: rat)"
  proof -
    have "(of_int n :: rat) < of_int (2 ^ 53)" using assms(2) by (simp only: of_int_less_iff)
    also have "\<dots> \<le> 2 ^ 1024" by (simp only: of_int_power of_int_numeral) (intro power_increasing, auto)
    finally show ?thesis by (simp add: pow2_def del: power_numeral)
  qed
  ultimately show ?thesis using assms(1) by (simp add: fl64_def Let_def e q)
qed

lemma fl64_uminus: "0 < r \<Longrightarrow> fl64 r = Fin v \<Longrightarrow> fl64 (- r) = Fin (- v)"
  by (auto simp: fl64_def Let_def split: if_splits)

lemma floatOfInt_exact: "\<bar>n\<bar> < 2 ^ 53 \<Longrightarrow> floatOfInt n = Fin (of_int n)"
proof -
  assume n: "\<bar>n\<bar> < 2 ^ 53"
  consider "n = 0" | "0 < n" | "n < 0" by linarith
  then show ?thesis
  proof cases
    case 3
    then show ?thesis using fl64_uminus [OF _ fl64_small [of "- n"]] n by (simp add: floatOfInt_def)
  qed (use n fl64_small [of n] in \<open>simp_all add: floatOfInt_def fl64_def\<close>)
qed

lemma flLess_ints: "\<bar>a\<bar> < 2 ^ 53 \<Longrightarrow> \<bar>b\<bar> < 2 ^ 53 \<Longrightarrow> flLess (floatOfInt a) (floatOfInt b) \<longleftrightarrow> a < b"
  by (simp add: floatOfInt_exact)

end
