(* ===== verification/Go_Decimal.thy ===== *)
theory Go_Decimal
  imports Go_Float
begin

text \<open>
  Decimal text of numbers: \<open>strconv.FormatFloat(f, 'f', -1, 64)\<close>, the shortest decimal that reads
  back as the same \<open>float64\<close>, and \<open>big.Rat.FloatString\<close>, a rational rounded to a number of decimal
  places.
\<close>

section \<open>The shortest decimal\<close>

definition pow10 :: "int \<Rightarrow> rat" where
  "pow10 e = (if 0 \<le> e then 10 ^ nat e else 1 / 10 ^ nat (- e))"

function decLen :: "int \<Rightarrow> int" where
  "decLen n = (if n \<le> 0 then 0 else 1 + decLen (n div 10))"
  by pat_completeness auto
termination
  by (relation "measure nat") auto

declare decLen.simps [simp del]

text \<open>The exponent of the leading digit of a positive rational.\<close>

definition decExponent :: "rat \<Rightarrow> int" where
  "decExponent a =
     (case quotient_of a of (n, d) \<Rightarrow>
        let e = decLen n - decLen d
        in if a < pow10 e then e - 1 else e)"

text \<open>
  \<open>shortestDigits ks a\<close> tries the numbers of digits \<open>ks\<close> in turn: with \<open>k\<close> digits, the decimals
  next below and next above \<open>a\<close>; the first that reads back as \<open>a\<close> wins, the nearer one when both
  do. The result \<open>(m, u)\<close> stands for \<open>m\<close> units of \<open>pow10 u\<close>.
\<close>

fun shortestDigits :: "int list \<Rightarrow> rat \<Rightarrow> int \<times> int" where
  "shortestDigits [] a = (0, 0)"
| "shortestDigits (k # ks) a =
     (let u = decExponent a - (k - 1);
          lo = \<lfloor>a / pow10 u\<rfloor>;
          down = (fl64 (of_int lo * pow10 u) = Fin a);
          up = (fl64 (of_int (lo + 1) * pow10 u) = Fin a)
      in if down \<and> up then (roundHalfEven (a / pow10 u), u)
         else if down then (lo, u)
         else if up then (lo + 1, u)
         else shortestDigits ks a)"

definition shortestDec :: "rat \<Rightarrow> rat" where
  "shortestDec r =
     (if r = 0 then 0
      else case shortestDigits [1..17] \<bar>r\<bar> of (m, u) \<Rightarrow> (if r < 0 then - (of_int m * pow10 u) else of_int m * pow10 u))"

text \<open>A decimal in positional notation.\<close>

definition positional :: "int \<Rightarrow> int \<Rightarrow> string" where
  "positional m u =
     (if 0 \<le> u then FormatInt (m * 10 ^ nat u)
      else let ds = FormatInt m;
               w = nat (- u);
               padded = replicate (w + 1 - length ds) CHR ''0'' @ ds
           in take (length padded - w) padded @ ''.'' @ drop (length padded - w) padded)"

text \<open>Trailing zeros of the digits are dropped, as the shortest digits have none.\<close>

fun stripZeros :: "nat \<Rightarrow> int \<times> int \<Rightarrow> int \<times> int" where
  "stripZeros 0 d = d"
| "stripZeros (Suc n) (m, u) = (if m \<noteq> 0 \<and> m mod 10 = 0 then stripZeros n (m div 10, u + 1) else (m, u))"

definition FormatFloat :: "float64 \<Rightarrow> string" where
  "FormatFloat f =
     (case f of
        NaN \<Rightarrow> ''NaN'' | PInf \<Rightarrow> ''+Inf'' | NInf \<Rightarrow> ''-Inf''
      | Fin r \<Rightarrow>
          if r = 0 then ''0''
          else (case stripZeros 17 (shortestDigits [1..17] \<bar>r\<bar>) of (m, u) \<Rightarrow>
                  (if r < 0 then ''-'' else []) @ positional m u))"

section \<open>Decimal places\<close>

text \<open>The value of \<open>r.FloatString(dp)\<close>: halves are rounded away from zero.\<close>

definition roundAway :: "rat \<Rightarrow> int" where
  "roundAway r = (if r < 0 then - \<lfloor>- r + 1 / 2\<rfloor> else \<lfloor>r + 1 / 2\<rfloor>)"

definition decimalPlaces :: "nat \<Rightarrow> rat \<Rightarrow> rat" where
  "decimalPlaces dp r = of_int (roundAway (r * 10 ^ dp)) / 10 ^ dp"

lemma roundAway_bounds: "of_int (roundAway r) - 1 / 2 \<le> r" "r \<le> of_int (roundAway r) + 1 / 2"
  unfolding roundAway_def by (simp_all split: if_splits) linarith+

lemma decimalPlaces_bounds: "\<bar>decimalPlaces dp r - r\<bar> \<le> 1 / (2 * 10 ^ dp)"
proof -
  let ?x = "rat_of_int (roundAway (r * 10 ^ dp))"
  have "\<bar>?x - r * 10 ^ dp\<bar> \<le> 1 / 2" using roundAway_bounds [of "r * 10 ^ dp"] by linarith
  moreover have "?x - r * 10 ^ dp = (?x / 10 ^ dp - r) * 10 ^ dp" by (simp add: left_diff_distrib)
  ultimately have "\<bar>?x / 10 ^ dp - r\<bar> * 10 ^ dp \<le> 1 / 2" by (simp add: abs_mult)
  then have "\<bar>?x / 10 ^ dp - r\<bar> \<le> 1 / 2 / 10 ^ dp" by (simp add: pos_le_divide_eq del: divide_divide_eq_left)
  then show ?thesis by (simp add: decimalPlaces_def)
qed

end
