(* ===== verification/Rules_Diff.thy ===== *)
theory Rules_Diff
  imports Go_Strings "HOL-Library.Sublist"
begin

text \<open>
  \<open>internal/rules/diff.go\<close>: the line diff shown when a rule is saved, a dynamic-programming table
  of longest common subsequences of the suffixes and a walk over it. The lemmas show that both
  texts can be read back from the diff and that it keeps as many lines as any common subsequence
  has, which is what the table is for.
\<close>

section \<open>The table\<close>

text \<open>
  The inner loop, from the last column to the first: \<open>dpRow a bs below\<close> is row \<open>i\<close> of the table
  for \<open>aLines[i] = a\<close>, given row \<open>i + 1\<close>; a row has one more column than there are lines.
\<close>

fun dpRow :: "'a \<Rightarrow> 'a list \<Rightarrow> nat list \<Rightarrow> nat list" where
  "dpRow a (b # bs) (d # below) =
     (let rest = dpRow a bs below
      in (if a = b then hd below + 1 else if d \<ge> hd rest then d else hd rest) # rest)"
| "dpRow a _ _ = [0]"

fun dpTable :: "'a list \<Rightarrow> 'a list \<Rightarrow> nat list list" where
  "dpTable [] bs = [replicate (length bs + 1) 0]"
| "dpTable (a # as) bs = (let t = dpTable as bs in dpRow a bs (hd t) # t)"

section \<open>The walk\<close>

datatype 'a diffLine = Keep 'a | Del 'a | Add 'a

text \<open>
  The three loops of \<open>lineDiff\<close> after the table: while both texts have lines left, compare; then
  the rest of the one, then the rest of the other.
\<close>

function diffWalk :: "nat list list \<Rightarrow> 'a list \<Rightarrow> 'a list \<Rightarrow> nat \<Rightarrow> nat \<Rightarrow> 'a diffLine list" where
  "diffWalk dp aLines bLines i j =
     (if i < length aLines \<and> j < length bLines then
        (if aLines ! i = bLines ! j then
           Keep (aLines ! i) # diffWalk dp aLines bLines (i + 1) (j + 1)
         else if dp ! (i + 1) ! j \<ge> dp ! i ! (j + 1) then
           Del (aLines ! i) # diffWalk dp aLines bLines (i + 1) j
         else
           Add (bLines ! j) # diffWalk dp aLines bLines i (j + 1))
      else map Del (drop i aLines) @ map Add (drop j bLines))"
  by pat_completeness auto
termination
  by (relation "measure (\<lambda>(dp, as, bs, i, j). (length as - i) + (length bs - j))") auto

declare diffWalk.simps [simp del]

definition diffLines :: "'a list \<Rightarrow> 'a list \<Rightarrow> 'a diffLine list" where
  "diffLines aLines bLines = diffWalk (dpTable aLines bLines) aLines bLines 0 0"

section \<open>The text\<close>

definition splitLines :: "string \<Rightarrow> string list" where
  "splitLines s = (if s = [] then [] else splitOn (CHR 0x0A) s)"

fun renderLine :: "string diffLine \<Rightarrow> string" where
  "renderLine (Keep l) = ''  '' @ l @ [CHR 0x0A]"
| "renderLine (Del l) = ''- '' @ l @ [CHR 0x0A]"
| "renderLine (Add l) = ''+ '' @ l @ [CHR 0x0A]"

definition lineDiff :: "string \<Rightarrow> string \<Rightarrow> string" where
  "lineDiff a b =
     rev (dropWhile (\<lambda>c. c = CHR 0x0A)
       (rev (concat (map renderLine (diffLines (splitLines a) (splitLines b))))))"

section \<open>What a diff says\<close>

fun oldLine :: "'a diffLine \<Rightarrow> 'a list" where
  "oldLine (Keep l) = [l]"
| "oldLine (Del l) = [l]"
| "oldLine (Add l) = []"

fun newLine :: "'a diffLine \<Rightarrow> 'a list" where
  "newLine (Keep l) = [l]"
| "newLine (Del l) = []"
| "newLine (Add l) = [l]"

fun keptLine :: "'a diffLine \<Rightarrow> 'a list" where
  "keptLine (Keep l) = [l]"
| "keptLine _ = []"

definition oldText :: "'a diffLine list \<Rightarrow> 'a list" where
  "oldText d = concat (map oldLine d)"

definition newText :: "'a diffLine list \<Rightarrow> 'a list" where
  "newText d = concat (map newLine d)"

definition keptText :: "'a diffLine list \<Rightarrow> 'a list" where
  "keptText d = concat (map keptLine d)"

text \<open>The recurrence the table solves.\<close>

fun lcsLen :: "'a list \<Rightarrow> 'a list \<Rightarrow> nat" where
  "lcsLen (a # as) (b # bs) =
     (if a = b then lcsLen as bs + 1 else max (lcsLen as (b # bs)) (lcsLen (a # as) bs))"
| "lcsLen _ _ = 0"

section \<open>Lemmas: the table holds the recurrence\<close>

lemma lcsLen_Nil [simp]: "lcsLen [] bs = 0" "lcsLen as [] = 0"
  by (cases as; simp)+

lemma length_dpRow: "length below = length bs + 1 \<Longrightarrow> length (dpRow a bs below) = length bs + 1"
  by (induction a bs below rule: dpRow.induct) (auto simp: Let_def)

lemma nth_dpRow:
  assumes "length below = length bs + 1" and "\<And>j. j \<le> length bs \<Longrightarrow> below ! j = lcsLen as (drop j bs)"
    and "j \<le> length bs"
  shows "dpRow a bs below ! j = lcsLen (a # as) (drop j bs)"
  using assms
proof (induction bs arbitrary: below j)
  case Nil
  then show ?case by simp
next
  case (Cons b bs)
  obtain d below' where below: "below = d # below'"
    using Cons.prems(1) by (cases below) auto
  have len: "length below' = length bs + 1"
    using Cons.prems(1) by (simp add: below)
  have tail: "below' ! k = lcsLen as (drop k bs)" if "k \<le> length bs" for k
    using Cons.prems(2) [of "Suc k"] that by (simp add: below)
  have rest: "dpRow a bs below' ! k = lcsLen (a # as) (drop k bs)" if "k \<le> length bs" for k
    using Cons.IH [OF len tail] that by blast
  have "hd below' = lcsLen as bs"
    using tail [of 0] len by (cases below') auto
  moreover have "hd (dpRow a bs below') = lcsLen (a # as) bs"
    using rest [of 0] length_dpRow [OF len, of a] by (cases "dpRow a bs below'") auto
  moreover have "d = lcsLen as (b # bs)"
    using Cons.prems(2) [of 0] by (simp add: below)
  ultimately have head: "dpRow a (b # bs) below ! 0 = lcsLen (a # as) (b # bs)"
    by (simp add: below Let_def)
  show ?case
  proof (cases j)
    case 0
    with head show ?thesis by simp
  next
    case (Suc k)
    with rest [of k] Cons.prems(3) show ?thesis by (simp add: below Let_def)
  qed
qed

lemma dpTable_shape: "length (dpTable as bs) = length as + 1"
  by (induction as) (auto simp: Let_def)

lemma dpTable_row: "i \<le> length as \<Longrightarrow> length (dpTable as bs ! i) = length bs + 1"
proof (induction as arbitrary: i)
  case (Cons a as)
  have "length (hd (dpTable as bs)) = length bs + 1"
    using Cons.IH [of 0] dpTable_shape [of as bs] by (cases "dpTable as bs") auto
  then show ?case
    using Cons by (cases i) (auto simp: Let_def length_dpRow)
qed simp

lemma dpTable_nth:
  "i \<le> length as \<Longrightarrow> j \<le> length bs \<Longrightarrow> dpTable as bs ! i ! j = lcsLen (drop i as) (drop j bs)"
proof (induction as arbitrary: i j)
  case Nil
  then show ?case by (simp add: nth_replicate del: replicate_Suc)
next
  case (Cons a as)
  have hd0: "hd (dpTable as bs) = dpTable as bs ! 0"
    using dpTable_shape [of as bs] by (cases "dpTable as bs") auto
  have row: "hd (dpTable as bs) ! k = lcsLen as (drop k bs)" if "k \<le> length bs" for k
    using Cons.IH [of 0 k] that by (simp add: hd0)
  show ?case
  proof (cases i)
    case 0
    then show ?thesis
      using nth_dpRow [of "hd (dpTable as bs)" bs as j a] row Cons.prems dpTable_row [of 0 as bs]
      by (simp add: Let_def hd0)
  next
    case (Suc k)
    then show ?thesis using Cons by (simp add: Let_def)
  qed
qed

section \<open>Lemmas: the walk\<close>

lemma oldText_simps [simp]:
  "oldText [] = []" "oldText (x # d) = oldLine x @ oldText d" "oldText (d @ d') = oldText d @ oldText d'"
  "oldText (map Del xs) = xs" "oldText (map Add xs) = []"
  by (induction xs) (simp_all add: oldText_def)

lemma newText_simps [simp]:
  "newText [] = []" "newText (x # d) = newLine x @ newText d" "newText (d @ d') = newText d @ newText d'"
  "newText (map Del xs) = []" "newText (map Add xs) = xs"
  by (induction xs) (simp_all add: newText_def)

lemma keptText_simps [simp]:
  "keptText [] = []" "keptText (x # d) = keptLine x @ keptText d" "keptText (d @ d') = keptText d @ keptText d'"
  "keptText (map Del xs) = []" "keptText (map Add xs) = []"
  by (induction xs) (simp_all add: keptText_def)

lemma diffWalk_texts:
  "oldText (diffWalk dp as bs i j) = drop i as \<and> newText (diffWalk dp as bs i j) = drop j bs"
proof (induction dp as bs i j rule: diffWalk.induct)
  case (1 dp as bs i j)
  show ?case
  proof (cases "i < length as \<and> j < length bs")
    case True
    then have "drop i as = as ! i # drop (i + 1) as" and "drop j bs = bs ! j # drop (j + 1) bs"
      by (simp_all add: Cons_nth_drop_Suc)
    with True "1.IH" show ?thesis
      by (subst (1 2) diffWalk.simps) auto
  next
    case False
    then show ?thesis by (subst (1 2) diffWalk.simps) auto
  qed
qed

lemma diffWalk_kept:
  assumes "\<And>i j. i \<le> length as \<Longrightarrow> j \<le> length bs \<Longrightarrow> dp ! i ! j = lcsLen (drop i as) (drop j bs)"
  shows "length (keptText (diffWalk dp as bs i j)) = lcsLen (drop i as) (drop j bs)"
  using assms
proof (induction dp as bs i j rule: diffWalk.induct)
  case (1 dp as bs i j)
  show ?case
  proof (cases "i < length as \<and> j < length bs")
    case True
    then have di: "drop i as = as ! i # drop (i + 1) as" and dj: "drop j bs = bs ! j # drop (j + 1) bs"
      by (simp_all add: Cons_nth_drop_Suc)
    have up: "dp ! (i + 1) ! j = lcsLen (drop (i + 1) as) (drop j bs)"
      and left: "dp ! i ! (j + 1) = lcsLen (drop i as) (drop (j + 1) bs)"
      using True by (simp_all add: "1.prems")
    show ?thesis
      using True "1.IH" "1.prems" up left
      by (subst diffWalk.simps) (auto simp: di dj max_def)
  next
    case False
    then show ?thesis by (subst diffWalk.simps) auto
  qed
qed

lemma kept_subseq_old: "subseq (keptText d) (oldText d)"
proof (induction d)
  case (Cons x d)
  then show ?case by (cases x) auto
qed simp

lemma kept_subseq_new: "subseq (keptText d) (newText d)"
proof (induction d)
  case (Cons x d)
  then show ?case by (cases x) auto
qed simp

lemma lcsLen_max: "subseq xs as \<Longrightarrow> subseq xs bs \<Longrightarrow> length xs \<le> lcsLen as bs"
proof (induction as bs arbitrary: xs rule: lcsLen.induct)
  case (1 a as b bs)
  show ?case
  proof (cases xs)
    case Nil
    then show ?thesis by simp
  next
    case (Cons x ys)
    show ?thesis
    proof (cases "a = b")
      case True
      then have "subseq ys as" "subseq ys bs"
        using "1.prems" Cons by (auto simp: subseq_Cons2_iff dest: subseq_Cons' split: if_splits)
      with "1.IH"(1) True Cons show ?thesis by simp
    next
      case False
      then consider "subseq xs as" | "subseq xs bs"
        using "1.prems" Cons by (auto simp: subseq_Cons2_iff split: if_splits)
      then show ?thesis
      proof cases
        case 1
        with "1.IH"(2) [OF False 1 "1.prems"(2)] show ?thesis using False by simp
      next
        case 2
        with "1.IH"(3) [OF False "1.prems"(1) 2] show ?thesis using False by simp
      qed
    qed
  qed
qed auto

lemma diffLines_texts: "oldText (diffLines a b) = a" "newText (diffLines a b) = b"
  using diffWalk_texts [of "dpTable a b" a b 0 0] by (simp_all add: diffLines_def)

lemma diffLines_kept: "length (keptText (diffLines a b)) = lcsLen a b"
  using diffWalk_kept [of a b "dpTable a b" 0 0] by (simp add: diffLines_def dpTable_nth)

section \<open>Properties\<close>

text \<open>C13: The diff is faithful and minimal: the lines it keeps or deletes are the old text, the lines it
  keeps or adds are the new text, and no common subsequence of the two texts is longer than what
  it keeps.\<close>

theorem diff_faithful_and_minimal:
  "oldText (diffLines a b) = a \<and> newText (diffLines a b) = b \<and>
   (subseq xs a \<and> subseq xs b \<longrightarrow> length xs \<le> length (keptText (diffLines a b)))"
  by (simp add: diffLines_texts diffLines_kept lcsLen_max)

theorem diff_faithful_and_minimal_witness:
  "diffLines [1::nat, 2, 3] [1, 3, 4] = [Keep 1, Del 2, Keep 3, Add 4] \<and>
   oldText (diffLines [1::nat, 2, 3] [1, 3, 4]) = [1, 2, 3] \<and> length [1::nat, 3] \<le> length (keptText (diffLines [1::nat, 2, 3] [1, 3, 4]))"
proof -
  have "diffLines [1::nat, 2, 3] [1, 3, 4] = [Keep 1, Del 2, Keep 3, Add 4]" by code_simp
  moreover have "subseq [1::nat, 3] [1, 2, 3]" "subseq [1::nat, 3] [1, 3, 4]" by simp_all
  ultimately show ?thesis using diff_faithful_and_minimal [of "[1::nat, 2, 3]" "[1, 3, 4]" "[1, 3]"] by blast
qed

end
