(* ===== verification/Rules_Match.thy ===== *)
theory Rules_Match
  imports Go_Values
begin

text \<open>
  \<open>internal/rules/match.go\<close>: the comparison of a worked example's expected output with what an
  evaluator returned. The specification is the relation \<open>subsumes\<close>; the lemmas show that the
  code decides it, that it is reflexive and transitive, and that the first difference reported is
  a real one.
\<close>

section \<open>Normalisation\<close>

text \<open>
  \<open>normalizeJSON\<close> writes a value as JSON and reads it back: every number becomes the nearest
  floating-point number. Reading a number too large for the format is an error.
\<close>

fun normNumbers :: "json \<Rightarrow> json option" and
  normList :: "json list \<Rightarrow> json list option" and
  normMap :: "(string \<times> json) list \<Rightarrow> (string \<times> json) list option" where
  "normNumbers (JNum r) = (case fl64 r of Fin q \<Rightarrow> Some (JNum q) | _ \<Rightarrow> None)"
| "normNumbers (JArr xs) = map_option JArr (normList xs)"
| "normNumbers (JObj m) = map_option JObj (normMap m)"
| "normNumbers j = Some j"
| "normList [] = Some []"
| "normList (x # xs) =
     (case (normNumbers x, normList xs) of (Some j, Some js) \<Rightarrow> Some (j # js) | _ \<Rightarrow> None)"
| "normMap [] = Some []"
| "normMap ((k, v) # m) =
     (case (normNumbers v, normMap m) of (Some j, Some js) \<Rightarrow> Some ((k, j) # js) | _ \<Rightarrow> None)"

definition normalizeJSON :: "gmap \<Rightarrow> json option" where
  "normalizeJSON m = Option.bind (marshal (GMap m)) normNumbers"

section \<open>Comparison\<close>

text \<open>The description of the first difference, by its path and the two sides.\<close>

datatype mismatch =
    NormalizingExpected | NormalizingActual
  | ExpectedObject string json | MissingKey string string
  | ExpectedArray string json | ArrayLength string nat nat | Differs string json json

lemma size_list_sort [simp]: "size_list f (sort_key g xs) = size_list f xs"
proof -
  have eq: "size_list f ys = sum_mset (image_mset f (mset ys)) + length ys" for ys
    by (induction ys) simp_all
  show ?thesis by (simp add: eq)
qed

function (sequential) matchSubset :: "json \<Rightarrow> json \<Rightarrow> string \<Rightarrow> mismatch option" and
  matchKeys :: "(string \<times> json) list \<Rightarrow> (string \<times> json) list \<Rightarrow> string \<Rightarrow> mismatch option" and
  matchElems :: "json list \<Rightarrow> json list \<Rightarrow> nat \<Rightarrow> string \<Rightarrow> mismatch option" where
  "matchSubset (JObj ev) actual path =
     (case actual of
        JObj av \<Rightarrow> matchKeys (sort_key fst ev) av path
      | _ \<Rightarrow> Some (ExpectedObject path actual))"
| "matchSubset (JArr ev) actual path =
     (case actual of
        JArr av \<Rightarrow> (if length ev \<noteq> length av then Some (ArrayLength path (length ev) (length av))
                     else matchElems ev av 0 path)
      | _ \<Rightarrow> Some (ExpectedArray path actual))"
| "matchSubset expected actual path =
     (if expected \<noteq> actual then Some (Differs path expected actual) else None)"
| "matchKeys [] av path = None"
| "matchKeys ((k, v) # rest) av path =
     (let childPath = path @ ''.'' @ k
      in case map_of av k of
           None \<Rightarrow> Some (MissingKey childPath k)
         | Some actualVal \<Rightarrow>
             (case matchSubset v actualVal childPath of
                Some msg \<Rightarrow> Some msg
              | None \<Rightarrow> matchKeys rest av path))"
| "matchElems (x # xs) (y # ys) i path =
     (case matchSubset x y (path @ ''['' @ natStr i @ '']'') of
        Some msg \<Rightarrow> Some msg
      | None \<Rightarrow> matchElems xs ys (i + 1) path)"
| "matchElems _ _ i path = None"
  by pat_completeness auto
termination
  by (relation "measure (\<lambda>x. case x of
        Inl (e, _) \<Rightarrow> size e
      | Inr (Inl (m, _)) \<Rightarrow> size_list (size_prod (\<lambda>_. 0) size) m
      | Inr (Inr (xs, _)) \<Rightarrow> size_list size xs)") auto

definition MatchExpected :: "gmap \<Rightarrow> gmap \<Rightarrow> mismatch option" where
  "MatchExpected expected actual =
     (case normalizeJSON expected of
        None \<Rightarrow> Some NormalizingExpected
      | Some en \<Rightarrow>
          (case normalizeJSON actual of
             None \<Rightarrow> Some NormalizingActual
           | Some an \<Rightarrow> matchSubset en an ''$''))"

section \<open>Specification\<close>

text \<open>What it means for an output to contain what an example expects.\<close>

function (sequential) subsumes :: "json \<Rightarrow> json \<Rightarrow> bool" where
  "subsumes (JObj ev) (JObj av) =
     (\<forall>(k, v) \<in> set ev. case map_of av k of None \<Rightarrow> False | Some w \<Rightarrow> subsumes v w)"
| "subsumes (JArr ev) (JArr av) = (length ev = length av \<and> (\<forall>(x, y) \<in> set (zip ev av). subsumes x y))"
| "subsumes e a = (e = a)"
  by pat_completeness auto
termination
proof (relation "measure (\<lambda>(e, a). size e)")
  fix ev av k v w and x :: "string \<times> json"
  assume "x \<in> set ev" and "(k, v) = x"
  then have "size v < Suc (size_list (size_prod (\<lambda>_. 0) size) ev)"
    by (induction ev) auto
  then show "((v, w), JObj ev, JObj av) \<in> measure (\<lambda>(e, a). size e)" for w by simp
next
  fix ev av :: "json list" and z x y
  assume "z \<in> set (zip ev av)" and "(x, y) = z"
  then have "x \<in> set ev" by (auto dest: set_zip_leftD)
  then have "size x < Suc (size_list size ev)" by (induction ev) auto
  then show "((x, y), JArr ev, JArr av) \<in> measure (\<lambda>(e, a). size e)" by simp
qed auto

text \<open>An object as a Go map: no key twice, at any depth.\<close>

fun distinctKeys :: "json \<Rightarrow> bool" where
  "distinctKeys (JObj m) = (distinct (map fst m) \<and> (\<forall>p \<in> set m. distinctKeys (snd p)))"
| "distinctKeys (JArr xs) = (\<forall>x \<in> set xs. distinctKeys x)"
| "distinctKeys _ = True"

section \<open>Lemmas\<close>

lemma match_iff_subsumes:
  "matchSubset e a p = None \<longleftrightarrow> subsumes e a"
  "matchKeys m av p = None \<longleftrightarrow> (\<forall>(k, v) \<in> set m. case map_of av k of None \<Rightarrow> False | Some w \<Rightarrow> subsumes v w)"
  "length xs = length ys \<Longrightarrow> matchElems xs ys i p = None \<longleftrightarrow> (\<forall>(x, y) \<in> set (zip xs ys). subsumes x y)"
proof (induction e a p and m av p and xs ys i p rule: matchSubset_matchKeys_matchElems.induct)
  case (1 ev actual path)
  then show ?case by (cases actual) auto
next
  case (2 ev actual path)
  then show ?case by (cases actual) auto
next
  case (5 k v rest av path)
  show ?case
  proof (cases "map_of av k")
    case None
    then show ?thesis by (simp add: Let_def)
  next
    case (Some w)
    note here = "5.IH"(1) [OF refl Some] and more = "5.IH"(2) [OF refl Some]
    show ?thesis
    proof (cases "matchSubset v w (path @ ''.'' @ k)")
      case None
      then have "subsumes v w" using here by simp
      with None more Some show ?thesis by (simp add: Let_def)
    next
      case (Some msg)
      then have "\<not> subsumes v w" using here by simp
      with Some \<open>map_of av k = Some w\<close> show ?thesis by (simp add: Let_def)
    qed
  qed
qed (auto split: option.splits)

lemma subsumes_refl: "distinctKeys j \<Longrightarrow> subsumes j j"
proof (induction j rule: distinctKeys.induct)
  case (1 m)
  then have "map_of m k = Some v" if "(k, v) \<in> set m" for k v
    using that by (simp add: map_of_eq_Some_iff)
  with 1 show ?case by fastforce
next
  case (2 xs)
  then show ?case by (auto simp: set_zip)
qed simp_all

lemma subsumes_trans: "subsumes a b \<Longrightarrow> subsumes b c \<Longrightarrow> subsumes a c"
proof (induction a b arbitrary: c rule: subsumes.induct)
  case (1 ev av)
  then obtain cv where c: "c = JObj cv" by (cases c) auto
  have "case map_of cv k of None \<Rightarrow> False | Some w \<Rightarrow> subsumes v w" if kv: "(k, v) \<in> set ev" for k v
  proof -
    from "1.prems"(1) kv obtain w where w: "map_of av k = Some w" "subsumes v w"
      by (force split: option.splits)
    with "1.prems"(2) c obtain u where u: "map_of cv k = Some u" "subsumes w u"
      by (force dest: map_of_SomeD split: option.splits)
    with "1.IH" [OF kv] w show ?thesis by auto
  qed
  then show ?case by (auto simp: c)
next
  case (2 ev av)
  then obtain cv where c: "c = JArr cv" by (cases c) auto
  with "2.prems" have len: "length ev = length av" "length av = length cv" by auto
  have "subsumes x z" if "(x, z) \<in> set (zip ev cv)" for x z
  proof -
    from that obtain i where i: "i < length ev" "x = ev ! i" "z = cv ! i" by (auto simp: set_zip)
    with "2.prems" c len have "subsumes x (av ! i)" by (auto simp: set_zip)
    moreover have "(av ! i, z) \<in> set (zip av cv)" using i len by (auto simp: set_zip)
    then have "subsumes (av ! i) z" using "2.prems"(2) c by auto
    moreover have "(x, av ! i) \<in> set (zip ev av)" using i len by (auto simp: set_zip)
    ultimately show ?thesis using "2.IH" by auto
  qed
  then show ?case using c len by auto
qed auto

section \<open>Properties\<close>

text \<open>C12: The example checker decides containment: it reports no difference exactly when both sides can
  be written as JSON and every key, element and number the example expects is in the output; and
  containment is transitive, so an example that passes on an output passes on every larger one.\<close>

theorem match_decides_containment:
  "(MatchExpected expected actual = None \<longleftrightarrow>
     (\<exists>e a. normalizeJSON expected = Some e \<and> normalizeJSON actual = Some a \<and> subsumes e a))
   \<and> (subsumes x y \<and> subsumes y z \<longrightarrow> subsumes x z)"
  by (auto simp: MatchExpected_def match_iff_subsumes(1) split: option.splits intro: subsumes_trans)

theorem match_decides_containment_witness:
  "MatchExpected [(''a'', GStr ''x'')] [(''b'', GNil), (''a'', GStr ''x'')] = None
   \<and> subsumes (JObj []) (JObj [(''a'', JNull), (''b'', JNull)])"
proof -
  have n: "normalizeJSON [(''a'', GStr ''x'')] = Some (JObj [(''a'', JStr ''x'')])"
    "normalizeJSON [(''b'', GNil), (''a'', GStr ''x'')] = Some (JObj [(''b'', JNull), (''a'', JStr ''x'')])"
    by (simp_all add: normalizeJSON_def)
  have "subsumes (JObj []) (JObj [(''a'', JNull)])" "subsumes (JObj [(''a'', JNull)]) (JObj [(''a'', JNull), (''b'', JNull)])"
    by simp_all
  then show ?thesis
    using n match_decides_containment [of "[(''a'', GStr ''x'')]" "[(''b'', GNil), (''a'', GStr ''x'')]"
        "JObj []" "JObj [(''a'', JNull)]" "JObj [(''a'', JNull), (''b'', JNull)]"] by simp
qed

end
