(* ===== verification/Sim_Clock.thy ===== *)
theory Sim_Clock
  imports Go_Values
begin

text \<open>
  \<open>internal/simclock/clock.go\<close> and what the rest of the process draws from outside: random
  identifiers and the wall clock. An instant is the number of nanoseconds since the Unix epoch.
  The lemmas show that the clock only moves forward, that a rejected request leaves it alone,
  and how far \<open>AdvanceDays\<close> really moves it once the multiplication by a day wraps around.
\<close>

section \<open>Instants and durations\<close>

type_synonym instant = int

definition nanosPerSecond :: int where "nanosPerSecond = 1000000000"

definition nanosPerDay :: int where "nanosPerDay = 86400 * 1000000000"

text \<open>The zero \<open>time.Time\<close>, 1 January of year 1.\<close>

definition zeroTime :: instant where "zeroTime = - 62135596800 * 1000000000"

section \<open>The clock\<close>

text \<open>
  \<open>listeners\<close> names the registered callbacks; \<open>notified\<close> logs the calls made to them, since
  what a callback does is not the clock's business.
\<close>

record sim_clock =
  now :: instant
  listeners :: "nat list"
  notified :: "(nat \<times> instant \<times> instant) list"

definition New_clock :: "instant \<Rightarrow> sim_clock" where
  "New_clock start =
     \<lparr>now = start - start mod nanosPerSecond, listeners = [], notified = []\<rparr>"

definition Now :: "('z sim_clock_scheme, instant) oper" where
  "Now = getE now"

definition SetTo :: "instant \<Rightarrow> ('z sim_clock_scheme, instant) oper" where
  "SetTo t =
     bindE (getE now) (\<lambda>prev.
     bindE (guardE (prev < t) (EClock TargetNotAfterNow)) (\<lambda>_.
     bindE (modifyE (\<lambda>s. s\<lparr>now := t\<rparr>)) (\<lambda>_.
     bindE (getE listeners) (\<lambda>ls.
     bindE (modifyE (\<lambda>s. s\<lparr>notified := notified s @ map (\<lambda>l. (l, prev, t)) ls\<rparr>)) (\<lambda>_.
     returnE t)))))"

definition Advance :: "int64 \<Rightarrow> ('z sim_clock_scheme, instant) oper" where
  "Advance d =
     bindE (guardE (0 < d) (EClock DurationNotPositive)) (\<lambda>_.
     bindE Now (\<lambda>n. SetTo (n + d)))"

text \<open>\<open>time.Duration(n) * 24 * time.Hour\<close>, with each product wrapped to 64 bits.\<close>

definition daysDuration :: "int64 \<Rightarrow> int64" where
  "daysDuration n = wrap64 (wrap64 (n * 24) * (3600 * 1000000000))"

definition AdvanceDays :: "int64 \<Rightarrow> ('z sim_clock_scheme, instant) oper" where
  "AdvanceDays n =
     bindE (guardE (0 < n) (EClock DaysNotPositive)) (\<lambda>_. Advance (daysDuration n))"

definition Subscribe :: "nat \<Rightarrow> ('z sim_clock_scheme, unit) oper" where
  "Subscribe l = modifyE (\<lambda>s. s\<lparr>listeners := listeners s @ [l]\<rparr>)"

section \<open>Entropy\<close>

text \<open>
  Outside inputs of the process: \<open>rand\<close> is the sequence of identifiers that
  \<open>crypto/rand\<close> will produce and \<open>drawn\<close> how many have been used; \<open>wall\<close> is the reading of
  \<open>time.Now()\<close>. No identifier is assumed to be new: a property that needs it says so.
\<close>

record entropy = sim_clock +
  rand :: "nat \<Rightarrow> string"
  drawn :: nat
  wall :: instant

definition newID :: "('z entropy_scheme, string) oper" where
  "newID =
     bindE (getE (\<lambda>s. rand s (drawn s))) (\<lambda>i.
     bindE (modifyE (\<lambda>s. s\<lparr>drawn := drawn s + 1\<rparr>)) (\<lambda>_. returnE i))"

section \<open>Lemmas\<close>

lemma newID_app [op_simps]: "newID s = (Inr (rand s (drawn s)), s\<lparr>drawn := drawn s + 1\<rparr>)"
  by (simp add: newID_def op_simps)

lemma SetTo_app:
  "SetTo t s =
     (if now s < t
      then (Inr t, s\<lparr>now := t, notified := notified s @ map (\<lambda>l. (l, now s, t)) (listeners s)\<rparr>)
      else (Inl (EClock TargetNotAfterNow), s))"
  by (simp add: SetTo_def op_simps)

lemma Advance_app:
  "Advance d s =
     (if 0 < d
      then (Inr (now s + d), s\<lparr>now := now s + d,
              notified := notified s @ map (\<lambda>l. (l, now s, now s + d)) (listeners s)\<rparr>)
      else (Inl (EClock DurationNotPositive), s))"
  by (simp add: Advance_def Now_def op_simps SetTo_app)

lemma daysDuration_wrap: "daysDuration n = wrap64 (n * nanosPerDay)"
  by (simp add: daysDuration_def nanosPerDay_def wrap64_mult_left mult.commute)

lemma AdvanceDays_app:
  "AdvanceDays n s =
     (if 0 < n
      then Advance (wrap64 (n * nanosPerDay)) s
      else (Inl (EClock DaysNotPositive), s))"
  by (simp add: AdvanceDays_def op_simps daysDuration_wrap)

lemma SetTo_forward: "SetTo t s = (r, s') \<Longrightarrow> now s \<le> now s'"
  by (auto simp: SetTo_app split: if_splits)

lemma Advance_forward: "Advance d s = (r, s') \<Longrightarrow> now s \<le> now s'"
  by (auto simp: Advance_app split: if_splits)

lemma AdvanceDays_forward: "AdvanceDays n s = (r, s') \<Longrightarrow> now s \<le> now s'"
  by (auto simp: AdvanceDays_app Advance_app split: if_splits)

lemma days_in64: "0 < n \<Longrightarrow> n \<le> 106751 \<Longrightarrow> in64 (n * nanosPerDay)"
  by (simp add: in64_def min64_def max64_def nanosPerDay_def)

section \<open>Properties\<close>

text \<open>C16: The clock only moves forward and says where it is, on each of its three ways to be moved. Setting it is
  accepted exactly for a later time, advancing it exactly for a positive duration; a rejected request leaves the
  whole state alone, an accepted one moves the time strictly ahead to the value returned and tells every listener,
  in order, where the time came from and where it went. Advancing by 1 to 106751 days is never rejected and moves
  it by exactly that distance.\<close>

theorem clock_moves_forward:
  "(case SetTo u s of
      (Inl e, s') \<Rightarrow> u \<le> now s \<and> s' = s
    | (Inr t, s') \<Rightarrow> now s < u \<and> t = u \<and> now s' = u \<and>
        notified s' = notified s @ map (\<lambda>l. (l, now s, t)) (listeners s)) \<and>
   (case Advance d s of
      (Inl e, s') \<Rightarrow> d \<le> 0 \<and> s' = s
    | (Inr t, s') \<Rightarrow> 0 < d \<and> t = now s + d \<and> now s' = t \<and>
        notified s' = notified s @ map (\<lambda>l. (l, now s, t)) (listeners s)) \<and>
   (case AdvanceDays n s of
      (Inl e, s') \<Rightarrow> s' = s \<and> (n \<le> 0 \<or> 106751 < n)
    | (Inr t, s') \<Rightarrow> t = now s' \<and> now s < now s' \<and>
        notified s' = notified s @ map (\<lambda>l. (l, now s, t)) (listeners s) \<and>
        (n \<le> 106751 \<longrightarrow> now s' = now s + n * nanosPerDay))"
proof (intro conjI)
  show "case AdvanceDays n s of
      (Inl e, s') \<Rightarrow> s' = s \<and> (n \<le> 0 \<or> 106751 < n)
    | (Inr t, s') \<Rightarrow> t = now s' \<and> now s < now s' \<and>
        notified s' = notified s @ map (\<lambda>l. (l, now s, t)) (listeners s) \<and>
        (n \<le> 106751 \<longrightarrow> now s' = now s + n * nanosPerDay)"
  proof (cases "0 < n \<and> n \<le> 106751")
    case True
    then have "0 < n * nanosPerDay" "wrap64 (n * nanosPerDay) = n * nanosPerDay"
      by (simp_all add: days_in64) (simp add: nanosPerDay_def)
    then show ?thesis using True by (simp add: AdvanceDays_app Advance_app)
  qed (auto simp: AdvanceDays_app Advance_app)
qed (simp_all add: SetTo_app Advance_app)

theorem clock_moves_forward_witness:
  "now (snd (AdvanceDays 30 (New_clock 0))) = 30 * nanosPerDay"
proof -
  have "AdvanceDays 30 (New_clock 0) =
      (Inr (30 * nanosPerDay), (New_clock 0)\<lparr>now := 30 * nanosPerDay\<rparr>)"
    by (simp add: AdvanceDays_app Advance_app New_clock_def nanosPerDay_def nanosPerSecond_def wrap64_def)
  then show ?thesis
    using clock_moves_forward [of 1 "New_clock 0" 1 30] by (simp add: New_clock_def)
qed

text \<open>Beyond that the multiplication by a day wraps around: advancing by 213504 days, more than five
  hundred years, moves the clock by less than half an hour.\<close>

theorem advance_days_wraps:
  "\<exists>s'. AdvanceDays 213504 (New_clock 0) = (Inr 1526290448384, s') \<and> now s' = 1526290448384"
  by (simp add: AdvanceDays_app Advance_app New_clock_def nanosPerDay_def nanosPerSecond_def wrap64_def)

end
