(* ===== verification/Store_Mem.thy ===== *)
theory Store_Mem
  imports Sim_Clock
begin

text \<open>
  \<open>internal/store/store.go\<close> (the records and the two interfaces) and
  \<open>internal/store/memstore/memstore.go\<close> (the in-memory store). The event log is append-only and
  numbered; rule versions are append-only except for the closing of the open version. The
  contracts of the two interfaces are the locales \<open>event_log\<close> and \<open>version_table\<close>, which the
  in-memory store interprets at the end.
\<close>

section \<open>Records\<close>

record Event =
  ev_ID :: string
  ev_Seq :: int
  ev_Type :: string
  ev_AggregateID :: string
  ev_OccurredAt :: instant
  ev_RecordedAt :: instant
  ev_Payload :: json

record EventFilter =
  ef_Types :: "string list"
  ef_AggregateID :: string
  ef_AfterSeq :: int
  ef_Limit :: int

record RuleVersion =
  rv_RuleID :: string
  rv_Version :: int
  rv_RuleType :: string
  rv_Content :: string
  rv_ContentHash :: string
  rv_SourceCommit :: string
  rv_Author :: string
  rv_ChangeNote :: string
  rv_EffectiveFrom :: instant
  rv_EffectiveTo :: "instant option"
  rv_CreatedAt :: instant

record RuleApplication =
  ra_ID :: string
  ra_RuleID :: string
  ra_Version :: int
  ra_EntityType :: string
  ra_EntityID :: string
  ra_Inputs :: json
  ra_Outcome :: json
  ra_AppliedAt :: instant
  ra_RecordedAt :: instant

record memstore = entropy +
  st_events :: "Event list"
  st_versions :: "(string \<times> RuleVersion list) list"
  st_apps :: "RuleApplication list"
  st_seq :: int

section \<open>The event log\<close>

text \<open>One turn of the loop of \<open>Append\<close>: number the event, fill in what is empty, append it.\<close>

definition appendOne :: "Event \<Rightarrow> ('z memstore_scheme, Event) oper" where
  "appendOne e =
     bindE (modifyE (\<lambda>s. s\<lparr>st_seq := st_seq s + 1\<rparr>)) (\<lambda>_.
     bindE (getE st_seq) (\<lambda>n.
     bindE (if ev_ID e = '''' then newID else returnE (ev_ID e)) (\<lambda>i.
     bindE (getE wall) (\<lambda>w.
     (let e' = e\<lparr>ev_Seq := n, ev_ID := i,
                 ev_RecordedAt := (if ev_RecordedAt e = zeroTime then w else ev_RecordedAt e)\<rparr>
      in bindE (modifyE (\<lambda>s. s\<lparr>st_events := st_events s @ [e']\<rparr>)) (\<lambda>_. returnE e'))))))"

definition Append :: "Event list \<Rightarrow> ('z memstore_scheme, Event list) oper" where
  "Append es = mapE appendOne es"

definition matchesFilter :: "EventFilter \<Rightarrow> Event \<Rightarrow> bool" where
  "matchesFilter f e \<longleftrightarrow>
     \<not> ev_Seq e \<le> ef_AfterSeq f \<and>
     \<not> (ef_AggregateID f \<noteq> '''' \<and> ev_AggregateID e \<noteq> ef_AggregateID f) \<and>
     \<not> (ef_Types f \<noteq> [] \<and> ev_Type e \<notin> set (ef_Types f))"

text \<open>The loop of \<open>List\<close>, which stops as soon as the limit is reached.\<close>

fun listLoop :: "EventFilter \<Rightarrow> Event list \<Rightarrow> Event list \<Rightarrow> Event list" where
  "listLoop f out [] = out"
| "listLoop f out (e # es) =
     (if \<not> matchesFilter f e then listLoop f out es
      else let out' = out @ [e]
           in if 0 < ef_Limit f \<and> ef_Limit f \<le> int (length out') then out'
              else listLoop f out' es)"

definition ListEvents :: "EventFilter \<Rightarrow> ('z memstore_scheme, Event list) oper" where
  "ListEvents f = getE (\<lambda>s. listLoop f [] (st_events s))"

section \<open>Rule versions and applications\<close>

definition closeOpen :: "instant \<Rightarrow> RuleVersion \<Rightarrow> RuleVersion" where
  "closeOpen t v = (if rv_EffectiveTo v = None then v\<lparr>rv_EffectiveTo := Some t\<rparr> else v)"

definition InsertRuleVersion :: "RuleVersion \<Rightarrow> ('z memstore_scheme, unit) oper" where
  "InsertRuleVersion v =
     bindE (getE (\<lambda>s. getOr [] (st_versions s) (rv_RuleID v))) (\<lambda>vs.
     bindE (guardE (\<not> list_ex (\<lambda>x. rv_Version x = rv_Version v) vs) ErrConflict) (\<lambda>_.
     bindE (getE wall) (\<lambda>w.
     (let v' = v\<lparr>rv_CreatedAt := (if rv_CreatedAt v = zeroTime then w else rv_CreatedAt v)\<rparr>;
          vs' = sort_key rv_Version (map (closeOpen (rv_EffectiveFrom v')) vs @ [v'])
      in modifyE (\<lambda>s. s\<lparr>st_versions := AList.update (rv_RuleID v') vs' (st_versions s)\<rparr>)))))"

definition ListRuleVersions :: "string \<Rightarrow> ('z memstore_scheme, RuleVersion list) oper" where
  "ListRuleVersions ruleID =
     getE (\<lambda>s. if ruleID \<noteq> '''' then getOr [] (st_versions s) ruleID
               else concat (map (getOr [] (st_versions s)) (sort (map fst (st_versions s)))))"

definition GetRuleVersion :: "string \<Rightarrow> int \<Rightarrow> ('z memstore_scheme, RuleVersion) oper" where
  "GetRuleVersion ruleID version =
     bindE (getE (\<lambda>s. find (\<lambda>v. rv_Version v = version) (getOr [] (st_versions s) ruleID)))
       (\<lambda>r. liftE (ofOption ErrNotFound r))"

definition InsertRuleApplication ::
  "RuleApplication \<Rightarrow> ('z memstore_scheme, RuleApplication) oper" where
  "InsertRuleApplication a =
     bindE (if ra_ID a = '''' then newID else returnE (ra_ID a)) (\<lambda>i.
     bindE (getE wall) (\<lambda>w.
     (let a' = a\<lparr>ra_ID := i, ra_RecordedAt := (if ra_RecordedAt a = zeroTime then w else ra_RecordedAt a)\<rparr>
      in bindE (modifyE (\<lambda>s. s\<lparr>st_apps := st_apps s @ [a']\<rparr>)) (\<lambda>_. returnE a'))))"

definition matchesApp :: "string \<Rightarrow> string \<Rightarrow> RuleApplication \<Rightarrow> bool" where
  "matchesApp ruleID entityID a \<longleftrightarrow>
     \<not> (ruleID \<noteq> '''' \<and> ra_RuleID a \<noteq> ruleID) \<and> \<not> (entityID \<noteq> '''' \<and> ra_EntityID a \<noteq> entityID)"

text \<open>The backwards loop of \<open>ListRuleApplications\<close> over the log, newest first.\<close>

fun appsLoop :: "string \<Rightarrow> string \<Rightarrow> int \<Rightarrow> RuleApplication list \<Rightarrow> RuleApplication list \<Rightarrow> RuleApplication list" where
  "appsLoop r e limit out [] = out"
| "appsLoop r e limit out (a # as) =
     (if \<not> int (length out) < limit then out
      else if \<not> matchesApp r e a then appsLoop r e limit out as
      else appsLoop r e limit (out @ [a]) as)"

definition ListRuleApplications ::
  "string \<Rightarrow> string \<Rightarrow> int \<Rightarrow> ('z memstore_scheme, RuleApplication list) oper" where
  "ListRuleApplications ruleID entityID limit =
     (let limit' = (if limit \<le> 0 then 100 else limit)
      in getE (\<lambda>s. appsLoop ruleID entityID limit' [] (rev (st_apps s))))"

section \<open>Well-formedness\<close>

text \<open>
  The log is numbered from 1 without gaps. For every rule the versions are strictly ascending
  and at most one of them is open.
\<close>

definition log_wf :: "('z memstore_scheme) \<Rightarrow> bool" where
  "log_wf s \<longleftrightarrow> map ev_Seq (st_events s) = map int [1..<Suc (length (st_events s))] \<and>
     st_seq s = int (length (st_events s))"

definition versions_wf :: "RuleVersion list \<Rightarrow> bool" where
  "versions_wf vs \<longleftrightarrow> sorted_wrt (\<lambda>a b. rv_Version a < rv_Version b) vs \<and>
     length (filter (\<lambda>v. rv_EffectiveTo v = None) vs) \<le> 1"

definition rules_wf :: "('z memstore_scheme) \<Rightarrow> bool" where
  "rules_wf s \<longleftrightarrow> (\<forall>r. versions_wf (getOr [] (st_versions s) r))"

section \<open>Lemmas: the event log\<close>

lemma appendOne_app [op_simps]:
  "appendOne e s =
     (let i = (if ev_ID e = '''' then rand s (drawn s) else ev_ID e);
          d = (if ev_ID e = '''' then drawn s + 1 else drawn s);
          e' = e\<lparr>ev_Seq := st_seq s + 1, ev_ID := i,
                 ev_RecordedAt := (if ev_RecordedAt e = zeroTime then wall s else ev_RecordedAt e)\<rparr>
      in (Inr e', s\<lparr>drawn := d, st_seq := st_seq s + 1, st_events := st_events s @ [e']\<rparr>))"
  by (simp add: appendOne_def op_simps bindE_def Let_def)

lemma Append_single [op_simps]:
  "Append [e] s = (case appendOne e s of (Inr e', s') \<Rightarrow> (Inr [e'], s') | (Inl er, s') \<Rightarrow> (Inl er, s'))"
  by (simp add: Append_def op_simps Let_def)

lemma listLoop_filter:
  "listLoop f out es =
     (if 0 < ef_Limit f \<and> int (length out) < ef_Limit f
      then out @ take (nat (ef_Limit f) - length out) (filter (matchesFilter f) es)
      else if 0 < ef_Limit f then
        (case filter (matchesFilter f) es of [] \<Rightarrow> out | x # _ \<Rightarrow> out @ [x])
      else out @ filter (matchesFilter f) es)"
proof (induction es arbitrary: out)
  case (Cons e es)
  show ?case
    by (auto simp: Cons.IH Let_def Suc_diff_le nat_diff_distrib
        take_Cons' nat_le_iff nat_less_iff split: list.splits)
qed simp

lemma ListEvents_unlimited:
  "ef_Limit f \<le> 0 \<Longrightarrow> ListEvents f s = (Inr (filter (matchesFilter f) (st_events s)), s)"
  by (simp add: ListEvents_def op_simps listLoop_filter)

lemma ListEvents_limited:
  "0 < ef_Limit f \<Longrightarrow>
     ListEvents f s = (Inr (take (nat (ef_Limit f)) (filter (matchesFilter f) (st_events s))), s)"
  by (simp add: ListEvents_def op_simps listLoop_filter)

lemma log_wf_appendOne: "log_wf s \<Longrightarrow> log_wf (snd (appendOne e s))"
  by (simp add: log_wf_def op_simps Let_def)

lemma preserves_log_wf_Append [pres]: "preserves log_wf (Append es)"
  unfolding Append_def by (intro pres preservesI log_wf_appendOne)

lemma log_wf_seq_le: "log_wf s \<Longrightarrow> e \<in> set (st_events s) \<Longrightarrow> ev_Seq e \<le> st_seq s"
proof -
  assume wf: "log_wf s" and e: "e \<in> set (st_events s)"
  then have "ev_Seq e \<in> set (map int [1..<Suc (length (st_events s))])"
    unfolding log_wf_def by (metis image_eqI list.set_map)
  then show "ev_Seq e \<le> st_seq s" using wf by (auto simp: log_wf_def)
qed

section \<open>Lemmas: rule versions\<close>

lemma closeOpen_simps [simp]:
  "rv_Version (closeOpen t v) = rv_Version v" "rv_EffectiveTo (closeOpen t v) \<noteq> None"
  "rv_RuleID (closeOpen t v) = rv_RuleID v" "rv_Content (closeOpen t v) = rv_Content v"
  by (simp_all add: closeOpen_def)

lemma InsertRuleVersion_app:
  "InsertRuleVersion v s =
     (let vs = getOr [] (st_versions s) (rv_RuleID v);
          v' = v\<lparr>rv_CreatedAt := (if rv_CreatedAt v = zeroTime then wall s else rv_CreatedAt v)\<rparr>;
          vs' = sort_key rv_Version (map (closeOpen (rv_EffectiveFrom v)) vs @ [v'])
      in if list_ex (\<lambda>x. rv_Version x = rv_Version v) vs then (Inl ErrConflict, s)
         else (Inr (), s\<lparr>st_versions := AList.update (rv_RuleID v) vs' (st_versions s)\<rparr>))"
  by (simp add: InsertRuleVersion_def op_simps Let_def)

lemma versions_wf_insert:
  assumes "versions_wf vs" and "\<not> list_ex (\<lambda>x. rv_Version x = rv_Version v) vs"
  shows "versions_wf (sort_key rv_Version (map (closeOpen t) vs @ [v]))"
proof -
  let ?ws = "map (closeOpen t) vs @ [v]"
  have "distinct (map rv_Version vs)"
    using assms(1) unfolding versions_wf_def
    by (auto simp: distinct_map sorted_wrt_iff_nth_less inj_on_def in_set_conv_nth distinct_conv_nth)
       (metis less_irrefl linorder_neqE_nat)+
  then have "distinct (map rv_Version ?ws)"
    using assms(2) by (auto simp: list_ex_iff comp_def)
  moreover have "mset (map rv_Version (sort_key rv_Version ?ws)) = mset (map rv_Version ?ws)"
    by (simp add: multiset.map_comp)
  ultimately have "distinct (map rv_Version (sort_key rv_Version ?ws))"
    by (metis mset_eq_imp_distinct_iff)
  moreover have "sorted (map rv_Version (sort_key rv_Version ?ws))"
    by simp
  ultimately have "sorted_wrt (<) (map rv_Version (sort_key rv_Version ?ws))"
    by (simp add: strict_sorted_iff)
  then have "sorted_wrt (\<lambda>a b. rv_Version a < rv_Version b) (sort_key rv_Version ?ws)"
    by (simp add: sorted_wrt_map)
  moreover have "filter (\<lambda>v. rv_EffectiveTo v = None) (map (closeOpen t) vs) = []"
    by (auto simp: filter_empty_conv closeOpen_def)
  then have "length (filter (\<lambda>v. rv_EffectiveTo v = None) ?ws) \<le> 1"
    by (simp del: filter_map)
  then have "length (filter (\<lambda>v. rv_EffectiveTo v = None) (sort_key rv_Version ?ws)) \<le> 1"
    by (simp only: length_filter_sort)
  ultimately show ?thesis by (simp add: versions_wf_def)
qed

lemma preserves_rules_wf_Insert [pres]: "preserves rules_wf (InsertRuleVersion v)"
  by (rule preservesI) (auto simp: InsertRuleVersion_app rules_wf_def Let_def intro: versions_wf_insert)

text \<open>The version just inserted is found again, the others keep everything but the closing date.\<close>

lemma Insert_lookup:
  assumes "InsertRuleVersion v s = (Inr (), s')"
  shows "\<exists>v'. GetRuleVersion (rv_RuleID v) (rv_Version v) s' = (Inr v', s') \<and>
    rv_Content v' = rv_Content v \<and> rv_EffectiveTo v' = rv_EffectiveTo v"
proof -
  let ?vs = "getOr [] (st_versions s) (rv_RuleID v)"
  let ?v = "v\<lparr>rv_CreatedAt := (if rv_CreatedAt v = zeroTime then wall s else rv_CreatedAt v)\<rparr>"
  let ?ws = "sort_key rv_Version (map (closeOpen (rv_EffectiveFrom v)) ?vs @ [?v])"
  have fresh: "\<not> list_ex (\<lambda>x. rv_Version x = rv_Version v) ?vs"
    and s': "s' = s\<lparr>st_versions := AList.update (rv_RuleID v) ?ws (st_versions s)\<rparr>"
    using assms(1) by (auto simp: InsertRuleVersion_app Let_def split: if_splits)
  have only: "x = ?v" if "x \<in> set ?ws" "rv_Version x = rv_Version v" for x
    using that fresh by (auto simp: list_ex_iff)
  have "find (\<lambda>x. rv_Version x = rv_Version v) ?ws = Some ?v"
    by (rule find_unique) (use only in simp_all)
  then show ?thesis
    by (simp add: s' GetRuleVersion_def op_simps ofOption_def)
qed

lemma GetRuleVersion_None_other:
  assumes "InsertRuleVersion v s = (Inr (), s')" and "r \<noteq> rv_RuleID v"
  shows "fst (GetRuleVersion r n s') = fst (GetRuleVersion r n s)"
  using assms by (auto simp: InsertRuleVersion_app Let_def GetRuleVersion_def op_simps split: if_splits)

section \<open>The interfaces\<close>

text \<open>
  \<open>store.EventStore\<close>: \<open>log\<close> is the whole log of a store; appending extends it by the stored
  events in order, listing selects from it, and sequence numbers ascend strictly from 1. The
  lemma is what every reader of the log relies on: asking for what came after the last event
  seen returns exactly what was appended since.
\<close>

locale event_log =
  fixes append :: "Event list \<Rightarrow> ('s, Event list) oper"
    and list_events :: "EventFilter \<Rightarrow> ('s, Event list) oper"
    and log :: "'s \<Rightarrow> Event list"
    and wf :: "'s \<Rightarrow> bool"
  assumes append_log: "wf s \<Longrightarrow> \<exists>out s'. append es s = (Inr out, s') \<and> log s' = log s @ out \<and>
      wf s' \<and> map ev_Type out = map ev_Type es \<and> map ev_Payload out = map ev_Payload es"
    and list_log: "ef_Limit f \<le> 0 \<Longrightarrow> list_events f s = (Inr (filter (matchesFilter f) (log s)), s)"
    and log_sorted: "wf s \<Longrightarrow> sorted_wrt (<) (map ev_Seq (log s))"
    and log_pos: "wf s \<Longrightarrow> e \<in> set (log s) \<Longrightarrow> 0 < ev_Seq e"
begin

lemma list_after_append:
  assumes wf: "wf s" and ap: "append es s = (Inr out, s')" and e: "log s \<noteq> []"
    and f: "ef_Limit f \<le> 0" "ef_Types f = []" "ef_AggregateID f = ''''"
      "ef_AfterSeq f = ev_Seq (last (log s))"
  shows "list_events f s' = (Inr out, s')"
proof -
  from append_log [OF wf, of es] ap have log': "log s' = log s @ out" and wf': "wf s'"
    by auto
  have srt: "sorted_wrt (<) (map ev_Seq (log s @ out))"
    using log_sorted [OF wf'] by (simp add: log')
  have "ev_Seq x \<le> ev_Seq (last (log s))" if "x \<in> set (log s)" for x
  proof -
    obtain ys where ys: "log s = ys @ [last (log s)]"
      using e by (metis append_butlast_last_id)
    have "sorted_wrt (<) (map ev_Seq (ys @ [last (log s)]))"
      using log_sorted [OF wf] by (simp flip: ys)
    moreover have "x \<in> set ys \<or> x = last (log s)"
      using that by (subst (asm) ys) auto
    ultimately show ?thesis by (auto simp: sorted_wrt_append)
  qed
  then have "filter (matchesFilter f) (log s) = []"
    using f by (auto simp: filter_empty_conv matchesFilter_def)
  moreover have "ev_Seq (last (log s)) < ev_Seq x" if "x \<in> set out" for x
    using srt that e by (auto simp: sorted_wrt_append)
  then have "filter (matchesFilter f) out = out"
    using f by (force simp: filter_id_conv matchesFilter_def)
  ultimately show ?thesis by (simp add: list_log f log')
qed

end

text \<open>
  \<open>store.RuleStore\<close>, the versions: an inserted version is read back, another rule's versions
  are not touched, and a rejected insert changes nothing.
\<close>

locale version_table =
  fixes insert_version :: "RuleVersion \<Rightarrow> ('s, unit) oper"
    and get_version :: "string \<Rightarrow> int \<Rightarrow> ('s, RuleVersion) oper"
    and wf :: "'s \<Rightarrow> bool"
  assumes insert_get: "insert_version v s = (Inr (), s') \<Longrightarrow>
      \<exists>v'. get_version (rv_RuleID v) (rv_Version v) s' = (Inr v', s') \<and>
           rv_Content v' = rv_Content v \<and> rv_EffectiveTo v' = rv_EffectiveTo v"
    and insert_other: "insert_version v s = (Inr (), s') \<Longrightarrow> r \<noteq> rv_RuleID v \<Longrightarrow>
      fst (get_version r n s') = fst (get_version r n s)"
    and insert_err: "insert_version v s = (Inl e, s') \<Longrightarrow> s' = s"
    and insert_wf: "wf s \<Longrightarrow> insert_version v s = (r', s') \<Longrightarrow> wf s'"
begin

lemma insert_twice:
  assumes "insert_version v s = (Inr (), s1)" and "insert_version w s1 = (Inr (), s2)"
    and "rv_RuleID v \<noteq> rv_RuleID w"
  shows "\<exists>v'. fst (get_version (rv_RuleID v) (rv_Version v) s2) = Inr v' \<and> rv_Content v' = rv_Content v"
proof -
  obtain v' where "get_version (rv_RuleID v) (rv_Version v) s1 = (Inr v', s1)"
    and "rv_Content v' = rv_Content v"
    using insert_get [OF assms(1)] by blast
  then show ?thesis using insert_other [OF assms(2) assms(3)] by simp
qed

end

lemma log_wf_sorted: "log_wf s \<Longrightarrow> sorted_wrt (<) (map ev_Seq (st_events s))"
proof -
  assume "log_wf s"
  then have "map ev_Seq (st_events s) = map int [1..<Suc (length (st_events s))]"
    by (simp add: log_wf_def)
  moreover have "sorted_wrt (<) (map int [1..<Suc (length (st_events s))])"
    by (simp add: sorted_wrt_map del: upt_Suc)
  ultimately show ?thesis by simp
qed

lemma log_wf_pos: "log_wf s \<Longrightarrow> e \<in> set (st_events s) \<Longrightarrow> 0 < ev_Seq e"
proof -
  assume wf: "log_wf s" and e: "e \<in> set (st_events s)"
  then have "ev_Seq e \<in> set (map int [1..<Suc (length (st_events s))])"
    unfolding log_wf_def by (metis image_eqI list.set_map)
  then show "0 < ev_Seq e" by auto
qed

lemma Append_log:
  "\<exists>out s'. Append es s = (Inr out, s') \<and> st_events s' = st_events s @ out \<and>
     map ev_Type out = map ev_Type es \<and> map ev_Payload out = map ev_Payload es"
proof (induction es arbitrary: s)
  case Nil
  show ?case by (simp add: Append_def op_simps)
next
  case (Cons e es)
  obtain e' s1 where one: "appendOne e s = (Inr e', s1)" and ev: "st_events s1 = st_events s @ [e']"
    and ty: "ev_Type e' = ev_Type e" "ev_Payload e' = ev_Payload e"
    by (simp add: op_simps Let_def)
  obtain out s2 where "Append es s1 = (Inr out, s2)" "st_events s2 = st_events s1 @ out"
    "map ev_Type out = map ev_Type es" "map ev_Payload out = map ev_Payload es"
    using Cons.IH by blast
  with one ev ty show ?case by (simp add: Append_def op_simps)
qed

interpretation mem_log: event_log Append ListEvents st_events log_wf
proof unfold_locales
  fix s :: "'a memstore_scheme" and es
  assume "log_wf s"
  moreover obtain out s' where "Append es s = (Inr out, s')" and "st_events s' = st_events s @ out"
    and "map ev_Type out = map ev_Type es" and "map ev_Payload out = map ev_Payload es"
    using Append_log by blast
  ultimately show "\<exists>out s'. Append es s = (Inr out, s') \<and> st_events s' = st_events s @ out \<and>
      log_wf s' \<and> map ev_Type out = map ev_Type es \<and> map ev_Payload out = map ev_Payload es"
    using preserves_result [OF preserves_log_wf_Append] by blast
qed (simp_all add: ListEvents_unlimited log_wf_sorted log_wf_pos)

interpretation mem_versions: version_table InsertRuleVersion GetRuleVersion rules_wf
proof unfold_locales
  fix s s' :: "'a memstore_scheme" and v r
  assume "rules_wf s" and "InsertRuleVersion v s = (r, s')"
  then show "rules_wf s'" by (rule preserves_result [OF preserves_rules_wf_Insert])
qed (auto simp: InsertRuleVersion_app Let_def split: if_splits
    intro: Insert_lookup GetRuleVersion_None_other)

section \<open>Properties\<close>

text \<open>C14: The event log is append-only and numbered from one without gaps: appending keeps what was
  there, adds the given events in order with their types and payloads, and a reader that asks for
  everything after the last event it has seen gets exactly what was appended since.\<close>

theorem log_append_and_tail:
  assumes "log_wf s" and "st_events s \<noteq> []"
  shows "\<exists>out s'. Append es s = (Inr out, s') \<and> log_wf s' \<and> st_events s' = st_events s @ out
    \<and> map ev_Type out = map ev_Type es \<and> map ev_Payload out = map ev_Payload es
    \<and> ListEvents \<lparr>ef_Types = [], ef_AggregateID = '''', ef_AfterSeq = ev_Seq (last (st_events s)), ef_Limit = 0\<rparr> s'
        = (Inr out, s')"
proof -
  obtain out s' where "Append es s = (Inr out, s')" "log_wf s'" "st_events s' = st_events s @ out"
    "map ev_Type out = map ev_Type es" "map ev_Payload out = map ev_Payload es"
    using mem_log.append_log [OF assms(1)] by blast
  then show ?thesis
    using mem_log.list_after_append [OF assms(1) _ assms(2)] by auto
qed

definition sampleStore :: memstore where
  "sampleStore =
     \<lparr>now = 0, listeners = [], notified = [], rand = (\<lambda>n. ''id'' @ natStr n), drawn = 0, wall = 7,
      st_events = [\<lparr>ev_ID = ''e'', ev_Seq = 1, ev_Type = ''t'', ev_AggregateID = ''a'', ev_OccurredAt = 0,
        ev_RecordedAt = 0, ev_Payload = JNull\<rparr>], st_versions = [], st_apps = [], st_seq = 1\<rparr>"

theorem log_append_and_tail_witness:
  "\<exists>out s'. Append (st_events sampleStore) sampleStore = (Inr out, s') \<and> st_events s' = st_events sampleStore @ out"
  using log_append_and_tail [of sampleStore "st_events sampleStore"]
  by (auto simp: sampleStore_def log_wf_def)

text \<open>Rule versions: whatever is inserted, each rule keeps its versions strictly ascending with at
  most one of them open; a version number already stored is refused and nothing changes.\<close>

theorem versions_ascend_one_open:
  assumes "rules_wf s"
  shows "rules_wf (snd (InsertRuleVersion v s))
    \<and> (list_ex (\<lambda>x. rv_Version x = rv_Version v) (getOr [] (st_versions s) (rv_RuleID v)) \<longrightarrow>
         InsertRuleVersion v s = (Inl ErrConflict, s))"
  using preservesD [OF preserves_rules_wf_Insert assms] by (simp add: InsertRuleVersion_app Let_def)

theorem versions_ascend_one_open_witness:
  "rules_wf (snd (InsertRuleVersion \<lparr>rv_RuleID = ''r'', rv_Version = 1, rv_RuleType = ''t'', rv_Content = ''c'',
     rv_ContentHash = '''', rv_SourceCommit = '''', rv_Author = '''', rv_ChangeNote = '''', rv_EffectiveFrom = 0,
     rv_EffectiveTo = None, rv_CreatedAt = 0\<rparr> sampleStore))"
proof -
  have "rules_wf sampleStore" by (simp add: rules_wf_def sampleStore_def versions_wf_def)
  then show ?thesis using versions_ascend_one_open by blast
qed

end
