(* ===== verification/Event_Sourcing.thy ===== *)
theory Event_Sourcing
  imports Store_Mem
begin

text \<open>
  The pattern the ledger and the loan book share: a projection is folded from the events of the
  types a service owns, brought up to date by asking the store for what came after the last
  event seen, and advanced in place with the events the service itself appends. The locale
  \<open>event_projection\<close> states what the two projections promise; its lemmas show that refreshing
  any projection of a prefix of the log gives the projection of the whole log (a restart is the
  empty prefix) and that advancing in place keeps it there.
\<close>

section \<open>Operations on a part of the state\<close>

definition zoomE :: "('s \<Rightarrow> 'p) \<Rightarrow> ('p \<Rightarrow> 's \<Rightarrow> 's) \<Rightarrow> ('p, 'a) oper \<Rightarrow> ('s, 'a) oper" where
  "zoomE get put m s = (case m (get s) of (r, p) \<Rightarrow> (r, put p s))"

section \<open>Folding events\<close>

text \<open>The loop of \<open>refresh\<close> stops at the first error, the one of \<open>applyAppended\<close> ignores it.\<close>

definition applyAll :: "(Event \<Rightarrow> ('p, unit) oper) \<Rightarrow> Event list \<Rightarrow> ('p, unit) oper" where
  "applyAll apply_ev es = foreachE es apply_ev"

definition applyIgnoring :: "(Event \<Rightarrow> ('p, unit) oper) \<Rightarrow> Event list \<Rightarrow> ('p, unit) oper" where
  "applyIgnoring apply_ev es = foreachE es (\<lambda>e. bindE (attemptE (apply_ev e)) (\<lambda>_. returnE ()))"

definition tailFilter :: "string list \<Rightarrow> int \<Rightarrow> EventFilter" where
  "tailFilter types n = \<lparr>ef_Types = types, ef_AggregateID = '''', ef_AfterSeq = n, ef_Limit = 0\<rparr>"

text \<open>The specification: all events of the owned types, in order, from the start.\<close>

definition own :: "string list \<Rightarrow> Event list \<Rightarrow> Event list" where
  "own types es = filter (\<lambda>e. ev_Type e \<in> set types) es"

definition replay :: "(Event \<Rightarrow> ('p, unit) oper) \<Rightarrow> string list \<Rightarrow> Event list \<Rightarrow> 'p \<Rightarrow> 'p" where
  "replay apply_ev types es p = foldl (\<lambda>q e. snd (apply_ev e q)) p (own types es)"

section \<open>Lemmas\<close>

lemma zoomE_app [op_simps]: "zoomE get put m s = (case m (get s) of (r, p) \<Rightarrow> (r, put p s))"
  by (simp add: zoomE_def)

lemma own_append [simp]: "own types (xs @ ys) = own types xs @ own types ys"
  by (simp add: own_def)

lemma own_Nil [simp]: "own types [] = []"
  by (simp add: own_def)

lemma own_Cons [simp]: "own types (e # es) = (if ev_Type e \<in> set types then e # own types es else own types es)"
  by (simp add: own_def)

lemma own_none: "\<forall>e \<in> set es. ev_Type e \<notin> set types \<Longrightarrow> own types es = []"
  by (simp add: own_def filter_empty_conv)

lemma set_own: "set (own types es) = {e \<in> set es. ev_Type e \<in> set types}"
  by (auto simp: own_def)

lemma replay_Nil [simp]: "replay f types [] p = p"
  by (simp add: replay_def)

lemma replay_append: "replay f types (xs @ ys) p = replay f types ys (replay f types xs p)"
  by (simp add: replay_def)

lemma applyIgnoring_eq: "applyIgnoring f es p = (Inr (), foldl (\<lambda>q e. snd (f e q)) p es)"
proof (induction es arbitrary: p)
  case Nil
  show ?case by (simp add: applyIgnoring_def op_simps)
next
  case (Cons e es)
  then show ?case
    by (simp add: applyIgnoring_def bindE_def attemptE_def op_simps split: prod.splits)
qed

lemma matchesFilter_tail:
  "types \<noteq> [] \<Longrightarrow> matchesFilter (tailFilter types n) e \<longleftrightarrow> n < ev_Seq e \<and> ev_Type e \<in> set types"
  by (auto simp: matchesFilter_def tailFilter_def)

text \<open>
  A projection promises that a decodable event is folded without an error and that the highest
  sequence number it has seen is recorded, whatever the type of the event.
\<close>

locale event_projection =
  fixes apply_ev :: "Event \<Rightarrow> ('p, unit) oper"
    and lastSeq :: "'p \<Rightarrow> int"
    and types :: "string list"
    and good :: "Event \<Rightarrow> bool"
  assumes apply_good: "good e \<Longrightarrow> fst (apply_ev e p) = Inr ()"
    and apply_seq: "good e \<Longrightarrow> lastSeq (snd (apply_ev e p)) = max (lastSeq p) (ev_Seq e)"
    and types_nonempty: "types \<noteq> []"
begin

lemma applyAll_good:
  assumes "\<forall>e \<in> set es. good e"
  shows "applyAll apply_ev es p = (Inr (), foldl (\<lambda>q e. snd (apply_ev e q)) p es)"
  using assms
proof (induction es arbitrary: p)
  case Nil
  show ?case by (simp add: applyAll_def op_simps)
next
  case (Cons e es)
  obtain r q where e: "apply_ev e p = (r, q)" by (cases "apply_ev e p")
  then have "r = Inr ()" using apply_good [of e p] Cons.prems by simp
  with e Cons show ?case by (simp add: applyAll_def op_simps)
qed

lemma lastSeq_foldl:
  assumes "\<forall>e \<in> set es. good e \<and> ev_Seq e \<le> n" and "lastSeq p \<le> n"
  shows "lastSeq (foldl (\<lambda>q e. snd (apply_ev e q)) p es) \<le> n"
  using assms by (induction es arbitrary: p) (simp_all add: apply_seq)

lemma lastSeq_foldl_ge:
  assumes "\<forall>e \<in> set es. good e" and "x \<in> set es"
  shows "ev_Seq x \<le> lastSeq (foldl (\<lambda>q e. snd (apply_ev e q)) p es)"
proof -
  have mono: "lastSeq q \<le> lastSeq (foldl (\<lambda>q e. snd (apply_ev e q)) q es)" if "\<forall>e \<in> set es. good e" for q es
    using that
  proof (induction es arbitrary: q)
    case (Cons e es)
    have "lastSeq q \<le> lastSeq (snd (apply_ev e q))" using Cons.prems by (simp add: apply_seq)
    also have "\<dots> \<le> lastSeq (foldl (\<lambda>q e. snd (apply_ev e q)) (snd (apply_ev e q)) es)"
      using Cons by simp
    finally show ?case by simp
  qed simp
  show ?thesis
    using assms
  proof (induction es arbitrary: p)
    case (Cons e es)
    then show ?case
      using mono [of es "snd (apply_ev e p)"] by (auto simp: apply_seq)
  qed simp
qed

text \<open>
  Refreshing a projection of a prefix of the log, from a state that had seen nothing before, asks
  for exactly the owned events of the rest and ends at the projection of the whole log.
\<close>

lemma catch_up:
  assumes srt: "sorted_wrt (<) (map ev_Seq (pre @ post))"
    and pos: "\<forall>e \<in> set (pre @ post). lastSeq p < ev_Seq e"
    and good: "\<forall>e \<in> set (own types (pre @ post)). good e"
  shows "applyAll apply_ev (filter (matchesFilter (tailFilter types (lastSeq (replay apply_ev types pre p)))) (pre @ post))
      (replay apply_ev types pre p) = (Inr (), replay apply_ev types (pre @ post) p)"
proof -
  let ?n = "lastSeq (replay apply_ev types pre p)"
  have gpre: "\<forall>e \<in> set (own types pre). good e" and gpost: "\<forall>e \<in> set (own types post). good e"
    using good by auto
  have old: "ev_Seq x \<le> ?n" if "x \<in> set (own types pre)" for x
    using lastSeq_foldl_ge [OF gpre that] by (simp add: replay_def)
  have new: "?n < ev_Seq y" if "y \<in> set post" for y
  proof -
    have "\<forall>e \<in> set (own types pre). good e \<and> ev_Seq e \<le> ev_Seq y - 1"
      using gpre srt that by (fastforce simp: set_own sorted_wrt_append)
    moreover have "lastSeq p \<le> ev_Seq y - 1" using pos that by fastforce
    ultimately have "?n \<le> ev_Seq y - 1" unfolding replay_def by (rule lastSeq_foldl)
    then show ?thesis by simp
  qed
  have "filter (matchesFilter (tailFilter types ?n)) pre = []"
    using old by (force simp: filter_empty_conv matchesFilter_tail types_nonempty set_own)
  moreover have "filter (matchesFilter (tailFilter types ?n)) post = own types post"
    using new unfolding own_def by (intro filter_cong) (auto simp: matchesFilter_tail types_nonempty)
  ultimately have "filter (matchesFilter (tailFilter types ?n)) (pre @ post) = own types post"
    by simp
  then show ?thesis
    using applyAll_good [OF gpost] by (simp add: replay_append) (simp add: replay_def)
qed

text \<open>An up-to-date projection is not changed by a refresh.\<close>

lemma up_to_date:
  assumes "sorted_wrt (<) (map ev_Seq es)" and "\<forall>e \<in> set es. lastSeq p < ev_Seq e"
    and "\<forall>e \<in> set (own types es). good e"
  shows "applyAll apply_ev (filter (matchesFilter (tailFilter types (lastSeq (replay apply_ev types es p)))) es)
      (replay apply_ev types es p) = (Inr (), replay apply_ev types es p)"
  using catch_up [of es "[]" p] assms by simp

end

end
