(* ===== verification/Rules_Engine.thy ===== *)
theory Rules_Engine
  imports Rules_Diff Rules_Match Event_Sourcing
begin

text \<open>
  \<open>internal/rules\<close>: the types (\<open>types.go\<close>), validation (\<open>schema.go\<close>), loading
  (\<open>loader.go\<close>), example runs (\<open>examples.go\<close>) and the engine itself (\<open>engine.go\<close>). YAML
  decoding, compiled JSON schemas, SHA-256, the file system and the environment are fields of the
  engine's state that the operations call. The lemmas show that \<open>Save\<close> and \<open>Reactivate\<close> add
  exactly one version, close the previous one and serve the new one from the cache, and that a
  rejected edit leaves store and cache alone.
\<close>

section \<open>Types\<close>

record RegistryEntry =
  re_RuleID :: string
  re_RuleType :: string
  re_Path :: string
  re_Domain :: string
  re_Owner :: string

record Example =
  ex_Name :: string
  ex_Input :: gmap
  ex_Expected :: gmap

record Rule =
  ru_RuleID :: string
  ru_RuleType :: string
  ru_Version :: int64
  ru_Domain :: string
  ru_Description :: string
  ru_Rationale :: string
  ru_Owner :: string
  ru_LastReviewed :: string
  ru_Content :: gmap
  ru_Raw :: string
  ru_Examples :: "Example list"
  ru_EffectiveFrom :: instant

type_synonym Evaluator = "gmap \<Rightarrow> gmap \<Rightarrow> gmap res"

record Summary =
  su_RuleID :: string
  su_RuleType :: string
  su_Domain :: string
  su_Owner :: string
  su_Path :: string
  su_Description :: string
  su_Version :: int64
  su_LastReviewed :: string

record Decision =
  de_RuleID :: string
  de_Version :: int64
  de_Input :: gmap
  de_Output :: gmap
  de_AppliedAt :: instant
  de_ApplicationID :: string

datatype exampleError = NoError | NoEvaluatorFor string | EvaluatorError err | Mismatch mismatch

record ExampleResult =
  er_Name :: string
  er_Passed :: bool
  er_Expected :: gmap
  er_Actual :: "gmap option"
  er_Error :: exampleError

record SaveOptions =
  so_Author :: string
  so_ChangeNote :: string
  so_AllowFailingExamples :: bool

record SaveResult =
  sr_Version :: int64
  sr_Previous :: int64
  sr_Examples :: "ExampleResult list"
  sr_Diff :: string

text \<open>
  The state of an \<open>Engine\<close>. Outside code: \<open>en_canon\<close> decodes a YAML document to the
  JSON-compatible map \<open>canonicalize\<close> returns (or the parse error's text), each schema returns
  the text of its validation error, \<open>en_hash\<close> is SHA-256 in hexadecimal, \<open>en_commit\<close> the
  environment variable \<open>SOURCE_COMMIT\<close>, \<open>en_registryFile\<close> the decoded \<open>registry.yaml\<close> and
  \<open>en_readFile\<close> the content of the rule file a registry entry's path resolves to.
\<close>

record engine = memstore +
  en_schemaErr :: "string option"
  en_schemas :: "(string \<times> (gmap \<Rightarrow> string option)) list"
  en_canon :: "string \<Rightarrow> string + gmap"
  en_hash :: "string \<Rightarrow> string"
  en_commit :: string
  en_registryFile :: "RegistryEntry list res"
  en_readFile :: "string \<Rightarrow> string + string"
  en_registry :: "RegistryEntry list"
  en_registryByID :: "(string \<times> RegistryEntry) list"
  en_cache :: "(string \<times> Rule) list"
  en_evaluators :: "(string \<times> Evaluator) list"

section \<open>Validation\<close>

definition strField :: "gmap \<Rightarrow> string \<Rightarrow> string" where
  "strField m key = strOr (gget m key)"

definition intField :: "gmap \<Rightarrow> string \<Rightarrow> int64" where
  "intField m key = (case gget m key of GFloat f \<Rightarrow> float_to_int64 f | _ \<Rightarrow> 0)"

definition exampleFromItem :: "gval \<Rightarrow> Example" where
  "exampleFromItem item =
     (let m = (case asMap item of Some m \<Rightarrow> m | None \<Rightarrow> [])
      in \<lparr>ex_Name = strField m ''name'',
          ex_Input = (case asMap (gget m ''input'') of Some i \<Rightarrow> i | None \<Rightarrow> []),
          ex_Expected = (case asMap (gget m ''expected'') of Some x \<Rightarrow> x | None \<Rightarrow> [])\<rparr>)"

definition examplesFromContent :: "gmap \<Rightarrow> Example list" where
  "examplesFromContent content =
     (case asList (gget content ''examples'') of Some raw \<Rightarrow> map exampleFromItem raw | None \<Rightarrow> [])"

definition TrimPrefix :: "string \<Rightarrow> string \<Rightarrow> string" where
  "TrimPrefix s p = (if take (length p) s = p then drop (length p) s else s)"

definition flattenSchemaError :: "string \<Rightarrow> string list" where
  "flattenSchemaError text =
     (let out = filter (\<lambda>l. l \<noteq> [])
                  (map (\<lambda>l. TrimPrefix (TrimSpace l) ''- '') (splitOn (CHR 0x0A) text))
      in if out = [] then [text] else out)"

definition ruleFromContent :: "string \<Rightarrow> gmap \<Rightarrow> Rule" where
  "ruleFromContent raw content =
     \<lparr>ru_RuleID = strField content ''rule_id'',
      ru_RuleType = strField content ''rule_type'',
      ru_Version = intField content ''version'',
      ru_Domain = strField content ''domain'',
      ru_Description = strField content ''description'',
      ru_Rationale = strField content ''rationale'',
      ru_Owner = strField content ''owner'',
      ru_LastReviewed = strField content ''last_reviewed'',
      ru_Content = content,
      ru_Raw = raw,
      ru_Examples = examplesFromContent content,
      ru_EffectiveFrom = zeroTime\<rparr>"

definition Validate :: "'z engine_scheme \<Rightarrow> string \<Rightarrow> Rule res" where
  "Validate s raw =
     (case en_schemaErr s of
        Some t \<Rightarrow> Inl (ERules (SchemaLoad t))
      | None \<Rightarrow>
          (case en_canon s raw of
             Inl t \<Rightarrow> Inl (ERules (RulesValidation [''yaml parse error: '' @ t]))
           | Inr content \<Rightarrow>
               let ruleType = strOr (gget content ''rule_type'');
                   problems =
                     (case map_of (en_schemas s) ruleType of
                        None \<Rightarrow> [''unknown rule_type '' @ ruleType]
                      | Some schema \<Rightarrow>
                          (case schema content of None \<Rightarrow> [] | Some t \<Rightarrow> flattenSchemaError t))
               in if problems \<noteq> [] then Inl (ERules (RulesValidation problems))
                  else Inr (ruleFromContent raw content)))"

section \<open>Examples\<close>

definition runExample :: "Evaluator option \<Rightarrow> Rule \<Rightarrow> Example \<Rightarrow> ExampleResult" where
  "runExample ev rule ex =
     (let res = \<lparr>er_Name = ex_Name ex, er_Passed = False, er_Expected = ex_Expected ex,
                 er_Actual = None, er_Error = NoError\<rparr>
      in case ev of
           None \<Rightarrow> res\<lparr>er_Error := NoEvaluatorFor (ru_RuleType rule)\<rparr>
         | Some f \<Rightarrow>
             (case f (ru_Content rule) (ex_Input ex) of
                Inl e \<Rightarrow> res\<lparr>er_Error := EvaluatorError e\<rparr>
              | Inr actual \<Rightarrow>
                  (case MatchExpected (ex_Expected ex) actual of
                     None \<Rightarrow> res\<lparr>er_Actual := Some actual, er_Passed := True\<rparr>
                   | Some msg \<Rightarrow> res\<lparr>er_Actual := Some actual, er_Error := Mismatch msg\<rparr>)))"

definition getEvaluator :: "'z engine_scheme \<Rightarrow> string \<Rightarrow> Evaluator option" where
  "getEvaluator s ruleType = map_of (en_evaluators s) ruleType"

definition RunExamples :: "'z engine_scheme \<Rightarrow> Rule \<Rightarrow> ExampleResult list" where
  "RunExamples s rule = map (runExample (getEvaluator s (ru_RuleType rule)) rule) (ru_Examples rule)"

definition countFailed :: "ExampleResult list \<Rightarrow> int" where
  "countFailed results = int (length (filter (\<lambda>r. \<not> er_Passed r) results))"

section \<open>Loading\<close>

text \<open>\<open>rewriteVersionLine\<close>: every line that starts with \<open>version:\<close> is replaced, else one is added.\<close>

definition isVersionLine :: "string \<Rightarrow> bool" where
  "isVersionLine l \<longleftrightarrow> take 8 l = ''version:''"

definition rewriteVersionLine :: "string \<Rightarrow> int64 \<Rightarrow> string" where
  "rewriteVersionLine raw version =
     (let newLine = ''version: '' @ FormatInt version;
          ls = splitOn (CHR 0x0A) raw
      in if list_ex isVersionLine ls
         then joinWith [CHR 0x0A] (map (\<lambda>l. if isVersionLine l then newLine else l) ls)
         else newLine @ [CHR 0x0A] @ raw)"

fun openVersion :: "RuleVersion option \<Rightarrow> RuleVersion list \<Rightarrow> RuleVersion option" where
  "openVersion best [] = best"
| "openVersion best (v # vs) =
     (if rv_EffectiveTo v = None \<and> (case best of None \<Rightarrow> True | Some b \<Rightarrow> rv_Version b < rv_Version v)
      then openVersion (Some v) vs else openVersion best vs)"

definition sourceCommit :: "'z engine_scheme \<Rightarrow> string" where
  "sourceCommit s = (if en_commit s \<noteq> '''' then en_commit s else ''local'')"

definition newRuleVersion ::
  "'z engine_scheme \<Rightarrow> string \<Rightarrow> int64 \<Rightarrow> string \<Rightarrow> string \<Rightarrow> string \<Rightarrow> string \<Rightarrow> RuleVersion" where
  "newRuleVersion s ruleID version ruleType raw author note =
     \<lparr>rv_RuleID = ruleID, rv_Version = version, rv_RuleType = ruleType, rv_Content = raw,
      rv_ContentHash = en_hash s raw, rv_SourceCommit = sourceCommit s, rv_Author = author,
      rv_ChangeNote = note, rv_EffectiveFrom = now s, rv_EffectiveTo = None,
      rv_CreatedAt = zeroTime\<rparr>"

text \<open>
  One turn of the first loop of \<open>LoadFromDisk\<close>: the problem found, if any, or the first version
  inserted for a rule that has none.
\<close>

definition loadEntry :: "RegistryEntry \<Rightarrow> ('z engine_scheme, string list) oper" where
  "loadEntry entry =
     bindE (getE (\<lambda>s. en_readFile s (re_Path entry))) (\<lambda>file.
     case file of
       Inl t \<Rightarrow> returnE [re_RuleID entry @ '': reading: '' @ t]
     | Inr raw \<Rightarrow>
         bindE (getE (\<lambda>s. Validate s raw)) (\<lambda>validated.
         case validated of
           Inl e \<Rightarrow> returnE [re_RuleID entry @ '': not valid'']
         | Inr rule \<Rightarrow>
             if ru_RuleID rule \<noteq> re_RuleID entry then
               returnE [re_RuleID entry @ '': rule_id in file is '' @ ru_RuleID rule]
             else if ru_RuleType rule \<noteq> re_RuleType entry then
               returnE [re_RuleID entry @ '': rule_type in file is '' @ ru_RuleType rule]
             else
               bindE (ListRuleVersions (re_RuleID entry)) (\<lambda>versions.
               if versions = [] then
                 bindE (getE (\<lambda>s. newRuleVersion s (re_RuleID entry) 1 (re_RuleType entry) raw
                                     ''system'' ''initial load from disk'')) (\<lambda>v.
                 bindE (ctxE ''rules: inserting initial version'' (InsertRuleVersion v)) (\<lambda>_.
                 returnE []))
               else returnE [])))"

definition warmEntry :: "RegistryEntry \<Rightarrow> ('z engine_scheme, unit) oper" where
  "warmEntry entry =
     bindE (ListRuleVersions (re_RuleID entry)) (\<lambda>versions.
     case openVersion None versions of
       None \<Rightarrow> throwE (ERules (NoOpenVersion (re_RuleID entry)))
     | Some live \<Rightarrow>
         bindE (getE (\<lambda>s. ctxR ''rules: warming cache'' (Validate s (rv_Content live)))) (\<lambda>r.
         bindE (liftE r) (\<lambda>rule.
         modifyE (\<lambda>s. s\<lparr>en_cache := AList.update (re_RuleID entry)
                         (rule\<lparr>ru_EffectiveFrom := rv_EffectiveFrom live\<rparr>) (en_cache s)\<rparr>))))"

definition LoadFromDisk :: "('z engine_scheme, unit) oper" where
  "LoadFromDisk =
     bindE (getE en_schemaErr) (\<lambda>se.
     case se of
       Some t \<Rightarrow> throwE (ERules (SchemaLoad t))
     | None \<Rightarrow>
         bindE (getE en_registryFile) (\<lambda>rf.
         bindE (liftE rf) (\<lambda>entries.
         bindE (guardE (entries \<noteq> []) (ERules EmptyRegistry)) (\<lambda>_.
         bindE (modifyE (\<lambda>s. s\<lparr>en_registry := entries,
             en_registryByID := fold (\<lambda>e m. AList.update (re_RuleID e) e m) entries []\<rparr>)) (\<lambda>_.
         bindE (mapE loadEntry entries) (\<lambda>pss.
         bindE (guardE (concat pss = []) (ERules (LoadProblems (concat pss)))) (\<lambda>_.
         foreachE entries warmEntry)))))))"

section \<open>The engine\<close>

definition RegisterEvaluator :: "string \<Rightarrow> Evaluator \<Rightarrow> ('z engine_scheme, unit) oper" where
  "RegisterEvaluator ruleType ev =
     modifyE (\<lambda>s. s\<lparr>en_evaluators := AList.update ruleType ev (en_evaluators s)\<rparr>)"

definition GetRule :: "'z engine_scheme \<Rightarrow> string \<Rightarrow> Rule res" where
  "GetRule s ruleID = ofOption (Ctx (''rules: '' @ ruleID) ErrNotFound) (map_of (en_cache s) ruleID)"

definition GetContent :: "'z engine_scheme \<Rightarrow> string \<Rightarrow> (gmap \<times> int64) res" where
  "GetContent s ruleID = bindR (GetRule s ruleID) (\<lambda>r. Inr (ru_Content r, ru_Version r))"

definition summaryOf :: "'z engine_scheme \<Rightarrow> RegistryEntry \<Rightarrow> Summary" where
  "summaryOf s entry =
     (let r = map_of (en_cache s) (re_RuleID entry)
      in \<lparr>su_RuleID = re_RuleID entry, su_RuleType = re_RuleType entry, su_Domain = re_Domain entry,
          su_Owner = re_Owner entry, su_Path = re_Path entry,
          su_Description = (case r of None \<Rightarrow> '''' | Some x \<Rightarrow> ru_Description x),
          su_Version = (case r of None \<Rightarrow> 0 | Some x \<Rightarrow> ru_Version x),
          su_LastReviewed = (case r of None \<Rightarrow> '''' | Some x \<Rightarrow> ru_LastReviewed x)\<rparr>)"

definition ListRules :: "('z engine_scheme, Summary list) oper" where
  "ListRules = getE (\<lambda>s. map (summaryOf s) (en_registry s))"

definition Versions :: "string \<Rightarrow> ('z engine_scheme, RuleVersion list) oper" where
  "Versions ruleID = ListRuleVersions ruleID"

definition Evaluate ::
  "string \<Rightarrow> string \<Rightarrow> string \<Rightarrow> gmap \<Rightarrow> ('z engine_scheme, Decision) oper" where
  "Evaluate ruleID entityType entityID input =
     bindE (getE (\<lambda>s. GetRule s ruleID)) (\<lambda>r.
     bindE (liftE r) (\<lambda>rule.
     bindE (getE (\<lambda>s. getEvaluator s (ru_RuleType rule))) (\<lambda>ev0.
     bindE (liftE (ofOption (ERules (NoEvaluator (ru_RuleType rule))) ev0)) (\<lambda>ev.
     bindE (liftE (ctxR ''rules: evaluating'' (ev (ru_Content rule) input))) (\<lambda>output.
     bindE (getE now) (\<lambda>n.
     bindE (liftE (ofOption (EEncode ''rules: marshaling inputs'') (marshal (GMap input)))) (\<lambda>inputsJSON.
     bindE (liftE (ofOption (EEncode ''rules: marshaling outcome'') (marshal (GMap output)))) (\<lambda>outcomeJSON.
     bindE (ctxE ''rules: recording application'' (InsertRuleApplication
        \<lparr>ra_ID = '''', ra_RuleID = ru_RuleID rule, ra_Version = ru_Version rule,
         ra_EntityType = entityType, ra_EntityID = entityID, ra_Inputs = inputsJSON,
         ra_Outcome = outcomeJSON, ra_AppliedAt = n, ra_RecordedAt = zeroTime\<rparr>)) (\<lambda>app.
     returnE \<lparr>de_RuleID = ru_RuleID rule, de_Version = ru_Version rule, de_Input = input,
              de_Output = output, de_AppliedAt = n, de_ApplicationID = ra_ID app\<rparr>)))))))))"

text \<open>The loop of \<open>latestVersion\<close>: the highest number, and the content of the last open version.\<close>

fun latestLoop :: "int64 \<Rightarrow> string \<Rightarrow> RuleVersion list \<Rightarrow> int64 \<times> string" where
  "latestLoop maxVersion openRaw [] = (maxVersion, openRaw)"
| "latestLoop maxVersion openRaw (v # vs) =
     latestLoop (if rv_Version v > maxVersion then rv_Version v else maxVersion)
       (if rv_EffectiveTo v = None then rv_Content v else openRaw) vs"

definition latestVersion :: "string \<Rightarrow> ('z engine_scheme, int64 \<times> string) oper" where
  "latestVersion ruleID =
     bindE (ListRuleVersions ruleID) (\<lambda>versions. returnE (latestLoop 0 '''' versions))"

definition Save :: "string \<Rightarrow> string \<Rightarrow> SaveOptions \<Rightarrow> ('z engine_scheme, SaveResult) oper" where
  "Save ruleID raw opts =
     bindE (getE (\<lambda>s. map_of (en_registryByID s) ruleID)) (\<lambda>en.
     bindE (liftE (ofOption (ERules (NotRegistered ruleID)) en)) (\<lambda>entry.
     bindE (getE (\<lambda>s. Validate s raw)) (\<lambda>validated.
     bindE (liftE validated) (\<lambda>rule.
     bindE (guardE (ru_RuleID rule = ruleID)
        (ERules (RulesValidation [''rule_id in document does not match target rule_id '' @ ruleID]))) (\<lambda>_.
     bindE (getE (\<lambda>s. RunExamples s rule)) (\<lambda>results.
     bindE (guardE (so_AllowFailingExamples opts \<or> list_all er_Passed results)
        (ERules (ExamplesFailed (countFailed results)))) (\<lambda>_.
     bindE (latestVersion ruleID) (\<lambda>(prevVersion, prevRaw).
     (let newVersion = wrap64 (prevVersion + 1);
          newRaw = rewriteVersionLine raw newVersion
      in bindE (getE now) (\<lambda>n.
         bindE (getE (\<lambda>s. newRuleVersion s ruleID newVersion (re_RuleType entry) newRaw
                            (so_Author opts) (so_ChangeNote opts))) (\<lambda>v.
         bindE (ctxE ''rules: saving'' (InsertRuleVersion v)) (\<lambda>_.
         bindE (getE (\<lambda>s. ctxR ''rules: re-validating rewritten version'' (Validate s newRaw))) (\<lambda>again.
         bindE (liftE again) (\<lambda>cacheRule.
         bindE (modifyE (\<lambda>s. s\<lparr>en_cache := AList.update ruleID
                               (cacheRule\<lparr>ru_EffectiveFrom := n\<rparr>) (en_cache s)\<rparr>)) (\<lambda>_.
         returnE \<lparr>sr_Version = newVersion, sr_Previous = prevVersion, sr_Examples = results,
                  sr_Diff = lineDiff prevRaw newRaw\<rparr>)))))))))))))))"

definition Reactivate :: "string \<Rightarrow> int64 \<Rightarrow> string \<Rightarrow> ('z engine_scheme, SaveResult) oper" where
  "Reactivate ruleID version note =
     bindE (getE (\<lambda>s. map_of (en_registryByID s) ruleID)) (\<lambda>en.
     bindE (liftE (ofOption (ERules (NotRegistered ruleID)) en)) (\<lambda>entry.
     bindE (ctxE ''rules: fetching version'' (GetRuleVersion ruleID version)) (\<lambda>target.
     bindE (latestVersion ruleID) (\<lambda>(prevVersion, prevRaw).
     (let newVersion = wrap64 (prevVersion + 1);
          newRaw = rewriteVersionLine (rv_Content target) newVersion
      in bindE (getE (\<lambda>s. Validate s newRaw)) (\<lambda>validated.
         bindE (liftE validated) (\<lambda>rule.
         bindE (getE now) (\<lambda>n.
         bindE (getE (\<lambda>s. newRuleVersion s ruleID newVersion (re_RuleType entry) newRaw ''''
                   (''reactivated version '' @ FormatInt version @ '': '' @ note))) (\<lambda>v.
         bindE (ctxE ''rules: reactivating'' (InsertRuleVersion v)) (\<lambda>_.
         (let rule' = rule\<lparr>ru_EffectiveFrom := n\<rparr>
          in bindE (modifyE (\<lambda>s. s\<lparr>en_cache := AList.update ruleID rule' (en_cache s)\<rparr>)) (\<lambda>_.
             bindE (getE (\<lambda>s. RunExamples s rule')) (\<lambda>results.
             returnE \<lparr>sr_Version = newVersion, sr_Previous = prevVersion, sr_Examples = results,
                      sr_Diff = lineDiff prevRaw newRaw\<rparr>)))))))))))))"

section \<open>Well-formedness of the cache\<close>

text \<open>The versions the store has of a rule, and what the cache should hold for it.\<close>

definition vers :: "'z memstore_scheme \<Rightarrow> string \<Rightarrow> RuleVersion list" where
  "vers s r = getOr [] (st_versions s) r"

definition liveRule :: "'z engine_scheme \<Rightarrow> string \<Rightarrow> Rule option" where
  "liveRule s r =
     (case openVersion None (vers s r) of
        None \<Rightarrow> None
      | Some v \<Rightarrow>
          (case Validate s (rv_Content v) of
             Inl e \<Rightarrow> None
           | Inr rule \<Rightarrow> Some (rule\<lparr>ru_EffectiveFrom := rv_EffectiveFrom v\<rparr>)))"

text \<open>Every cached rule is the validated content of the open version in the store.\<close>

definition cache_live :: "'z engine_scheme \<Rightarrow> bool" where
  "cache_live s \<longleftrightarrow> (\<forall>(r, rule) \<in> set (en_cache s). r \<noteq> '''' \<longrightarrow> liveRule s r = Some rule) \<and>
     distinct (map fst (en_cache s))"


section \<open>Lemmas: validation and versions\<close>

lemma Validate_cong:
  "en_schemaErr t = en_schemaErr s \<Longrightarrow> en_canon t = en_canon s \<Longrightarrow> en_schemas t = en_schemas s \<Longrightarrow>
     Validate t = Validate s"
  by (rule ext) (simp add: Validate_def cong: option.case_cong sum.case_cong)

lemma Validate_frame [simp]:
  "Validate (s\<lparr>st_versions := x\<rparr>) = Validate s" "Validate (s\<lparr>en_cache := c\<rparr>) = Validate s"
  "Validate (s\<lparr>en_registry := g, en_registryByID := h\<rparr>) = Validate s"
  by (rule Validate_cong; simp)+

lemma RunExamples_frame [simp]:
  "RunExamples (s\<lparr>st_versions := x\<rparr>) = RunExamples s" "RunExamples (s\<lparr>en_cache := c\<rparr>) = RunExamples s"
  by (rule ext, simp add: RunExamples_def getEvaluator_def)+

lemma Validate_Raw: "Validate s raw = Inr rule \<Longrightarrow> ru_Raw rule = raw"
  by (auto simp: Validate_def ruleFromContent_def Let_def split: option.splits sum.splits if_splits)

lemma openVersion_filter:
  "openVersion best vs = openVersion best (filter (\<lambda>v. rv_EffectiveTo v = None) vs)"
  by (induction best vs rule: openVersion.induct) auto

lemma openVersion_open:
  "openVersion best vs = Some v \<Longrightarrow> best = Some v \<or> v \<in> set vs \<and> rv_EffectiveTo v = None"
  by (induction best vs rule: openVersion.induct) (auto split: if_splits)

lemma latestLoop_max: "fst (latestLoop m r vs) = fold max (map rv_Version vs) m"
  by (induction m r vs rule: latestLoop.induct) (auto simp: max_def)

lemma latestLoop_ge: "m \<le> fst (latestLoop m r vs)" "v \<in> set vs \<Longrightarrow> rv_Version v \<le> fst (latestLoop m r vs)"
proof -
  show "m \<le> fst (latestLoop m r vs)"
    by (induction m r vs rule: latestLoop.induct) (auto split: if_splits)
  show "v \<in> set vs \<Longrightarrow> rv_Version v \<le> fst (latestLoop m r vs)"
  proof (induction m r vs rule: latestLoop.induct)
    case (2 m r w vs)
    have up: "n \<le> fst (latestLoop n q us)" for n q us
      by (induction n q us rule: latestLoop.induct) (auto split: if_splits)
    show ?case
      using 2 up [of m _ vs] up [of "rv_Version w" _ vs]
      by (auto intro: order.trans simp: not_less)
  qed simp
qed

lemma newRuleVersion_simps [simp]:
  "rv_RuleID (newRuleVersion s r n t raw a c) = r" "rv_Version (newRuleVersion s r n t raw a c) = n"
  "rv_Content (newRuleVersion s r n t raw a c) = raw"
  "rv_EffectiveTo (newRuleVersion s r n t raw a c) = None"
  "rv_EffectiveFrom (newRuleVersion s r n t raw a c) = now s"
  by (simp_all add: newRuleVersion_def)

lemma Insert_vers:
  assumes "InsertRuleVersion v s = (Inr (), s')" and "rv_EffectiveTo v = None"
  obtains v' where "filter (\<lambda>v. rv_EffectiveTo v = None) (vers s' (rv_RuleID v)) = [v']"
    and "rv_Version v' = rv_Version v" "rv_Content v' = rv_Content v" "rv_EffectiveFrom v' = rv_EffectiveFrom v"
    and "mset (map (\<lambda>x. (rv_Version x, rv_Content x)) (vers s' (rv_RuleID v))) =
      add_mset (rv_Version v, rv_Content v) (mset (map (\<lambda>x. (rv_Version x, rv_Content x)) (vers s (rv_RuleID v))))"
    and "\<And>r. r \<noteq> rv_RuleID v \<Longrightarrow> vers s' r = vers s r"
    and "s' = s\<lparr>st_versions := st_versions s'\<rparr>"
proof -
  let ?vs = "vers s (rv_RuleID v)"
  let ?v = "v\<lparr>rv_CreatedAt := (if rv_CreatedAt v = zeroTime then wall s else rv_CreatedAt v)\<rparr>"
  let ?ws = "sort_key rv_Version (map (closeOpen (rv_EffectiveFrom v)) ?vs @ [?v])"
  have s': "s' = s\<lparr>st_versions := AList.update (rv_RuleID v) ?ws (st_versions s)\<rparr>"
    using assms(1) by (auto simp: InsertRuleVersion_app Let_def vers_def split: if_splits)
  have "filter (\<lambda>v. rv_EffectiveTo v = None) (map (closeOpen (rv_EffectiveFrom v)) ?vs) = []"
    by (auto simp: filter_empty_conv closeOpen_def)
  then have "filter (\<lambda>v. rv_EffectiveTo v = None) ?ws = [?v]"
    using assms(2) by (simp add: filter_sort del: filter_map)
  then show thesis
    using that [of ?v] by (simp add: s' vers_def multiset.map_comp comp_def)
qed

lemma liveRule_Insert:
  assumes "InsertRuleVersion v s = (Inr (), s')" and "rv_EffectiveTo v = None"
  shows "liveRule s' (rv_RuleID v) =
      (case Validate s (rv_Content v) of Inl e \<Rightarrow> None
       | Inr rule \<Rightarrow> Some (rule\<lparr>ru_EffectiveFrom := rv_EffectiveFrom v\<rparr>))"
    and "r \<noteq> rv_RuleID v \<Longrightarrow> liveRule s' r = liveRule s r"
proof -
  obtain v' where v': "filter (\<lambda>v. rv_EffectiveTo v = None) (vers s' (rv_RuleID v)) = [v']"
      "rv_Content v' = rv_Content v" "rv_EffectiveFrom v' = rv_EffectiveFrom v"
    and other: "\<And>r. r \<noteq> rv_RuleID v \<Longrightarrow> vers s' r = vers s r"
    and s': "s' = s\<lparr>st_versions := st_versions s'\<rparr>"
    using Insert_vers [OF assms] by blast
  have val: "Validate s' = Validate s" by (subst s') simp
  have "rv_EffectiveTo v' = None"
    using v'(1) by (auto dest: filter_eq_ConsD)
  then have "openVersion None (vers s' (rv_RuleID v)) = Some v'"
    by (subst openVersion_filter) (simp add: v')
  then show "liveRule s' (rv_RuleID v) =
      (case Validate s (rv_Content v) of Inl e \<Rightarrow> None
       | Inr rule \<Rightarrow> Some (rule\<lparr>ru_EffectiveFrom := rv_EffectiveFrom v\<rparr>))"
    by (simp add: liveRule_def v' val split: sum.split)
  show "r \<noteq> rv_RuleID v \<Longrightarrow> liveRule s' r = liveRule s r"
    by (simp add: liveRule_def other val split: option.split sum.split)
qed

section \<open>Lemmas: saving and reactivating\<close>

lemma ListRuleVersions_app: "r \<noteq> '''' \<Longrightarrow> ListRuleVersions r s = (Inr (vers s r), s)"
  by (simp add: ListRuleVersions_def op_simps vers_def)

lemma latestVersion_app:
  "r \<noteq> '''' \<Longrightarrow> latestVersion r s = (Inr (latestLoop 0 '''' (vers s r)), s)"
  by (simp add: latestVersion_def op_simps ListRuleVersions_app)

lemma Insert_frame:
  assumes "InsertRuleVersion v s = (x, s1)"
  shows "Validate s1 = Validate s" "now s1 = now s" "en_cache s1 = en_cache s"
    "RunExamples s1 = RunExamples s"
  using assms by (auto simp: InsertRuleVersion_app Let_def split: if_splits)

text \<open>
  What a successful \<open>Save\<close> does: the version inserted is the next one, with the rewritten
  document, and the cache entry is that document validated.
\<close>

lemma Save_InrE:
  assumes "Save r raw opts s = (Inr res, s')" and "r \<noteq> ''''"
  obtains entry s1 rule where
    "map_of (en_registryByID s) r = Some entry"
    "sr_Previous res = fst (latestLoop 0 '''' (vers s r))"
    "sr_Version res = wrap64 (sr_Previous res + 1)"
    "InsertRuleVersion (newRuleVersion s r (sr_Version res) (re_RuleType entry)
        (rewriteVersionLine raw (sr_Version res)) (so_Author opts) (so_ChangeNote opts)) s = (Inr (), s1)"
    "Validate s (rewriteVersionLine raw (sr_Version res)) = Inr rule"
    "s' = s1\<lparr>en_cache := AList.update r (rule\<lparr>ru_EffectiveFrom := now s\<rparr>) (en_cache s1)\<rparr>"
  using assms(1) unfolding Save_def
  by (auto simp: bindE_eq_Inr op_simps latestVersion_app [OF assms(2)] split_beta Let_def ofOption_def
      ctxE_eq_Inr Insert_frame split: option.splits if_splits intro!: that)

lemma GetRuleVersion_app:
  "GetRuleVersion r n s = (ofOption ErrNotFound (find (\<lambda>v. rv_Version v = n) (vers s r)), s)"
  by (simp add: GetRuleVersion_def op_simps vers_def)

lemma Reactivate_InrE:
  assumes "Reactivate r n note s = (Inr res, s')" and "r \<noteq> ''''"
  obtains entry target s1 rule where
    "map_of (en_registryByID s) r = Some entry" "GetRuleVersion r n s = (Inr target, s)"
    "sr_Previous res = fst (latestLoop 0 '''' (vers s r))"
    "sr_Version res = wrap64 (sr_Previous res + 1)"
    "InsertRuleVersion (newRuleVersion s r (sr_Version res) (re_RuleType entry)
        (rewriteVersionLine (rv_Content target) (sr_Version res)) ''''
        (''reactivated version '' @ FormatInt n @ '': '' @ note)) s = (Inr (), s1)"
    "Validate s (rewriteVersionLine (rv_Content target) (sr_Version res)) = Inr rule"
    "s' = s1\<lparr>en_cache := AList.update r (rule\<lparr>ru_EffectiveFrom := now s\<rparr>) (en_cache s1)\<rparr>"
  using assms(1) unfolding Reactivate_def
  by (auto simp: bindE_eq_Inr op_simps latestVersion_app [OF assms(2)] split_beta Let_def ofOption_def
      GetRuleVersion_app ctxE_eq_Inr Insert_frame split: option.splits intro!: that)

lemma Save_InlE:
  assumes "Save r raw opts s = (Inl e, s')" and "r \<noteq> ''''"
  obtains "s' = s" | rule e' where "Validate s raw = Inr rule" "ru_RuleID rule = r"
    "Validate s (rewriteVersionLine raw (wrap64 (fst (latestLoop 0 '''' (vers s r)) + 1))) = Inl e'"
    "e = Ctx ''rules: re-validating rewritten version'' e'"
proof -
  have ins: "InsertRuleVersion v s = (Inl e', s1) \<Longrightarrow> s1 = s" for v e' s1
    by (auto simp: InsertRuleVersion_app Let_def split: if_splits)
  show thesis
    using assms(1) unfolding Save_def
    by (auto simp: bindE_eq_Inl op_simps latestVersion_app [OF assms(2)] split_beta Let_def ofOption_def
        ctxE_eq_Inr ctxE_eq_Inl ctxR_def Insert_frame dest!: ins
        split: option.splits if_splits sum.splits intro: that)
qed

lemma Reactivate_Inl: "Reactivate r n note s = (Inl e, s') \<Longrightarrow> r \<noteq> '''' \<Longrightarrow> s' = s"
proof -
  assume r: "r \<noteq> ''''" and re: "Reactivate r n note s = (Inl e, s')"
  have get: "GetRuleVersion r n s = (x, s1) \<Longrightarrow> s1 = s" for x s1
    by (auto simp: GetRuleVersion_def op_simps)
  have ins: "InsertRuleVersion v s = (Inl e', s1) \<Longrightarrow> s1 = s" for v e' s1
    by (auto simp: InsertRuleVersion_app Let_def split: if_splits)
  show "s' = s"
    using re unfolding Reactivate_def
    by (auto simp: bindE_eq_Inl op_simps latestVersion_app [OF r] split_beta Let_def ofOption_def
        ctxE_eq_Inr ctxE_eq_Inl dest!: ins get split: option.splits if_splits)
qed

text \<open>Publishing: inserting an open version and caching its validated content keeps the cache live.\<close>

lemma liveRule_cache [simp]: "liveRule (s\<lparr>en_cache := c\<rparr>) r = liveRule s r"
  by (simp add: liveRule_def vers_def split: option.split sum.split)

lemma publish_live:
  assumes ins: "InsertRuleVersion v s = (Inr (), s1)" and "rv_EffectiveTo v = None"
    and val: "Validate s (rv_Content v) = Inr rule" and r: "rv_RuleID v = r"
    and s': "s' = s1\<lparr>en_cache := AList.update r (rule\<lparr>ru_EffectiveFrom := rv_EffectiveFrom v\<rparr>) (en_cache s1)\<rparr>"
  shows "liveRule s' r = Some (rule\<lparr>ru_EffectiveFrom := rv_EffectiveFrom v\<rparr>)"
    and "map_of (en_cache s') r = Some (rule\<lparr>ru_EffectiveFrom := rv_EffectiveFrom v\<rparr>)"
    and "q \<noteq> r \<Longrightarrow> liveRule s' q = liveRule s q" and "q \<noteq> r \<Longrightarrow> map_of (en_cache s') q = map_of (en_cache s) q"
    and "cache_live s \<Longrightarrow> cache_live s'"
proof -
  note live = liveRule_Insert [OF ins assms(2)] Insert_frame [OF ins]
  show l: "liveRule s' r = Some (rule\<lparr>ru_EffectiveFrom := rv_EffectiveFrom v\<rparr>)"
    using live val r by (simp add: s')
  show "map_of (en_cache s') r = Some (rule\<lparr>ru_EffectiveFrom := rv_EffectiveFrom v\<rparr>)"
    by (simp add: s')
  show o: "q \<noteq> r \<Longrightarrow> liveRule s' q = liveRule s q" for q
    using live r by (simp add: s')
  show "q \<noteq> r \<Longrightarrow> map_of (en_cache s') q = map_of (en_cache s) q"
    using live by (simp add: s')
  assume c: "cache_live s"
  then have d: "distinct (map fst (en_cache s))" by (simp add: cache_live_def)
  then have d': "distinct (map fst (en_cache s'))" using live by (simp add: s' distinct_update)
  have "liveRule s' q = Some u" if "(q, u) \<in> set (en_cache s')" and "q \<noteq> ''''" for q u
  proof (cases "q = r")
    case True
    moreover have "map_of (en_cache s') q = Some u" using that(1) d' by simp
    ultimately show ?thesis using l by (simp add: s')
  next
    case False
    have "map_of (en_cache s') q = Some u" using that(1) d' by simp
    with False live have "map_of (en_cache s) q = Some u" by (simp add: s')
    then show ?thesis using c False that(2) o by (auto simp: cache_live_def dest: map_of_SomeD)
  qed
  with d' show "cache_live s'" by (auto simp: cache_live_def)
qed

section \<open>Lemmas: loading\<close>

lemma loadEntry_keeps:
  assumes "loadEntry entry s = (x, s')" and "re_RuleID entry \<noteq> ''''"
  shows "en_registry s' = en_registry s \<and> (\<forall>q. vers s q \<noteq> [] \<longrightarrow> vers s' q = vers s q)"
proof -
  have ins: "en_registry t = en_registry s \<and> (\<forall>q. vers s q \<noteq> [] \<longrightarrow> vers t q = vers s q)"
    if "InsertRuleVersion v s = (y, t)" "rv_RuleID v = re_RuleID entry" "vers s (re_RuleID entry) = []" for v y t
    using that by (auto simp: InsertRuleVersion_app Let_def vers_def split: if_splits)
  have "s' = s \<or> (\<exists>v y. InsertRuleVersion v s = (y, s') \<and> rv_RuleID v = re_RuleID entry \<and>
      vers s (re_RuleID entry) = [])"
  proof (cases "vers s (re_RuleID entry) = []")
    case True
    show ?thesis
      using assms True
      by (cases x) (force simp: loadEntry_def bindE_eq_Inr bindE_eq_Inl op_simps ListRuleVersions_app
          ctxE_eq_Inr ctxE_eq_Inl split: sum.splits if_splits)+
  next
    case False
    then show ?thesis
      using assms by (auto simp: loadEntry_def op_simps ListRuleVersions_app split: sum.splits if_splits)
  qed
  then show ?thesis using ins by blast
qed

lemma loadAll_keeps:
  assumes "mapE loadEntry es s = (x, s')" and "\<forall>e \<in> set es. re_RuleID e \<noteq> ''''"
  shows "en_registry s' = en_registry s \<and> (\<forall>q. vers s q \<noteq> [] \<longrightarrow> vers s' q = vers s q)"
  using assms
proof (induction es arbitrary: s x s')
  case Nil
  then show ?case by (simp add: op_simps)
next
  case (Cons e es)
  obtain y s1 where y: "loadEntry e s = (y, s1)" by (cases "loadEntry e s")
  then have one: "en_registry s1 = en_registry s \<and> (\<forall>q. vers s q \<noteq> [] \<longrightarrow> vers s1 q = vers s q)"
    using loadEntry_keeps Cons.prems(2) by (metis list.set_intros(1))
  show ?case
  proof (cases y)
    case (Inl er)
    then show ?thesis using Cons.prems(1) one y by (simp add: op_simps)
  next
    case (Inr ps)
    obtain z s2 where z: "mapE loadEntry es s1 = (z, s2)" by (cases "mapE loadEntry es s1")
    have "en_registry s2 = en_registry s1 \<and> (\<forall>q. vers s1 q \<noteq> [] \<longrightarrow> vers s2 q = vers s1 q)"
      by (rule Cons.IH [OF z]) (use Cons.prems(2) in simp)
    moreover have "s' = s2"
      using Cons.prems(1) y Inr z by (cases z) (simp_all add: op_simps)
    ultimately show ?thesis using one by metis
  qed
qed

lemma warmEntry_InrE:
  assumes "warmEntry e s = (Inr (), s')" and "re_RuleID e \<noteq> ''''"
  obtains rule where "liveRule s (re_RuleID e) = Some rule"
    and "s' = s\<lparr>en_cache := AList.update (re_RuleID e) rule (en_cache s)\<rparr>"
proof -
  have "\<exists>rule. liveRule s (re_RuleID e) = Some rule \<and>
      s' = s\<lparr>en_cache := AList.update (re_RuleID e) rule (en_cache s)\<rparr>"
    using assms
    by (auto simp: warmEntry_def op_simps ListRuleVersions_app liveRule_def bindE_eq_Inr ctxR_def
        split: option.splits sum.splits)
  then show thesis using that by blast
qed

lemma vers_cache [simp]: "vers (s\<lparr>en_cache := c\<rparr>) q = vers s q"
  by (simp add: vers_def)

lemma warm_all:
  assumes "foreachE es warmEntry s = (Inr (), s')" and "\<forall>e \<in> set es. re_RuleID e \<noteq> ''''"
  shows "(\<forall>q. liveRule s' q = liveRule s q \<and> vers s' q = vers s q) \<and> en_registry s' = en_registry s \<and>
    (\<forall>q. map_of (en_cache s') q = map_of (en_cache s) q \<or> (map_of (en_cache s') q = liveRule s q)) \<and>
    (\<forall>e \<in> set es. liveRule s (re_RuleID e) \<noteq> None \<and>
       map_of (en_cache s') (re_RuleID e) = liveRule s (re_RuleID e))"
  using assms
proof (induction es arbitrary: s)
  case Nil
  then show ?case by (simp add: op_simps)
next
  case (Cons e es)
  from Cons.prems(1) obtain s1 where w: "warmEntry e s = (Inr (), s1)"
    and rest: "foreachE es warmEntry s1 = (Inr (), s')" by (auto simp: bindE_eq_Inr)
  obtain rule where rule: "liveRule s (re_RuleID e) = Some rule"
    and s1: "s1 = s\<lparr>en_cache := AList.update (re_RuleID e) rule (en_cache s)\<rparr>"
    using warmEntry_InrE [OF w] Cons.prems(2) by auto
  note IH = Cons.IH [OF rest]
  show ?case
    using IH Cons.prems(2) rule by (auto simp: s1) metis+
qed

section \<open>A sample engine\<close>

text \<open>
  A registry with one rule, its first version stored and cached, a decoder that reads every text
  but one with a leading brace after the first line, and an evaluator that returns its input.
\<close>

definition sampleContent :: gmap where
  "sampleContent = [(''rule_id'', GStr ''r''), (''rule_type'', GStr ''t'')]"

definition sampleCanon :: "string \<Rightarrow> string + gmap" where
  "sampleCanon raw = (if list_all (\<lambda>l. l \<noteq> ''{}'') (tl (splitOn (CHR 0x0A) raw)) then Inr sampleContent else Inl ''yaml'')"

definition sampleVersion :: RuleVersion where
  "sampleVersion =
     \<lparr>rv_RuleID = ''r'', rv_Version = 1, rv_RuleType = ''t'', rv_Content = ''version: 1'',
      rv_ContentHash = '''', rv_SourceCommit = ''local'', rv_Author = ''system'', rv_ChangeNote = '''',
      rv_EffectiveFrom = 0, rv_EffectiveTo = None, rv_CreatedAt = 0\<rparr>"

definition sampleEntry :: RegistryEntry where
  "sampleEntry = \<lparr>re_RuleID = ''r'', re_RuleType = ''t'', re_Path = ''p'', re_Domain = ''d'', re_Owner = ''o''\<rparr>"

definition sampleEngine :: engine where
  "sampleEngine =
     \<lparr>now = 5, listeners = [], notified = [], rand = (\<lambda>n. ''id'' @ natStr n), drawn = 0, wall = 7,
      st_events = [], st_versions = [(''r'', [sampleVersion])], st_apps = [], st_seq = 0,
      en_schemaErr = None, en_schemas = [(''t'', \<lambda>_. None)], en_canon = sampleCanon,
      en_hash = (\<lambda>_. ''h''), en_commit = '''', en_registryFile = Inr [sampleEntry],
      en_readFile = (\<lambda>_. Inr ''version: 1''), en_registry = [sampleEntry],
      en_registryByID = [(''r'', sampleEntry)],
      en_cache = [(''r'', (ruleFromContent ''version: 1'' sampleContent)\<lparr>ru_EffectiveFrom := 0\<rparr>)],
      en_evaluators = [(''t'', \<lambda>_ i. Inr i)]\<rparr>"

definition sampleOptions :: SaveOptions where
  "sampleOptions = \<lparr>so_Author = ''a'', so_ChangeNote = ''n'', so_AllowFailingExamples = False\<rparr>"

lemma sampleSave: "isl (fst (Save ''r'' ''version: 1'' sampleOptions sampleEngine)) = False"
  by code_simp

lemma sampleSave_fails: "isl (fst (Save ''r'' ''{}'' sampleOptions sampleEngine)) = True"
  by code_simp

lemma sampleReactivate: "isl (fst (Reactivate ''r'' 1 ''n'' sampleEngine)) = False"
  by code_simp

lemma sampleLoad: "isl (fst (LoadFromDisk sampleEngine)) = False"
  by code_simp

lemma sampleEngine_live: "cache_live sampleEngine"
proof -
  have "en_cache sampleEngine = [(''r'', (ruleFromContent ''version: 1'' sampleContent)\<lparr>ru_EffectiveFrom := 0\<rparr>)]"
    by (simp add: sampleEngine_def)
  moreover have "Validate sampleEngine ''version: 1'' = Inr (ruleFromContent ''version: 1'' sampleContent)"
    by (simp add: Validate_def sampleEngine_def sampleCanon_def sampleContent_def)
  moreover have "openVersion None (vers sampleEngine ''r'') = Some sampleVersion"
    by (simp add: sampleEngine_def vers_def getOr_def sampleVersion_def)
  ultimately show ?thesis
    by (simp add: cache_live_def liveRule_def) (simp add: sampleVersion_def)
qed

text \<open>The effect on the store and the cache, shared by \<open>Save\<close> and \<open>Reactivate\<close>.\<close>

lemma publish_effect:
  assumes ins: "InsertRuleVersion (newRuleVersion s r n t raw a c) s = (Inr (), s1)"
    and val: "Validate s raw = Inr rule"
    and s': "s' = s1\<lparr>en_cache := AList.update r (rule\<lparr>ru_EffectiveFrom := now s\<rparr>) (en_cache s1)\<rparr>"
  shows "mset (map (\<lambda>v. (rv_Version v, rv_Content v)) (vers s' r)) =
      add_mset (n, raw) (mset (map (\<lambda>v. (rv_Version v, rv_Content v)) (vers s r)))"
    and "\<exists>rule. map_of (en_cache s') r = Some rule \<and> liveRule s' r = Some rule
      \<and> ru_Raw rule = raw \<and> ru_EffectiveFrom rule = now s"
    and "\<forall>q. q \<noteq> r \<longrightarrow> vers s' q = vers s q \<and> map_of (en_cache s') q = map_of (en_cache s) q"
    and "cache_live s \<Longrightarrow> cache_live s'"
proof -
  let ?v = "newRuleVersion s r n t raw a c"
  have pub: "liveRule s' r = Some (rule\<lparr>ru_EffectiveFrom := now s\<rparr>)"
      "map_of (en_cache s') r = Some (rule\<lparr>ru_EffectiveFrom := now s\<rparr>)"
      "q \<noteq> r \<Longrightarrow> map_of (en_cache s') q = map_of (en_cache s) q" for q
    using publish_live [OF ins, of rule r s'] val s' by simp_all
  show "mset (map (\<lambda>v. (rv_Version v, rv_Content v)) (vers s' r)) =
      add_mset (n, raw) (mset (map (\<lambda>v. (rv_Version v, rv_Content v)) (vers s r)))"
    by (rule Insert_vers [OF ins]) (simp_all add: s')
  show "\<exists>rule. map_of (en_cache s') r = Some rule \<and> liveRule s' r = Some rule
      \<and> ru_Raw rule = raw \<and> ru_EffectiveFrom rule = now s"
    using pub(1,2) Validate_Raw [OF val] by simp
  have "vers s' q = vers s q" if "q \<noteq> r" for q
    by (rule Insert_vers [OF ins]) (use that in \<open>simp_all add: s'\<close>)
  then show "\<forall>q. q \<noteq> r \<longrightarrow> vers s' q = vers s q \<and> map_of (en_cache s') q = map_of (en_cache s) q"
    using pub(3) by blast
  show "cache_live s \<Longrightarrow> cache_live s'"
    using publish_live(5) [OF ins, of rule r s'] val s' by simp
qed

section \<open>Properties\<close>

text \<open>The highest number of a stored version, 0 when there is none.\<close>

definition highestVersion :: "RuleVersion list \<Rightarrow> int64" where
  "highestVersion vs = Max (insert 0 (set (map rv_Version vs)))"

lemma latestLoop_highest: "fst (latestLoop 0 raw vs) = highestVersion vs"
  using Max.set_eq_fold [of 0 "map rv_Version vs"] by (simp add: latestLoop_max highestVersion_def)

text \<open>C8: A successful \<open>Save\<close> stores exactly one more version of the rule. Its number is one above the highest
  number of a stored version (1 for the first one), its content is the submitted document with its version line
  rewritten to that number; the cache then serves the validated content of that version, effective from the
  current simulated time, which is the open version of the store; no other rule is touched.\<close>

theorem save_publishes:
  assumes "Save r raw opts s = (Inr res, s')" and "r \<noteq> ''''"
  shows "sr_Previous res = highestVersion (vers s r)
    \<and> sr_Version res = wrap64 (highestVersion (vers s r) + 1)
    \<and> mset (map (\<lambda>v. (rv_Version v, rv_Content v)) (vers s' r)) =
        add_mset (sr_Version res, rewriteVersionLine raw (sr_Version res))
          (mset (map (\<lambda>v. (rv_Version v, rv_Content v)) (vers s r)))
    \<and> (\<exists>rule. map_of (en_cache s') r = Some rule \<and> liveRule s' r = Some rule
          \<and> ru_Raw rule = rewriteVersionLine raw (sr_Version res) \<and> ru_EffectiveFrom rule = now s)
    \<and> (\<forall>q. q \<noteq> r \<longrightarrow> vers s' q = vers s q \<and> map_of (en_cache s') q = map_of (en_cache s) q)"
  by (rule Save_InrE [OF assms]) (intro conjI publish_effect; auto simp: latestLoop_highest)

theorem save_publishes_witness:
  "\<exists>res s'. Save ''r'' ''version: 1'' sampleOptions sampleEngine = (Inr res, s')
    \<and> (\<exists>rule. map_of (en_cache s') ''r'' = Some rule \<and> ru_EffectiveFrom rule = 5)"
proof -
  obtain res s' where sv: "Save ''r'' ''version: 1'' sampleOptions sampleEngine = (Inr res, s')"
    using succeeds [OF sampleSave] by blast
  moreover have "now sampleEngine = 5" by (simp add: sampleEngine_def)
  ultimately show ?thesis using save_publishes [OF sv] by auto
qed

text \<open>Reactivating a stored version publishes its content again as a new version with the same
  guarantees as \<open>Save\<close>, and when it fails neither the store nor the cache has changed.\<close>

theorem reactivate_publishes:
  assumes "r \<noteq> ''''"
  shows "case Reactivate r n note s of
      (Inl e, s') \<Rightarrow> s' = s
    | (Inr res, s') \<Rightarrow> (\<exists>target. GetRuleVersion r n s = (Inr target, s)
        \<and> sr_Previous res = highestVersion (vers s r)
        \<and> sr_Version res = wrap64 (highestVersion (vers s r) + 1)
        \<and> mset (map (\<lambda>v. (rv_Version v, rv_Content v)) (vers s' r)) =
            add_mset (sr_Version res, rewriteVersionLine (rv_Content target) (sr_Version res))
              (mset (map (\<lambda>v. (rv_Version v, rv_Content v)) (vers s r)))
        \<and> (\<exists>rule. map_of (en_cache s') r = Some rule \<and> liveRule s' r = Some rule
              \<and> ru_Raw rule = rewriteVersionLine (rv_Content target) (sr_Version res)
              \<and> ru_EffectiveFrom rule = now s)
        \<and> (\<forall>q. q \<noteq> r \<longrightarrow> vers s' q = vers s q \<and> map_of (en_cache s') q = map_of (en_cache s) q))"
proof (cases "Reactivate r n note s")
  case (Pair x s')
  show ?thesis
  proof (cases x)
    case (Inl e)
    with Pair Reactivate_Inl assms show ?thesis by fastforce
  next
    case (Inr res)
    with Pair have re: "Reactivate r n note s = (Inr res, s')" by simp
    obtain entry target s1 rule where *: "map_of (en_registryByID s) r = Some entry"
        "GetRuleVersion r n s = (Inr target, s)" "sr_Previous res = fst (latestLoop 0 '''' (vers s r))"
        "sr_Version res = wrap64 (sr_Previous res + 1)"
        and ins: "InsertRuleVersion (newRuleVersion s r (sr_Version res) (re_RuleType entry)
          (rewriteVersionLine (rv_Content target) (sr_Version res)) ''''
          (''reactivated version '' @ FormatInt n @ '': '' @ note)) s = (Inr (), s1)"
        and val: "Validate s (rewriteVersionLine (rv_Content target) (sr_Version res)) = Inr rule"
        and s': "s' = s1\<lparr>en_cache := AList.update r (rule\<lparr>ru_EffectiveFrom := now s\<rparr>) (en_cache s1)\<rparr>"
      by (rule Reactivate_InrE [OF re assms])
    show ?thesis
      unfolding re prod.case sum.case
      by (intro exI [of _ target] conjI publish_effect [OF ins val s'] *(2)) (simp_all add: * latestLoop_highest)
  qed
qed

theorem reactivate_publishes_witness:
  "\<exists>res s'. Reactivate ''r'' 1 ''n'' sampleEngine = (Inr res, s') \<and> sr_Version res = wrap64 (sr_Previous res + 1)"
proof -
  obtain res s' where "Reactivate ''r'' 1 ''n'' sampleEngine = (Inr res, s')"
    using succeeds [OF sampleReactivate] by blast
  then show ?thesis
    using reactivate_publishes [of "''r''" sampleEngine 1 "''n''"] by auto
qed



text \<open>C10: Between the store and the cache: a reactivation, successful or refused, keeps every cached rule equal to
  the validated content of the rule's open version, and so does a \<open>Save\<close>, with one exception. A \<open>Save\<close> that
  fails because a valid document does not stay valid when its version line is rewritten to the next number can
  leave the two apart (\<open>save_can_split_store_and_cache\<close>).\<close>

theorem edits_keep_cache_live:
  assumes "cache_live s" and "r \<noteq> ''''"
  shows "(cache_live (snd (Save r raw opts s)) \<or>
      isl (fst (Save r raw opts s)) \<and> (\<exists>rule. Validate s raw = Inr rule \<and> ru_RuleID rule = r) \<and>
      isl (Validate s (rewriteVersionLine raw (wrap64 (highestVersion (vers s r) + 1))))) \<and>
    cache_live (snd (Reactivate r n note s))"
proof
  show "cache_live (snd (Save r raw opts s)) \<or>
      isl (fst (Save r raw opts s)) \<and> (\<exists>rule. Validate s raw = Inr rule \<and> ru_RuleID rule = r) \<and>
      isl (Validate s (rewriteVersionLine raw (wrap64 (highestVersion (vers s r) + 1))))"
  proof (cases "Save r raw opts s")
    case (Pair x s')
    then show ?thesis
    proof (cases x)
      case (Inl e)
      with Pair have sv: "Save r raw opts s = (Inl e, s')" by simp
      show ?thesis
        by (rule Save_InlE [OF sv assms(2)]) (use assms(1) Pair Inl in \<open>simp_all add: latestLoop_highest\<close>)
    next
      case (Inr res)
      with Pair have sv: "Save r raw opts s = (Inr res, s')" by simp
      have "cache_live s'"
        by (rule Save_InrE [OF sv assms(2)]) (rule publish_effect(4), assumption+, rule assms(1))
      then show ?thesis by (simp add: sv)
    qed
  qed
  show "cache_live (snd (Reactivate r n note s))"
  proof (cases "Reactivate r n note s")
    case (Pair x s')
    then show ?thesis
    proof (cases x)
      case (Inl e)
      with Pair Reactivate_Inl assms show ?thesis by fastforce
    next
      case (Inr res)
      with Pair have re: "Reactivate r n note s = (Inr res, s')" by simp
      show ?thesis
        unfolding re snd_conv
        by (rule Reactivate_InrE [OF re assms(2)]) (rule publish_effect(4), assumption+, rule assms(1))
    qed
  qed
qed

theorem edits_keep_cache_live_witness:
  "cache_live (snd (Save ''r'' ''version: 1'' sampleOptions sampleEngine))"
proof -
  have "\<not> isl (fst (Save ''r'' ''version: 1'' sampleOptions sampleEngine))" using sampleSave by simp
  then show ?thesis
    using edits_keep_cache_live [OF sampleEngine_live, of "''r''" "''version: 1''" sampleOptions] by simp
qed

text \<open>The exception is real: for a document in flow style (\<open>{}\<close>), which has no version line of
  its own, \<open>Save\<close> stores the rewritten text as the open version, reports an error because that
  text no longer parses, and leaves the cache serving the version the store has just closed.\<close>

theorem save_can_split_store_and_cache:
  "\<exists>(s :: engine) r raw opts. cache_live s \<and> isl (fst (Save r raw opts s)) \<and> r \<noteq> ''''
     \<and> length (vers (snd (Save r raw opts s)) r) = length (vers s r) + 1
     \<and> map_of (en_cache (snd (Save r raw opts s))) r = map_of (en_cache s) r
     \<and> map_of (en_cache s) r \<noteq> None \<and> liveRule (snd (Save r raw opts s)) r = None"
proof (intro exI conjI)
  show "isl (fst (Save ''r'' ''{}'' sampleOptions sampleEngine))" using sampleSave_fails by simp
  show "length (vers (snd (Save ''r'' ''{}'' sampleOptions sampleEngine)) ''r'') =
      length (vers sampleEngine ''r'') + 1" by code_simp
  show "map_of (en_cache sampleEngine) ''r'' \<noteq> None" by (simp add: sampleEngine_def)
  have "liveRule (snd (Save ''r'' ''{}'' sampleOptions sampleEngine)) ''r'' = None \<longleftrightarrow>
      Option.is_none (liveRule (snd (Save ''r'' ''{}'' sampleOptions sampleEngine)) ''r'')"
    by (simp add: Option.is_none_def)
  also have "\<dots>" by code_simp
  finally show "liveRule (snd (Save ''r'' ''{}'' sampleOptions sampleEngine)) ''r'' = None" .
  show "map_of (en_cache (snd (Save ''r'' ''{}'' sampleOptions sampleEngine))) ''r'' = map_of (en_cache sampleEngine) ''r''"
    by code_simp
qed (simp_all add: sampleEngine_live)

text \<open>C11: After a successful \<open>LoadFromDisk\<close> the registry is the one on disk, every registered rule is
  served from the cache as the validated content of its open stored version, and the stored
  versions of a rule that had any are untouched: persisted edits win over the files.\<close>

theorem load_warms_cache:
  assumes "LoadFromDisk s = (Inr (), s')" and "en_registryFile s = Inr entries"
    and "\<forall>e \<in> set entries. re_RuleID e \<noteq> ''''"
  shows "en_registry s' = entries
    \<and> (\<forall>e \<in> set entries. \<exists>rule. map_of (en_cache s') (re_RuleID e) = Some rule
         \<and> liveRule s' (re_RuleID e) = Some rule)
    \<and> (\<forall>q. vers s q \<noteq> [] \<longrightarrow> vers s' q = vers s q)"
proof -
  let ?s0 = "s\<lparr>en_registry := entries,
      en_registryByID := fold (\<lambda>e m. AList.update (re_RuleID e) e m) entries []\<rparr>"
  from assms(1,2) obtain pss s1 where load: "mapE loadEntry entries ?s0 = (Inr pss, s1)"
    and warm: "foreachE entries warmEntry s1 = (Inr (), s')"
    by (auto simp: LoadFromDisk_def op_simps bindE_eq_Inr split: option.splits if_splits)
  have v0: "vers ?s0 q = vers s q" for q by (simp add: vers_def)
  show ?thesis
    using loadAll_keeps [OF load assms(3)] warm_all [OF warm assms(3)] by (auto simp: v0)
qed

theorem load_warms_cache_witness:
  "\<exists>s'. LoadFromDisk sampleEngine = (Inr (), s') \<and> (\<exists>rule. map_of (en_cache s') ''r'' = Some rule)
     \<and> vers s' ''r'' = [sampleVersion]"
proof -
  obtain s' where ld: "LoadFromDisk sampleEngine = (Inr (), s')"
    using succeeds [OF sampleLoad] by auto
  have "en_registryFile sampleEngine = Inr [sampleEntry]" "re_RuleID sampleEntry = ''r''"
    "vers sampleEngine ''r'' = [sampleVersion]"
    by (simp_all add: sampleEngine_def sampleEntry_def vers_def getOr_def)
  with ld load_warms_cache [OF ld] show ?thesis by auto
qed

text \<open>\<open>Evaluate\<close> decides with the cached version of the rule and its registered evaluator, and
  records exactly one application with that version, the input and the outcome; when it fails
  nothing is recorded and no identifier is drawn.\<close>

theorem evaluate_records:
  "case Evaluate r entityType entityID input s of
     (Inl e, s') \<Rightarrow> s' = s
   | (Inr d, s') \<Rightarrow> (\<exists>rule ev. map_of (en_cache s) r = Some rule
        \<and> map_of (en_evaluators s) (ru_RuleType rule) = Some ev \<and> ev (ru_Content rule) input = Inr (de_Output d)
        \<and> de_Version d = ru_Version rule
        \<and> (\<exists>app. st_apps s' = st_apps s @ [app] \<and> ra_ID app = de_ApplicationID d
             \<and> ra_RuleID app = ru_RuleID rule \<and> ra_Version app = ru_Version rule
             \<and> Some (ra_Inputs app) = marshal (GMap input) \<and> Some (ra_Outcome app) = marshal (GMap (de_Output d))
             \<and> ra_AppliedAt app = now s \<and> ra_EntityType app = entityType \<and> ra_EntityID app = entityID)
        \<and> st_events s' = st_events s \<and> st_versions s' = st_versions s \<and> en_cache s' = en_cache s)"
  by (auto simp: Evaluate_def GetRule_def getEvaluator_def ofOption_def ctxR_def ctxE_def bindE_def
      InsertRuleApplication_def op_simps Let_def split: option.splits sum.splits prod.splits)

end
