(* ===== verification/Demo_Fieldpath.thy ===== *)
theory Demo_Fieldpath
  imports Go_Decimal Rules_Engine
begin

text \<open>
  \<open>demo/fieldpath.go\<close>: editing one scalar of a YAML document in place, addressed by a dotted path.
  A node has the fields of \<open>yaml.Node\<close> that the code reads or writes, and in \<open>nd_Rest\<close> all the
  others (comments, anchors, positions), which it never touches. \<open>Decode\<close> of a node is a parameter.
\<close>

section \<open>Nodes\<close>

datatype yamlKind = DocumentNode | SequenceNode | MappingNode | ScalarNode | AliasNode | UnknownKind

datatype 'x Node =
  Node (nd_Kind: yamlKind) (nd_Tag: string) (nd_Value: string) (nd_Style: int) (nd_Content: "'x Node list") (nd_Rest: 'x)

fun setContent :: "'x Node list \<Rightarrow> 'x Node \<Rightarrow> 'x Node" where
  "setContent c (Node k t v s c' x) = Node k t v s c x"

section \<open>Paths\<close>

definition wordChar :: "char \<Rightarrow> bool" where
  "wordChar c \<longleftrightarrow> isDigitChar c \<or> (65 \<le> (of_char c :: nat) \<and> (of_char c :: nat) \<le> 90) \<or>
     (97 \<le> (of_char c :: nat) \<and> (of_char c :: nat) \<le> 122) \<or> c = CHR ''_''"

text \<open>
  All matches of \<open>[A-Za-z0-9_]+|\[[0-9]+\]\<close>, from the left: a bracket that does not open an index is
  skipped like any other character.
\<close>

function findTokens :: "string \<Rightarrow> string list" where
  "findTokens [] = []"
| "findTokens (c # s) =
     (if wordChar c then (c # takeWhile wordChar s) # findTokens (dropWhile wordChar s)
      else if c = CHR ''['' \<and> takeWhile isDigitChar s \<noteq> [] \<and> dropWhile isDigitChar s \<noteq> [] \<and>
              hd (dropWhile isDigitChar s) = CHR '']''
      then (CHR ''['' # takeWhile isDigitChar s @ '']'') # findTokens (tl (dropWhile isDigitChar s))
      else findTokens s)"
  by pat_completeness auto
termination
  by (relation "measure length") (auto simp: le_imp_less_Suc length_dropWhile_le intro!: le_less_trans [OF _ lessI] diff_le_self [THEN le_trans])

definition parseFieldPath :: "string \<Rightarrow> string list res" where
  "parseFieldPath path =
     (if path = '''' then Inl (EDemo EmptyFieldPath)
      else let tokens = findTokens path
           in if tokens = [] then Inl (EDemo (NoSegments path))
              else let reconstructed = sum_list (map (\<lambda>t. int (length t)) tokens);
                       separators = int (length path) - reconstructed
                   in if separators < 0 then Inl (EDemo (MalformedPath path)) else Inr tokens)"

definition isIndexToken :: "string \<Rightarrow> bool" where
  "isIndexToken tok \<longleftrightarrow> 3 \<le> length tok \<and> hd tok = CHR ''['' \<and> List.last tok = CHR '']''"

section \<open>Setting a scalar\<close>

fun encodeScalar :: "gval \<Rightarrow> (string \<times> string) res" where
  "encodeScalar (GInt n) = Inr (''!!int'', FormatInt n)"
| "encodeScalar (GInt64 n) = Inr (''!!int'', FormatInt n)"
| "encodeScalar (GFloat f) = Inr (''!!float'', FormatFloat f)"
| "encodeScalar (GBool b) = Inr (''!!bool'', if b then ''true'' else ''false'')"
| "encodeScalar (GStr t) = Inr (''!!str'', t)"
| "encodeScalar GNil = Inr (''!!null'', ''null'')"
| "encodeScalar _ = Inl (EDemo UnsupportedValue)"

fun setScalar :: "string \<Rightarrow> string \<Rightarrow> 'x Node \<Rightarrow> 'x Node" where
  "setScalar tag val (Node k t v s c x) = Node k tag val 0 c x"

type_synonym 'x decoder = "'x Node \<Rightarrow> gval option"

definition finishSet :: "'x decoder \<Rightarrow> gval \<Rightarrow> 'x Node \<Rightarrow> (gval \<times> 'x Node) res" where
  "finishSet decode newValue n =
     (if nd_Kind n \<noteq> ScalarNode then Inl (EDemo NotScalar)
      else bindR (ofOption (EDemo DecodeScalar) (decode n)) (\<lambda>old.
           bindR (encodeScalar newValue) (\<lambda>(tag, val). Inr (old, setScalar tag val n))))"

text \<open>The position of the value of the first pair whose key is the token.\<close>

fun findKey :: "string \<Rightarrow> 'x Node list \<Rightarrow> nat option" where
  "findKey tok (k # v # rest) =
     (if nd_Value k = tok then Some 1 else map_option (\<lambda>n. n + 2) (findKey tok rest))"
| "findKey tok _ = None"

text \<open>The child a token selects in a node: the segment's number is only needed for errors.\<close>

definition childAt :: "int \<Rightarrow> string \<Rightarrow> 'x Node \<Rightarrow> nat res" where
  "childAt i tok node =
     (if isIndexToken tok
      then bindR (ofOption (EDemo (BadIndex tok)) (ParseInt (butlast (tl tok)))) (\<lambda>idx.
           if nd_Kind node \<noteq> SequenceNode then Inl (EDemo (NotSequence i))
           else if idx < 0 \<or> int (length (nd_Content node)) \<le> idx
           then Inl (EDemo (IndexRange idx (int (length (nd_Content node)))))
           else Inr (nat idx))
      else if nd_Kind node \<noteq> MappingNode then Inl (EDemo (NotMapping i tok))
      else ofOption (EDemo (KeyNotFound tok)) (findKey tok (nd_Content node)))"

text \<open>The loop of \<open>setFieldPath\<close>; the node it walks down to is replaced in the nodes above it.\<close>

fun setIn :: "'x decoder \<Rightarrow> gval \<Rightarrow> int \<Rightarrow> string list \<Rightarrow> 'x Node \<Rightarrow> (gval \<times> 'x Node) res" where
  "setIn decode newValue i [] node = Inl (EDemo NothingToSet)"
| "setIn decode newValue i (tok # rest) node =
     bindR (childAt i tok node) (\<lambda>k.
     bindR (if rest = [] then finishSet decode newValue (nd_Content node ! k)
            else setIn decode newValue (i + 1) rest (nd_Content node ! k)) (\<lambda>(old, child).
     Inr (old, setContent ((nd_Content node)[k := child]) node)))"

definition setFieldPath :: "'x decoder \<Rightarrow> 'x Node \<Rightarrow> string \<Rightarrow> gval \<Rightarrow> (gval \<times> 'x Node) res" where
  "setFieldPath decode doc path newValue =
     bindR (parseFieldPath path) (\<lambda>tokens.
     if nd_Kind doc = DocumentNode
     then (if nd_Content doc = [] then Inl (EDemo EmptyDocument)
           else bindR (setIn decode newValue 0 tokens (hd (nd_Content doc))) (\<lambda>(old, child).
                Inr (old, setContent ((nd_Content doc)[0 := child]) doc)))
     else setIn decode newValue 0 tokens doc)"

section \<open>Lemmas\<close>

lemma Node_simps [simp]:
  "nd_Content (setContent c n) = c" "nd_Kind (setContent c n) = nd_Kind n" "nd_Tag (setContent c n) = nd_Tag n"
  "nd_Value (setContent c n) = nd_Value n" "nd_Style (setContent c n) = nd_Style n" "nd_Rest (setContent c n) = nd_Rest n"
  "setContent c (setContent d n) = setContent c n" "setContent (nd_Content n) n = n"
  "nd_Kind (setScalar tag val n) = nd_Kind n" "nd_Content (setScalar tag val n) = nd_Content n"
  "setScalar tag val (setScalar tag' val' n) = setScalar tag val n" "nd_Rest (setScalar tag val n) = nd_Rest n"
  "nd_Tag (setScalar tag val n) = tag" "nd_Value (setScalar tag val n) = val"
  by (cases n; simp)+

text \<open>The node at a position: the numbers of the children to descend into.\<close>

fun nodeAt :: "nat list \<Rightarrow> 'x Node \<Rightarrow> 'x Node option" where
  "nodeAt [] n = Some n"
| "nodeAt (k # ks) n = (if k < length (nd_Content n) then nodeAt ks (nd_Content n ! k) else None)"

lemma findKey_less: "findKey tok c = Some k \<Longrightarrow> k < length c"
  by (induction tok c arbitrary: k rule: findKey.induct) (auto split: if_splits)

lemma findKey_update: "findKey tok c = Some k \<Longrightarrow> findKey tok (c[k := n]) = Some k"
proof (induction tok c arbitrary: k rule: findKey.induct)
  case (1 tok key v rest)
  then show ?case by (auto split: if_splits)
qed simp_all

lemma childAt_less: "childAt i tok node = Inr k \<Longrightarrow> k < length (nd_Content node)"
  by (auto simp: childAt_def bindR_eq_Inr ofOption_def findKey_less split: if_splits option.splits)

lemma childAt_update: "childAt i tok node = Inr k \<Longrightarrow> childAt i tok (setContent ((nd_Content node)[k := n]) node) = Inr k"
  by (auto simp: childAt_def bindR_eq_Inr ofOption_def findKey_update split: if_splits option.splits)

text \<open>
  \<open>edited ks n n' node node'\<close>: the two trees differ at most in the node at position \<open>ks\<close>, which is \<open>n\<close> in the
  one and \<open>n'\<close> in the other.
\<close>

definition edited :: "nat list \<Rightarrow> 'x Node \<Rightarrow> 'x Node \<Rightarrow> 'x Node \<Rightarrow> 'x Node \<Rightarrow> bool" where
  "edited ks n n' node node' \<longleftrightarrow> nodeAt ks node = Some n \<and> nodeAt ks node' = Some n' \<and>
     (\<forall>js. take (length js) ks \<noteq> js \<longrightarrow> nodeAt js node' = nodeAt js node) \<and>
     (\<forall>js m. take (length js) ks = js \<longrightarrow> js \<noteq> ks \<longrightarrow> nodeAt js node = Some m \<longrightarrow>
        (\<exists>c. nodeAt js node' = Some (setContent c m) \<and> length c = length (nd_Content m)))"

lemma edited_here: "nd_Content n' = nd_Content n \<Longrightarrow> edited [] n n' n n'"
proof -
  assume c: "nd_Content n' = nd_Content n"
  have "nodeAt js n' = nodeAt js n" if "js \<noteq> []" for js using that c by (cases js) simp_all
  then show ?thesis by (simp add: edited_def)
qed

lemma edited_child:
  assumes "edited ks n n' (nd_Content node ! k) child" and "k < length (nd_Content node)"
  shows "edited (k # ks) n n' node (setContent ((nd_Content node)[k := child]) node)"
proof -
  let ?node' = "setContent ((nd_Content node)[k := child]) node"
  have other: "nodeAt (j # js) ?node' = nodeAt (j # js) node" if "j \<noteq> k" for j js using that by simp
  have same: "nodeAt (k # js) ?node' = nodeAt js child" "nodeAt (k # js) node = nodeAt js (nd_Content node ! k)" for js
    using assms(2) by simp_all
  have "nodeAt js ?node' = nodeAt js node" if "take (length js) (k # ks) \<noteq> js" for js
  proof (cases js)
    case (Cons j js')
    then show ?thesis
      using that other [of j js'] same [of js'] assms(1) by (cases "j = k") (simp_all del: nodeAt.simps add: edited_def)
  qed (use that in simp)
  moreover have "\<exists>c. nodeAt js ?node' = Some (setContent c m) \<and> length c = length (nd_Content m)"
    if "take (length js) (k # ks) = js" "js \<noteq> k # ks" "nodeAt js node = Some m" for js m
  proof (cases js)
    case Nil
    then show ?thesis using that by auto
  next
    case (Cons j js')
    then show ?thesis
      using that same [of js'] assms(1) by (simp del: nodeAt.simps add: edited_def)
  qed
  ultimately show ?thesis using assms by (simp add: edited_def)
qed

lemma setIn_spec:
  assumes "setIn decode newValue i toks node = Inr (old, node')"
  shows "\<exists>ks n tag val. edited ks n (setScalar tag val n) node node' \<and> nd_Kind n = ScalarNode \<and> decode n = Some old \<and>
    encodeScalar newValue = Inr (tag, val) \<and>
    (\<forall>x. decode (setScalar tag val n) = Some x \<longrightarrow> setIn decode newValue i toks node' = Inr (x, node'))"
  using assms
proof (induction toks arbitrary: i node old node')
  case Nil
  then show ?case by simp
next
  case (Cons tok rest)
  obtain k child where k: "childAt i tok node = Inr k"
    and child: "(if rest = [] then finishSet decode newValue (nd_Content node ! k)
       else setIn decode newValue (i + 1) rest (nd_Content node ! k)) = Inr (old, child)"
    and node': "node' = setContent ((nd_Content node)[k := child]) node"
    using Cons.prems by (auto simp: bindR_eq_Inr)
  note less = childAt_less [OF k]
  have again: "setIn decode newValue i (tok # rest) node' =
      bindR (if rest = [] then finishSet decode newValue child else setIn decode newValue (i + 1) rest child)
        (\<lambda>(old, child). Inr (old, setContent ((nd_Content node)[k := child]) node))"
    using less by (simp add: node' childAt_update [OF k])
  show ?case
  proof (cases "rest = []")
    case True
    then obtain tag val where f: "nd_Kind (nd_Content node ! k) = ScalarNode" "decode (nd_Content node ! k) = Some old"
      "encodeScalar newValue = Inr (tag, val)" "child = setScalar tag val (nd_Content node ! k)"
      using child by (auto simp: finishSet_def bindR_eq_Inr ofOption_def split: if_splits option.splits)
    then have "edited [k] (nd_Content node ! k) child node node'"
      using edited_child [OF edited_here less, of child] node' by simp
    moreover have "setIn decode newValue i (tok # rest) node' = Inr (x, node')" if "decode child = Some x" for x
      using that f True again by (simp add: finishSet_def ofOption_def node')
    ultimately show ?thesis using f by blast
  next
    case False
    with child have run: "setIn decode newValue (i + 1) rest (nd_Content node ! k) = Inr (old, child)" by simp
    then obtain ks n tag val where e: "edited ks n (setScalar tag val n) (nd_Content node ! k) child"
      and r: "nd_Kind n = ScalarNode" "decode n = Some old" "encodeScalar newValue = Inr (tag, val)"
      and re: "\<forall>x. decode (setScalar tag val n) = Some x \<longrightarrow> setIn decode newValue (i + 1) rest child = Inr (x, child)"
      using Cons.IH by blast
    have "setIn decode newValue i (tok # rest) node' = Inr (x, node')" if "decode (setScalar tag val n) = Some x" for x
      using that re again False by (simp add: node')
    then show ?thesis using edited_child [OF e less] r node' by blast
  qed
qed

lemma edited_document:
  assumes "edited ks n n' (hd (nd_Content doc)) child" and "nd_Content doc \<noteq> []"
  shows "edited (0 # ks) n n' doc (setContent ((nd_Content doc)[0 := child]) doc)"
  using edited_child [of ks n n' doc 0 child] assms by (simp add: hd_conv_nth)

text \<open>The malformed-path check of \<open>parseFieldPath\<close> never fires: the tokens are parts of the path.\<close>

lemma findTokens_length: "sum_list (map length (findTokens s)) \<le> length s"
proof (induction s rule: findTokens.induct)
  case (2 c s)
  have w: "length (takeWhile P s) + length (dropWhile P s) = length s" for P
    by (metis length_append takeWhile_dropWhile_id)
  show ?case
    using 2 w [of wordChar] w [of isDigitChar]
    by (cases "wordChar c"; cases "dropWhile isDigitChar s") auto
qed simp

lemma parseFieldPath_Inr: "parseFieldPath path = Inr toks \<longleftrightarrow> toks \<noteq> [] \<and> toks = findTokens path"
proof -
  have "sum_list (map (\<lambda>t. int (length t)) (findTokens path)) \<le> int (length path)"
  proof -
    have "sum_list (map (\<lambda>t. int (length t)) ts) = int (sum_list (map length ts))" for ts :: "string list"
      by (induction ts) simp_all
    then show ?thesis using findTokens_length [of path] by simp
  qed
  then show ?thesis by (auto simp: parseFieldPath_def Let_def)
qed

text \<open>The effect of setting a field: one scalar is replaced, and setting it again changes nothing.\<close>

lemma setFieldPath_edits:
  assumes "setFieldPath decode doc path newValue = Inr (old, doc')"
  shows "\<exists>ks n tag val. edited ks n (setScalar tag val n) doc doc' \<and> nd_Kind n = ScalarNode \<and> decode n = Some old \<and>
    encodeScalar newValue = Inr (tag, val) \<and>
    (\<forall>x. decode (setScalar tag val n) = Some x \<longrightarrow> setFieldPath decode doc' path newValue = Inr (x, doc'))"
proof -
  obtain toks where toks: "parseFieldPath path = Inr toks" and run:
    "if nd_Kind doc = DocumentNode then nd_Content doc \<noteq> [] \<and>
       (\<exists>child. setIn decode newValue 0 toks (hd (nd_Content doc)) = Inr (old, child) \<and>
          doc' = setContent ((nd_Content doc)[0 := child]) doc)
     else setIn decode newValue 0 toks doc = Inr (old, doc')"
    using assms by (auto simp: setFieldPath_def bindR_eq_Inr split: if_splits)
  show ?thesis
  proof (cases "nd_Kind doc = DocumentNode")
    case True
    with run obtain child where ne: "nd_Content doc \<noteq> []" and s: "setIn decode newValue 0 toks (hd (nd_Content doc)) = Inr (old, child)"
      and d: "doc' = setContent ((nd_Content doc)[0 := child]) doc" by auto
    have c: "hd (nd_Content doc') = child" "nd_Content doc' \<noteq> []" "nd_Kind doc' = DocumentNode"
        "setContent ((nd_Content doc')[0 := child]) doc' = doc'"
      using ne True by (cases "nd_Content doc"; simp add: d)+
    obtain ks n tag val where "edited ks n (setScalar tag val n) (hd (nd_Content doc)) child"
      and r: "nd_Kind n = ScalarNode" "decode n = Some old" "encodeScalar newValue = Inr (tag, val)"
      and "\<forall>x. decode (setScalar tag val n) = Some x \<longrightarrow> setIn decode newValue 0 toks child = Inr (x, child)"
      using setIn_spec [OF s] by blast
    moreover from this have "edited (0 # ks) n (setScalar tag val n) doc doc'" using edited_document [OF _ ne] d by blast
    ultimately show ?thesis using toks c by (intro exI conjI) (assumption | simp add: setFieldPath_def)+
  next
    case False
    with run have s: "setIn decode newValue 0 toks doc = Inr (old, doc')" by simp
    obtain ks n tag val where e: "edited ks n (setScalar tag val n) doc doc'"
      and r: "nd_Kind n = ScalarNode" "decode n = Some old" "encodeScalar newValue = Inr (tag, val)"
      and a: "\<forall>x. decode (setScalar tag val n) = Some x \<longrightarrow> setIn decode newValue 0 toks doc' = Inr (x, doc')"
      using setIn_spec [OF s] by blast
    have "nd_Kind doc' = nd_Kind doc"
      using s by (cases toks) (auto simp: bindR_eq_Inr)
    then show ?thesis using e r a toks False by (intro exI conjI) (assumption | simp add: setFieldPath_def)+
  qed
qed

section \<open>Properties\<close>

text \<open>C32: Setting a field touches one scalar. When it succeeds there is one position in the document
  whose node was a scalar with the old value and now has the tag and the text of the new one; every
  node that is not above that position is the same as before, with its comments and formatting, and
  those above it keep everything but that one child. Setting the field again then changes nothing
  and reports the value that was written.\<close>

theorem set_field_touches_one_scalar:
  assumes "setFieldPath decode doc path newValue = Inr (old, doc')"
  shows "\<exists>ks n tag val. edited ks n (setScalar tag val n) doc doc' \<and> nd_Kind n = ScalarNode \<and> decode n = Some old \<and>
    encodeScalar newValue = Inr (tag, val) \<and>
    (\<forall>x. decode (setScalar tag val n) = Some x \<longrightarrow> setFieldPath decode doc' path newValue = Inr (x, doc'))"
  by (rule setFieldPath_edits [OF assms])

text \<open>The document \<open>a: [x, y]\<close>, with a decoder that reads every scalar as text.\<close>

definition sampleDecode :: "unit Node \<Rightarrow> gval option" where
  "sampleDecode n = (if nd_Kind n = ScalarNode then Some (GStr (nd_Value n)) else None)"

definition scalar :: "string \<Rightarrow> unit Node" where
  "scalar v = Node ScalarNode ''!!str'' v 0 [] ()"

definition sampleDoc :: "string \<Rightarrow> unit Node" where
  "sampleDoc v = Node DocumentNode '''' '''' 0 [Node MappingNode ''!!map'' '''' 0
     [scalar ''a'', Node SequenceNode ''!!seq'' '''' 0 [scalar ''x'', scalar v] ()] ()] ()"

lemma sampleSet: "setFieldPath sampleDecode (sampleDoc ''y'') ''a[1]'' (GStr ''z'') = Inr (GStr ''y'', sampleDoc ''z'')"
proof -
  have "parseFieldPath ''a[1]'' = Inr [''a'', ''[1]'']" by code_simp
  moreover have "isIndexToken ''[1]''" "\<not> isIndexToken ''a''" "ParseInt ''1'' = Some 1" by code_simp+
  ultimately show ?thesis
    by (simp add: setFieldPath_def sampleDoc_def scalar_def childAt_def finishSet_def sampleDecode_def ofOption_def)
qed

theorem set_field_touches_one_scalar_witness:
  "\<exists>ks n. edited ks n (setScalar ''!!str'' ''z'' n) (sampleDoc ''y'') (sampleDoc ''z'') \<and> nd_Kind n = ScalarNode"
proof -
  from set_field_touches_one_scalar [OF sampleSet] obtain ks n tag val where
    "edited ks n (setScalar tag val n) (sampleDoc ''y'') (sampleDoc ''z'')" "nd_Kind n = ScalarNode"
    "encodeScalar (GStr ''z'') = Inr (tag, val)" by blast
  then show ?thesis by auto
qed

text \<open>The check of \<open>parseFieldPath\<close> for malformed paths never refuses one: every path with a token is
  accepted, and what is between its tokens is dropped. The paths that its comment says are caught,
  a double dot and an index that is no number, are read as if they were written properly.\<close>

theorem malformed_paths_accepted:
  "parseFieldPath path = (if path = '''' then Inl (EDemo EmptyFieldPath)
     else if findTokens path = [] then Inl (EDemo (NoSegments path)) else Inr (findTokens path)) \<and>
   parseFieldPath ''a..b'' = parseFieldPath ''a.b'' \<and> parseFieldPath ''a[x]'' = parseFieldPath ''a.x'' \<and>
   parseFieldPath ''a.b'' = Inr [''a'', ''b'']"
proof -
  have "parseFieldPath path = Inr (findTokens path)" if "findTokens path \<noteq> []"
    using that by (simp add: parseFieldPath_Inr)
  moreover have "parseFieldPath ''a..b'' = parseFieldPath ''a.b''" "parseFieldPath ''a[x]'' = parseFieldPath ''a.x''"
    "parseFieldPath ''a.b'' = Inr [''a'', ''b'']" by code_simp+
  ultimately show ?thesis by (auto simp: parseFieldPath_def)
qed

end
