(* ===== verification/Demo_Service.thy ===== *)
theory Demo_Service
  imports Demo_Fieldpath
begin

text \<open>
  \<open>demo/scenario.go\<close> and \<open>demo/service.go\<close>: scripted scenarios, read from a file, whose steps call the
  bank's own HTTP interface, edit a rule through the rules engine, or restore the rules the scenario
  edited. The run state of a scenario is shared through a pointer: \<open>dm_heap\<close> holds the run states
  ever made and \<open>dm_states\<close> the address of the current one of each scenario.
\<close>

section \<open>Scenarios\<close>

definition ActionCallAPI :: string where "ActionCallAPI = ''call_api''"
definition ActionEditRule :: string where "ActionEditRule = ''edit_rule''"
definition ActionResetScenario :: string where "ActionResetScenario = ''reset_scenario''"

lemmas demo_actions = ActionCallAPI_def ActionEditRule_def ActionResetScenario_def

record DemoStep =
  dst_ID :: string
  dst_Label :: string
  dst_Action :: string
  dst_Narration :: string
  dst_Method :: string
  dst_Path :: string
  dst_Request :: "gmap option"
  dst_RuleID :: string
  dst_FieldPath :: string
  dst_NewValue :: gval
  dst_AllowFailingExamples :: bool

record DemoScenario =
  dsc_ScenarioID :: string
  dsc_Description :: string
  dsc_Steps :: "DemoStep list"

definition validateDemoStep :: "'z engine_scheme \<Rightarrow> string \<Rightarrow> DemoStep \<Rightarrow> unit res" where
  "validateDemoStep s scenarioID st =
     (let missing = (\<lambda>what. Inl (EDemo (StepRequires scenarioID (dst_ID st) what)))
      in if dst_Action st = ActionCallAPI then
           (if dst_Method st = '''' then missing ''method''
            else if dst_Path st = '''' then missing ''path'' else Inr ())
         else if dst_Action st = ActionEditRule then
           (if dst_RuleID st = '''' then missing ''rule_id''
            else if dst_FieldPath st = '''' then missing ''field_path''
            else if dst_NewValue st = GNil then missing ''new_value''
            else bindR (ctxR ''demo: rule_id is not a registered rule'' (GetRule s (dst_RuleID st))) (\<lambda>_. Inr ()))
         else if dst_Action st = ActionResetScenario then Inr ()
         else Inl (EDemo (UnknownAction scenarioID (dst_ID st) (dst_Action st))))"

fun checkSteps :: "'z engine_scheme \<Rightarrow> string \<Rightarrow> string set \<Rightarrow> nat \<Rightarrow> DemoStep list \<Rightarrow> unit res" where
  "checkSteps s scenarioID seenSteps i [] = Inr ()"
| "checkSteps s scenarioID seenSteps i (st # rest) =
     (if dst_ID st = '''' then Inl (EDemo (MissingStepID scenarioID (int i)))
      else if dst_ID st \<in> seenSteps then Inl (EDemo (DuplicateStep scenarioID (dst_ID st)))
      else bindR (validateDemoStep s scenarioID st) (\<lambda>_.
           checkSteps s scenarioID (insert (dst_ID st) seenSteps) (i + 1) rest))"

fun checkScenarios :: "'z engine_scheme \<Rightarrow> string set \<Rightarrow> DemoScenario list \<Rightarrow> unit res" where
  "checkScenarios s seen [] = Inr ()"
| "checkScenarios s seen (sc # rest) =
     (if dsc_ScenarioID sc = '''' then Inl (EDemo MissingScenarioID)
      else if dsc_ScenarioID sc \<in> seen then Inl (EDemo (DuplicateScenario (dsc_ScenarioID sc)))
      else if dsc_Steps sc = [] then Inl (EDemo (NoSteps (dsc_ScenarioID sc)))
      else bindR (checkSteps s (dsc_ScenarioID sc) {} 0 (dsc_Steps sc)) (\<lambda>_.
           checkScenarios s (insert (dsc_ScenarioID sc) seen) rest))"

text \<open>What reading the file and decoding it strictly gives is the parameter \<open>file\<close>.\<close>

definition loadAndValidate :: "'z engine_scheme \<Rightarrow> DemoScenario list res \<Rightarrow> DemoScenario list res" where
  "loadAndValidate s file =
     bindR file (\<lambda>scenarios.
     if scenarios = [] then Inl (EDemo NoScenarios)
     else bindR (checkScenarios s {} scenarios) (\<lambda>_. Inr scenarios))"

fun findStepFrom :: "nat \<Rightarrow> DemoStep list \<Rightarrow> string \<Rightarrow> (nat \<times> DemoStep) res" where
  "findStepFrom i [] stepID = Inl (EDemo (ErrStepNotFound stepID))"
| "findStepFrom i (st # rest) stepID = (if dst_ID st = stepID then Inr (i, st) else findStepFrom (i + 1) rest stepID)"

definition findStep :: "DemoScenario \<Rightarrow> string \<Rightarrow> (nat \<times> DemoStep) res" where
  "findStep sc stepID = findStepFrom 0 (dsc_Steps sc) stepID"

definition addRuleID :: "DemoStep \<Rightarrow> string list \<Rightarrow> string list" where
  "addRuleID st out =
     (if dst_Action st \<noteq> ActionEditRule \<or> dst_RuleID st = '''' \<or> dst_RuleID st \<in> set out then out
      else out @ [dst_RuleID st])"

definition ruleIDsForScenario :: "DemoScenario \<Rightarrow> string list" where
  "ruleIDsForScenario sc = fold addRuleID (dsc_Steps sc) []"

section \<open>Results and run state\<close>

text \<open>The body of a response: empty, JSON, or text that is not JSON.\<close>

datatype httpBody = EmptyBody | JsonBody json | TextBody string

record CallAPIResult =
  ca_Status :: int64
  ca_Response :: httpBody

record EditRuleResult =
  ed_RuleID :: string
  ed_FieldPath :: string
  ed_OldValue :: gval
  ed_NewValue :: gval
  ed_PreviousVersion :: int64
  ed_NewVersion :: int64
  ed_Diff :: string
  ed_Examples :: "ExampleResult list"
  ed_Warning :: string

record RestoredRule =
  rr_RuleID :: string
  rr_RestoredVersion :: int64
  rr_NewVersion :: int64

datatype stepOutcome =
    CallOutcome CallAPIResult | EditOutcome EditRuleResult | ResetOutcome "RestoredRule list"

text \<open>The zero value that a failed action leaves in \<open>Result\<close> is left out.\<close>

record runRecord =
  rn_Ran :: bool
  rn_RanAt :: instant
  rn_Result :: "stepOutcome option"
  rn_OK :: bool
  rn_Err :: "err option"

record scenarioState =
  sx_startedAt :: instant
  sx_snapshot :: "(string \<times> int64) list"
  sx_runs :: "(string \<times> runRecord) list"

record demo = engine +
  dm_file :: "DemoScenario list res"
  dm_scenarios :: "DemoScenario list"
  dm_byID :: "(string \<times> DemoScenario) list"
  dm_loadErr :: "err option"
  dm_states :: "(string \<times> nat) list"
  dm_heap :: "scenarioState list"

section \<open>Loading\<close>

definition Reload :: "('z demo_scheme, unit) oper" where
  "Reload =
     bindE (getE (\<lambda>s. loadAndValidate s (dm_file s))) (\<lambda>r.
     bindE (modifyE (\<lambda>s. s\<lparr>dm_loadErr := (case r of Inl e \<Rightarrow> Some e | Inr _ \<Rightarrow> None)\<rparr>)) (\<lambda>_.
     bindE (liftE r) (\<lambda>scenarios.
     modifyE (\<lambda>s. s\<lparr>dm_scenarios := scenarios, dm_byID := map (\<lambda>sc. (dsc_ScenarioID sc, sc)) scenarios,
                     dm_states := []\<rparr>))))"

definition New_demo :: "'z demo_scheme \<Rightarrow> 'z demo_scheme" where
  "New_demo s = snd (Reload (s\<lparr>dm_scenarios := [], dm_byID := [], dm_loadErr := None, dm_states := [], dm_heap := []\<rparr>))"

definition LoadError :: "'z demo_scheme \<Rightarrow> err option" where "LoadError s = dm_loadErr s"

definition Scenarios :: "'z demo_scheme \<Rightarrow> DemoScenario list" where "Scenarios s = dm_scenarios s"

definition scenarioByID :: "'z demo_scheme \<Rightarrow> string \<Rightarrow> DemoScenario res" where
  "scenarioByID s i = ofOption (EDemo (ErrScenarioNotFound i)) (map_of (dm_byID s) i)"

section \<open>Starting\<close>

definition snapshotVersions :: "'z engine_scheme \<Rightarrow> DemoScenario \<Rightarrow> (string \<times> int64) list res" where
  "snapshotVersions s sc =
     mapR (\<lambda>ruleID. bindR (ctxR (''demo: snapshotting rule '' @ ruleID) (GetRule s ruleID)) (\<lambda>rule.
        Inr (ruleID, ru_Version rule))) (ruleIDsForScenario sc)"

definition startScenario :: "DemoScenario \<Rightarrow> ('z demo_scheme, nat) oper" where
  "startScenario sc =
     bindE (getE (\<lambda>s. snapshotVersions s sc)) (\<lambda>r.
     bindE (liftE r) (\<lambda>snap.
     bindE Now (\<lambda>t.
     bindE (getE (\<lambda>s. length (dm_heap s))) (\<lambda>addr.
     bindE (modifyE (\<lambda>s. s\<lparr>dm_heap := dm_heap s @ [\<lparr>sx_startedAt = t, sx_snapshot = snap, sx_runs = []\<rparr>],
                            dm_states := AList.update (dsc_ScenarioID sc) addr (dm_states s)\<rparr>)) (\<lambda>_.
     returnE addr)))))"

definition Start :: "string \<Rightarrow> ('z demo_scheme, unit) oper" where
  "Start i =
     bindE (getE (\<lambda>s. scenarioByID s i)) (\<lambda>r.
     bindE (liftE r) (\<lambda>sc.
     bindE (startScenario sc) (\<lambda>_. returnE ())))"

definition ensureStarted :: "DemoScenario \<Rightarrow> ('z demo_scheme, nat) oper" where
  "ensureStarted sc =
     bindE (getE (\<lambda>s. map_of (dm_states s) (dsc_ScenarioID sc))) (\<lambda>st.
     case st of Some addr \<Rightarrow> returnE addr | None \<Rightarrow> startScenario sc)"

section \<open>The three actions\<close>

text \<open>\<open>serve\<close> is the handler of the bank's interface: from method, path and body to status and body.\<close>

type_synonym 's handler = "string \<Rightarrow> string \<Rightarrow> json option \<Rightarrow> 's \<Rightarrow> (int64 \<times> httpBody) \<times> 's"

definition requestBody :: "DemoStep \<Rightarrow> json option res" where
  "requestBody step =
     (case dst_Request step of
        None \<Rightarrow> Inr None
      | Some m \<Rightarrow> bindR (ofOption (EDemo (MarshalRequest (dst_ID step))) (marshal (GMap m))) (\<lambda>j. Inr (Some j)))"

definition callAPI :: "'z demo_scheme handler \<Rightarrow> DemoStep \<Rightarrow> ('z demo_scheme, CallAPIResult) oper" where
  "callAPI serve step =
     bindE (liftE (requestBody step)) (\<lambda>body.
     (\<lambda>s. case serve (dst_Method step) (dst_Path step) body s of
            ((code, response), s') \<Rightarrow> (Inr \<lparr>ca_Status = code, ca_Response = response\<rparr>, s')))"

text \<open>The YAML library: parsing a text into nodes, printing nodes, and decoding one.\<close>

record 'x yamlLib =
  ya_Unmarshal :: "string \<Rightarrow> 'x Node option"
  ya_Marshal :: "'x Node \<Rightarrow> string option"
  ya_Decode :: "'x decoder"

definition editedText :: "'x yamlLib \<Rightarrow> Rule \<Rightarrow> DemoStep \<Rightarrow> (gval \<times> string) res" where
  "editedText yaml rule step =
     bindR (ofOption (EDemo (ParseRule (dst_RuleID step))) (ya_Unmarshal yaml (ru_Raw rule))) (\<lambda>doc.
     bindR (ctxR ''demo: step'' (setFieldPath (ya_Decode yaml) doc (dst_FieldPath step) (dst_NewValue step))) (\<lambda>(oldValue, doc').
     bindR (ofOption (EDemo (MarshalRule (dst_RuleID step))) (ya_Marshal yaml doc')) (\<lambda>newRaw.
     Inr (oldValue, newRaw))))"

definition editWarning :: "ExampleResult list \<Rightarrow> string" where
  "editWarning examples =
     (if \<exists>x \<in> set examples. \<not> er_Passed x
      then ''one or more of this rule'' @ [CHR 0x27] @ ''s documented examples no longer pass after this edit''
      else '''')"

definition editRule :: "'x yamlLib \<Rightarrow> string \<Rightarrow> DemoStep \<Rightarrow> ('z engine_scheme, EditRuleResult) oper" where
  "editRule yaml scenarioID step =
     bindE (getE (\<lambda>s. ctxR ''demo: step'' (GetRule s (dst_RuleID step)))) (\<lambda>r.
     bindE (liftE r) (\<lambda>rule.
     bindE (liftE (editedText yaml rule step)) (\<lambda>(oldValue, newRaw).
     bindE (Save (dst_RuleID step) newRaw
       \<lparr>so_Author = ''demo-mode'', so_ChangeNote = scenarioID @ ''/'' @ dst_ID step @ '': '' @ dst_Label step,
        so_AllowFailingExamples = dst_AllowFailingExamples step\<rparr>) (\<lambda>saveResult.
     returnE \<lparr>ed_RuleID = dst_RuleID step, ed_FieldPath = dst_FieldPath step, ed_OldValue = oldValue,
       ed_NewValue = dst_NewValue step, ed_PreviousVersion = sr_Previous saveResult,
       ed_NewVersion = sr_Version saveResult, ed_Diff = sr_Diff saveResult,
       ed_Examples = sr_Examples saveResult, ed_Warning = editWarning (sr_Examples saveResult)\<rparr>))))"

fun resetLoop :: "(string \<times> int64) list \<Rightarrow> string list \<Rightarrow> ('z engine_scheme, RestoredRule list) oper" where
  "resetLoop snapshot [] = returnE []"
| "resetLoop snapshot (ruleID # rest) =
     (case map_of snapshot ruleID of
        None \<Rightarrow> resetLoop snapshot rest
      | Some snapVersion \<Rightarrow>
          bindE (getE (\<lambda>s. ctxR ''demo: reset'' (GetRule s ruleID))) (\<lambda>r.
          bindE (liftE r) (\<lambda>live.
          if ru_Version live = snapVersion then resetLoop snapshot rest
          else
            bindE (ctxE ''demo: reset: reactivating'' (Reactivate ruleID snapVersion ''demo reset'')) (\<lambda>result.
            bindE (resetLoop snapshot rest) (\<lambda>restored.
            returnE (\<lparr>rr_RuleID = ruleID, rr_RestoredVersion = snapVersion, rr_NewVersion = sr_Version result\<rparr> # restored))))))"

definition onRunState :: "nat \<Rightarrow> (scenarioState \<Rightarrow> scenarioState) \<Rightarrow> 'z demo_scheme \<Rightarrow> 'z demo_scheme" where
  "onRunState addr f s = s\<lparr>dm_heap := (dm_heap s)[addr := f (dm_heap s ! addr)]\<rparr>"

definition resetScenario :: "DemoScenario \<Rightarrow> nat \<Rightarrow> ('z demo_scheme, RestoredRule list) oper" where
  "resetScenario sc addr =
     bindE (getE (\<lambda>s. sx_snapshot (dm_heap s ! addr))) (\<lambda>snapshot.
     bindE (resetLoop snapshot (ruleIDsForScenario sc)) (\<lambda>restored.
     bindE (getE (\<lambda>s. ctxR ''demo: reset: re-snapshotting'' (snapshotVersions s sc))) (\<lambda>r.
     bindE (liftE r) (\<lambda>freshSnap.
     bindE Now (\<lambda>t.
     bindE (modifyE (onRunState addr (\<lambda>st. st\<lparr>sx_snapshot := freshSnap, sx_runs := [], sx_startedAt := t\<rparr>))) (\<lambda>_.
     returnE restored))))))"

section \<open>Running a step\<close>

record StepRunResponse =
  sq_StepID :: string
  sq_Label :: string
  sq_Action :: string
  sq_Narration :: string
  sq_OK :: bool
  sq_Result :: stepOutcome
  sq_NextStepID :: string

definition runAction ::
  "'x yamlLib \<Rightarrow> 'z demo_scheme handler \<Rightarrow> DemoScenario \<Rightarrow> nat \<Rightarrow> DemoStep \<Rightarrow> ('z demo_scheme, stepOutcome) oper" where
  "runAction yaml serve sc addr step =
     (if dst_Action step = ActionCallAPI then bindE (callAPI serve step) (\<lambda>r. returnE (CallOutcome r))
      else if dst_Action step = ActionEditRule then
        bindE (editRule yaml (dsc_ScenarioID sc) step) (\<lambda>r. returnE (EditOutcome r))
      else if dst_Action step = ActionResetScenario then
        bindE (resetScenario sc addr) (\<lambda>r. returnE (ResetOutcome r))
      else throwE (EDemo (UnknownAction '''' '''' (dst_Action step))))"

definition hasRun :: "scenarioState \<Rightarrow> string \<Rightarrow> bool" where
  "hasRun st stepID = (case map_of (sx_runs st) stepID of None \<Rightarrow> False | Some rec \<Rightarrow> rn_Ran rec)"

definition recordRun :: "nat \<Rightarrow> string \<Rightarrow> stepOutcome res \<Rightarrow> ('z demo_scheme, unit) oper" where
  "recordRun addr stepID r =
     bindE Now (\<lambda>t.
     (let rec = (case r of
                   Inl e \<Rightarrow> \<lparr>rn_Ran = False, rn_RanAt = t, rn_Result = None, rn_OK = False, rn_Err = Some e\<rparr>
                 | Inr x \<Rightarrow> \<lparr>rn_Ran = True, rn_RanAt = t, rn_Result = Some x, rn_OK = True, rn_Err = None\<rparr>)
      in modifyE (onRunState addr (\<lambda>st. st\<lparr>sx_runs := AList.update stepID rec (sx_runs st)\<rparr>))))"

definition RunStep ::
  "'x yamlLib \<Rightarrow> 'z demo_scheme handler \<Rightarrow> string \<Rightarrow> string \<Rightarrow> bool \<Rightarrow> ('z demo_scheme, StepRunResponse) oper" where
  "RunStep yaml serve scenarioID stepID force =
     bindE (getE (\<lambda>s. scenarioByID s scenarioID)) (\<lambda>found.
     bindE (liftE found) (\<lambda>sc.
     bindE (ensureStarted sc) (\<lambda>addr.
     bindE (liftE (findStep sc stepID)) (\<lambda>(idx, step).
     bindE (getE (\<lambda>s. hasRun (dm_heap s ! addr) (dst_ID (dsc_Steps sc ! (idx - 1))))) (\<lambda>prevRan.
     bindE (guardE (\<not> (dst_Action step \<noteq> ActionResetScenario \<and> 0 < idx \<and> \<not> force \<and> \<not> prevRan))
       (EDemo (ErrPreviousStepNotRun (dst_ID (dsc_Steps sc ! (idx - 1))) stepID))) (\<lambda>_.
     bindE (attemptE (runAction yaml serve sc addr step)) (\<lambda>r.
     bindE (recordRun addr (dst_ID step) r) (\<lambda>_.
     bindE (liftE r) (\<lambda>result.
     returnE \<lparr>sq_StepID = dst_ID step, sq_Label = dst_Label step, sq_Action = dst_Action step,
       sq_Narration = dst_Narration step, sq_OK = True, sq_Result = result,
       sq_NextStepID = (if idx + 1 < length (dsc_Steps sc) then dst_ID (dsc_Steps sc ! (idx + 1)) else '''')\<rparr>)))))))))"

end
