(* ===== verification/Demo_Props.thy ===== *)
theory Demo_Props
  imports Demo_Service
begin

text \<open>
  What the demo mode promises: an edit publishes one changed field, a reset brings every edited rule
  back, and a step out of order does nothing.
\<close>

section \<open>Editing\<close>

text \<open>C30: An edit step publishes one changed field. When it succeeds, the live document of the rule was
  parsed, one scalar of it replaced, and the printed result stored as exactly one more version, with
  its version line rewritten, which the cache serves from now on; what is reported as the old value is
  that of the replaced scalar, and no other rule is touched.\<close>

theorem edit_publishes_one_field:
  assumes "editRule yaml scenarioID step s = (Inr out, s')" and "dst_RuleID step \<noteq> ''''"
  shows "\<exists>rule doc doc' newRaw ks n tag val. map_of (en_cache s) (dst_RuleID step) = Some rule \<and>
    ya_Unmarshal yaml (ru_Raw rule) = Some doc \<and> edited ks n (setScalar tag val n) doc doc' \<and>
    ya_Decode yaml n = Some (ed_OldValue out) \<and> encodeScalar (dst_NewValue step) = Inr (tag, val) \<and>
    ya_Marshal yaml doc' = Some newRaw \<and> ed_NewVersion out = wrap64 (ed_PreviousVersion out + 1) \<and>
    mset (map (\<lambda>v. (rv_Version v, rv_Content v)) (vers s' (dst_RuleID step))) =
      add_mset (ed_NewVersion out, rewriteVersionLine newRaw (ed_NewVersion out))
        (mset (map (\<lambda>v. (rv_Version v, rv_Content v)) (vers s (dst_RuleID step)))) \<and>
    (\<exists>rule'. map_of (en_cache s') (dst_RuleID step) = Some rule' \<and> liveRule s' (dst_RuleID step) = Some rule' \<and>
       ru_Raw rule' = rewriteVersionLine newRaw (ed_NewVersion out) \<and> ru_EffectiveFrom rule' = now s) \<and>
    (\<forall>q. q \<noteq> dst_RuleID step \<longrightarrow> vers s' q = vers s q \<and> map_of (en_cache s') q = map_of (en_cache s) q)"
proof -
  let ?r = "dst_RuleID step"
  let ?opts = "\<lparr>so_Author = ''demo-mode'', so_ChangeNote = scenarioID @ ''/'' @ dst_ID step @ '': '' @ dst_Label step,
        so_AllowFailingExamples = dst_AllowFailingExamples step\<rparr>"
  obtain rule newRaw res where rule: "map_of (en_cache s) ?r = Some rule"
    and edit: "editedText yaml rule step = Inr (ed_OldValue out, newRaw)" and save: "Save ?r newRaw ?opts s = (Inr res, s')"
    and out: "ed_NewVersion out = sr_Version res" "ed_PreviousVersion out = sr_Previous res"
    using assms(1) by (auto simp: editRule_def bindE_eq_Inr op_simps GetRule_def ctxR_def ofOption_def split: option.splits sum.splits)
  obtain doc doc' where doc: "ya_Unmarshal yaml (ru_Raw rule) = Some doc" "ya_Marshal yaml doc' = Some newRaw"
    and set: "setFieldPath (ya_Decode yaml) doc (dst_FieldPath step) (dst_NewValue step) = Inr (ed_OldValue out, doc')"
    using edit by (auto simp: editedText_def bindR_eq_Inr ofOption_def ctxR_def split: option.splits sum.splits)
  obtain ks n tag val where e: "edited ks n (setScalar tag val n) doc doc'" "ya_Decode yaml n = Some (ed_OldValue out)"
    "encodeScalar (dst_NewValue step) = Inr (tag, val)"
    using setFieldPath_edits [OF set] by blast
  obtain entry s1 rule' where "map_of (en_registryByID s) ?r = Some entry"
    and "sr_Previous res = fst (latestLoop 0 [] (vers s ?r))" and v: "sr_Version res = wrap64 (sr_Previous res + 1)"
    and ins: "InsertRuleVersion (newRuleVersion s ?r (sr_Version res) (re_RuleType entry)
        (rewriteVersionLine newRaw (sr_Version res)) (so_Author ?opts) (so_ChangeNote ?opts)) s = (Inr (), s1)"
    and val: "Validate s (rewriteVersionLine newRaw (sr_Version res)) = Inr rule'"
    and s': "s' = s1\<lparr>en_cache := AList.update ?r (rule'\<lparr>ru_EffectiveFrom := now s\<rparr>) (en_cache s1)\<rparr>"
    by (rule Save_InrE [OF save assms(2)])
  note p = publish_effect(1-3) [OF ins val s']
  show ?thesis
    using rule doc e v p unfolding out by blast
qed

section \<open>Resetting\<close>

text \<open>
  What a reset has made of rule \<open>r\<close>: nothing if it has no snapshot or still is at that version;
  otherwise the live rule is the stored snapshot version, published again.
\<close>

definition restoredAs :: "(string \<times> int64) list \<Rightarrow> 'z engine_scheme \<Rightarrow> 'z engine_scheme \<Rightarrow> string \<Rightarrow> bool" where
  "restoredAs snapshot s s' r \<longleftrightarrow>
     (case map_of snapshot r of
        None \<Rightarrow> map_of (en_cache s') r = map_of (en_cache s) r
      | Some v \<Rightarrow>
          (\<exists>live. map_of (en_cache s) r = Some live \<and> ru_Version live = v \<and> map_of (en_cache s') r = Some live) \<or>
          (\<exists>target n rule. GetRuleVersion r v s = (Inr target, s) \<and> map_of (en_cache s') r = Some rule \<and>
             liveRule s' r = Some rule \<and> ru_Raw rule = rewriteVersionLine (rv_Content target) n))"

definition sameButRules :: "'z engine_scheme \<Rightarrow> 'z engine_scheme \<Rightarrow> bool" where
  "sameButRules s s' \<longleftrightarrow> (\<exists>vs c. s' = s\<lparr>st_versions := vs, en_cache := c\<rparr>)"

lemma sameButRules_trans: "sameButRules s t \<Longrightarrow> sameButRules t u \<Longrightarrow> sameButRules s u"
  unfolding sameButRules_def by (elim exE, simp only:) (intro exI, simp)

lemma sameButRules_refl: "sameButRules s s"
proof -
  have "s = s\<lparr>st_versions := st_versions s, en_cache := en_cache s\<rparr>" by simp
  then show ?thesis unfolding sameButRules_def by blast
qed

lemma Insert_same: "InsertRuleVersion v s = (x, s1) \<Longrightarrow> \<exists>vs. s1 = s\<lparr>st_versions := vs\<rparr>"
proof -
  assume run: "InsertRuleVersion v s = (x, s1)"
  have "\<exists>vs. s = s\<lparr>st_versions := vs\<rparr>" by (rule exI [of _ "st_versions s"]) simp
  with run show ?thesis by (auto simp: InsertRuleVersion_app Let_def split: if_splits)
qed

lemma Reactivate_restores:
  assumes "Reactivate r v note s = (Inr res, s')" and "r \<noteq> ''''"
  obtains target rule where "GetRuleVersion r v s = (Inr target, s)" and "map_of (en_cache s') r = Some rule"
    and "liveRule s' r = Some rule" and "ru_Raw rule = rewriteVersionLine (rv_Content target) (sr_Version res)"
    and "\<forall>q. q \<noteq> r \<longrightarrow> vers s' q = vers s q \<and> map_of (en_cache s') q = map_of (en_cache s) q"
    and "cache_live s \<longrightarrow> cache_live s'" and "sameButRules s s'"
proof -
  obtain entry target s1 rule where "map_of (en_registryByID s) r = Some entry" and t: "GetRuleVersion r v s = (Inr target, s)"
    and "sr_Previous res = fst (latestLoop 0 [] (vers s r))" "sr_Version res = wrap64 (sr_Previous res + 1)"
    and ins: "InsertRuleVersion (newRuleVersion s r (sr_Version res) (re_RuleType entry)
        (rewriteVersionLine (rv_Content target) (sr_Version res)) ''''
        (''reactivated version '' @ FormatInt v @ '': '' @ note)) s = (Inr (), s1)"
    and val: "Validate s (rewriteVersionLine (rv_Content target) (sr_Version res)) = Inr rule"
    and s': "s' = s1\<lparr>en_cache := AList.update r (rule\<lparr>ru_EffectiveFrom := now s\<rparr>) (en_cache s1)\<rparr>"
    by (rule Reactivate_InrE [OF assms])
  note p = publish_effect [OF ins val s']
  obtain q where q: "map_of (en_cache s') r = Some q" "liveRule s' r = Some q"
    "ru_Raw q = rewriteVersionLine (rv_Content target) (sr_Version res)" using p(2) by blast
  obtain vs where s1: "s1 = s\<lparr>st_versions := vs\<rparr>" using Insert_same [OF ins] by blast
  have same: "sameButRules s s'" unfolding sameButRules_def s' s1 by (intro exI, rule refl)
  show thesis by (rule that [OF t q p(3) _ same]) (rule impI, rule p(4))
qed

lemma ruleIDs_distinct: "distinct (ruleIDsForScenario sc)" "'''' \<notin> set (ruleIDsForScenario sc)"
proof -
  have step: "distinct (addRuleID st out) \<and> '''' \<notin> set (addRuleID st out)" if "distinct out \<and> '''' \<notin> set out" for st out
    using that by (auto simp: addRuleID_def)
  have "distinct out \<and> '''' \<notin> set out \<longrightarrow> distinct (fold addRuleID steps out) \<and> '''' \<notin> set (fold addRuleID steps out)" for steps out
  proof (induction steps arbitrary: out)
    case (Cons st steps)
    show ?case using Cons.IH [of "addRuleID st out"] step [of out st] by simp
  qed simp
  from this [of "[]"] show "distinct (ruleIDsForScenario sc)" "'''' \<notin> set (ruleIDsForScenario sc)"
    unfolding ruleIDsForScenario_def by simp_all
qed

text \<open>What happens to one rule is decided by that rule's versions and cache entry.\<close>

lemma restoredAs_cong:
  assumes "vers t r = vers s r" and "map_of (en_cache t) r = map_of (en_cache s) r"
  shows "restoredAs snapshot t s' r = restoredAs snapshot s s' r"
  using assms by (simp add: restoredAs_def GetRuleVersion_app ofOption_def split: option.split)

lemma restoredAs_final:
  assumes "vers t r = vers s' r" and "map_of (en_cache t) r = map_of (en_cache s') r" and "sameButRules s' t"
  shows "restoredAs snapshot s t r = restoredAs snapshot s s' r"
proof -
  have "Validate t = Validate s'" using assms(3) by (auto simp: sameButRules_def)
  then have "liveRule t r = liveRule s' r" using assms(1) by (simp add: liveRule_def cong: option.case_cong)
  then show ?thesis using assms(2) by (simp add: restoredAs_def split: option.split)
qed

lemma resetLoop_restores:
  assumes "resetLoop snapshot ids s = (Inr out, s')" and "distinct ids" and "'''' \<notin> set ids"
  shows "(\<forall>r \<in> set ids. restoredAs snapshot s s' r) \<and>
    (\<forall>q. q \<notin> set ids \<longrightarrow> vers s' q = vers s q \<and> map_of (en_cache s') q = map_of (en_cache s) q) \<and>
    (cache_live s \<longrightarrow> cache_live s') \<and> sameButRules s s'"
  using assms
proof (induction ids arbitrary: s out)
  case Nil
  then show ?case by (simp add: op_simps sameButRules_refl)
next
  case (Cons r ids)
  have ids: "distinct ids" "'''' \<notin> set ids" "r \<notin> set ids" "r \<noteq> ''''" using Cons.prems by auto
  show ?case
  proof (cases "\<exists>v live. map_of snapshot r = Some v \<and> map_of (en_cache s) r = Some live \<and> ru_Version live \<noteq> v")
    case False
    then have run: "resetLoop snapshot ids s = (Inr out, s')" and skip: "map_of snapshot r = None \<or>
        (\<exists>v live. map_of snapshot r = Some v \<and> map_of (en_cache s) r = Some live \<and> ru_Version live = v)"
      using Cons.prems(1)
      by (auto simp: bindE_eq_Inr op_simps GetRule_def ofOption_def ctxR_def split: option.splits sum.splits if_splits)
    note IH = Cons.IH [OF run ids(1,2)]
    then have "restoredAs snapshot s s' r" using skip ids(3) by (auto simp: restoredAs_def split: option.split)
    then show ?thesis using IH by auto
  next
    case True
    then obtain v live where v: "map_of snapshot r = Some v" "map_of (en_cache s) r = Some live" "ru_Version live \<noteq> v" by blast
    then obtain res s1 out' where re: "Reactivate r v ''demo reset'' s = (Inr res, s1)"
      and run: "resetLoop snapshot ids s1 = (Inr out', s')"
      using Cons.prems(1) by (auto simp: bindE_eq_Inr op_simps GetRule_def ofOption_def ctxR_def ctxE_eq_Inr)
    obtain target rule where t: "GetRuleVersion r v s = (Inr target, s)" "map_of (en_cache s1) r = Some rule"
      "liveRule s1 r = Some rule" "ru_Raw rule = rewriteVersionLine (rv_Content target) (sr_Version res)"
      and others: "\<forall>q. q \<noteq> r \<longrightarrow> vers s1 q = vers s q \<and> map_of (en_cache s1) q = map_of (en_cache s) q"
      and live: "cache_live s \<longrightarrow> cache_live s1" and same: "sameButRules s s1"
      by (rule Reactivate_restores [OF re ids(4)])
    note IH = Cons.IH [OF run ids(1,2)]
    have "restoredAs snapshot s s1 r" using v(1) t by (auto simp: restoredAs_def)
    then have "restoredAs snapshot s s' r"
      using IH ids(3) restoredAs_final [of s' r s1 snapshot s] by blast
    moreover have "restoredAs snapshot s s' q" if "q \<in> set ids" for q
    proof -
      have "q \<noteq> r" using that ids(3) by blast
      then show ?thesis using IH that restoredAs_cong [of s1 q s] others by blast
    qed
    moreover have "vers s' q = vers s q \<and> map_of (en_cache s') q = map_of (en_cache s) q" if "q \<notin> set (r # ids)" for q
      using IH that others by (metis list.set_intros(1) list.set_intros(2))
    ultimately show ?thesis using IH live sameButRules_trans [OF same] by auto
  qed
qed

lemma snapshotVersions_spec:
  assumes "snapshotVersions s sc = Inr snap" and "r \<in> set (ruleIDsForScenario sc)"
  shows "\<exists>rule. map_of (en_cache s) r = Some rule \<and> map_of snap r = Some (ru_Version rule)"
proof -
  have "\<exists>rule. map_of (en_cache s) r = Some rule \<and> map_of snap r = Some (ru_Version rule)"
    if "mapR (\<lambda>ruleID. bindR (ctxR (''demo: snapshotting rule '' @ ruleID) (GetRule s ruleID))
      (\<lambda>rule. Inr (ruleID, ru_Version rule))) ids = Inr snap" "r \<in> set ids" for ids snap
    using that
    by (induction ids arbitrary: snap)
      (auto simp: bindR_eq_Inr GetRule_def ofOption_def ctxR_def split: option.splits sum.splits)
  then show ?thesis using assms unfolding snapshotVersions_def by blast
qed

text \<open>C31: A reset brings every edited rule back. When it succeeds, each rule that the scenario edits and that
  has moved on since the snapshot is served again with the stored content of the snapshot version
  (only its version line differs), published as a new version; rules that have not moved, and rules
  the scenario does not edit, are as before. The run state starts afresh, with no step run and a
  snapshot of the versions now live, and the cache still agrees with the store if it did.\<close>

theorem reset_restores_rules:
  assumes "resetScenario sc addr s = (Inr out, s')" and "addr < length (dm_heap s)"
  shows "(\<forall>r \<in> set (ruleIDsForScenario sc). restoredAs (sx_snapshot (dm_heap s ! addr)) s s' r) \<and>
    (\<forall>q. q \<notin> set (ruleIDsForScenario sc) \<longrightarrow> vers s' q = vers s q \<and> map_of (en_cache s') q = map_of (en_cache s) q) \<and>
    (cache_live s \<longrightarrow> cache_live s') \<and> sx_runs (dm_heap s' ! addr) = [] \<and>
    (\<forall>r \<in> set (ruleIDsForScenario sc). \<exists>rule. map_of (en_cache s') r = Some rule \<and>
       map_of (sx_snapshot (dm_heap s' ! addr)) r = Some (ru_Version rule)) \<and>
    (\<forall>i. i \<noteq> addr \<longrightarrow> dm_heap s' ! i = dm_heap s ! i) \<and> dm_states s' = dm_states s"
proof -
  obtain s1 fresh t where loop: "resetLoop (sx_snapshot (dm_heap s ! addr)) (ruleIDsForScenario sc) s = (Inr out, s1)"
    and fresh: "snapshotVersions s1 sc = Inr fresh"
    and s': "s' = onRunState addr (\<lambda>st. st\<lparr>sx_snapshot := fresh, sx_runs := [], sx_startedAt := t\<rparr>) s1"
    using assms(1)
    by (auto simp: resetScenario_def bindE_eq_Inr op_simps Now_def ctxR_eq_Inr)
  note l = resetLoop_restores [OF loop ruleIDs_distinct]
  have heap: "dm_heap s1 = dm_heap s" "dm_states s1 = dm_states s" using l by (auto simp: sameButRules_def)
  have same: "vers s' = vers s1" "en_cache s' = en_cache s1" "liveRule s' = liveRule s1" "cache_live s' = cache_live s1"
  proof -
    show v: "vers s' = vers s1" and c: "en_cache s' = en_cache s1" by (auto simp: s' onRunState_def vers_def)
    have "Validate s' = Validate s1" by (rule Validate_cong) (simp_all add: s' onRunState_def)
    then show "liveRule s' = liveRule s1" by (auto simp: liveRule_def v cong: option.case_cong)
    then show "cache_live s' = cache_live s1" by (simp add: cache_live_def c)
  qed
  have "restoredAs snap s s' r = restoredAs snap s s1 r" for snap r
    by (simp add: restoredAs_def same split: option.split)
  moreover have "dm_heap s' ! addr = (dm_heap s ! addr)\<lparr>sx_snapshot := fresh, sx_runs := [], sx_startedAt := t\<rparr>"
    using assms(2) by (simp add: s' onRunState_def heap)
  moreover have "\<forall>i. i \<noteq> addr \<longrightarrow> dm_heap s' ! i = dm_heap s ! i" "dm_states s' = dm_states s"
    by (simp_all add: s' onRunState_def heap)
  ultimately show ?thesis using l snapshotVersions_spec [OF fresh] by (simp add: same)
qed

section \<open>The order of the steps\<close>

definition sameButRuns :: "'z demo_scheme \<Rightarrow> 'z demo_scheme \<Rightarrow> bool" where
  "sameButRuns s s' \<longleftrightarrow> (\<exists>st h. s' = s\<lparr>dm_states := st, dm_heap := h\<rparr>)"

lemma sameButRuns_refl: "sameButRuns s s"
proof -
  have "s = s\<lparr>dm_states := dm_states s, dm_heap := dm_heap s\<rparr>" by simp
  then show ?thesis unfolding sameButRuns_def by blast
qed

lemma ensureStarted_effect:
  assumes "ensureStarted sc s = (r, s1)"
  shows "sameButRuns s s1"
    and "r = Inr addr \<Longrightarrow> map_of (dm_states s1) (dsc_ScenarioID sc) = Some addr \<and>
      (map_of (dm_states s) (dsc_ScenarioID sc) = Some addr \<and> s1 = s \<or>
       map_of (dm_states s) (dsc_ScenarioID sc) = None \<and> addr < length (dm_heap s1) \<and> sx_runs (dm_heap s1 ! addr) = [])"
proof -
  have "sameButRuns s (s\<lparr>dm_heap := h, dm_states := st\<rparr>)" for h st
    unfolding sameButRuns_def by (intro exI [of _ st] exI [of _ h]) simp
  then show "sameButRuns s s1"
    using assms
    by (auto simp: ensureStarted_def startScenario_def bindE_def op_simps Now_def sameButRuns_refl
        split: option.splits sum.splits)
  assume "r = Inr addr"
  then show "map_of (dm_states s1) (dsc_ScenarioID sc) = Some addr \<and>
      (map_of (dm_states s) (dsc_ScenarioID sc) = Some addr \<and> s1 = s \<or>
       map_of (dm_states s) (dsc_ScenarioID sc) = None \<and> addr < length (dm_heap s1) \<and> sx_runs (dm_heap s1 ! addr) = [])"
    using assms
    by (auto simp: ensureStarted_def startScenario_def bindE_eq_Inr op_simps Now_def split: option.splits)
qed

text \<open>Steps run in order. A step other than the first and other than a reset, run without force while
  the step before it has not run successfully in the scenario's current run, fails and does nothing: no
  rule, no version, no event and no other run state changes (a scenario that was not started is at
  most started). \<close>

theorem steps_run_in_order:
  assumes "RunStep yaml serve scenarioID stepID False s = (r, s')"
    and "map_of (dm_byID s) scenarioID = Some sc" and "findStep sc stepID = Inr (idx, step)"
    and "dst_Action step \<noteq> ActionResetScenario" and "0 < idx"
    and "\<forall>addr. map_of (dm_states s) (dsc_ScenarioID sc) = Some addr \<longrightarrow>
      \<not> hasRun (dm_heap s ! addr) (dst_ID (dsc_Steps sc ! (idx - 1)))"
  shows "isl r \<and> sameButRuns s s' \<and>
    (map_of (dm_states s) (dsc_ScenarioID sc) \<noteq> None \<longrightarrow>
       s' = s \<and> r = Inl (EDemo (ErrPreviousStepNotRun (dst_ID (dsc_Steps sc ! (idx - 1))) stepID)))"
proof -
  obtain r1 s1 where st: "ensureStarted sc s = (r1, s1)" by (cases "ensureStarted sc s")
  note e = ensureStarted_effect [OF st]
  show ?thesis
  proof (cases r1)
    case (Inl err)
    then have "map_of (dm_states s) (dsc_ScenarioID sc) = None"
      using st by (auto simp: ensureStarted_def op_simps split: option.splits)
    then show ?thesis
      using assms(1,2) Inl st e(1) by (auto simp: RunStep_def scenarioByID_def ofOption_def op_simps)
  next
    case (Inr addr)
    from e(2) [OF Inr] have "\<not> hasRun (dm_heap s1 ! addr) (dst_ID (dsc_Steps sc ! (idx - 1)))"
      using assms(6) by (auto simp: hasRun_def)
    then have "(r, s') = (Inl (EDemo (ErrPreviousStepNotRun (dst_ID (dsc_Steps sc ! (idx - 1))) stepID)), s1)"
      using assms(1-5) st Inr by (simp add: RunStep_def scenarioByID_def ofOption_def op_simps)
    then show ?thesis using e Inr by auto
  qed
qed

section \<open>A sample demo\<close>

text \<open>A library that parses every text to the sample document and prints every document alike.\<close>

definition sampleYaml :: "unit yamlLib" where
  "sampleYaml = \<lparr>ya_Unmarshal = (\<lambda>_. Some (sampleDoc ''y'')), ya_Marshal = (\<lambda>_. Some ''version: 1''), ya_Decode = sampleDecode\<rparr>"

definition sampleEdit :: DemoStep where
  "sampleEdit =
     \<lparr>dst_ID = ''edit'', dst_Label = ''l'', dst_Action = ActionEditRule, dst_Narration = '''', dst_Method = '''', dst_Path = '''',
      dst_Request = None, dst_RuleID = ''r'', dst_FieldPath = ''a[1]'', dst_NewValue = GStr ''z'', dst_AllowFailingExamples = False\<rparr>"

definition sampleCall :: DemoStep where
  "sampleCall = sampleEdit\<lparr>dst_ID := ''call'', dst_Action := ActionCallAPI, dst_Method := ''GET'', dst_Path := ''/''\<rparr>"

definition sampleScript :: DemoScenario where
  "sampleScript = \<lparr>dsc_ScenarioID = ''demo'', dsc_Description = '''', dsc_Steps = [sampleEdit, sampleCall]\<rparr>"

definition sampleDemo :: demo where
  "sampleDemo = engine.extend sampleEngine
     (demo.fields (Inr [sampleScript]) [sampleScript] [(''demo'', sampleScript)] None [(''demo'', 0)]
       [\<lparr>sx_startedAt = 0, sx_snapshot = [(''r'', 1)], sx_runs = []\<rparr>])"

lemma sampleEditRuns: "isl (fst (editRule sampleYaml ''demo'' sampleEdit sampleEngine)) = False"
  by code_simp

lemma sampleResetRuns: "isl (fst (resetScenario sampleScript 0 sampleDemo)) = False"
  by code_simp

theorem edit_publishes_one_field_witness:
  "\<exists>out s'. editRule sampleYaml ''demo'' sampleEdit sampleEngine = (Inr out, s') \<and>
     ed_NewVersion out = wrap64 (ed_PreviousVersion out + 1)"
proof -
  obtain out s' where run: "editRule sampleYaml ''demo'' sampleEdit sampleEngine = (Inr out, s')"
    using succeeds [OF sampleEditRuns] by blast
  have "dst_RuleID sampleEdit \<noteq> ''''" by (simp add: sampleEdit_def)
  from edit_publishes_one_field [OF run this] run show ?thesis by blast
qed

theorem reset_restores_rules_witness:
  "\<exists>out s'. resetScenario sampleScript 0 sampleDemo = (Inr out, s') \<and>
     restoredAs [(''r'', 1)] sampleDemo s' ''r'' \<and> sx_runs (dm_heap s' ! 0) = []"
proof -
  obtain out s' where run: "resetScenario sampleScript 0 sampleDemo = (Inr out, s')"
    using succeeds [OF sampleResetRuns] by blast
  have h: "dm_heap sampleDemo = [\<lparr>sx_startedAt = 0, sx_snapshot = [(''r'', 1)], sx_runs = []\<rparr>]"
    by (simp add: sampleDemo_def engine.defs demo.defs sampleEngine_def)
  have "''r'' \<in> set (ruleIDsForScenario sampleScript)"
    by (simp add: ruleIDsForScenario_def sampleScript_def addRuleID_def sampleEdit_def sampleCall_def demo_actions)
  with reset_restores_rules [OF run] run show ?thesis by (simp add: h)
qed

theorem steps_run_in_order_witness:
  "snd (RunStep sampleYaml (\<lambda>_ _ _ s. ((200, EmptyBody), s)) ''demo'' ''call'' False sampleDemo) = sampleDemo"
proof -
  have d: "map_of (dm_byID sampleDemo) ''demo'' = Some sampleScript" "map_of (dm_states sampleDemo) ''demo'' = Some 0"
    "dm_heap sampleDemo ! 0 = \<lparr>sx_startedAt = 0, sx_snapshot = [(''r'', 1)], sx_runs = []\<rparr>"
    by (simp_all add: sampleDemo_def engine.defs demo.defs sampleEngine_def)
  have f: "findStep sampleScript ''call'' = Inr (1, sampleCall)" "dsc_ScenarioID sampleScript = ''demo''"
    "dst_Action sampleCall \<noteq> ActionResetScenario"
    by (simp_all add: findStep_def sampleScript_def sampleCall_def sampleEdit_def demo_actions)
  show ?thesis
    using steps_run_in_order [OF surjective_pairing d(1) f(1), of sampleYaml "\<lambda>_ _ _ s. ((200, EmptyBody), s)"] f(2,3) d(2,3) by (simp add: hasRun_def)
qed

end
