(* ===== verification/Http_Core.thy ===== *)
theory Http_Core
  imports Go_Values
begin

text \<open>
  \<open>internal/httpx\<close> and the part of Go's \<open>net/http\<close> and \<open>encoding/json\<close> that the handlers use: responses
  and their error envelope, requests as the router hands them to a handler, strict decoding of a
  request body into a struct, and the patterns of \<open>http.ServeMux\<close> with their order of precedence.
\<close>

section \<open>Responses\<close>

text \<open>
  The text of an error that comes from a service is \<open>err.Error()\<close>: \<open>TextOf\<close> keeps the error. The
  value written is of a type of the package that writes it.
\<close>

datatype errorText = Literal string | TextOf err

datatype 'v details = NoDetails | DetailText errorText | DetailStrings "string list" | DetailValue 'v

record 'v ErrorResponse =
  hr_Error :: errorText
  hr_Details :: "'v details"

datatype 'v payload = Written 'v | Failed "'v ErrorResponse"

type_synonym 'v response = "int64 \<times> 'v payload"

definition WriteJSON :: "int64 \<Rightarrow> 'v \<Rightarrow> 'v response" where
  "WriteJSON status v = (status, Written v)"

definition WriteError :: "int64 \<Rightarrow> errorText \<Rightarrow> 'v details \<Rightarrow> 'v response" where
  "WriteError status msg details = (status, Failed \<lparr>hr_Error = msg, hr_Details = details\<rparr>)"

definition StatusOK :: int64 where "StatusOK = 200"
definition StatusBadRequest :: int64 where "StatusBadRequest = 400"
definition StatusNotFound :: int64 where "StatusNotFound = 404"
definition StatusConflict :: int64 where "StatusConflict = 409"
definition StatusUnprocessableEntity :: int64 where "StatusUnprocessableEntity = 422"
definition StatusInternalServerError :: int64 where "StatusInternalServerError = 500"

lemmas http_status = StatusOK_def StatusBadRequest_def StatusNotFound_def StatusConflict_def
  StatusUnprocessableEntity_def StatusInternalServerError_def

text \<open>\<open>errors.As\<close> with a target type is \<open>errorAs\<close> with the predicate of the type.\<close>

fun errorAs :: "(err \<Rightarrow> 'a option) \<Rightarrow> err \<Rightarrow> 'a option" where
  "errorAs f (Ctx c e) = errorAs f e"
| "errorAs f e = f e"

section \<open>Requests\<close>

text \<open>
  A body is missing (the content length is zero), blank, not readable, not JSON, or one JSON document,
  alone or with more text after it.
\<close>

datatype reqBody =
    BodyNone | BodyBlank | BodyBroken | BodyMalformed | BodyJSON json | BodyJSONMore json

text \<open>\<open>hq_Path\<close> has the values of the wildcards of the pattern the request was routed by.\<close>

record Request =
  hq_Path :: "(string \<times> string) list"
  hq_Query :: "(string \<times> string) list"
  hq_Body :: reqBody

definition PathValue :: "Request \<Rightarrow> string \<Rightarrow> string" where
  "PathValue r k = getOr '''' (hq_Path r) k"

definition QueryGet :: "Request \<Rightarrow> string \<Rightarrow> string" where
  "QueryGet r k = getOr '''' (hq_Query r) k"

section \<open>Decoding a body into a struct\<close>

text \<open>
  \<open>encoding/json\<close> looks a key of the document up by its exact name first and then up to case, which
  folds the Kelvin sign and the long s as well. A field is a name with what storing a value in it
  does; \<open>null\<close> stores nothing. With \<open>DisallowUnknownFields\<close> a key that is no field is an error.
\<close>

fun foldName :: "string \<Rightarrow> string" where
  "foldName [] = []"
| "foldName (a # b # c # s) =
     (if (of_char a :: nat) = 226 \<and> (of_char b :: nat) = 132 \<and> (of_char c :: nat) = 170 then CHR ''k'' # foldName s
      else if (of_char a :: nat) = 197 \<and> (of_char b :: nat) = 191 then CHR ''s'' # foldName (c # s)
      else toLowerChar a # foldName (b # c # s))"
| "foldName [a, b] =
     (if (of_char a :: nat) = 197 \<and> (of_char b :: nat) = 191 then [CHR ''s''] else [toLowerChar a, toLowerChar b])"
| "foldName [a] = [toLowerChar a]"

type_synonym 'a fields = "(string \<times> (json \<Rightarrow> 'a \<Rightarrow> 'a option)) list"

definition fieldFor :: "'a fields \<Rightarrow> string \<Rightarrow> (json \<Rightarrow> 'a \<Rightarrow> 'a option) option" where
  "fieldFor fs k =
     (case map_of fs k of
        Some f \<Rightarrow> Some f
      | None \<Rightarrow> map_option snd (find (\<lambda>(n, _). foldName n = foldName k) fs))"

fun storeMembers :: "bool \<Rightarrow> 'a fields \<Rightarrow> (string \<times> json) list \<Rightarrow> 'a \<Rightarrow> 'a option" where
  "storeMembers strict fs [] v = Some v"
| "storeMembers strict fs ((k, j) # rest) v =
     (case fieldFor fs k of
        None \<Rightarrow> if strict then None else storeMembers strict fs rest v
      | Some f \<Rightarrow> Option.bind (f j v) (storeMembers strict fs rest))"

definition storeStruct :: "bool \<Rightarrow> 'a fields \<Rightarrow> json \<Rightarrow> 'a \<Rightarrow> 'a option" where
  "storeStruct strict fs j v =
     (case j of JNull \<Rightarrow> Some v | JObj ob \<Rightarrow> storeMembers strict fs ob v | _ \<Rightarrow> None)"

text \<open>The strings of a request body are all \<open>JStr\<close>: no request struct has a field of type \<open>time.Time\<close>.\<close>

definition jsonStr :: "string \<Rightarrow> (string \<Rightarrow> 'a \<Rightarrow> 'a) \<Rightarrow> string \<times> (json \<Rightarrow> 'a \<Rightarrow> 'a option)" where
  "jsonStr n upd = (n, \<lambda>j v. case j of JNull \<Rightarrow> Some v | JStr s \<Rightarrow> Some (upd s v) | _ \<Rightarrow> None)"

definition jsonInt :: "string \<Rightarrow> (int64 \<Rightarrow> 'a \<Rightarrow> 'a) \<Rightarrow> string \<times> (json \<Rightarrow> 'a \<Rightarrow> 'a option)" where
  "jsonInt n upd = (n, \<lambda>j v. case j of JNull \<Rightarrow> Some v | _ \<Rightarrow> map_option (\<lambda>i. upd i v) (jInt j))"

definition jsonBool :: "string \<Rightarrow> (bool \<Rightarrow> 'a \<Rightarrow> 'a) \<Rightarrow> string \<times> (json \<Rightarrow> 'a \<Rightarrow> 'a option)" where
  "jsonBool n upd = (n, \<lambda>j v. case j of JNull \<Rightarrow> Some v | JBool b \<Rightarrow> Some (upd b v) | _ \<Rightarrow> None)"

definition Decode :: "'a fields \<Rightarrow> 'a \<Rightarrow> Request \<Rightarrow> 'a option" where
  "Decode fs zero r =
     (case hq_Body r of
        BodyJSON j \<Rightarrow> storeStruct True fs j zero
      | BodyJSONMore j \<Rightarrow> storeStruct True fs j zero
      | _ \<Rightarrow> None)"

text \<open>A body that is there is decoded, a missing one leaves the zero value.\<close>

definition decodeBody :: "'a fields \<Rightarrow> 'a \<Rightarrow> Request \<Rightarrow> 'a option" where
  "decodeBody fs zero r = (if hq_Body r = BodyNone then Some zero else Decode fs zero r)"

section \<open>Handlers\<close>

text \<open>
  A handler is a function from the request and the state to the response and the next state.
  \<open>respond\<close> runs an operation and writes the response for its error or its result.
\<close>

type_synonym ('s, 'v) handle = "Request \<Rightarrow> 's \<Rightarrow> 'v response \<times> 's"

definition respond :: "('s, 'a) oper \<Rightarrow> (err \<Rightarrow> 'v response) \<Rightarrow> ('a \<Rightarrow> 'v response) \<Rightarrow> 's \<Rightarrow> 'v response \<times> 's" where
  "respond m onError onResult s =
     (case m s of (Inl e, s') \<Rightarrow> (onError e, s') | (Inr x, s') \<Rightarrow> (onResult x, s'))"

definition answer :: "'v response \<Rightarrow> 's \<Rightarrow> 'v response \<times> 's" where
  "answer resp s = (resp, s)"

definition okWith :: "('a \<Rightarrow> 'v) \<Rightarrow> 'a \<Rightarrow> 'v response" where
  "okWith f x = WriteJSON StatusOK (f x)"

definition internalError :: "err \<Rightarrow> 'v response" where
  "internalError e = WriteError StatusInternalServerError (TextOf e) NoDetails"

definition notFoundOr :: "string \<Rightarrow> err \<Rightarrow> 'v response" where
  "notFoundOr msg e =
     (if errors_Is e ErrNotFound then WriteError StatusNotFound (Literal msg) NoDetails else internalError e)"

text \<open>A handler that decodes the body, and answers a body it refuses without touching the state.\<close>

definition withBody :: "'a option \<Rightarrow> 'v response \<Rightarrow> ('a \<Rightarrow> 's \<Rightarrow> 'v response \<times> 's) \<Rightarrow> 's \<Rightarrow> 'v response \<times> 's" where
  "withBody d refuse k = (case d of None \<Rightarrow> answer refuse | Some req \<Rightarrow> k req)"

text \<open>A response is an error exactly when its status is not 2xx.\<close>

definition isError :: "'v response \<Rightarrow> bool" where
  "isError resp = (case snd resp of Written _ \<Rightarrow> False | Failed _ \<Rightarrow> True)"

section \<open>Lemmas\<close>

lemma respond_preserves:
  assumes "preserves P m" and "P s"
  shows "P (snd (respond m f g s))"
  using preservesD [OF assms] by (auto simp: respond_def split: prod.split sum.split)

lemma respond_fst:
  "fst (respond m f g s) = (case fst (m s) of Inl e \<Rightarrow> f e | Inr x \<Rightarrow> g x)"
  by (auto simp: respond_def split: prod.split sum.split)

lemma respond_snd [simp]: "snd (respond m f g s) = snd (m s)"
  by (auto simp: respond_def split: prod.split sum.split)

lemma answer_simps [simp]: "answer resp s = (resp, s)"
  by (simp add: answer_def)

lemma withBody_simps [simp]:
  "withBody None refuse k = answer refuse" "withBody (Some q) refuse k = k q"
  by (simp_all add: withBody_def)

lemma withBody_None: "withBody None refuse k s = (refuse, s)"
  by simp

text \<open>What storing a value in any field of a struct keeps, decoding keeps.\<close>

definition keepsField :: "('a \<Rightarrow> bool) \<Rightarrow> (json \<Rightarrow> 'a \<Rightarrow> 'a option) \<Rightarrow> bool" where
  "keepsField P f \<longleftrightarrow> (\<forall>j v w. P v \<longrightarrow> f j v = Some w \<longrightarrow> P w)"

definition fieldsKeep :: "('a \<Rightarrow> bool) \<Rightarrow> 'a fields \<Rightarrow> bool" where
  "fieldsKeep P fs \<longleftrightarrow> list_all (\<lambda>x. keepsField P (snd x)) fs"

lemma keepsFieldI: "(\<And>j v w. P v \<Longrightarrow> f j v = Some w \<Longrightarrow> P w) \<Longrightarrow> keepsField P f"
  by (simp add: keepsField_def)

lemma keepsFieldD: "keepsField P f \<Longrightarrow> P v \<Longrightarrow> f j v = Some w \<Longrightarrow> P w"
  by (simp add: keepsField_def)

named_theorems keeps_rules \<open>rules that decoding keeps a predicate\<close>

lemma fieldsKeep_Nil [keeps_rules]: "fieldsKeep P []"
  by (simp add: fieldsKeep_def)

lemma fieldsKeep_Cons [keeps_rules]: "keepsField P (snd x) \<Longrightarrow> fieldsKeep P fs \<Longrightarrow> fieldsKeep P (x # fs)"
  by (simp add: fieldsKeep_def)

lemma keepsField_str [keeps_rules]:
  "(\<And>s v. P v \<Longrightarrow> P (upd s v)) \<Longrightarrow> keepsField P (snd (jsonStr n upd))"
  by (rule keepsFieldI) (auto simp: jsonStr_def split: json.splits)

lemma keepsField_bool [keeps_rules]:
  "(\<And>s v. P v \<Longrightarrow> P (upd s v)) \<Longrightarrow> keepsField P (snd (jsonBool n upd))"
  by (rule keepsFieldI) (auto simp: jsonBool_def split: json.splits)

lemma keepsField_int [keeps_rules]:
  assumes "\<And>i v. in64 i \<Longrightarrow> P v \<Longrightarrow> P (upd i v)"
  shows "keepsField P (snd (jsonInt n upd))"
proof (rule keepsFieldI)
  fix j v w
  assume v: "P v" and w: "snd (jsonInt n upd) j v = Some w"
  show "P w"
  proof (cases "j = JNull")
    case False
    then have "(case jInt j of None \<Rightarrow> None | Some i \<Rightarrow> Some (upd i v)) = Some w"
      using w by (cases j) (simp_all add: jsonInt_def map_option_case split: option.splits if_splits)
    then obtain i where "jInt j = Some i" "w = upd i v" by (auto split: option.splits)
    then show ?thesis using assms [OF jInt_in64 v] by simp
  qed (use v w in \<open>simp add: jsonInt_def\<close>)
qed

lemma fieldFor_in: "fieldFor fs k = Some f \<Longrightarrow> \<exists>n. (n, f) \<in> set fs"
  by (auto simp: fieldFor_def find_Some_iff split: option.splits dest: map_of_SomeD) (metis nth_mem prod.collapse)

lemma storeMembers_keeps:
  assumes "fieldsKeep P fs" and "P v" and "storeMembers strict fs ob v = Some w"
  shows "P w"
  using assms(2,3)
proof (induction ob arbitrary: v)
  case (Cons m rest)
  obtain k j where m: "m = (k, j)" by (cases m)
  show ?case
  proof (cases "fieldFor fs k")
    case None
    then show ?thesis using Cons m by (auto split: if_splits)
  next
    case (Some f)
    then obtain u where u: "f j v = Some u" "storeMembers strict fs rest u = Some w"
      using Cons.prems m by (auto simp: Option.bind_eq_Some_conv)
    have "keepsField P f" using fieldFor_in [OF Some] assms(1) by (auto simp: fieldsKeep_def list_all_iff)
    then have "P u" using Cons.prems(1) u(1) by (rule keepsFieldD)
    then show ?thesis using Cons.IH u(2) by simp
  qed
qed simp

lemma storeStruct_keeps:
  "fieldsKeep P fs \<Longrightarrow> P v \<Longrightarrow> storeStruct strict fs j v = Some w \<Longrightarrow> P w"
  by (auto simp: storeStruct_def intro: storeMembers_keeps split: json.splits)

lemma Decode_keeps: "fieldsKeep P fs \<Longrightarrow> P zero \<Longrightarrow> Decode fs zero r = Some w \<Longrightarrow> P w"
  by (auto simp: Decode_def intro: storeStruct_keeps split: reqBody.splits)

lemma decodeBody_keeps: "fieldsKeep P fs \<Longrightarrow> P zero \<Longrightarrow> decodeBody fs zero r = Some w \<Longrightarrow> P w"
  by (auto simp: decodeBody_def intro: Decode_keeps split: if_splits)

section \<open>Lists of structs\<close>

text \<open>
  A field that is a slice of structs: \<open>null\<close> makes it nil, an array stores its elements in the ones
  the slice has already, from a key given before, and then in zero ones.
\<close>

fun storeElems :: "bool \<Rightarrow> 'e fields \<Rightarrow> 'e \<Rightarrow> json list \<Rightarrow> 'e list \<Rightarrow> 'e list option" where
  "storeElems strict fs zero [] old = Some []"
| "storeElems strict fs zero (j # js) old =
     Option.bind (storeStruct strict fs j (case old of [] \<Rightarrow> zero | e # _ \<Rightarrow> e)) (\<lambda>e.
     map_option (\<lambda>es. e # es) (storeElems strict fs zero js (case old of [] \<Rightarrow> [] | _ # rest \<Rightarrow> rest)))"

definition jsonList ::
  "string \<Rightarrow> bool \<Rightarrow> 'e fields \<Rightarrow> 'e \<Rightarrow> ('a \<Rightarrow> 'e list) \<Rightarrow> ('e list \<Rightarrow> 'a \<Rightarrow> 'a) \<Rightarrow>
     string \<times> (json \<Rightarrow> 'a \<Rightarrow> 'a option)" where
  "jsonList n strict fs zero sel upd =
     (n, \<lambda>j v. case j of
        JNull \<Rightarrow> Some (upd [] v)
      | JArr js \<Rightarrow> map_option (\<lambda>es. upd es v) (storeElems strict fs zero js (sel v))
      | _ \<Rightarrow> None)"

lemma storeElems_keeps:
  assumes "fieldsKeep P fs" and "P zero"
  shows "list_all P old \<Longrightarrow> storeElems strict fs zero js old = Some es \<Longrightarrow> list_all P es"
proof (induction js arbitrary: old es)
  case (Cons j js)
  then obtain e es' where e: "storeStruct strict fs j (case old of [] \<Rightarrow> zero | e # _ \<Rightarrow> e) = Some e"
    "storeElems strict fs zero js (case old of [] \<Rightarrow> [] | _ # rest \<Rightarrow> rest) = Some es'" "es = e # es'"
    by (auto simp: Option.bind_eq_Some_conv)
  have "P (case old of [] \<Rightarrow> zero | e # _ \<Rightarrow> e)" "list_all P (case old of [] \<Rightarrow> [] | _ # rest \<Rightarrow> rest)"
    using Cons.prems(1) assms(2) by (cases old; simp)+
  then show ?case using storeStruct_keeps [OF assms(1) _ e(1)] Cons.IH [OF _ e(2)] e(3) by simp
qed simp

lemma keepsField_list [keeps_rules]:
  assumes "fieldsKeep Q efs" and "Q zero" and "\<And>v. P v \<Longrightarrow> list_all Q (sel v)"
    and "\<And>es v. list_all Q es \<Longrightarrow> P v \<Longrightarrow> P (upd es v)"
  shows "keepsField P (snd (jsonList n strict efs zero sel upd))"
proof (rule keepsFieldI)
  fix j v w
  assume v: "P v" and w: "snd (jsonList n strict efs zero sel upd) j v = Some w"
  have "\<exists>es. list_all Q es \<and> w = upd es v"
  proof (cases "j = JNull")
    case False
    then obtain js es where "storeElems strict efs zero js (sel v) = Some es" "w = upd es v"
      using w by (cases j) (auto simp: jsonList_def)
    then show ?thesis using storeElems_keeps [OF assms(1,2) assms(3) [OF v]] by blast
  next
    case True
    then have "w = upd [] v" using w by (simp add: jsonList_def)
    then show ?thesis by (intro exI [of _ "[]"]) simp
  qed
  then show "P w" using assms(4) v by blast
qed

end
