(* ===== verification/Http_Rules.thy ===== *)
theory Http_Rules
  imports Http_Core Rules_Engine
begin

text \<open>
  The handlers of \<open>rules/http.go\<close>: listing rules, versions and applications, publishing a document,
  validating one without publishing it, and reactivating an old version.
\<close>

section \<open>Views\<close>

record versionDetail =
  vd_Version :: int64
  vd_RuleType :: string
  vd_Content :: "gmap option"
  vd_RawYAML :: string
  vd_ContentHash :: string
  vd_SourceCommit :: string
  vd_Author :: string
  vd_ChangeNote :: string
  vd_EffectiveFrom :: instant
  vd_EffectiveTo :: "instant option"

record versionSummary =
  vs_Version :: int64
  vs_EffectiveFrom :: instant
  vs_EffectiveTo :: "instant option"
  vs_ChangeNote :: string
  vs_Author :: string

text \<open>The metadata of a rule and the object that \<open>handleGet\<close> writes.\<close>

record ruleDetail =
  rd_Rule :: Rule
  rd_AllVersions :: "versionSummary list"

record dryRun =
  dy_Valid :: bool
  dy_Problems :: "errorText list"
  dy_Examples :: "ExampleResult list"
  dy_Diff :: string

datatype rulesValue =
    VRules "Summary list" | VRule ruleDetail | VVersions "versionDetail list" | VVersion versionDetail
  | VApplications "RuleApplication list" | VSaved SaveResult | VDryRun dryRun
  | VExamples "ExampleResult list"

definition toVersionDetail :: "'z engine_scheme \<Rightarrow> RuleVersion \<Rightarrow> versionDetail" where
  "toVersionDetail s v =
     \<lparr>vd_Version = rv_Version v, vd_RuleType = rv_RuleType v,
      vd_Content = (case en_canon s (rv_Content v) of Inl _ \<Rightarrow> None | Inr content \<Rightarrow> Some content),
      vd_RawYAML = rv_Content v, vd_ContentHash = rv_ContentHash v, vd_SourceCommit = rv_SourceCommit v,
      vd_Author = rv_Author v, vd_ChangeNote = rv_ChangeNote v, vd_EffectiveFrom = rv_EffectiveFrom v,
      vd_EffectiveTo = rv_EffectiveTo v\<rparr>"

definition toVersionSummary :: "RuleVersion \<Rightarrow> versionSummary" where
  "toVersionSummary v =
     \<lparr>vs_Version = rv_Version v, vs_EffectiveFrom = rv_EffectiveFrom v, vs_EffectiveTo = rv_EffectiveTo v,
      vs_ChangeNote = rv_ChangeNote v, vs_Author = rv_Author v\<rparr>"

section \<open>Routes\<close>

datatype rulesEndpoint =
    RulesList | RulesApplicationsAll | RulesGet | RulesVersions | RulesVersion | RulesApplications
  | RulesApplicationsByEntity | RulesSave | RulesValidate | RulesReactivate

definition rulesRoutes :: "(string \<times> rulesEndpoint) list" where
  "rulesRoutes =
     [(''GET /rules'', RulesList),
      (''GET /rules/applications'', RulesApplicationsAll),
      (''GET /rules/{id}'', RulesGet),
      (''GET /rules/{id}/versions'', RulesVersions),
      (''GET /rules/{id}/versions/{v}'', RulesVersion),
      (''GET /rules/{id}/applications'', RulesApplications),
      (''GET /rules/{id}/applications/{entity_id}'', RulesApplicationsByEntity),
      (''PUT /rules/{id}'', RulesSave),
      (''POST /rules/{id}/validate'', RulesValidate),
      (''POST /rules/{id}/reactivate'', RulesReactivate)]"

section \<open>Reading\<close>

definition rulesError :: "int64 \<Rightarrow> string \<Rightarrow> err \<Rightarrow> rulesValue response" where
  "rulesError status msg e = WriteError status (Literal msg) (DetailText (TextOf e))"

definition rulesInternal :: "err \<Rightarrow> rulesValue response" where
  "rulesInternal e = rulesError StatusInternalServerError ''internal_error'' e"

definition handleList :: "('z engine_scheme, rulesValue) handle" where
  "handleList r = respond ListRules rulesInternal (okWith VRules)"

definition handleGet :: "('z engine_scheme, rulesValue) handle" where
  "handleGet r s =
     (let i = PathValue r ''id''
      in case GetRule s i of
           Inl e \<Rightarrow> (rulesError StatusNotFound ''not_found'' e, s)
         | Inr rule \<Rightarrow>
             respond (ListRuleVersions i) rulesInternal
               (\<lambda>versions. WriteJSON StatusOK
                  (VRule \<lparr>rd_Rule = rule, rd_AllVersions = map toVersionSummary versions\<rparr>)) s)"

definition handleVersions :: "('z engine_scheme, rulesValue) handle" where
  "handleVersions r s =
     respond (ListRuleVersions (PathValue r ''id'')) rulesInternal
       (\<lambda>versions. WriteJSON StatusOK (VVersions (map (toVersionDetail s) versions))) s"

definition handleVersion :: "('z engine_scheme, rulesValue) handle" where
  "handleVersion r s =
     (case ParseInt (PathValue r ''v'') of
        None \<Rightarrow>
          (WriteError StatusBadRequest (Literal ''invalid_request'')
             (DetailText (Literal ''version must be an integer'')), s)
      | Some vNum \<Rightarrow>
          respond (GetRuleVersion (PathValue r ''id'') vNum)
            (\<lambda>e. if errors_Is e ErrNotFound then rulesError StatusNotFound ''not_found'' e else rulesInternal e)
            (\<lambda>v. WriteJSON StatusOK (VVersion (toVersionDetail s v))) s)"

definition parseLimit :: "Request \<Rightarrow> int64" where
  "parseLimit r =
     (let t = QueryGet r ''limit''
      in if t = '''' then 0
         else case ParseInt t of Some n \<Rightarrow> if 0 < n then n else 0 | None \<Rightarrow> 0)"

definition handleApplications :: "('z engine_scheme, rulesValue) handle" where
  "handleApplications r =
     respond (ListRuleApplications (PathValue r ''id'') '''' (parseLimit r)) rulesInternal (okWith VApplications)"

definition handleApplicationsByEntity :: "('z engine_scheme, rulesValue) handle" where
  "handleApplicationsByEntity r =
     respond (ListRuleApplications (PathValue r ''id'') (PathValue r ''entity_id'') (parseLimit r))
       rulesInternal (okWith VApplications)"

definition handleApplicationsAll :: "('z engine_scheme, rulesValue) handle" where
  "handleApplicationsAll r =
     respond (ListRuleApplications '''' (QueryGet r ''entity_id'') (parseLimit r)) rulesInternal (okWith VApplications)"

section \<open>Writing\<close>

record saveRequest =
  sv_YAML :: string
  sv_ChangeNote :: string
  sv_AllowFailingExamples :: bool

definition saveFields :: "saveRequest fields" where
  "saveFields =
     [jsonStr ''yaml'' (\<lambda>s q. q\<lparr>sv_YAML := s\<rparr>),
      jsonStr ''change_note'' (\<lambda>s q. q\<lparr>sv_ChangeNote := s\<rparr>),
      jsonBool ''allow_failing_examples'' (\<lambda>b q. q\<lparr>sv_AllowFailingExamples := b\<rparr>)]"

definition save0 :: saveRequest where
  "save0 = \<lparr>sv_YAML = '''', sv_ChangeNote = '''', sv_AllowFailingExamples = False\<rparr>"

record reactivateRequest =
  rq_Version :: int64
  rq_ChangeNote :: string

definition reactivateFields :: "reactivateRequest fields" where
  "reactivateFields =
     [jsonInt ''version'' (\<lambda>n q. q\<lparr>rq_Version := n\<rparr>), jsonStr ''change_note'' (\<lambda>s q. q\<lparr>rq_ChangeNote := s\<rparr>)]"

definition reactivate0 :: reactivateRequest where
  "reactivate0 = \<lparr>rq_Version = 0, rq_ChangeNote = ''''\<rparr>"

text \<open>
  The error for failed examples carries their results, the model's only their number; \<open>results\<close> are
  those of the document, which the same state gives again.
\<close>

definition validationProblems :: "err \<Rightarrow> string list option" where
  "validationProblems e = errorAs (\<lambda>e. case e of ERules (RulesValidation ps) \<Rightarrow> Some ps | _ \<Rightarrow> None) e"

definition failedExamples :: "err \<Rightarrow> int option" where
  "failedExamples e = errorAs (\<lambda>e. case e of ERules (ExamplesFailed n) \<Rightarrow> Some n | _ \<Rightarrow> None) e"

definition writeSaveError :: "ExampleResult list \<Rightarrow> err \<Rightarrow> rulesValue response" where
  "writeSaveError results e =
     (case validationProblems e of
        Some problems \<Rightarrow>
          WriteError StatusUnprocessableEntity (Literal ''validation_failed'') (DetailStrings problems)
      | None \<Rightarrow>
          (case failedExamples e of
             Some _ \<Rightarrow> WriteError StatusConflict (Literal ''examples_failed'') (DetailValue (VExamples results))
           | None \<Rightarrow>
               if errors_Is e ErrNotFound then rulesError StatusNotFound ''not_found'' e
               else rulesInternal e))"

definition examplesOf :: "'z engine_scheme \<Rightarrow> string \<Rightarrow> ExampleResult list" where
  "examplesOf s raw = (case Validate s raw of Inl _ \<Rightarrow> [] | Inr rule \<Rightarrow> RunExamples s rule)"

definition invalidRequest :: "rulesValue response" where
  "invalidRequest = WriteError StatusBadRequest (Literal ''invalid_request'') (DetailText (Literal ''json''))"

definition handleSave :: "('z engine_scheme, rulesValue) handle" where
  "handleSave r s =
     withBody (Decode saveFields save0 r) invalidRequest (\<lambda>req.
     respond (Save (PathValue r ''id'') (sv_YAML req)
         \<lparr>so_Author = '''', so_ChangeNote = sv_ChangeNote req, so_AllowFailingExamples = sv_AllowFailingExamples req\<rparr>)
       (writeSaveError (examplesOf s (sv_YAML req))) (okWith VSaved)) s"

definition refusedRun :: "errorText list \<Rightarrow> dryRun" where
  "refusedRun problems = \<lparr>dy_Valid = False, dy_Problems = problems, dy_Examples = [], dy_Diff = ''''\<rparr>"

definition dryRunOf :: "'z engine_scheme \<Rightarrow> string \<Rightarrow> string \<Rightarrow> dryRun" where
  "dryRunOf s i raw =
     (case Validate s raw of
        Inl e \<Rightarrow>
          refusedRun (case validationProblems e of Some problems \<Rightarrow> map Literal problems | None \<Rightarrow> [TextOf e])
      | Inr rule \<Rightarrow>
          if ru_RuleID rule \<noteq> i
          then refusedRun [Literal ''rule_id in document does not match target rule_id'']
          else \<lparr>dy_Valid = True, dy_Problems = [], dy_Examples = RunExamples s rule,
                dy_Diff = lineDiff (case GetRule s i of Inl _ \<Rightarrow> '''' | Inr live \<Rightarrow> ru_Raw live) raw\<rparr>)"

definition handleValidateDryRun :: "('z engine_scheme, rulesValue) handle" where
  "handleValidateDryRun r s =
     withBody (Decode saveFields save0 r) invalidRequest
       (\<lambda>req. answer (WriteJSON StatusOK (VDryRun (dryRunOf s (PathValue r ''id'') (sv_YAML req))))) s"

definition handleReactivate :: "('z engine_scheme, rulesValue) handle" where
  "handleReactivate r =
     withBody (Decode reactivateFields reactivate0 r) invalidRequest (\<lambda>req.
     respond (Reactivate (PathValue r ''id'') (rq_Version req) (rq_ChangeNote req))
       (writeSaveError []) (okWith VSaved))"

definition serveRules :: "rulesEndpoint \<Rightarrow> ('z engine_scheme, rulesValue) handle" where
  "serveRules e =
     (case e of
        RulesList \<Rightarrow> handleList
      | RulesApplicationsAll \<Rightarrow> handleApplicationsAll
      | RulesGet \<Rightarrow> handleGet
      | RulesVersions \<Rightarrow> handleVersions
      | RulesVersion \<Rightarrow> handleVersion
      | RulesApplications \<Rightarrow> handleApplications
      | RulesApplicationsByEntity \<Rightarrow> handleApplicationsByEntity
      | RulesSave \<Rightarrow> handleSave
      | RulesValidate \<Rightarrow> handleValidateDryRun
      | RulesReactivate \<Rightarrow> handleReactivate)"

end
