(* ===== verification/Http_Rules_Props.thy ===== *)
theory Http_Rules_Props
  imports Http_Rules
begin

text \<open>
  What the HTTP interface of the rules promises an editor: what publishing a document will do, given what the dry run
  says of it.
\<close>

text \<open>The version that publishing would store next: its number and its document.\<close>

definition nextNumber :: "'z memstore_scheme \<Rightarrow> string \<Rightarrow> int64" where
  "nextNumber s i = wrap64 (highestVersion (vers s i) + 1)"

definition numberTaken :: "'z memstore_scheme \<Rightarrow> string \<Rightarrow> bool" where
  "numberTaken s i \<longleftrightarrow> list_ex (\<lambda>v. rv_Version v = nextNumber s i) (vers s i)"

lemma number_free:
  assumes "\<And>v. v \<in> set (vers s i) \<Longrightarrow> in64 (rv_Version v) \<and> rv_Version v < max64"
  shows "\<not> numberTaken s i"
proof -
  have "highestVersion (vers s i) \<in> insert 0 (set (map rv_Version (vers s i)))"
    unfolding highestVersion_def by (rule Max_in) simp_all
  then have "highestVersion (vers s i) < max64" using assms by (auto simp: max64_def)
  moreover have ge: "rv_Version v \<le> highestVersion (vers s i)" if "v \<in> set (vers s i)" for v
    unfolding highestVersion_def using that by (intro Max_ge) auto
  moreover have "0 \<le> highestVersion (vers s i)" unfolding highestVersion_def by (intro Max_ge) auto
  ultimately have "nextNumber s i = highestVersion (vers s i) + 1"
    unfolding nextNumber_def by (intro wrap64_id) (simp add: in64_def min64_def max64_def)
  then show ?thesis using ge by (fastforce simp: numberTaken_def list_ex_iff)
qed

lemma Save_unregistered:
  "map_of (en_registryByID s) i = None \<Longrightarrow> Save i raw opts s = (Inl (ERules (NotRegistered i)), s)"
  by (simp add: Save_def op_simps ofOption_def)

lemma Validate_problems:
  "Validate s raw = Inl e \<Longrightarrow> if en_schemaErr s = None then \<exists>ps. e = ERules (RulesValidation ps) else \<exists>t. e = ERules (SchemaLoad t)"
  by (auto simp: Validate_def Let_def split: sum.splits option.splits if_splits)

lemma Save_refuses:
  assumes "map_of (en_registryByID s) i = Some entry" and "\<not> dy_Valid (dryRunOf s i raw)"
  shows "\<exists>e. Save i raw opts s = (Inl e, s) \<and>
    (if en_schemaErr s = None then \<exists>ps. e = ERules (RulesValidation ps) else \<exists>t. e = ERules (SchemaLoad t))"
proof (cases "Validate s raw")
  case (Inl e)
  then show ?thesis using assms(1) Validate_problems [OF Inl] by (auto simp: Save_def op_simps ofOption_def)
next
  case (Inr rule)
  then have "ru_RuleID rule \<noteq> i" using assms(2) by (auto simp: dryRunOf_def split: if_splits)
  moreover have "en_schemaErr s = None" using Inr by (auto simp: Validate_def split: option.splits)
  ultimately show ?thesis using assms(1) Inr by (simp add: Save_def op_simps ofOption_def)
qed

lemma Save_examples_fail:
  assumes "map_of (en_registryByID s) i = Some entry" and "Validate s raw = Inr rule" and "ru_RuleID rule = i"
    and "\<not> so_AllowFailingExamples opts" and "\<not> list_all er_Passed (RunExamples s rule)"
  shows "Save i raw opts s = (Inl (ERules (ExamplesFailed (countFailed (RunExamples s rule)))), s)"
  using assms by (simp add: Save_def op_simps ofOption_def)

text \<open>A document that passes everything the dry run looks at: what is left of \<open>Save\<close>.\<close>

lemma Save_passed:
  assumes reg: "map_of (en_registryByID s) i = Some entry" and i: "i \<noteq> ''''"
    and val: "Validate s raw = Inr rule" and rule: "ru_RuleID rule = i"
    and pass: "so_AllowFailingExamples opts \<or> list_all er_Passed (RunExamples s rule)"
  defines "new \<equiv> rewriteVersionLine raw (nextNumber s i)"
  obtains (taken) "numberTaken s i" and "Save i raw opts s = (Inl (Ctx ''rules: saving'' ErrConflict), s)"
  | (spoilt) s' e where "\<not> numberTaken s i" and "Validate s new = Inl e" and "en_cache s' = en_cache s"
      and "Save i raw opts s = (Inl (Ctx ''rules: re-validating rewritten version'' e), s')"
      and "mset (map (\<lambda>v. (rv_Version v, rv_Content v)) (vers s' i)) =
        add_mset (nextNumber s i, new) (mset (map (\<lambda>v. (rv_Version v, rv_Content v)) (vers s i)))"
  | (published) s' res where "\<not> numberTaken s i" and "\<not> isl (Validate s new)" and "Save i raw opts s = (Inr res, s')"
      and "sr_Version res = nextNumber s i" and "sr_Examples res = RunExamples s rule"
proof -
  define v where "v = newRuleVersion s i (nextNumber s i) (re_RuleType entry) new (so_Author opts) (so_ChangeNote opts)"
  have fields: "rv_RuleID v = i" "rv_Version v = nextNumber s i" "rv_Content v = new" "rv_EffectiveTo v = None"
    by (simp_all add: v_def newRuleVersion_def)
  obtain p where p: "latestLoop 0 '''' (vers s i) = (highestVersion (vers s i), p)"
    using latestLoop_highest [of "''''" "vers s i"] by (metis prod.collapse)
  have l: "latestVersion i s = (Inr (highestVersion (vers s i), p), s)" using latestVersion_app [OF i, of s] p by simp
  have save: "Save i raw opts s =
     (case InsertRuleVersion v s of
        (Inl e, s1) \<Rightarrow> (Inl (Ctx ''rules: saving'' e), s1)
      | (Inr x, s1) \<Rightarrow>
          (case Validate s1 new of
             Inl e \<Rightarrow> (Inl (Ctx ''rules: re-validating rewritten version'' e), s1)
           | Inr rule' \<Rightarrow> (Inr \<lparr>sr_Version = nextNumber s i, sr_Previous = highestVersion (vers s i),
               sr_Examples = RunExamples s rule, sr_Diff = lineDiff p new\<rparr>,
               s1\<lparr>en_cache := AList.update i (rule'\<lparr>ru_EffectiveFrom := now s\<rparr>) (en_cache s1)\<rparr>)))"
  proof -
    obtain x s1 where ins: "InsertRuleVersion v s = (x, s1)" by (cases "InsertRuleVersion v s")
    note start = reg val rule pass and ops = op_simps ofOption_def bindE_Inr [where m = "latestVersion i", OF l] ctxE_def ctxR_def Let_def
    show ?thesis
    proof (cases x)
      case (Inl e)
      then show ?thesis unfolding Save_def
        using start ins [unfolded v_def new_def] by (simp add: ops ins new_def bindE_Inl flip: nextNumber_def)
    next
      case (Inr u)
      then show ?thesis unfolding Save_def
        using start ins [unfolded v_def new_def]
        by (cases "Validate s1 new") (simp_all add: ops ins new_def flip: nextNumber_def)
    qed
  qed
  show thesis
  proof (cases "numberTaken s i")
    case True
    then have "InsertRuleVersion v s = (Inl ErrConflict, s)"
      using fields by (simp add: InsertRuleVersion_app numberTaken_def vers_def Let_def)
    then show thesis using True save by (intro taken) simp_all
  next
    case False
    then obtain s1 where ins: "InsertRuleVersion v s = (Inr (), s1)"
      using fields by (simp add: InsertRuleVersion_app numberTaken_def vers_def Let_def)
    note f = Insert_frame [OF ins]
    have "mset (map (\<lambda>v. (rv_Version v, rv_Content v)) (vers s1 i)) =
        add_mset (nextNumber s i, new) (mset (map (\<lambda>v. (rv_Version v, rv_Content v)) (vers s i)))"
      by (rule Insert_vers [OF ins fields(4)]) (simp add: fields)
    then show thesis
      using False save ins f spoilt published by (cases "Validate s new") auto
  qed
qed

text \<open>C34: What \<open>PUT /rules/{id}\<close> answers, from what the dry run \<open>POST /rules/{id}/validate\<close> says of the same body,
  for every state of the engine. The dry run itself changes nothing. Publishing answers 500 for a rule that is not
  registered, and 422 when the dry run calls the document invalid (500 when the schemas could not be loaded); it
  answers 409 with the example results of the dry run when examples fail and the request does not allow it; none of these
  changes anything. Otherwise it answers 200 with these results and the next number, with two exceptions that the
  dry run does not show: 500 and no change when the number is already taken, and 422 when the document is not valid any more
  with its version line rewritten, although the version is then stored and not served.\<close>

theorem dry_run_predicts_save:
  assumes i: "PathValue r ''id'' \<noteq> ''''" and dec: "Decode saveFields save0 r = Some req"
    and put: "handleSave r s = (resp, s')"
  shows "let i = PathValue r ''id''; dry = dryRunOf s i (sv_YAML req); new = rewriteVersionLine (sv_YAML req) (nextNumber s i)
    in handleValidateDryRun r s = (WriteJSON StatusOK (VDryRun dry), s) \<and>
      (if map_of (en_registryByID s) i = None then fst resp = StatusInternalServerError \<and> s' = s
       else if \<not> dy_Valid dry
       then fst resp = (if en_schemaErr s = None then StatusUnprocessableEntity else StatusInternalServerError) \<and> s' = s
       else if \<not> sv_AllowFailingExamples req \<and> \<not> list_all er_Passed (dy_Examples dry)
       then resp = WriteError StatusConflict (Literal ''examples_failed'') (DetailValue (VExamples (dy_Examples dry))) \<and> s' = s
       else if numberTaken s i then fst resp = StatusInternalServerError \<and> s' = s
       else if isl (Validate s new)
       then fst resp = StatusUnprocessableEntity \<and> en_cache s' = en_cache s \<and>
         mset (map (\<lambda>v. (rv_Version v, rv_Content v)) (vers s' i)) =
           add_mset (nextNumber s i, new) (mset (map (\<lambda>v. (rv_Version v, rv_Content v)) (vers s i)))
       else \<exists>res. resp = WriteJSON StatusOK (VSaved res) \<and> sr_Examples res = dy_Examples dry \<and> sr_Version res = nextNumber s i)"
proof -
  let ?i = "PathValue r ''id''" and ?raw = "sv_YAML req"
  define dry where "dry = dryRunOf s ?i ?raw"
  define opts where "opts = \<lparr>so_Author = '''', so_ChangeNote = sv_ChangeNote req,
    so_AllowFailingExamples = sv_AllowFailingExamples req\<rparr>"
  note answers = respond_def writeSaveError_def validationProblems_def failedExamples_def rulesInternal_def rulesError_def WriteError_def
  have run: "(resp, s') = respond (Save ?i ?raw opts) (writeSaveError (examplesOf s ?raw)) (okWith VSaved) s"
    using put dec by (simp add: handleSave_def opts_def)
  have val: "handleValidateDryRun r s = (WriteJSON StatusOK (VDryRun dry), s)"
    using dec by (simp add: handleValidateDryRun_def dry_def)
  show ?thesis
  proof (cases "map_of (en_registryByID s) ?i")
    case None
    then show ?thesis using run val Save_unregistered [OF None] by (simp add: answers flip: dry_def)
  next
    case (Some entry)
    show ?thesis
    proof (cases "dy_Valid dry")
      case False
      obtain e where "Save ?i ?raw opts s = (Inl e, s)"
        "if en_schemaErr s = None then \<exists>ps. e = ERules (RulesValidation ps) else \<exists>t. e = ERules (SchemaLoad t)"
        using Save_refuses [OF Some, of ?raw opts] False by (auto simp: dry_def)
      then show ?thesis
        using run val Some False by (auto simp: answers simp flip: dry_def split: if_splits)
    next
      case True
      then obtain rule where rule: "Validate s ?raw = Inr rule" "ru_RuleID rule = ?i" "dy_Examples dry = RunExamples s rule"
        by (auto simp: dry_def dryRunOf_def refusedRun_def split: sum.splits if_splits)
      show ?thesis
      proof (cases "so_AllowFailingExamples opts \<or> list_all er_Passed (RunExamples s rule)")
        case False
        then have "Save ?i ?raw opts s = (Inl (ERules (ExamplesFailed (countFailed (RunExamples s rule)))), s)"
          using Save_examples_fail [OF Some rule(1,2)] by simp
        then show ?thesis
          using run val Some True False rule by (simp add: answers examplesOf_def opts_def flip: dry_def)
      next
        case pass: True
        have go: "\<not> (\<not> sv_AllowFailingExamples req \<and> \<not> list_all er_Passed (dy_Examples dry))"
          using pass rule(3) by (simp add: opts_def)
        show ?thesis
        proof (cases rule: Save_passed [OF Some i rule(1,2) pass, case_names taken spoilt published])
          case taken
          then show ?thesis using run val Some True go by (simp add: answers flip: dry_def)
        next
          case (spoilt t e)
          have "en_schemaErr s = None" using rule(1) by (auto simp: Validate_def split: option.splits)
          then obtain ps where "e = ERules (RulesValidation ps)" using Validate_problems [OF spoilt(2)] by auto
          then show ?thesis using run val Some True go spoilt by (simp add: answers flip: dry_def)
        next
          case (published t res)
          then show ?thesis using run val Some True go rule(3) by (auto simp: respond_def okWith_def Let_def simp flip: dry_def)
        qed
      qed
    qed
  qed
qed

definition samplePut :: Request where
  "samplePut = \<lparr>hq_Path = [(''id'', ''r'')], hq_Query = [], hq_Body = BodyJSON (JObj [(''yaml'', JStr ''version: 1'')])\<rparr>"

theorem dry_run_predicts_save_witness:
  "\<exists>res. fst (handleSave samplePut sampleEngine) = WriteJSON StatusOK (VSaved res) \<and> sr_Version res = nextNumber sampleEngine ''r''"
proof -
  let ?req = "\<lparr>sv_YAML = ''version: 1'', sv_ChangeNote = '''', sv_AllowFailingExamples = False\<rparr>"
  let ?dry = "dryRunOf sampleEngine ''r'' ''version: 1''"
  have "Decode saveFields save0 samplePut = Some ?req" by code_simp
  moreover have id: "PathValue samplePut ''id'' = ''r''" by (simp add: samplePut_def PathValue_def getOr_def)
  moreover have "map_of (en_registryByID sampleEngine) ''r'' \<noteq> None" by (simp add: sampleEngine_def)
  moreover have "dy_Valid ?dry \<and> list_all er_Passed (dy_Examples ?dry)" by code_simp
  moreover have "\<not> numberTaken sampleEngine ''r''"
    by (rule number_free) (simp add: vers_def getOr_def sampleEngine_def sampleVersion_def max64_def in64_def min64_def)
  moreover have "\<not> isl (Validate sampleEngine (rewriteVersionLine ''version: 1'' n))" for n
  proof -
    have "\<not> isl (Validate sampleEngine raw)" if "CHR 0x0A \<notin> set raw" for raw
      using splitOn_none [OF that]
      by (simp add: Validate_def sampleEngine_def sampleCanon_def sampleContent_def)
    then show ?thesis by (simp add: rewriteVersionLine_def isVersionLine_def)
  qed
  ultimately show ?thesis
    using dry_run_predicts_save [of samplePut ?req sampleEngine, OF _ _ surjective_pairing] by (auto simp: Let_def)
qed

end
