(* ===== verification/Http_Mux.thy ===== *)
theory Http_Mux
  imports Http_Core
begin

text \<open>
  The patterns of Go's \<open>http.ServeMux\<close>, as \<open>RegisterRoutes\<close> of every package uses them: a method and a
  path with wildcards. Of the patterns that match a request the most specific one wins; registering
  a pattern that conflicts with another one panics. Paths are taken as the router sees them, cleaned
  and split into decoded segments; a path that ends in a slash has an empty last segment.
\<close>

section \<open>Patterns\<close>

datatype seg = Lit string | Wild string | Subtree

record pattern =
  pt_Method :: string
  pt_Segs :: "seg list"

definition parseSeg :: "string \<Rightarrow> seg" where
  "parseSeg p =
     (if p = '''' then Subtree
      else if hd p = CHR ''{'' then Wild (butlast (tl p))
      else Lit p)"

definition pathSegments :: "string \<Rightarrow> string list" where
  "pathSegments path = tl (splitOn CHR ''/'' path)"

definition parsePattern :: "string \<Rightarrow> pattern" where
  "parsePattern s =
     (case splitOn CHR '' '' s of
        [m, path] \<Rightarrow> \<lparr>pt_Method = m, pt_Segs = map parseSeg (pathSegments path)\<rparr>
      | _ \<Rightarrow> \<lparr>pt_Method = '''', pt_Segs = map parseSeg (pathSegments s)\<rparr>)"

text \<open>The values of the wildcards, when the path matches. A wildcard takes one non-empty segment.\<close>

fun matchSegs :: "seg list \<Rightarrow> string list \<Rightarrow> (string \<times> string) list option" where
  "matchSegs [] [] = Some []"
| "matchSegs (Subtree # ss) (p # ps) = Some []"
| "matchSegs (Lit x # ss) (p # ps) = (if x = p then matchSegs ss ps else None)"
| "matchSegs (Wild n # ss) (p # ps) =
     (if p = '''' then None else map_option (\<lambda>b. (n, p) # b) (matchSegs ss ps))"
| "matchSegs _ _ = None"

text \<open>No method matches every method, and \<open>GET\<close> matches \<open>HEAD\<close> as well.\<close>

definition methodMatches :: "string \<Rightarrow> string \<Rightarrow> bool" where
  "methodMatches pm m \<longleftrightarrow> pm = '''' \<or> pm = m \<or> pm = ''GET'' \<and> m = ''HEAD''"

definition patternMatches :: "pattern \<Rightarrow> string \<Rightarrow> string list \<Rightarrow> bool" where
  "patternMatches p m path \<longleftrightarrow> methodMatches (pt_Method p) m \<and> matchSegs (pt_Segs p) path \<noteq> None"

section \<open>Precedence\<close>

text \<open>\<open>covers q p\<close>: \<open>q\<close> matches what \<open>p\<close> matches. \<open>overlaps\<close>: some request matches both.\<close>

fun coversSegs :: "seg list \<Rightarrow> seg list \<Rightarrow> bool" where
  "coversSegs [] [] = True"
| "coversSegs (Subtree # ss) (t # ts) = True"
| "coversSegs (Lit x # ss) (Lit y # ts) = (x = y \<and> coversSegs ss ts)"
| "coversSegs (Wild n # ss) (Lit y # ts) = (y \<noteq> '''' \<and> coversSegs ss ts)"
| "coversSegs (Wild n # ss) (Wild k # ts) = coversSegs ss ts"
| "coversSegs _ _ = False"

fun overlapsSegs :: "seg list \<Rightarrow> seg list \<Rightarrow> bool" where
  "overlapsSegs [] [] = True"
| "overlapsSegs (Subtree # ss) (t # ts) = True"
| "overlapsSegs (s # ss) (Subtree # ts) = True"
| "overlapsSegs (Lit x # ss) (Lit y # ts) = (x = y \<and> overlapsSegs ss ts)"
| "overlapsSegs (Wild n # ss) (Lit y # ts) = (y \<noteq> '''' \<and> overlapsSegs ss ts)"
| "overlapsSegs (Lit x # ss) (Wild k # ts) = (x \<noteq> '''' \<and> overlapsSegs ss ts)"
| "overlapsSegs (Wild n # ss) (Wild k # ts) = overlapsSegs ss ts"
| "overlapsSegs _ _ = False"

definition methodCovers :: "string \<Rightarrow> string \<Rightarrow> bool" where
  "methodCovers q p \<longleftrightarrow> q = '''' \<or> q = p \<or> q = ''GET'' \<and> p = ''HEAD''"

definition covers :: "pattern \<Rightarrow> pattern \<Rightarrow> bool" where
  "covers q p \<longleftrightarrow> methodCovers (pt_Method q) (pt_Method p) \<and> coversSegs (pt_Segs q) (pt_Segs p)"

definition overlaps :: "pattern \<Rightarrow> pattern \<Rightarrow> bool" where
  "overlaps p q \<longleftrightarrow>
     (methodCovers (pt_Method p) (pt_Method q) \<or> methodCovers (pt_Method q) (pt_Method p)) \<and>
     overlapsSegs (pt_Segs p) (pt_Segs q)"

text \<open>Two patterns conflict when some request matches both and neither is the more specific one.\<close>

definition conflicts :: "pattern \<Rightarrow> pattern \<Rightarrow> bool" where
  "conflicts p q \<longleftrightarrow> overlaps p q \<and> (covers p q \<longleftrightarrow> covers q p)"

section \<open>Registration and dispatch\<close>

type_synonym 'h routes = "(pattern \<times> 'h) list"

fun register :: "'h routes \<Rightarrow> (string \<times> 'h) list \<Rightarrow> 'h routes option" where
  "register mux [] = Some mux"
| "register mux ((pat, h) # rest) =
     (if list_ex (\<lambda>(q, _). conflicts (parsePattern pat) q) mux then None
      else register (mux @ [(parsePattern pat, h)]) rest)"

definition dispatch :: "'h routes \<Rightarrow> string \<Rightarrow> string list \<Rightarrow> ('h \<times> (string \<times> string) list) option" where
  "dispatch mux m path =
     (let hits = filter (\<lambda>(p, _). patternMatches p m path) mux
      in map_option (\<lambda>(p, h). (h, the (matchSegs (pt_Segs p) path)))
           (find (\<lambda>(p, _). list_all (\<lambda>(q, _). covers q p) hits) hits))"

section \<open>Lemmas: containment\<close>

lemma coversSegs_refl: "Lit '''' \<notin> set ss \<Longrightarrow> coversSegs ss ss"
proof (induction ss)
  case (Cons s ss)
  then show ?case by (cases s) auto
qed simp

lemma coversSegs_sound: "coversSegs qs ps \<Longrightarrow> matchSegs ps path \<noteq> None \<Longrightarrow> matchSegs qs path \<noteq> None"
proof (induction qs ps arbitrary: path rule: coversSegs.induct)
  case (2 ss t ts)
  then show ?case by (cases path; cases t) auto
next
  case (3 x ss y ts)
  then show ?case by (cases path) (auto split: if_splits)
next
  case (4 n ss y ts)
  then show ?case by (cases path) (auto split: if_splits)
next
  case (5 n ss k ts)
  then show ?case by (cases path) (auto split: if_splits)
qed auto

lemma coversSegs_trans: "coversSegs rs qs \<Longrightarrow> coversSegs qs ps \<Longrightarrow> coversSegs rs ps"
proof (induction rs qs arbitrary: ps rule: coversSegs.induct)
  case (2 ss t ts)
  then show ?case by (cases ps; cases t) auto
next
  case (3 x ss y ts)
  then show ?case by (cases ps; cases "hd ps") auto
next
  case (4 n ss y ts)
  then show ?case by (cases ps; cases "hd ps") auto
next
  case (5 n ss k ts)
  then show ?case by (cases ps; cases "hd ps") auto
qed auto

lemma matchSegs_Nil [simp]:
  "matchSegs [] path = Some b \<longleftrightarrow> path = [] \<and> b = []" "matchSegs ss [] = Some b \<longleftrightarrow> ss = [] \<and> b = []"
  by (cases path; auto) (cases ss; cases "hd ss"; auto)

lemma overlapsSegs_match:
  "matchSegs ps path \<noteq> None \<Longrightarrow> matchSegs qs path \<noteq> None \<Longrightarrow> overlapsSegs ps qs"
proof (induction ps qs arbitrary: path rule: overlapsSegs.induct)
  case (4 x ss y ts)
  then show ?case by (cases path) (auto split: if_splits)
next
  case (5 n ss y ts)
  then show ?case by (cases path) (auto split: if_splits)
next
  case (6 x ss k ts)
  then show ?case by (cases path) (auto split: if_splits)
next
  case (7 n ss k ts)
  then show ?case by (cases path) (auto split: if_splits)
qed auto

lemma methodCovers_sound: "methodCovers q p \<Longrightarrow> methodMatches p m \<Longrightarrow> m \<noteq> '''' \<Longrightarrow> methodMatches q m"
  by (auto simp: methodCovers_def methodMatches_def)

lemma methodCovers_trans: "methodCovers r q \<Longrightarrow> methodCovers q p \<Longrightarrow> methodCovers r p"
  by (auto simp: methodCovers_def)

lemma covers_trans: "covers r q \<Longrightarrow> covers q p \<Longrightarrow> covers r p"
  by (auto simp: covers_def intro: methodCovers_trans coversSegs_trans)

lemma covers_sound: "covers q p \<Longrightarrow> patternMatches p m path \<Longrightarrow> m \<noteq> '''' \<Longrightarrow> patternMatches q m path"
  using methodCovers_sound [of "pt_Method q" "pt_Method p" m] coversSegs_sound [of "pt_Segs q" "pt_Segs p" path]
  by (simp add: covers_def patternMatches_def)

lemma overlaps_match: "patternMatches p m path \<Longrightarrow> patternMatches q m path \<Longrightarrow> overlaps p q"
  unfolding overlaps_def patternMatches_def
  by (auto intro: overlapsSegs_match simp: methodMatches_def methodCovers_def)

text \<open>Without a conflict, of two patterns that match a request one covers the other but not conversely.\<close>

lemma no_conflict_chain:
  assumes "\<not> conflicts p q" and "patternMatches p m path" and "patternMatches q m path"
  shows "covers p q \<longleftrightarrow> \<not> covers q p"
  using assms overlaps_match [OF assms(2,3)] by (auto simp: conflicts_def)

section \<open>Lemmas: dispatch\<close>

definition conflictFree :: "'h routes \<Rightarrow> bool" where
  "conflictFree mux \<longleftrightarrow> distinct mux \<and> (\<forall>x \<in> set mux. \<forall>y \<in> set mux. x \<noteq> y \<longrightarrow> \<not> conflicts (fst x) (fst y))"

definition wellFormed :: "'h routes \<Rightarrow> bool" where
  "wellFormed mux \<longleftrightarrow> (\<forall>x \<in> set mux. Lit '''' \<notin> set (pt_Segs (fst x)))"

lemma overlapsSegs_sym: "overlapsSegs ps qs \<longleftrightarrow> overlapsSegs qs ps"
proof (induction ps qs rule: overlapsSegs.induct)
  case (2 ss t ts)
  then show ?case by (cases t) auto
qed auto

lemma conflicts_sym: "conflicts p q \<longleftrightarrow> conflicts q p"
  by (auto simp: conflicts_def overlaps_def overlapsSegs_sym)

lemma overlapsSegs_refl: "Lit '''' \<notin> set ss \<Longrightarrow> overlapsSegs ss ss"
proof (induction ss)
  case (Cons s ss)
  then show ?case by (cases s) auto
qed simp

lemma covers_refl: "Lit '''' \<notin> set (pt_Segs p) \<Longrightarrow> covers p p"
  by (simp add: covers_def methodCovers_def coversSegs_refl)

lemma parsePattern_wf: "Lit '''' \<notin> set (pt_Segs (parsePattern s))"
  by (auto simp: parsePattern_def parseSeg_def split: list.splits if_splits)

lemma parsePattern_self: "conflicts (parsePattern s) (parsePattern s)"
  using parsePattern_wf [of s]
  by (auto simp: conflicts_def overlaps_def methodCovers_def overlapsSegs_refl)

lemma conflictFree_snoc:
  assumes "conflictFree mux" and "\<And>y. y \<in> set mux \<Longrightarrow> \<not> conflicts (parsePattern p) (fst y)"
  shows "conflictFree (mux @ [(parsePattern p, h)])"
proof -
  have "(parsePattern p, h) \<notin> set mux" using assms(2) [of "(parsePattern p, h)"] parsePattern_self [of p] by auto
  moreover have "\<not> conflicts (fst y) (parsePattern p)" if "y \<in> set mux" for y
    using assms(2) [OF that] by (simp add: conflicts_sym)
  ultimately show ?thesis using assms by (auto simp: conflictFree_def)
qed

text \<open>Registration that does not panic leaves a table without conflicts, of all the patterns.\<close>

lemma register_conflictFree:
  assumes "conflictFree mux" and "wellFormed mux" and "register mux rs = Some mux'"
  shows "conflictFree mux' \<and> wellFormed mux' \<and> mux' = mux @ map (\<lambda>(p, h). (parsePattern p, h)) rs"
  using assms
proof (induction rs arbitrary: mux)
  case (Cons r rs)
  obtain p h where r: "r = (p, h)" by (cases r)
  let ?mux = "mux @ [(parsePattern p, h)]"
  from Cons.prems r have n: "\<And>y. y \<in> set mux \<Longrightarrow> \<not> conflicts (parsePattern p) (fst y)"
    and reg: "register ?mux rs = Some mux'"
    by (auto simp: list_ex_iff split: if_splits)
  have "conflictFree ?mux" by (rule conflictFree_snoc [OF Cons.prems(1) n])
  moreover have "wellFormed ?mux" using Cons.prems(2) parsePattern_wf [of p] by (auto simp: wellFormed_def)
  ultimately have "conflictFree mux' \<and> wellFormed mux' \<and> mux' = ?mux @ map (\<lambda>(p, h). (parsePattern p, h)) rs"
    using reg by (rule Cons.IH)
  then show ?case by (elim conjE; intro conjI; (assumption | simp add: r))
qed simp

text \<open>Among the patterns that match a request there is one that all others cover, and only one.\<close>

lemma most_specific_exists:
  assumes "conflictFree mux" and "wellFormed mux" and "set hits \<subseteq> set mux" and "hits \<noteq> []"
    and "\<And>x. x \<in> set hits \<Longrightarrow> patternMatches (fst x) m path"
  shows "\<exists>x \<in> set hits. \<forall>y \<in> set hits. covers (fst y) (fst x)"
  using assms(3-5)
proof (induction hits)
  case (Cons x xs)
  have refl: "covers (fst x) (fst x)" using Cons.prems(1) assms(2) by (auto simp: wellFormed_def intro: covers_refl)
  show ?case
  proof (cases "xs = []")
    case False
    then obtain z where z: "z \<in> set xs" "\<forall>y \<in> set xs. covers (fst y) (fst z)"
      using Cons by auto
    show ?thesis
    proof (cases "covers (fst x) (fst z)")
      case True
      then show ?thesis using z by (intro bexI [of _ z]) auto
    next
      case False
      then have "x \<noteq> z" using refl by blast
      then have "\<not> conflicts (fst x) (fst z)" using z(1) Cons.prems(1) assms(1) by (auto simp: conflictFree_def)
      then have "covers (fst z) (fst x)"
        using no_conflict_chain [of "fst x" "fst z" m path] Cons.prems(3) z(1) False by auto
      then show ?thesis using z(2) refl covers_trans by (intro bexI [of _ x]) auto
    qed
  qed (use refl in simp)
qed simp

lemma most_specific_unique:
  assumes "conflictFree mux" and "x \<in> set mux" and "y \<in> set mux"
    and "patternMatches (fst x) m path" and "patternMatches (fst y) m path"
    and "covers (fst x) (fst y)" and "covers (fst y) (fst x)"
  shows "x = y"
  using assms no_conflict_chain [of "fst x" "fst y" m path] unfolding conflictFree_def by blast

lemma find_Some_in: "find P xs = Some x \<Longrightarrow> x \<in> set xs \<and> P x"
  by (auto simp: find_Some_iff)

lemma dispatch_spec:
  assumes "conflictFree mux" and "wellFormed mux"
  shows "dispatch mux m path = Some (h, b) \<longleftrightarrow>
    (\<exists>p. (p, h) \<in> set mux \<and> patternMatches p m path \<and> matchSegs (pt_Segs p) path = Some b \<and>
       (\<forall>q \<in> set mux. patternMatches (fst q) m path \<longrightarrow> covers (fst q) p))"
  (is "?l \<longleftrightarrow> ?r")
proof
  assume ?l
  then obtain p where f: "find (\<lambda>(p, _). list_all (\<lambda>(q, _). covers q p) (filter (\<lambda>(p, _). patternMatches p m path) mux))
      (filter (\<lambda>(p, _). patternMatches p m path) mux) = Some (p, h)" and b: "b = the (matchSegs (pt_Segs p) path)"
    by (auto simp: dispatch_def Let_def)
  from find_Some_in [OF f] b show ?r by (intro exI [of _ p]) (auto simp: list_all_iff patternMatches_def)
next
  assume ?r
  then obtain p where p: "(p, h) \<in> set mux" "patternMatches p m path" "matchSegs (pt_Segs p) path = Some b"
    "\<And>q. q \<in> set mux \<Longrightarrow> patternMatches (fst q) m path \<Longrightarrow> covers (fst q) p" by blast
  have "find (\<lambda>(p, _). list_all (\<lambda>(q, _). covers q p) (filter (\<lambda>(p, _). patternMatches p m path) mux))
      (filter (\<lambda>(p, _). patternMatches p m path) mux) = Some (p, h)"
  proof (rule find_unique)
    fix y
    assume "y \<in> set (filter (\<lambda>(p, _). patternMatches p m path) mux)"
      and "case y of (p, _) \<Rightarrow> list_all (\<lambda>(q, _). covers q p) (filter (\<lambda>(p, _). patternMatches p m path) mux)"
    then show "y = (p, h)"
      using p by (intro most_specific_unique [OF assms(1), of _ _ m path]) (auto simp: list_all_iff split: prod.splits)
  qed (use p in \<open>auto simp: list_all_iff\<close>)
  then show ?l using p(3) by (simp add: dispatch_def)
qed

lemma dispatch_total:
  assumes "conflictFree mux" and "wellFormed mux" and "x \<in> set mux" and "patternMatches (fst x) m path"
  shows "\<exists>h b. dispatch mux m path = Some (h, b)"
proof -
  let ?hits = "filter (\<lambda>(p, _). patternMatches p m path) mux"
  have "x \<in> set ?hits" using assms(3,4) by (simp add: case_prod_beta)
  then have "?hits \<noteq> []" by force
  then obtain z where z: "z \<in> set ?hits" "\<forall>y \<in> set ?hits. covers (fst y) (fst z)"
    using most_specific_exists [OF assms(1,2), of ?hits m path] by auto
  then have "\<exists>b. matchSegs (pt_Segs (fst z)) path = Some b" by (auto simp: patternMatches_def)
  then obtain b where "matchSegs (pt_Segs (fst z)) path = Some b" ..
  then have "dispatch mux m path = Some (snd z, b)"
    using z by (subst dispatch_spec [OF assms(1,2)]) (auto intro!: exI [of _ "fst z"] split: prod.splits)
  then show ?thesis by blast
qed

end
