(* ===== verification/Go_Time.thy ===== *)
theory Go_Time
  imports Sim_Clock
begin

text \<open>
  The calendar of Go's \<open>time\<close> package in UTC, as the loan book uses it: adding months and days to
  an instant and printing the month of one. Dates are those of the proleptic Gregorian calendar.
\<close>

section \<open>Civil dates\<close>

text \<open>
  The day number of a date and back, counted from 1 January 1970. A year starts in March here, so
  that the leap day is its last day; an era is 400 years, 146097 days.
\<close>

definition daysFromCivil :: "int \<Rightarrow> int \<Rightarrow> int \<Rightarrow> int" where
  "daysFromCivil y m d =
     (let y' = (if m \<le> 2 then y - 1 else y);
          era = y' div 400; yoe = y' mod 400;
          mp = (m + 9) mod 12;
          doy = (153 * mp + 2) div 5 + d - 1;
          doe = yoe * 365 + yoe div 4 - yoe div 100 + doy
      in era * 146097 + doe - 719468)"

definition civilFromDays :: "int \<Rightarrow> int \<times> int \<times> int" where
  "civilFromDays z =
     (let z' = z + 719468;
          era = z' div 146097; doe = z' mod 146097;
          yoe = (doe - doe div 1460 + doe div 36524 - doe div 146096) div 365;
          doy = doe - (365 * yoe + yoe div 4 - yoe div 100);
          mp = (5 * doy + 2) div 153;
          d = doy - (153 * mp + 2) div 5 + 1;
          m = (if mp < 10 then mp + 3 else mp - 9)
      in (yoe + era * 400 + (if m \<le> 2 then 1 else 0), m, d))"

text \<open>
  \<open>t.AddDate(0, n, 0)\<close>: the month is normalised, a day past the end of the resulting month runs
  into the next one. \<open>t.AddDate(0, 0, n)\<close> moves by whole days.
\<close>

definition addMonths :: "instant \<Rightarrow> int \<Rightarrow> instant" where
  "addMonths t n =
     (case civilFromDays (t div nanosPerDay) of (y, m, d) \<Rightarrow>
        (let k = m - 1 + n
         in (daysFromCivil (y + k div 12) (k mod 12 + 1) 1 + d - 1) * nanosPerDay + t mod nanosPerDay))"

definition addDays :: "instant \<Rightarrow> int \<Rightarrow> instant" where
  "addDays t n = t + n * nanosPerDay"

definition padLeft :: "nat \<Rightarrow> int \<Rightarrow> string" where
  "padLeft w n = (let ds = FormatInt n in replicate (w - length ds) CHR ''0'' @ ds)"

text \<open>\<open>t.Format("2006-01")\<close>.\<close>

definition formatMonth :: "instant \<Rightarrow> string" where
  "formatMonth t =
     (case civilFromDays (t div nanosPerDay) of (y, m, d) \<Rightarrow> padLeft 4 y @ ''-'' @ padLeft 2 m)"

text \<open>\<open>t.Sub(u)\<close> saturates at the bounds of a \<open>Duration\<close>.\<close>

definition subTime :: "instant \<Rightarrow> instant \<Rightarrow> int64" where
  "subTime t u = max min64 (min max64 (t - u))"

section \<open>Lemmas\<close>

lemma calendar_checks:
  "daysFromCivil 1970 1 1 = 0" "daysFromCivil 2000 2 29 = 11016" "daysFromCivil 1900 3 1 = - 25508"
  "civilFromDays 0 = (1970, 1, 1)" "civilFromDays 11016 = (2000, 2, 29)" "civilFromDays (- 25509) = (1900, 2, 28)"
  by code_simp+

text \<open>31 January plus one month is 3 March, or 2 March in a leap year.\<close>

lemma month_end_checks:
  "addMonths (daysFromCivil 2023 1 31 * nanosPerDay) 1 = daysFromCivil 2023 3 3 * nanosPerDay"
  "addMonths (daysFromCivil 2024 1 31 * nanosPerDay) 1 = daysFromCivil 2024 3 2 * nanosPerDay"
  "addMonths (daysFromCivil 2023 11 15 * nanosPerDay) 14 = daysFromCivil 2025 1 15 * nanosPerDay"
  by code_simp+

text \<open>Adding months keeps the time of day.\<close>

lemma addMonths_time_of_day: "addMonths t n mod nanosPerDay = t mod nanosPerDay"
  by (simp add: addMonths_def Let_def split: prod.split)

end
