(* ===== verification/Go_Timestamp.thy ===== *)
theory Go_Timestamp
  imports Go_Time
begin

text \<open>
  \<open>time.Parse(time.RFC3339, s)\<close>: the layout \<open>2006-01-02T15:04:05Z07:00\<close>. As in Go, the hour may have
  one digit, a fraction of the second may follow after a point or a comma (nine digits of it
  count), the offset may be as large as 24 hours or 60 minutes, and the day has to exist.
\<close>

definition expectChar :: "char \<Rightarrow> string \<Rightarrow> string option" where
  "expectChar c s = (case s of [] \<Rightarrow> None | x # rest \<Rightarrow> if x = c then Some rest else None)"

text \<open>\<open>getnum\<close>: two digits, or one when the field is not of fixed width.\<close>

definition getnum :: "bool \<Rightarrow> string \<Rightarrow> (int \<times> string) option" where
  "getnum fixed s =
     (case s of
        [] \<Rightarrow> None
      | a # rest \<Rightarrow>
          if \<not> isDigitChar a then None
          else (case rest of
                  [] \<Rightarrow> if fixed then None else Some (int (digitVal a), [])
                | b # rest' \<Rightarrow>
                    if isDigitChar b then Some (int (10 * digitVal a + digitVal b), rest')
                    else if fixed then None else Some (int (digitVal a), rest)))"

definition inRange :: "int \<Rightarrow> int \<Rightarrow> (int \<times> string) option \<Rightarrow> (int \<times> string) option" where
  "inRange lo hi r = Option.bind r (\<lambda>(n, rest). if lo \<le> n \<and> n \<le> hi then Some (n, rest) else None)"

definition yearField :: "string \<Rightarrow> (int \<times> string) option" where
  "yearField s =
     (if 4 \<le> length s \<and> list_all isDigitChar (take 4 s) then Some (int (decVal (take 4 s)), drop 4 s) else None)"

definition fraction :: "string \<Rightarrow> int \<times> string" where
  "fraction s =
     (case s of
        p # d # rest \<Rightarrow>
          if (p = CHR ''.'' \<or> p = CHR '','') \<and> isDigitChar d
          then (let ds = take 9 (takeWhile isDigitChar (d # rest))
                in (int (decVal ds) * 10 ^ (9 - length ds), dropWhile isDigitChar (d # rest)))
          else (0, s)
      | _ \<Rightarrow> (0, s))"

text \<open>The offset in seconds east of UTC.\<close>

definition zoneField :: "string \<Rightarrow> (int \<times> string) option" where
  "zoneField s =
     (case s of
        [] \<Rightarrow> None
      | z # rest \<Rightarrow>
          if z = CHR ''Z'' then Some (0, rest)
          else if z = CHR ''+'' \<or> z = CHR ''-'' then
            Option.bind (inRange 0 24 (getnum True rest)) (\<lambda>(h, s1).
            Option.bind (expectChar (CHR '':'') s1) (\<lambda>s2.
            Option.bind (inRange 0 60 (getnum True s2)) (\<lambda>(m, s3).
            Some ((if z = CHR ''-'' then - 1 else 1) * (h * 60 + m) * 60, s3))))
          else None)"

definition daysIn :: "int \<Rightarrow> int \<Rightarrow> int" where
  "daysIn y m = daysFromCivil (if m = 12 then y + 1 else y) (m mod 12 + 1) 1 - daysFromCivil y m 1"

definition ParseRFC3339 :: "string \<Rightarrow> instant option" where
  "ParseRFC3339 s =
     Option.bind (yearField s) (\<lambda>(y, s).
     Option.bind (expectChar (CHR ''-'') s) (\<lambda>s.
     Option.bind (inRange 1 12 (getnum True s)) (\<lambda>(mo, s).
     Option.bind (expectChar (CHR ''-'') s) (\<lambda>s.
     Option.bind (getnum True s) (\<lambda>(d, s).
     Option.bind (expectChar (CHR ''T'') s) (\<lambda>s.
     Option.bind (inRange 0 23 (getnum False s)) (\<lambda>(h, s).
     Option.bind (expectChar (CHR '':'') s) (\<lambda>s.
     Option.bind (inRange 0 59 (getnum True s)) (\<lambda>(mi, s).
     Option.bind (expectChar (CHR '':'') s) (\<lambda>s.
     Option.bind (inRange 0 59 (getnum True s)) (\<lambda>(sec, s).
     (case fraction s of (nanos, s) \<Rightarrow>
     Option.bind (zoneField s) (\<lambda>(off, s).
     if s = [] \<and> 1 \<le> d \<and> d \<le> daysIn y mo
     then Some (daysFromCivil y mo d * nanosPerDay + ((h * 60 + mi) * 60 + sec - off) * nanosPerSecond + nanos)
     else None)))))))))))))"

lemma timestamp_checks:
  "ParseRFC3339 ''1970-01-02T00:00:00Z'' = Some nanosPerDay"
  "ParseRFC3339 ''1970-01-01T1:00:00.5+01:00'' = Some 500000000"
  "ParseRFC3339 ''2023-02-29T00:00:00Z'' = None" "ParseRFC3339 ''2024-01-01 00:00:00Z'' = None"
  "ParseRFC3339 ''2024-01-01T00:00:00'' = None"
  by code_simp+

end
