(* ===== verification/Ledger_Amount.thy ===== *)
theory Ledger_Amount
  imports Go_Strings
begin

text \<open>
  \<open>internal/ledger/amount.go\<close>: currencies, amounts in minor units, the fixed-point rendering of
  an amount and the exact decimal parser. The lemmas give the round trip between the two, the
  exact set of strings the parser accepts and the value it reads.
\<close>

section \<open>Currencies and amounts\<close>

record Currency =
  Code :: string
  Decimals :: nat

definition Currencies :: "string \<Rightarrow> Currency option" where
  "Currencies c =
     (if c = ''USD'' then Some \<lparr>Code = ''USD'', Decimals = 2\<rparr>
      else if c = ''USDC'' then Some \<lparr>Code = ''USDC'', Decimals = 6\<rparr>
      else None)"

record Amount =
  am_Currency :: string
  am_Minor :: int64

definition mkAmount :: "string \<Rightarrow> int64 \<Rightarrow> Amount" where
  "mkAmount c m = \<lparr>am_Currency = c, am_Minor = m\<rparr>"

section \<open>Rendering\<close>

definition formatMinor :: "int64 \<Rightarrow> nat \<Rightarrow> string" where
  "formatMinor minor decimals =
     (let neg = minor < 0;
          minor' = (if neg then wrap64 (- minor) else minor);
          s = FormatInt minor'
      in if decimals = 0 then (if neg then CHR ''-'' # s else s)
         else let s' = replicate (decimals + 1 - length s) (CHR ''0'') @ s;
                  intPart = take (length s' - decimals) s';
                  fracPart = drop (length s' - decimals) s';
                  out = intPart @ CHR ''.'' # fracPart
              in if neg then CHR ''-'' # out else out)"

definition Display :: "Amount \<Rightarrow> string" where
  "Display a =
     (case Currencies (am_Currency a) of
        None \<Rightarrow> FormatInt (am_Minor a) @ '' '' @ am_Currency a
      | Some cur \<Rightarrow> formatMinor (am_Minor a) (Decimals cur) @ '' '' @ am_Currency a)"

section \<open>Parsing\<close>

definition isDigits :: "string \<Rightarrow> bool" where
  "isDigits s \<longleftrightarrow> s \<noteq> [] \<and> list_all isDigitChar s"

text \<open>
  \<open>parseBody\<close> is the part of \<open>parseDecimalToMinor\<close> after the sign has been read: cut at the
  first point, check the digits and the number of places, pad, strip leading zeros, convert.
\<close>

definition parseBody :: "string \<Rightarrow> string \<Rightarrow> bool \<Rightarrow> nat \<Rightarrow> int64 res" where
  "parseBody decimal s' neg decimals =
     (let dot = (CHR ''.'' \<in> set s');
          intPart = takeWhile (\<lambda>c. c \<noteq> CHR ''.'') s';
          fracPart = (if dot then tl (dropWhile (\<lambda>c. c \<noteq> CHR ''.'') s') else [])
      in if intPart = [] \<and> fracPart = [] then Inl (ELedger (InvalidAmount decimal))
         else
           let intPart' = (if intPart = [] then ''0'' else intPart)
           in if \<not> isDigits intPart' \<or> (fracPart \<noteq> [] \<and> \<not> isDigits fracPart)
              then Inl (ELedger (InvalidAmount decimal))
              else if length fracPart > decimals
              then Inl (ELedger (TooManyPlaces decimal (int decimals)))
              else
                let fracPart' = fracPart @ replicate (decimals - length fracPart) (CHR ''0'');
                    combined = TrimLeft (intPart' @ fracPart') (CHR ''0'');
                    combined' = (if combined = [] then ''0'' else combined)
                in (case ParseInt combined' of
                      None \<Rightarrow> Inl (ELedger (AmountOutOfRange decimal))
                    | Some v \<Rightarrow> Inr (if neg then wrap64 (- v) else v)))"

definition parseDecimalToMinor :: "string \<Rightarrow> nat \<Rightarrow> int64 res" where
  "parseDecimalToMinor decimal decimals =
     (let s = TrimSpace decimal
      in if s = [] then Inl (ELedger EmptyAmount)
         else let neg = (hd s = CHR ''-'');
                  s' = (if hd s = CHR ''+'' \<or> hd s = CHR ''-'' then tl s else s)
              in if s' = [] then Inl (ELedger (InvalidAmount decimal))
                 else parseBody decimal s' neg decimals)"

definition ParseAmount :: "string \<Rightarrow> string \<Rightarrow> Amount res" where
  "ParseAmount code decimal =
     (case Currencies code of
        None \<Rightarrow> Inl (ELedger (UnknownCurrency code))
      | Some cur \<Rightarrow>
          bindR (parseDecimalToMinor decimal (Decimals cur)) (\<lambda>minor. Inr (mkAmount code minor)))"

section \<open>Lemmas: currencies\<close>

lemma mkAmount_simps [simp]: "am_Currency (mkAmount c m) = c" "am_Minor (mkAmount c m) = m"
  by (simp_all add: mkAmount_def)

lemma Currencies_simps [simp]:
  "Currencies ''USD'' = Some \<lparr>Code = ''USD'', Decimals = 2\<rparr>"
  "Currencies ''USDC'' = Some \<lparr>Code = ''USDC'', Decimals = 6\<rparr>"
  by (simp_all add: Currencies_def)

lemma Currencies_Some: "Currencies c = Some cur \<Longrightarrow> c = ''USD'' \<or> c = ''USDC''"
  by (auto simp: Currencies_def split: if_splits)

section \<open>Lemmas: the value of a decimal string\<close>

lemma ParseInt_TrimLeft:
  assumes "list_all isDigitChar s"
  shows "ParseInt (if TrimLeft s CHR ''0'' = [] then ''0'' else TrimLeft s CHR ''0'') =
    (if in64 (int (decVal s)) then Some (int (decVal s)) else None)"
proof (cases "TrimLeft s CHR ''0'' = []")
  case True
  then have "decVal s = 0" by (metis decVal_Nil decVal_TrimLeft)
  moreover have "ParseInt ''0'' = Some 0" by code_simp
  ultimately show ?thesis using True by simp
next
  case False
  then show ?thesis
    by (simp add: ParseInt_digits digits_TrimLeft [OF assms])
qed

text \<open>
  A string \<open>i.f\<close> of digits with at most \<open>decimals\<close> digits after the point denotes the integer
  \<open>i * 10^decimals + f * 10^(decimals - length f)\<close>, whatever its size.
\<close>

lemma parseBody_digits:
  assumes i: "isDigits i" and f: "list_all isDigitChar f" and len: "length f \<le> decimals"
  shows "parseBody d (i @ CHR ''.'' # f) neg decimals =
    (let v = int (decVal i * 10 ^ decimals + decVal f * 10 ^ (decimals - length f))
     in if in64 v then Inr (if neg then - v else v) else Inl (ELedger (AmountOutOfRange d)))"
proof -
  let ?z = "f @ replicate (decimals - length f) (CHR ''0'')"
  have nodot: "\<forall>c \<in> set i. c \<noteq> CHR ''.''"
    using i by (auto simp: isDigits_def list_all_iff isDigitChar_def)
  have tw: "takeWhile (\<lambda>c. c \<noteq> CHR ''.'') (i @ CHR ''.'' # f) = i"
    using nodot by (simp add: takeWhile_append)
  have dw: "dropWhile (\<lambda>c. c \<noteq> CHR ''.'') (i @ CHR ''.'' # f) = CHR ''.'' # f"
    using nodot by (simp add: dropWhile_append)
  have digs: "list_all isDigitChar (i @ ?z)"
    using i f by (auto simp: isDigits_def list_all_iff isDigitChar_def)
  have zeros: "decVal (replicate k (CHR ''0'')) = 0" for k
    using decVal_zeros [of k "[]"] by simp
  define v where "v = int (decVal (i @ ?z))"
  have val: "int (decVal i * 10 ^ decimals + decVal f * 10 ^ (decimals - length f)) = v"
    using len by (simp add: v_def decVal_append zeros)
  have pos: "in64 v \<Longrightarrow> wrap64 (- v) = - v"
    by (rule wrap64_id) (simp add: in64_def min64_def max64_def v_def)
  have inonempty: "i \<noteq> []" using i by (simp add: isDigits_def)
  have ok: "\<not> (\<not> isDigits i \<or> f \<noteq> [] \<and> \<not> isDigits f)"
    using i f by (simp add: isDigits_def)
  show ?thesis
    unfolding val using inonempty ok len pos ParseInt_TrimLeft [OF digs, folded v_def]
    by (simp add: parseBody_def Let_def tw dw)
qed

lemma formatMinor_split:
  assumes "0 < decimals" and "m \<noteq> min64" and "in64 m"
  obtains i f where "formatMinor m decimals = (if m < 0 then ''-'' else '''') @ i @ CHR ''.'' # f"
    and "isDigits i" and "list_all isDigitChar f" and "length f = decimals"
    and "int (decVal i * 10 ^ decimals + decVal f) = \<bar>m\<bar>"
proof -
  define a where "a = nat \<bar>m\<bar>"
  have abs: "(if m < 0 then wrap64 (- m) else m) = \<bar>m\<bar>"
    using assms by (auto simp: in64_def min64_def max64_def)
  have fa: "FormatInt \<bar>m\<bar> = natStr a"
    by (simp add: FormatInt_def a_def)
  define p where "p = replicate (decimals + 1 - length (natStr a)) (CHR ''0'') @ natStr a"
  have lp: "decimals < length p" by (simp add: p_def)
  define i f where "i = take (length p - decimals) p" and "f = drop (length p - decimals) p"
  have pif: "p = i @ f" by (simp add: i_def f_def)
  have lf: "length f = decimals" using lp by (simp add: f_def)
  have dp: "list_all isDigitChar p"
    by (simp add: p_def natStr_digits list_all_iff isDigitChar_def) (use natStr_digits in \<open>auto simp: list_all_iff isDigitChar_def\<close>)
  have "i \<noteq> []" using lp by (cases p) (simp_all add: i_def)
  moreover have "list_all isDigitChar i" and df: "list_all isDigitChar f"
    using dp by (simp_all add: pif)
  ultimately have di: "isDigits i" by (simp add: isDigits_def)
  have "decVal p = a" by (simp add: p_def)
  then have "decVal i * 10 ^ decimals + decVal f = a"
    by (simp add: pif decVal_append lf)
  then have val: "int (decVal i * 10 ^ decimals + decVal f) = \<bar>m\<bar>"
    by (simp add: a_def)
  have "formatMinor m decimals = (if m < 0 then ''-'' else '''') @ i @ CHR ''.'' # f"
    using assms(1) unfolding formatMinor_def Let_def abs fa
    by (simp add: p_def i_def f_def)
  then show thesis by (rule that [OF _ di df lf val])
qed

text \<open>Round trip: what \<open>formatMinor\<close> writes is read back exactly.\<close>

lemma parse_formatMinor:
  assumes "0 < decimals" and "in64 m" and "m \<noteq> min64"
  shows "parseDecimalToMinor (formatMinor m decimals) decimals = Inr m"
proof -
  obtain i f where fm: "formatMinor m decimals = (if m < 0 then ''-'' else '''') @ i @ CHR ''.'' # f"
    and i: "isDigits i" and f: "list_all isDigitChar f" and lf: "length f = decimals"
    and val: "int (decVal i * 10 ^ decimals + decVal f) = \<bar>m\<bar>"
    using formatMinor_split [OF assms(1,3,2)] by metis
  have ine: "i \<noteq> []" and idg: "list_all isDigitChar i" using i by (simp_all add: isDigits_def)
  have plain: "list_all plainChar (formatMinor m decimals)"
    using idg f by (simp add: fm list_all_plain_digits)
  have hdi: "hd i \<noteq> CHR ''-''" "hd i \<noteq> CHR ''+''"
    using digit_hd [OF idg ine] by simp_all
  have "in64 \<bar>m\<bar>" using assms by (auto simp: in64_def min64_def max64_def)
  then have body: "parseBody d (i @ CHR ''.'' # f) neg decimals = Inr (if neg then - \<bar>m\<bar> else \<bar>m\<bar>)" for d neg
    using parseBody_digits [OF i f, of decimals d neg] lf val by (simp add: Let_def)
  show ?thesis
    unfolding parseDecimalToMinor_def TrimSpace_plain [OF plain]
    using ine hdi body by (simp add: fm Let_def)
qed

section \<open>Properties\<close>

text \<open>C15: Round trip: an amount of a known currency, rendered with the decimals of its currency, parses
  back to the same amount, for every 64-bit value but the smallest.\<close>

theorem amount_round_trip:
  assumes "Currencies c = Some cur" and "in64 m" and "m \<noteq> min64"
  shows "ParseAmount c (formatMinor m (Decimals cur)) = Inr (mkAmount c m)"
proof -
  have "0 < Decimals cur" using assms(1) by (auto simp: Currencies_def split: if_splits)
  then show ?thesis using parse_formatMinor [OF _ assms(2,3)] assms(1) by (simp add: ParseAmount_def)
qed

theorem amount_round_trip_witness:
  "ParseAmount ''USD'' (formatMinor (- 1234) 2) = Inr (mkAmount ''USD'' (- 1234))"
  using amount_round_trip [of "''USD''" "\<lparr>Code = ''USD'', Decimals = 2\<rparr>" "- 1234"]
  by (simp add: in64_def min64_def max64_def)

lemma digitChar_table:
  "digitChar 0 = CHR ''0''" "digitChar (Suc 0) = CHR ''1''" "digitChar 2 = CHR ''2''" "digitChar 3 = CHR ''3''"
  "digitChar 4 = CHR ''4''" "digitChar 5 = CHR ''5''" "digitChar 6 = CHR ''6''" "digitChar 7 = CHR ''7''"
  "digitChar 8 = CHR ''8''" "digitChar 9 = CHR ''9''"
  by code_simp+

lemma natStr_rec:
  "10 \<le> n \<Longrightarrow> natStr n = natStr (n div 10) @ [digitChar (n mod 10)]" "n < 10 \<Longrightarrow> natStr n = [digitChar n]"
  by (subst natStr.simps, simp)+

lemma min64_digits: "natStr 9223372036854775808 = ''9223372036854775808''"
  by (simp add: natStr_rec digitChar_table)

text \<open>The smallest 64-bit amount is the exception: its negation wraps around to itself, so it is
  rendered with two minus signs, and the parser refuses the text.\<close>

theorem min_amount_garbled:
  "formatMinor min64 2 = ''--92233720368547758.08'' \<and> isl (ParseAmount ''USD'' (formatMinor min64 2))"
proof -
  have f: "formatMinor min64 2 = ''--92233720368547758.08''"
    by (simp add: formatMinor_def min64_def wrap64_def FormatInt_def min64_digits)
  have "isl (ParseAmount ''USD'' ''--92233720368547758.08'')" by code_simp
  with f show ?thesis by simp
qed

end
