(* ===== verification/Ledger_Core.thy ===== *)
theory Ledger_Core
  imports Ledger_Amount Rules_Engine
begin

text \<open>
  \<open>internal/ledger\<close>: accounts (\<open>account.go\<close>), transactions (\<open>transaction.go\<close>), the projection
  (\<open>projection.go\<close>) and the service (\<open>service.go\<close>) without foreign exchange. The ledger writes
  events and reads a projection folded from them; every balance is derived. The lemmas evaluate the
  operations; the invariant and the reachable states are in \<open>Ledger_Inv\<close> and \<open>Ledger_Steps\<close>.
\<close>

section \<open>Accounts\<close>

text \<open>
  Directions, account types and statuses are Go strings with named constants; a value that came
  in from outside can be any string.
\<close>

definition Debit :: string where "Debit = ''debit''"
definition Credit :: string where "Credit = ''credit''"

definition CustomerDeposit :: string where "CustomerDeposit = ''customer_deposit''"
definition LoanReceivable :: string where "LoanReceivable = ''loan_receivable''"
definition TreasuryCash :: string where "TreasuryCash = ''treasury_cash''"
definition TreasuryFX :: string where "TreasuryFX = ''treasury_fx''"
definition MerchantSettlement :: string where "MerchantSettlement = ''merchant_settlement''"
definition InterestIncome :: string where "InterestIncome = ''interest_income''"
definition FeeIncome :: string where "FeeIncome = ''fee_income''"
definition LoanLossExpense :: string where "LoanLossExpense = ''loan_loss_expense''"
definition EquityCapital :: string where "EquityCapital = ''equity_capital''"

definition NormalBalance :: "string \<Rightarrow> string" where
  "NormalBalance t =
     (if t \<in> {LoanReceivable, TreasuryCash, TreasuryFX, LoanLossExpense} then Debit else Credit)"

record Account =
  ac_ID :: string
  ac_OwnerID :: string
  ac_Type :: string
  ac_Currency :: string
  ac_Name :: string
  ac_OpenedAt :: instant

section \<open>Transactions\<close>

record Entry =
  et_AccountID :: string
  et_Direction :: string
  et_Amount :: Amount

definition StatusPending :: string where "StatusPending = ''pending''"
definition StatusSettled :: string where "StatusSettled = ''settled''"
definition StatusFinal :: string where "StatusFinal = ''final''"

record Transaction =
  tx_ID :: string
  tx_Kind :: string
  tx_Description :: string
  tx_Currency :: string
  tx_Entries :: "Entry list"
  tx_Status :: string
  tx_LinkedTxID :: string
  tx_Metadata :: "(string \<times> string) list"
  tx_OccurredAt :: instant

record TxFilter =
  tf_AccountID :: string
  tf_Kind :: string
  tf_From :: instant
  tf_To :: instant
  tf_Status :: string

text \<open>A literal with the fields every caller of \<open>Post\<close> sets; the rest has its zero value.\<close>

definition newTx :: "string \<Rightarrow> string \<Rightarrow> string \<Rightarrow> Entry list \<Rightarrow> (string \<times> string) list \<Rightarrow> Transaction" where
  "newTx kind desc cur entries meta =
     \<lparr>tx_ID = '''', tx_Kind = kind, tx_Description = desc, tx_Currency = cur, tx_Entries = entries,
      tx_Status = '''', tx_LinkedTxID = '''', tx_Metadata = meta, tx_OccurredAt = zeroTime\<rparr>"

definition mkEntry :: "string \<Rightarrow> string \<Rightarrow> Amount \<Rightarrow> Entry" where
  "mkEntry a d m = \<lparr>et_AccountID = a, et_Direction = d, et_Amount = m\<rparr>"

text \<open>A filter on an account and a kind, and a key of the metadata.\<close>

definition txFilterBy :: "string \<Rightarrow> string \<Rightarrow> TxFilter" where
  "txFilterBy account kind =
     \<lparr>tf_AccountID = account, tf_Kind = kind, tf_From = zeroTime, tf_To = zeroTime, tf_Status = ''''\<rparr>"

definition metaOf :: "Transaction \<Rightarrow> string \<Rightarrow> string" where
  "metaOf tx k = getOr '''' (tx_Metadata tx) k"

section \<open>Payloads\<close>

text \<open>
  \<open>json.Marshal\<close> of the structs by their tags. It fails only for a time whose year has not four
  digits. Fields with \<open>omitempty\<close> are left out when empty.
\<close>

definition timeOK :: "instant \<Rightarrow> bool" where
  "timeOK t \<longleftrightarrow> - 62167219200 * 1000000000 \<le> t \<and> t < 253402300800 * 1000000000"

definition encAmount :: "Amount \<Rightarrow> json" where
  "encAmount a = JObj [(''currency'', JStr (am_Currency a)), (''minor'', jInt_of (am_Minor a))]"

definition encAccount :: "Account \<Rightarrow> json res" where
  "encAccount a =
     (if timeOK (ac_OpenedAt a) then
        Inr (JObj [(''id'', JStr (ac_ID a)), (''owner_id'', JStr (ac_OwnerID a)),
          (''type'', JStr (ac_Type a)), (''currency'', JStr (ac_Currency a)),
          (''name'', JStr (ac_Name a)), (''opened_at'', JTime (ac_OpenedAt a))])
      else Inl (EEncode ''opened_at''))"

definition encEntry :: "Entry \<Rightarrow> json" where
  "encEntry e =
     JObj [(''account_id'', JStr (et_AccountID e)), (''direction'', JStr (et_Direction e)),
       (''amount'', encAmount (et_Amount e))]"

definition encTransaction :: "Transaction \<Rightarrow> json res" where
  "encTransaction t =
     (if timeOK (tx_OccurredAt t) then
        Inr (JObj ([(''id'', JStr (tx_ID t)), (''kind'', JStr (tx_Kind t)),
          (''description'', JStr (tx_Description t)), (''currency'', JStr (tx_Currency t)),
          (''entries'', JArr (map encEntry (tx_Entries t))), (''status'', JStr (tx_Status t))]
          @ (if tx_LinkedTxID t = '''' then [] else [(''linked_tx_id'', JStr (tx_LinkedTxID t))])
          @ (if tx_Metadata t = [] then []
             else [(''metadata'', JObj (map (\<lambda>(k, v). (k, JStr v)) (tx_Metadata t)))])
          @ [(''occurred_at'', JTime (tx_OccurredAt t))]))
      else Inl (EEncode ''occurred_at''))"

text \<open>\<open>json.Unmarshal\<close> into the structs; \<open>None\<close> is a shape that does not fit.\<close>

fun optList :: "('a \<Rightarrow> 'b option) \<Rightarrow> 'a list \<Rightarrow> 'b list option" where
  "optList f [] = Some []"
| "optList f (x # xs) =
     (case (f x, optList f xs) of (Some y, Some ys) \<Rightarrow> Some (y # ys) | _ \<Rightarrow> None)"

definition decAmount :: "json \<Rightarrow> Amount option" where
  "decAmount j =
     (case jObj j of None \<Rightarrow> None | Some ob \<Rightarrow>
       (case (jStr (jfield ob ''currency''), jInt (jfield ob ''minor'')) of
          (Some c, Some m) \<Rightarrow> Some (mkAmount c m)
        | _ \<Rightarrow> None))"

definition decAccount :: "json \<Rightarrow> Account option" where
  "decAccount j =
     (case jObj j of None \<Rightarrow> None | Some ob \<Rightarrow>
       (case (jStr (jfield ob ''id''), jStr (jfield ob ''owner_id''), jStr (jfield ob ''type''),
              jStr (jfield ob ''currency''), jStr (jfield ob ''name''),
              jTime zeroTime (jfield ob ''opened_at'')) of
          (Some i, Some w, Some t, Some c, Some n, Some p) \<Rightarrow>
            Some \<lparr>ac_ID = i, ac_OwnerID = w, ac_Type = t, ac_Currency = c, ac_Name = n, ac_OpenedAt = p\<rparr>
        | _ \<Rightarrow> None))"

definition decEntry :: "json \<Rightarrow> Entry option" where
  "decEntry j =
     (case jObj j of None \<Rightarrow> None | Some ob \<Rightarrow>
       (case (jStr (jfield ob ''account_id''), jStr (jfield ob ''direction''), decAmount (jfield ob ''amount'')) of
          (Some a, Some d, Some m) \<Rightarrow> Some (mkEntry a d m)
        | _ \<Rightarrow> None))"

definition decTransaction :: "json \<Rightarrow> Transaction option" where
  "decTransaction j =
     (case jObj j of None \<Rightarrow> None | Some ob \<Rightarrow>
       (case (jStr (jfield ob ''id''), jStr (jfield ob ''kind''), jStr (jfield ob ''description''),
              jStr (jfield ob ''currency''), Option.bind (jArr (jfield ob ''entries'')) (optList decEntry),
              jStr (jfield ob ''status''), jStr (jfield ob ''linked_tx_id''),
              Option.bind (jObj (jfield ob ''metadata''))
                (optList (\<lambda>(k, v). map_option (Pair k) (jStr v))),
              jTime zeroTime (jfield ob ''occurred_at'')) of
          (Some i, Some k, Some d, Some c, Some es, Some st, Some l, Some m, Some p) \<Rightarrow>
            Some \<lparr>tx_ID = i, tx_Kind = k, tx_Description = d, tx_Currency = c, tx_Entries = es,
                  tx_Status = st, tx_LinkedTxID = l, tx_Metadata = m, tx_OccurredAt = p\<rparr>
        | _ \<Rightarrow> None))"

section \<open>The projection\<close>

definition eventAccountOpened :: string where "eventAccountOpened = ''ledger.account.opened''"
definition eventTxPosted :: string where "eventTxPosted = ''ledger.tx.posted''"
definition eventTxSettled :: string where "eventTxSettled = ''ledger.tx.settled''"
definition eventTxFinalized :: string where "eventTxFinalized = ''ledger.tx.finalized''"

definition ledgerEventTypes :: "string list" where
  "ledgerEventTypes = [eventAccountOpened, eventTxPosted, eventTxSettled, eventTxFinalized]"

record projection =
  pj_lastSeq :: int64
  pj_accounts :: "(string \<times> Account) list"
  pj_txs :: "(string \<times> Transaction) list"
  pj_debit :: "(string \<times> int64) list"
  pj_credit :: "(string \<times> int64) list"

definition newProjection :: projection where
  "newProjection = \<lparr>pj_lastSeq = 0, pj_accounts = [], pj_txs = [], pj_debit = [], pj_credit = []\<rparr>"

text \<open>The running totals, entry by entry.\<close>

definition addEntry :: "Entry \<Rightarrow> projection \<Rightarrow> projection" where
  "addEntry en p =
     (if et_Direction en = Debit then
        p\<lparr>pj_debit := addTo (et_AccountID en) (am_Minor (et_Amount en)) (pj_debit p)\<rparr>
      else if et_Direction en = Credit then
        p\<lparr>pj_credit := addTo (et_AccountID en) (am_Minor (et_Amount en)) (pj_credit p)\<rparr>
      else p)"

definition seen :: "Event \<Rightarrow> projection \<Rightarrow> projection" where
  "seen e p = (if ev_Seq e > pj_lastSeq p then p\<lparr>pj_lastSeq := ev_Seq e\<rparr> else p)"

definition apply_ledger :: "Event \<Rightarrow> (projection, unit) oper" where
  "apply_ledger e p =
     (if ev_Type e = eventAccountOpened then
        (case decAccount (ev_Payload e) of
           None \<Rightarrow> (Inl (ELedger (DecodeEvent (ev_Type e))), p)
         | Some a \<Rightarrow> (Inr (), seen e (p\<lparr>pj_accounts := AList.update (ac_ID a) a (pj_accounts p)\<rparr>)))
      else if ev_Type e = eventTxPosted then
        (case decTransaction (ev_Payload e) of
           None \<Rightarrow> (Inl (ELedger (DecodeEvent (ev_Type e))), p)
         | Some tx \<Rightarrow>
             (Inr (), seen e (fold addEntry (tx_Entries tx)
                        (p\<lparr>pj_txs := AList.update (tx_ID tx) tx (pj_txs p)\<rparr>))))
      else if ev_Type e = eventTxSettled \<or> ev_Type e = eventTxFinalized then
        (case decTransaction (ev_Payload e) of
           None \<Rightarrow> (Inl (ELedger (DecodeEvent (ev_Type e))), p)
         | Some tx \<Rightarrow>
             (Inr (), seen e (case map_of (pj_txs p) (tx_ID tx) of
                Some existing \<Rightarrow>
                  p\<lparr>pj_txs := AList.update (tx_ID tx) (existing\<lparr>tx_Status := tx_Status tx\<rparr>) (pj_txs p)\<rparr>
              | None \<Rightarrow> p\<lparr>pj_txs := AList.update (tx_ID tx) tx (pj_txs p)\<rparr>)))
      else (Inr (), seen e p))"

section \<open>The service\<close>

text \<open>
  The ledger's own state on top of the store, the clock and the rules engine it shares with the
  rest of the process. \<open>lg_fx\<close> says which rate provider was configured (see \<open>Ledger_Fx\<close>).
\<close>

record Rate =
  rt_From :: string
  rt_To :: string
  rt_Scaled :: int64
  rt_Source :: string
  rt_AsOf :: instant

datatype RateProvider =
    RuleRateProvider string bool
  | StaticRateProvider "(string \<times> Rate) list" string

record ledger = engine +
  lg_rates :: "RateProvider option"
  lg_proj :: projection

definition refresh_ledger :: "('z ledger_scheme, unit) oper" where
  "refresh_ledger =
     bindE (getE (\<lambda>s. pj_lastSeq (lg_proj s))) (\<lambda>n.
     bindE (ListEvents (tailFilter ledgerEventTypes n)) (\<lambda>events.
     zoomE lg_proj (\<lambda>p s. s\<lparr>lg_proj := p\<rparr>) (applyAll apply_ledger events)))"

definition applyAppended_ledger :: "Event list \<Rightarrow> ('z ledger_scheme, unit) oper" where
  "applyAppended_ledger events =
     zoomE lg_proj (\<lambda>p s. s\<lparr>lg_proj := p\<rparr>) (applyIgnoring apply_ledger events)"

definition newEvent :: "string \<Rightarrow> string \<Rightarrow> instant \<Rightarrow> json \<Rightarrow> Event" where
  "newEvent ty agg t payload =
     \<lparr>ev_ID = '''', ev_Seq = 0, ev_Type = ty, ev_AggregateID = agg, ev_OccurredAt = t,
      ev_RecordedAt = zeroTime, ev_Payload = payload\<rparr>"

definition OpenAccount :: "Account \<Rightarrow> ('z ledger_scheme, Account) oper" where
  "OpenAccount a0 =
     bindE (guardE (ac_ID a0 \<noteq> '''') (ELedger AccountIdRequired)) (\<lambda>_.
     bindE (guardE (Currencies (ac_Currency a0) \<noteq> None) (ELedger (UnknownCurrency (ac_Currency a0)))) (\<lambda>_.
     bindE refresh_ledger (\<lambda>_.
     bindE (getE (\<lambda>s. map_of (pj_accounts (lg_proj s)) (ac_ID a0))) (\<lambda>ex.
     bindE (guardE (ex = None) (ELedger (AccountExists (ac_ID a0)))) (\<lambda>_.
     bindE Now (\<lambda>n.
     (let a = a0\<lparr>ac_OpenedAt := n\<rparr>
      in bindE (liftE (encAccount a)) (\<lambda>payload.
         bindE (Append [newEvent eventAccountOpened (ac_ID a) (ac_OpenedAt a) payload]) (\<lambda>events.
         bindE (applyAppended_ledger events) (\<lambda>_.
         returnE a))))))))))"

definition systemAccounts :: "(string \<times> string \<times> string \<times> string) list" where
  "systemAccounts =
     [(''treasury-cash-usd'', TreasuryCash, ''USD'', ''Treasury Cash (USD)''),
      (''treasury-cash-usdc'', TreasuryCash, ''USDC'', ''Treasury Cash (USDC)''),
      (''treasury-fx-usd'', TreasuryFX, ''USD'', ''Treasury FX (USD)''),
      (''treasury-fx-usdc'', TreasuryFX, ''USDC'', ''Treasury FX (USDC)''),
      (''merchant-settlement-usd'', MerchantSettlement, ''USD'', ''Merchant Settlement (USD)''),
      (''merchant-settlement-usdc'', MerchantSettlement, ''USDC'', ''Merchant Settlement (USDC)''),
      (''interest-income-usd'', InterestIncome, ''USD'', ''Interest Income (USD)''),
      (''fee-income-usd'', FeeIncome, ''USD'', ''Fee Income (USD)''),
      (''loan-loss-expense-usd'', LoanLossExpense, ''USD'', ''Loan Loss Expense (USD)''),
      (''equity-capital-usd'', EquityCapital, ''USD'', ''Equity Capital (USD)'')]"

definition ensureAccount :: "string \<times> string \<times> string \<times> string \<Rightarrow> ('z ledger_scheme, unit) oper" where
  "ensureAccount spec =
     (case spec of (i, ty, cur, nm) \<Rightarrow>
        bindE (getE (\<lambda>s. map_of (pj_accounts (lg_proj s)) i)) (\<lambda>ex.
        if ex \<noteq> None then returnE ()
        else bindE (OpenAccount \<lparr>ac_ID = i, ac_OwnerID = ''system'', ac_Type = ty, ac_Currency = cur,
                                 ac_Name = nm, ac_OpenedAt = zeroTime\<rparr>) (\<lambda>_. returnE ())))"

definition EnsureSystemAccounts :: "('z ledger_scheme, unit) oper" where
  "EnsureSystemAccounts = bindE refresh_ledger (\<lambda>_. foreachE systemAccounts ensureAccount)"

definition GetAccount :: "string \<Rightarrow> ('z ledger_scheme, Account) oper" where
  "GetAccount i =
     bindE refresh_ledger (\<lambda>_.
     bindE (getE (\<lambda>s. map_of (pj_accounts (lg_proj s)) i)) (\<lambda>r. liftE (ofOption ErrNotFound r)))"

definition ListAccounts :: "('z ledger_scheme, Account list) oper" where
  "ListAccounts =
     bindE refresh_ledger (\<lambda>_. getE (\<lambda>s. sort_key ac_ID (map snd (pj_accounts (lg_proj s)))))"

section \<open>Posting\<close>

text \<open>The loop of \<open>validate\<close> over the entries, with the two totals it accumulates.\<close>

fun validateLoop :: "projection \<Rightarrow> string \<Rightarrow> Entry list \<Rightarrow> int64 \<Rightarrow> int64 \<Rightarrow> (int64 \<times> int64) res" where
  "validateLoop p cur [] totalDebit totalCredit = Inr (totalDebit, totalCredit)"
| "validateLoop p cur (e # es) totalDebit totalCredit =
     (if am_Currency (et_Amount e) \<noteq> cur then
        Inl (ELedger (EntryCurrencyMismatch (am_Currency (et_Amount e)) cur))
      else if am_Minor (et_Amount e) \<le> 0 then Inl (ELedger EntryNotPositive)
      else case map_of (pj_accounts p) (et_AccountID e) of
             None \<Rightarrow> Inl (ELedger (NoSuchAccount (et_AccountID e)))
           | Some acc \<Rightarrow>
               if ac_Currency acc \<noteq> cur then
                 Inl (ELedger (AccountCurrencyMismatch (et_AccountID e) (ac_Currency acc) cur))
               else if et_Direction e = Debit then
                 validateLoop p cur es (wrap64 (totalDebit + am_Minor (et_Amount e))) totalCredit
               else if et_Direction e = Credit then
                 validateLoop p cur es totalDebit (wrap64 (totalCredit + am_Minor (et_Amount e)))
               else Inl (ELedger (BadDirection (et_Direction e))))"

definition validate :: "projection \<Rightarrow> Transaction \<Rightarrow> unit res" where
  "validate p tx =
     (if length (tx_Entries tx) < 2 then Inl (ELedger TooFewEntries)
      else if Currencies (tx_Currency tx) = None then Inl (ELedger (UnknownCurrency (tx_Currency tx)))
      else bindR (validateLoop p (tx_Currency tx) (tx_Entries tx) 0 0) (\<lambda>(totalDebit, totalCredit).
        if totalDebit \<noteq> totalCredit then Inl (ELedger (Unbalanced totalDebit totalCredit))
        else if totalDebit \<le> 0 then Inl (ELedger TotalNotPositive)
        else Inr ()))"

definition appendTxEvent :: "string \<Rightarrow> Transaction \<Rightarrow> ('z ledger_scheme, unit) oper" where
  "appendTxEvent eventType tx =
     bindE (liftE (encTransaction tx)) (\<lambda>payload.
     bindE (Append [newEvent eventType (tx_ID tx) (tx_OccurredAt tx) payload]) (\<lambda>events.
     applyAppended_ledger events))"

definition Post :: "Transaction \<Rightarrow> ('z ledger_scheme, Transaction) oper" where
  "Post tx0 =
     bindE refresh_ledger (\<lambda>_.
     bindE (getE (\<lambda>s. validate (lg_proj s) tx0)) (\<lambda>v.
     bindE (liftE v) (\<lambda>_.
     bindE (if tx_ID tx0 = '''' then newID else returnE (tx_ID tx0)) (\<lambda>i.
     bindE Now (\<lambda>n.
     (let tx = tx0\<lparr>tx_ID := i, tx_Status := StatusPending, tx_OccurredAt := n\<rparr>
      in bindE (appendTxEvent eventTxPosted tx) (\<lambda>_. returnE tx)))))))"

definition transition :: "string \<Rightarrow> string \<Rightarrow> string \<Rightarrow> string \<Rightarrow> ('z ledger_scheme, Transaction) oper" where
  "transition txID from to eventType =
     bindE refresh_ledger (\<lambda>_.
     bindE (getE (\<lambda>s. map_of (pj_txs (lg_proj s)) txID)) (\<lambda>found.
     bindE (liftE (ofOption ErrNotFound found)) (\<lambda>tx0.
     bindE (guardE (tx_Status tx0 = from) (ELedger (BadTransition txID (tx_Status tx0) to))) (\<lambda>_.
     bindE Now (\<lambda>n.
     (let tx = tx0\<lparr>tx_Status := to, tx_OccurredAt := n\<rparr>
      in bindE (appendTxEvent eventType tx) (\<lambda>_. returnE tx)))))))"

definition Settle :: "string \<Rightarrow> ('z ledger_scheme, Transaction) oper" where
  "Settle txID = transition txID StatusPending StatusSettled eventTxSettled"

definition Finalize :: "string \<Rightarrow> ('z ledger_scheme, Transaction) oper" where
  "Finalize txID = transition txID StatusSettled StatusFinal eventTxFinalized"

definition PostAndFinalize :: "Transaction \<Rightarrow> ('z ledger_scheme, Transaction) oper" where
  "PostAndFinalize tx =
     bindE (Post tx) (\<lambda>posted.
     bindE (Settle (tx_ID posted)) (\<lambda>settled.
     Finalize (tx_ID settled)))"

definition seedTx :: "int64 \<Rightarrow> Transaction" where
  "seedTx usdCents =
     newTx ''capital.seed'' ''Initial capital seed'' ''USD''
       [mkEntry ''treasury-cash-usd'' Debit (mkAmount ''USD'' usdCents),
        mkEntry ''equity-capital-usd'' Credit (mkAmount ''USD'' usdCents)] []"

definition SeedCapital :: "int64 \<Rightarrow> ('z ledger_scheme, unit) oper" where
  "SeedCapital usdCents =
     bindE refresh_ledger (\<lambda>_.
     bindE (getE (\<lambda>s. list_ex (\<lambda>(_, tx). tx_Kind tx = ''capital.seed'') (pj_txs (lg_proj s)))) (\<lambda>done.
     if done then returnE ()
     else bindE (PostAndFinalize (seedTx usdCents)) (\<lambda>_. returnE ())))"

section \<open>Reading\<close>

definition GetTransaction :: "string \<Rightarrow> ('z ledger_scheme, Transaction) oper" where
  "GetTransaction i =
     bindE refresh_ledger (\<lambda>_.
     bindE (getE (\<lambda>s. map_of (pj_txs (lg_proj s)) i)) (\<lambda>r. liftE (ofOption ErrNotFound r)))"

definition txHasAccount :: "Transaction \<Rightarrow> string \<Rightarrow> bool" where
  "txHasAccount tx a = list_ex (\<lambda>e. et_AccountID e = a) (tx_Entries tx)"

definition matchesTx :: "TxFilter \<Rightarrow> Transaction \<Rightarrow> bool" where
  "matchesTx f tx \<longleftrightarrow>
     \<not> (tf_AccountID f \<noteq> '''' \<and> \<not> txHasAccount tx (tf_AccountID f)) \<and>
     \<not> (tf_Kind f \<noteq> '''' \<and> tx_Kind tx \<noteq> tf_Kind f) \<and>
     \<not> (tf_Status f \<noteq> '''' \<and> tx_Status tx \<noteq> tf_Status f) \<and>
     \<not> (tf_From f \<noteq> zeroTime \<and> tx_OccurredAt tx < tf_From f) \<and>
     \<not> (tf_To f \<noteq> zeroTime \<and> tf_To f < tx_OccurredAt tx)"

definition ListTransactions :: "TxFilter \<Rightarrow> ('z ledger_scheme, Transaction list) oper" where
  "ListTransactions f =
     bindE refresh_ledger (\<lambda>_.
     getE (\<lambda>s. sort_key (\<lambda>tx. (tx_OccurredAt tx, tx_ID tx))
                 (filter (matchesTx f) (map snd (pj_txs (lg_proj s))))))"

definition naturalBalance :: "projection \<Rightarrow> Account \<Rightarrow> int64" where
  "naturalBalance p acc =
     (let d = getOr 0 (pj_debit p) (ac_ID acc);
          c = getOr 0 (pj_credit p) (ac_ID acc)
      in if NormalBalance (ac_Type acc) = Debit then wrap64 (d - c) else wrap64 (c - d))"

definition Balance :: "string \<Rightarrow> ('z ledger_scheme, Amount) oper" where
  "Balance accountID =
     bindE refresh_ledger (\<lambda>_.
     bindE (getE (\<lambda>s. map_of (pj_accounts (lg_proj s)) accountID)) (\<lambda>r.
     bindE (liftE (ofOption ErrNotFound r)) (\<lambda>acc.
     getE (\<lambda>s. mkAmount (ac_Currency acc) (naturalBalance (lg_proj s) acc)))))"

definition Balances :: "('z ledger_scheme, (string \<times> Amount) list) oper" where
  "Balances =
     bindE refresh_ledger (\<lambda>_.
     getE (\<lambda>s. map (\<lambda>(i, acc). (i, mkAmount (ac_Currency acc) (naturalBalance (lg_proj s) acc)))
                 (pj_accounts (lg_proj s))))"

definition addByType ::
  "projection \<Rightarrow> Account \<Rightarrow> (string \<times> (string \<times> int64) list) list \<Rightarrow> (string \<times> (string \<times> int64) list) list" where
  "addByType p acc out =
     AList.update (ac_Type acc)
       (addTo (ac_Currency acc) (naturalBalance p acc) (getOr [] out (ac_Type acc))) out"

definition BalancesByType :: "('z ledger_scheme, (string \<times> (string \<times> int64) list) list) oper" where
  "BalancesByType =
     bindE refresh_ledger (\<lambda>_.
     getE (\<lambda>s. fold (addByType (lg_proj s)) (map snd (pj_accounts (lg_proj s))) []))"

end
