(* ===== verification/Ledger_Inv.thy ===== *)
theory Ledger_Inv
  imports Ledger_Core
begin

text \<open>
  What the ledger keeps: payloads are read back as written, the projection is the replay of the
  log (through the interpretation \<open>ledger_log\<close> of the projection contract), each operation has a
  closed form on a synchronised state, and the invariant \<open>ledger_inv\<close> with the trial balance holds
  in every reachable state of the step relation \<open>ledger_step\<close>.
\<close>

section \<open>Constants\<close>

lemma directions [simp]: "Debit \<noteq> Credit" "Credit \<noteq> Debit"
  by (simp_all add: Debit_def Credit_def)

lemma statuses [simp]:
  "StatusPending \<noteq> StatusSettled" "StatusSettled \<noteq> StatusPending" "StatusPending \<noteq> StatusFinal"
  "StatusFinal \<noteq> StatusPending" "StatusSettled \<noteq> StatusFinal" "StatusFinal \<noteq> StatusSettled"
  by (simp_all add: StatusPending_def StatusSettled_def StatusFinal_def)

lemma event_types [simp]:
  "eventAccountOpened \<noteq> eventTxPosted" "eventAccountOpened \<noteq> eventTxSettled"
  "eventAccountOpened \<noteq> eventTxFinalized" "eventTxPosted \<noteq> eventAccountOpened"
  "eventTxPosted \<noteq> eventTxSettled" "eventTxPosted \<noteq> eventTxFinalized"
  "eventTxSettled \<noteq> eventAccountOpened" "eventTxSettled \<noteq> eventTxPosted"
  "eventTxSettled \<noteq> eventTxFinalized" "eventTxFinalized \<noteq> eventAccountOpened"
  "eventTxFinalized \<noteq> eventTxPosted" "eventTxFinalized \<noteq> eventTxSettled"
  by (simp_all add: eventAccountOpened_def eventTxPosted_def eventTxSettled_def eventTxFinalized_def)

lemma set_ledgerEventTypes [simp]:
  "set ledgerEventTypes = {eventAccountOpened, eventTxPosted, eventTxSettled, eventTxFinalized}"
  by (simp add: ledgerEventTypes_def)

section \<open>Payloads are read back\<close>

text \<open>A Go value of type \<open>Transaction\<close> has 64-bit amounts.\<close>

definition tx_typed :: "Transaction \<Rightarrow> bool" where
  "tx_typed t \<longleftrightarrow> (\<forall>e \<in> set (tx_Entries t). in64 (am_Minor (et_Amount e)))"

lemma optList_map: "(\<And>x. x \<in> set xs \<Longrightarrow> f (g x) = Some x) \<Longrightarrow> optList f (map g xs) = Some xs"
  by (induction xs) auto

lemma decAmount_enc [simp]: "in64 (am_Minor a) \<Longrightarrow> decAmount (encAmount a) = Some a"
  by (simp add: decAmount_def encAmount_def mkAmount_def)

lemma decEntry_enc [simp]: "in64 (am_Minor (et_Amount e)) \<Longrightarrow> decEntry (encEntry e) = Some e"
  by (simp add: decEntry_def encEntry_def mkEntry_def)

lemma decAccount_enc: "encAccount a = Inr j \<Longrightarrow> decAccount j = Some a"
  by (auto simp: encAccount_def decAccount_def split: if_splits)

lemma decTransaction_enc:
  assumes "tx_typed t" and "encTransaction t = Inr j"
  shows "decTransaction j = Some t"
proof -
  have es: "optList decEntry (map encEntry (tx_Entries t)) = Some (tx_Entries t)"
    by (rule optList_map) (use assms(1) in \<open>simp add: tx_typed_def\<close>)
  have ms: "optList (\<lambda>(k, v). map_option (Pair k) (jStr v)) (map (\<lambda>(k, v). (k, JStr v)) m) = Some m" for m
    by (rule optList_map) auto
  show ?thesis
    using assms(2) by (auto simp: encTransaction_def decTransaction_def es ms split: if_splits)
qed

lemma encTransaction_eq: "encTransaction t = Inl e \<longleftrightarrow> \<not> timeOK (tx_OccurredAt t) \<and> e = EEncode ''occurred_at''"
  by (auto simp: encTransaction_def)

lemma encTransaction_ok: "timeOK (tx_OccurredAt t) \<longleftrightarrow> (\<exists>j. encTransaction t = Inr j)"
  by (auto simp: encTransaction_def)

section \<open>The projection contract\<close>

definition good_ledger :: "Event \<Rightarrow> bool" where
  "good_ledger e \<longleftrightarrow>
     (ev_Type e = eventAccountOpened \<longrightarrow> decAccount (ev_Payload e) \<noteq> None) \<and>
     (ev_Type e \<in> {eventTxPosted, eventTxSettled, eventTxFinalized} \<longrightarrow> decTransaction (ev_Payload e) \<noteq> None)"

lemma addEntry_frame [simp]:
  "pj_lastSeq (addEntry e p) = pj_lastSeq p" "pj_accounts (addEntry e p) = pj_accounts p"
  "pj_txs (addEntry e p) = pj_txs p"
  by (simp_all add: addEntry_def)

lemma fold_addEntry_frame [simp]:
  "pj_lastSeq (fold addEntry es p) = pj_lastSeq p" "pj_accounts (fold addEntry es p) = pj_accounts p"
  "pj_txs (fold addEntry es p) = pj_txs p"
  by (induction es arbitrary: p) simp_all

lemma seen_simps [simp]:
  "pj_lastSeq (seen e p) = max (pj_lastSeq p) (ev_Seq e)" "pj_accounts (seen e p) = pj_accounts p"
  "pj_txs (seen e p) = pj_txs p" "pj_debit (seen e p) = pj_debit p" "pj_credit (seen e p) = pj_credit p"
  by (simp_all add: seen_def max_def)

interpretation ledger_log: event_projection apply_ledger pj_lastSeq ledgerEventTypes good_ledger
proof unfold_locales
  fix e :: Event and p :: projection
  assume "good_ledger e"
  then show "fst (apply_ledger e p) = Inr ()"
    and "pj_lastSeq (snd (apply_ledger e p)) = max (pj_lastSeq p) (ev_Seq e)"
    by (auto simp: apply_ledger_def good_ledger_def split: option.splits)
qed (simp add: ledgerEventTypes_def)

text \<open>The projection is the replay of the log, and every ledger event in it can be decoded.\<close>

definition ledger_synced :: "'z ledger_scheme \<Rightarrow> bool" where
  "ledger_synced s \<longleftrightarrow> log_wf s \<and> (\<forall>e \<in> set (own ledgerEventTypes (st_events s)). good_ledger e) \<and>
     lg_proj s = replay apply_ledger ledgerEventTypes (st_events s) newProjection"

lemma refresh_app:
  "refresh_ledger s =
     (case applyAll apply_ledger
        (filter (matchesFilter (tailFilter ledgerEventTypes (pj_lastSeq (lg_proj s)))) (st_events s)) (lg_proj s) of
      (r, p) \<Rightarrow> (r, s\<lparr>lg_proj := p\<rparr>))"
  by (simp add: refresh_ledger_def op_simps ListEvents_unlimited tailFilter_def split: prod.split)

text \<open>Refreshing a projection of any prefix of the log catches up with the whole of it.\<close>

lemma refresh_catches_up:
  assumes wf: "log_wf s" and log: "st_events s = pre @ post"
    and good: "\<forall>e \<in> set (own ledgerEventTypes (st_events s)). good_ledger e"
    and p: "lg_proj s = replay apply_ledger ledgerEventTypes pre newProjection"
  shows "refresh_ledger s =
    (Inr (), s\<lparr>lg_proj := replay apply_ledger ledgerEventTypes (st_events s) newProjection\<rparr>)"
proof -
  have "\<forall>e \<in> set (pre @ post). pj_lastSeq newProjection < ev_Seq e"
    using log_wf_pos [OF wf] by (simp add: log newProjection_def)
  then show ?thesis
    using ledger_log.catch_up [of pre post newProjection] log_wf_sorted [OF wf] good
    by (simp add: refresh_app p log)
qed

lemma refresh_synced [simp]: "ledger_synced s \<Longrightarrow> refresh_ledger s = (Inr (), s)"
  using refresh_catches_up [of s "st_events s" "[]"] by (simp add: ledger_synced_def)

section \<open>Appending\<close>

definition stored :: "'z ledger_scheme \<Rightarrow> Event \<Rightarrow> Event" where
  "stored s e = e\<lparr>ev_Seq := st_seq s + 1, ev_ID := rand s (drawn s), ev_RecordedAt := wall s\<rparr>"

definition appended :: "'z ledger_scheme \<Rightarrow> Event \<Rightarrow> 'z ledger_scheme" where
  "appended s e =
     s\<lparr>drawn := drawn s + 1, st_seq := st_seq s + 1, st_events := st_events s @ [stored s e],
       lg_proj := snd (apply_ledger (stored s e) (lg_proj s))\<rparr>"

lemma newEvent_simps [simp]:
  "ev_ID (newEvent ty agg t pl) = ''''" "ev_Type (newEvent ty agg t pl) = ty"
  "ev_Payload (newEvent ty agg t pl) = pl" "ev_RecordedAt (newEvent ty agg t pl) = zeroTime"
  by (simp_all add: newEvent_def)

lemma stored_simps [simp]:
  "ev_Type (stored s e) = ev_Type e" "ev_Payload (stored s e) = ev_Payload e"
  "ev_Seq (stored s e) = st_seq s + 1"
  by (simp_all add: stored_def)

lemma append_apply:
  assumes "ev_ID e = ''''" and "ev_RecordedAt e = zeroTime"
  shows "bindE (Append [e]) (\<lambda>es. bindE (applyAppended_ledger es) f) s = f () (appended s e)"
    and "bindE (Append [e]) applyAppended_ledger s = (Inr (), appended s e)"
  using assms
  by (simp_all add: bindE_def op_simps Let_def applyAppended_ledger_def applyIgnoring_eq appended_def stored_def)

lemma synced_appended:
  assumes s: "ledger_synced s" and e: "good_ledger e" and ty: "ev_Type e \<in> set ledgerEventTypes"
  shows "ledger_synced (appended s e)"
proof -
  have "good_ledger (stored s e)" using e by (simp add: good_ledger_def)
  moreover have "log_wf (appended s e)" using s by (simp add: ledger_synced_def log_wf_def appended_def)
  moreover have "snd (apply_ledger (stored s e) p) = replay apply_ledger ledgerEventTypes [stored s e] p"
    for p
    using ty by (simp add: replay_def del: set_ledgerEventTypes)
  ultimately show ?thesis
    using s ty by (auto simp: ledger_synced_def appended_def replay_append)
qed

section \<open>The journal: an abstract ledger\<close>

text \<open>
  The specification of the ledger is its journal: the entries of all posted transactions in the
  order of the log. Settling and finalising do not appear in it.
\<close>

definition postedEntries :: "Event \<Rightarrow> Entry list" where
  "postedEntries e =
     (if ev_Type e = eventTxPosted then
        (case decTransaction (ev_Payload e) of None \<Rightarrow> [] | Some tx \<Rightarrow> tx_Entries tx)
      else [])"

definition journal :: "Event list \<Rightarrow> Entry list" where
  "journal es = concat (map postedEntries es)"

lemma journal_simps [simp]:
  "journal [] = []" "journal (es @ fs) = journal es @ journal fs" "journal [e] = postedEntries e"
  by (simp_all add: journal_def)

section \<open>Closed forms\<close>

text \<open>The projection after a posted transaction, a change of status and a new account.\<close>

definition postedProj :: "Transaction \<Rightarrow> projection \<Rightarrow> projection" where
  "postedProj tx p = fold addEntry (tx_Entries tx) (p\<lparr>pj_txs := AList.update (tx_ID tx) tx (pj_txs p)\<rparr>)"

definition statusProj :: "string \<Rightarrow> string \<Rightarrow> projection \<Rightarrow> projection" where
  "statusProj i st p =
     (case map_of (pj_txs p) i of
        None \<Rightarrow> p
      | Some t \<Rightarrow> p\<lparr>pj_txs := AList.update i (t\<lparr>tx_Status := st\<rparr>) (pj_txs p)\<rparr>)"

definition openedProj :: "Account \<Rightarrow> projection \<Rightarrow> projection" where
  "openedProj a p = p\<lparr>pj_accounts := AList.update (ac_ID a) a (pj_accounts p)\<rparr>"

text \<open>
  \<open>withProj p es s s'\<close>: from \<open>s\<close> to \<open>s'\<close> the projection has become \<open>p\<close>, the journal has grown by
  \<open>es\<close>, and nothing else but the log and the identifiers drawn has changed.
\<close>

definition withProj :: "projection \<Rightarrow> Entry list \<Rightarrow> 'z ledger_scheme \<Rightarrow> 'z ledger_scheme \<Rightarrow> bool" where
  "withProj p es s s' \<longleftrightarrow> (\<exists>n. lg_proj s' = p\<lparr>pj_lastSeq := n\<rparr>) \<and> now s' = now s \<and> rand s' = rand s \<and>
     drawn s \<le> drawn s' \<and> lg_rates s' = lg_rates s \<and> en_cache s' = en_cache s \<and> en_evaluators s' = en_evaluators s \<and>
     st_versions s' = st_versions s \<and> st_apps s' = st_apps s \<and> (\<exists>fs. st_events s' = st_events s @ fs) \<and>
     journal (st_events s') = journal (st_events s) @ es"

lemma seen_update: "\<exists>n. seen e p = p\<lparr>pj_lastSeq := n\<rparr>"
  by (cases "ev_Seq e > pj_lastSeq p") (auto simp: seen_def intro: exI [of _ "pj_lastSeq p"])

lemma withProj_appended:
  assumes "snd (apply_ledger (stored s e) (lg_proj s)) = seen (stored s e) p"
  shows "withProj p (postedEntries e) s (appended s e)"
  using assms seen_update [of "stored s e" p] by (auto simp: withProj_def appended_def postedEntries_def)

lemma apply_posted:
  assumes "ev_Type e = eventTxPosted" and "decTransaction (ev_Payload e) = Some tx"
  shows "apply_ledger e p = (Inr (), seen e (postedProj tx p))"
  using assms by (simp add: apply_ledger_def postedProj_def)

lemma apply_status:
  assumes "ev_Type e = eventTxSettled \<or> ev_Type e = eventTxFinalized"
    and "decTransaction (ev_Payload e) = Some tx" and "map_of (pj_txs p) (tx_ID tx) \<noteq> None"
  shows "apply_ledger e p = (Inr (), seen e (statusProj (tx_ID tx) (tx_Status tx) p))"
  using assms by (auto simp: apply_ledger_def statusProj_def)

lemma apply_opened:
  assumes "ev_Type e = eventAccountOpened" and "decAccount (ev_Payload e) = Some a"
  shows "apply_ledger e p = (Inr (), seen e (openedProj a p))"
  using assms by (simp add: apply_ledger_def openedProj_def)

text \<open>\<open>Post\<close> on a synchronised state, on every branch.\<close>

definition postID :: "Transaction \<Rightarrow> 'z ledger_scheme \<Rightarrow> string" where
  "postID tx s = (if tx_ID tx = '''' then rand s (drawn s) else tx_ID tx)"

definition pending :: "Transaction \<Rightarrow> 'z ledger_scheme \<Rightarrow> Transaction" where
  "pending tx s = tx\<lparr>tx_ID := postID tx s, tx_Status := StatusPending, tx_OccurredAt := now s\<rparr>"

lemma synced_drawn [simp]: "ledger_synced (s\<lparr>drawn := n\<rparr>) = ledger_synced s"
  by (simp add: ledger_synced_def log_wf_def)

lemma withProj_drawn: "withProj p es (s\<lparr>drawn := drawn s + 1\<rparr>) s' \<Longrightarrow> withProj p es s s'"
  by (auto simp: withProj_def)

lemma appendTxEvent_app:
  assumes s: "ledger_synced s" and ty: "eventType \<in> {eventTxPosted, eventTxSettled, eventTxFinalized}"
    and "tx_typed tx" and "timeOK (tx_OccurredAt tx)"
  obtains e where "appendTxEvent eventType tx s = (Inr (), appended s e)"
    and "ledger_synced (appended s e)" and "ev_Type e = eventType" and "decTransaction (ev_Payload e) = Some tx"
proof -
  obtain j where j: "encTransaction tx = Inr j" using assms(4) by (auto simp: encTransaction_ok)
  let ?e = "newEvent eventType (tx_ID tx) (tx_OccurredAt tx) j"
  have dec: "decTransaction j = Some tx" by (rule decTransaction_enc [OF assms(3) j])
  then have "good_ledger ?e" using ty by (auto simp: good_ledger_def)
  then have "ledger_synced (appended s ?e)" by (rule synced_appended [OF s]) (use ty in auto)
  moreover have "appendTxEvent eventType tx s = (Inr (), appended s ?e)"
    by (simp add: appendTxEvent_def j op_simps append_apply)
  ultimately show thesis using that [of ?e] dec by simp
qed

lemma Post_app:
  assumes s: "ledger_synced s" and typed: "tx_typed tx"
  shows "validate (lg_proj s) tx = Inl e \<Longrightarrow> Post tx s = (Inl e, s)"
    and "validate (lg_proj s) tx = Inr () \<Longrightarrow> \<not> timeOK (now s) \<Longrightarrow>
       \<exists>n. Post tx s = (Inl (EEncode ''occurred_at''), s\<lparr>drawn := n\<rparr>) \<and> drawn s \<le> n"
    and "validate (lg_proj s) tx = Inr () \<Longrightarrow> timeOK (now s) \<Longrightarrow>
       \<exists>s'. Post tx s = (Inr (pending tx s), s') \<and> ledger_synced s'
            \<and> withProj (postedProj (pending tx s) (lg_proj s)) (tx_Entries tx) s s'"
proof -
  show "validate (lg_proj s) tx = Inl e \<Longrightarrow> Post tx s = (Inl e, s)"
    using s by (simp add: Post_def op_simps)
next
  assume ok: "validate (lg_proj s) tx = Inr ()" and t: "\<not> timeOK (now s)"
  show "\<exists>n. Post tx s = (Inl (EEncode ''occurred_at''), s\<lparr>drawn := n\<rparr>) \<and> drawn s \<le> n"
    using s ok t by (auto simp: Post_def op_simps Now_def appendTxEvent_def encTransaction_def
        intro: exI [of _ "drawn s"])
next
  assume ok: "validate (lg_proj s) tx = Inr ()" and t: "timeOK (now s)"
  define s1 where "s1 = (if tx_ID tx = '''' then s\<lparr>drawn := drawn s + 1\<rparr> else s)"
  have s1: "ledger_synced s1" "now s1 = now s" "lg_proj s1 = lg_proj s" using s by (simp_all add: s1_def)
  have "tx_typed (pending tx s)" using typed by (simp add: tx_typed_def pending_def)
  moreover have "timeOK (tx_OccurredAt (pending tx s))" using t by (simp add: pending_def)
  ultimately obtain e where ap: "appendTxEvent eventTxPosted (pending tx s) s1 = (Inr (), appended s1 e)"
    and sy: "ledger_synced (appended s1 e)" and e: "ev_Type e = eventTxPosted"
      "decTransaction (ev_Payload e) = Some (pending tx s)"
    using appendTxEvent_app [OF s1(1), of eventTxPosted "pending tx s"] by auto
  have "withProj (postedProj (pending tx s) (lg_proj s)) (tx_Entries tx) s1 (appended s1 e)"
    using withProj_appended [of s1 e "postedProj (pending tx s) (lg_proj s)"] e
    by (simp add: apply_posted s1 postedEntries_def pending_def)
  then have "withProj (postedProj (pending tx s) (lg_proj s)) (tx_Entries tx) s (appended s1 e)"
    by (auto simp: s1_def intro: withProj_drawn split: if_splits)
  moreover have "Post tx s = (Inr (pending tx s), appended s1 e)"
  proof (cases "tx_ID tx = ''''")
    case True
    then show ?thesis
      using ap s ok by (simp add: Post_def op_simps Now_def Let_def pending_def postID_def s1_def)
  next
    case False
    then show ?thesis
      using ap s ok by (simp add: Post_def op_simps Now_def Let_def pending_def postID_def s1_def)
  qed
  ultimately show "\<exists>s'. Post tx s = (Inr (pending tx s), s') \<and> ledger_synced s'
      \<and> withProj (postedProj (pending tx s) (lg_proj s)) (tx_Entries tx) s s'"
    using sy by blast
qed

lemma transition_app:
  assumes s: "ledger_synced s" and ty: "eventType = eventTxSettled \<or> eventType = eventTxFinalized"
  shows "map_of (pj_txs (lg_proj s)) i = None \<Longrightarrow> transition i from to eventType s = (Inl ErrNotFound, s)"
    and "map_of (pj_txs (lg_proj s)) i = Some t \<Longrightarrow> tx_Status t \<noteq> from \<Longrightarrow>
       transition i from to eventType s = (Inl (ELedger (BadTransition i (tx_Status t) to)), s)"
    and "map_of (pj_txs (lg_proj s)) i = Some t \<Longrightarrow> tx_Status t = from \<Longrightarrow> \<not> timeOK (now s) \<Longrightarrow>
       transition i from to eventType s = (Inl (EEncode ''occurred_at''), s)"
    and "map_of (pj_txs (lg_proj s)) i = Some t \<Longrightarrow> tx_Status t = from \<Longrightarrow> timeOK (now s) \<Longrightarrow>
       tx_typed t \<Longrightarrow> tx_ID t = i \<Longrightarrow>
       \<exists>s'. transition i from to eventType s = (Inr (t\<lparr>tx_Status := to, tx_OccurredAt := now s\<rparr>), s')
            \<and> ledger_synced s' \<and> withProj (statusProj i to (lg_proj s)) [] s s'"
proof -
  show "map_of (pj_txs (lg_proj s)) i = None \<Longrightarrow> transition i from to eventType s = (Inl ErrNotFound, s)"
    using s by (simp add: transition_def op_simps ofOption_def bindE_def)
  show "map_of (pj_txs (lg_proj s)) i = Some t \<Longrightarrow> tx_Status t \<noteq> from \<Longrightarrow>
      transition i from to eventType s = (Inl (ELedger (BadTransition i (tx_Status t) to)), s)"
    using s by (simp add: transition_def op_simps ofOption_def)
  show "map_of (pj_txs (lg_proj s)) i = Some t \<Longrightarrow> tx_Status t = from \<Longrightarrow> \<not> timeOK (now s) \<Longrightarrow>
      transition i from to eventType s = (Inl (EEncode ''occurred_at''), s)"
    using s by (simp add: transition_def op_simps ofOption_def Now_def Let_def appendTxEvent_def
        encTransaction_def bindE_def)
next
  assume t: "map_of (pj_txs (lg_proj s)) i = Some t" "tx_Status t = from" "timeOK (now s)"
    "tx_typed t" "tx_ID t = i"
  define u where "u = t\<lparr>tx_Status := to, tx_OccurredAt := now s\<rparr>"
  have "tx_typed u" "timeOK (tx_OccurredAt u)" using t by (simp_all add: u_def tx_typed_def)
  then obtain e where ap: "appendTxEvent eventType u s = (Inr (), appended s e)"
    and sy: "ledger_synced (appended s e)" and e: "ev_Type e = eventType" "decTransaction (ev_Payload e) = Some u"
    using appendTxEvent_app [OF s, of eventType u] ty by auto
  have "apply_ledger (stored s e) (lg_proj s) =
      (Inr (), seen (stored s e) (statusProj (tx_ID u) (tx_Status u) (lg_proj s)))"
    by (rule apply_status) (use ty e t in \<open>auto simp: u_def\<close>)
  then have "withProj (statusProj i to (lg_proj s)) (postedEntries e) s (appended s e)"
    using t by (intro withProj_appended) (simp add: u_def)
  moreover have "postedEntries e = []" using ty e by (auto simp: postedEntries_def)
  moreover have "transition i from to eventType s = (Inr u, appended s e)"
    using s t ap by (simp add: transition_def op_simps ofOption_def Now_def Let_def u_def)
  ultimately show "\<exists>s'. transition i from to eventType s = (Inr (t\<lparr>tx_Status := to, tx_OccurredAt := now s\<rparr>), s')
      \<and> ledger_synced s' \<and> withProj (statusProj i to (lg_proj s)) [] s s'"
    using sy by (simp add: u_def)
qed

lemma OpenAccount_app:
  assumes s: "ledger_synced s"
  shows "ac_ID a \<noteq> '''' \<Longrightarrow> Currencies (ac_Currency a) \<noteq> None \<Longrightarrow>
      map_of (pj_accounts (lg_proj s)) (ac_ID a) = None \<Longrightarrow> timeOK (now s) \<Longrightarrow>
      \<exists>s'. OpenAccount a s = (Inr (a\<lparr>ac_OpenedAt := now s\<rparr>), s') \<and> ledger_synced s'
        \<and> withProj (openedProj (a\<lparr>ac_OpenedAt := now s\<rparr>) (lg_proj s)) [] s s'"
    and "ac_ID a = '''' \<or> Currencies (ac_Currency a) = None \<or>
      map_of (pj_accounts (lg_proj s)) (ac_ID a) \<noteq> None \<or> \<not> timeOK (now s) \<Longrightarrow>
      \<exists>e. OpenAccount a s = (Inl e, s)"
proof -
  let ?a = "a\<lparr>ac_OpenedAt := now s\<rparr>"
  assume ok: "ac_ID a \<noteq> ''''" "Currencies (ac_Currency a) \<noteq> None"
    "map_of (pj_accounts (lg_proj s)) (ac_ID a) = None" "timeOK (now s)"
  then obtain j where j: "encAccount ?a = Inr j" by (simp add: encAccount_def)
  let ?e = "newEvent eventAccountOpened (ac_ID a) (now s) j"
  have dec: "decAccount j = Some ?a" by (rule decAccount_enc [OF j])
  then have "good_ledger ?e" by (simp add: good_ledger_def)
  then have sy: "ledger_synced (appended s ?e)" by (rule synced_appended [OF s]) simp
  have "withProj (openedProj ?a (lg_proj s)) [] s (appended s ?e)"
    using withProj_appended [of s ?e "openedProj ?a (lg_proj s)"]
    by (simp add: apply_opened dec postedEntries_def)
  moreover have "OpenAccount a s = (Inr ?a, appended s ?e)"
    using s ok j by (simp add: OpenAccount_def op_simps Now_def Let_def applyAppended_ledger_def
        applyIgnoring_eq appended_def stored_def)
  ultimately show "\<exists>s'. OpenAccount a s = (Inr ?a, s') \<and> ledger_synced s'
      \<and> withProj (openedProj ?a (lg_proj s)) [] s s'"
    using sy by blast
next
  show "ac_ID a = '''' \<or> Currencies (ac_Currency a) = None \<or>
      map_of (pj_accounts (lg_proj s)) (ac_ID a) \<noteq> None \<or> \<not> timeOK (now s) \<Longrightarrow>
      \<exists>e. OpenAccount a s = (Inl e, s)"
    using s by (auto simp: OpenAccount_def op_simps Now_def Let_def encAccount_def)
qed

section \<open>Sums over entries\<close>

definition sumDir :: "string \<Rightarrow> Entry list \<Rightarrow> int" where
  "sumDir d es = sum_list (map (\<lambda>e. if et_Direction e = d then am_Minor (et_Amount e) else 0) es)"

definition entry_ok :: "projection \<Rightarrow> string \<Rightarrow> Entry \<Rightarrow> bool" where
  "entry_ok p cur e \<longleftrightarrow> am_Currency (et_Amount e) = cur \<and> 0 < am_Minor (et_Amount e) \<and>
     et_Direction e \<in> {Debit, Credit} \<and>
     (\<exists>acc. map_of (pj_accounts p) (et_AccountID e) = Some acc \<and> ac_Currency acc = cur)"

lemma sumDir_simps [simp]:
  "sumDir d [] = 0"
  "sumDir d (e # es) = (if et_Direction e = d then am_Minor (et_Amount e) else 0) + sumDir d es"
  by (simp_all add: sumDir_def)

lemma validateLoop_iff:
  assumes "in64 d" and "in64 c"
  shows "validateLoop p cur es d c = Inr (d', c') \<longleftrightarrow>
    (\<forall>e \<in> set es. entry_ok p cur e) \<and> d' = wrap64 (d + sumDir Debit es) \<and> c' = wrap64 (c + sumDir Credit es)"
  using assms
proof (induction es arbitrary: d c)
  case Nil
  then show ?case by auto
next
  case (Cons e es)
  show ?case
    using Cons.prems
    by (auto simp: entry_ok_def Cons.IH wrap64_add_left add.assoc split: option.splits)
qed

text \<open>\<open>validate\<close> accepts exactly these transactions; the totals are compared after wrap-around.\<close>

lemma validate_iff:
  "validate p tx = Inr () \<longleftrightarrow>
     2 \<le> length (tx_Entries tx) \<and> Currencies (tx_Currency tx) \<noteq> None \<and>
     (\<forall>e \<in> set (tx_Entries tx). entry_ok p (tx_Currency tx) e) \<and>
     wrap64 (sumDir Debit (tx_Entries tx)) = wrap64 (sumDir Credit (tx_Entries tx)) \<and>
     0 < wrap64 (sumDir Debit (tx_Entries tx))"
proof -
  have "validate p tx = Inr () \<longleftrightarrow> 2 \<le> length (tx_Entries tx) \<and> Currencies (tx_Currency tx) \<noteq> None \<and>
     (\<exists>d c. validateLoop p (tx_Currency tx) (tx_Entries tx) 0 0 = Inr (d, c) \<and> d = c \<and> 0 < d)"
    by (auto simp: validate_def bindR_def split: sum.splits if_splits)
  then show ?thesis by (auto simp: validateLoop_iff)
qed

section \<open>The invariant\<close>

definition debitOf :: "projection \<Rightarrow> string \<Rightarrow> int" where
  "debitOf p a = getOr 0 (pj_debit p) a"

definition creditOf :: "projection \<Rightarrow> string \<Rightarrow> int" where
  "creditOf p a = getOr 0 (pj_credit p) a"

text \<open>The sum of the totals of the accounts of one currency.\<close>

definition sumCur :: "string \<Rightarrow> (string \<times> Account) list \<Rightarrow> (string \<Rightarrow> int) \<Rightarrow> int" where
  "sumCur c accs f = sum_list (map (\<lambda>(i, a). if ac_Currency a = c then f i else 0) accs)"

definition accounts_wf :: "projection \<Rightarrow> bool" where
  "accounts_wf p \<longleftrightarrow> distinct (map fst (pj_accounts p)) \<and>
     (\<forall>i a. map_of (pj_accounts p) i = Some a \<longrightarrow> ac_ID a = i \<and> i \<noteq> '''' \<and> Currencies (ac_Currency a) \<noteq> None)"

definition tx_ok :: "projection \<Rightarrow> Transaction \<Rightarrow> bool" where
  "tx_ok p t \<longleftrightarrow> tx_typed t \<and> validate p t = Inr () \<and>
     tx_Status t \<in> {StatusPending, StatusSettled, StatusFinal}"

definition txs_wf :: "projection \<Rightarrow> bool" where
  "txs_wf p \<longleftrightarrow> distinct (map fst (pj_txs p)) \<and>
     (\<forall>i t. map_of (pj_txs p) i = Some t \<longrightarrow> tx_ID t = i \<and> tx_ok p t)"

definition totals_wf :: "projection \<Rightarrow> bool" where
  "totals_wf p \<longleftrightarrow> (\<forall>a. in64 (debitOf p a) \<and> in64 (creditOf p a) \<and>
     (map_of (pj_accounts p) a = None \<longrightarrow> debitOf p a = 0 \<and> creditOf p a = 0))"

text \<open>Debits equal credits in every currency, as the machine adds them up.\<close>

definition trial_balance :: "projection \<Rightarrow> bool" where
  "trial_balance p \<longleftrightarrow> (\<forall>c. wrap64 (sumCur c (pj_accounts p) (debitOf p)) = wrap64 (sumCur c (pj_accounts p) (creditOf p)))"

definition proj_inv :: "projection \<Rightarrow> bool" where
  "proj_inv p \<longleftrightarrow> accounts_wf p \<and> txs_wf p \<and> totals_wf p \<and> trial_balance p"

text \<open>Every entry ever posted has a positive amount on an account of its own currency.\<close>

definition journal_ok :: "projection \<Rightarrow> Entry list \<Rightarrow> bool" where
  "journal_ok p es \<longleftrightarrow> (\<forall>e \<in> set es. entry_ok p (am_Currency (et_Amount e)) e)"

definition ledger_inv :: "'z ledger_scheme \<Rightarrow> bool" where
  "ledger_inv s \<longleftrightarrow> ledger_synced s \<and> proj_inv (lg_proj s) \<and> journal_ok (lg_proj s) (journal (st_events s))"

subsection \<open>Totals\<close>

lemma lastSeq_irrelevant [simp]:
  "debitOf (p\<lparr>pj_lastSeq := n\<rparr>) = debitOf p" "creditOf (p\<lparr>pj_lastSeq := n\<rparr>) = creditOf p"
  "validate (p\<lparr>pj_lastSeq := n\<rparr>) = validate p"
  "proj_inv (p\<lparr>pj_lastSeq := n\<rparr>) = proj_inv p"
proof -
  show v: "validate (p\<lparr>pj_lastSeq := n\<rparr>) = validate p"
  proof
    have "validateLoop (p\<lparr>pj_lastSeq := n\<rparr>) cur es d c = validateLoop p cur es d c" for cur es d c
      by (induction es arbitrary: d c) (auto split: option.split)
    then show "validate (p\<lparr>pj_lastSeq := n\<rparr>) t = validate p t" for t by (simp add: validate_def)
  qed
  show d: "debitOf (p\<lparr>pj_lastSeq := n\<rparr>) = debitOf p" "creditOf (p\<lparr>pj_lastSeq := n\<rparr>) = creditOf p"
    by (simp_all add: debitOf_def creditOf_def fun_eq_iff)
  show "proj_inv (p\<lparr>pj_lastSeq := n\<rparr>) = proj_inv p"
    by (simp add: proj_inv_def accounts_wf_def txs_wf_def totals_wf_def trial_balance_def tx_ok_def v d)
qed

lemma debitOf_addEntry:
  "debitOf (addEntry e p) a =
     (if et_Direction e = Debit \<and> a = et_AccountID e then wrap64 (debitOf p a + am_Minor (et_Amount e)) else debitOf p a)"
  by (simp add: debitOf_def addEntry_def getOr_addTo)

lemma creditOf_addEntry:
  "creditOf (addEntry e p) a =
     (if et_Direction e = Credit \<and> a = et_AccountID e then wrap64 (creditOf p a + am_Minor (et_Amount e)) else creditOf p a)"
  by (simp add: creditOf_def addEntry_def getOr_addTo)

text \<open>What one account receives from a list of entries.\<close>

definition sumFor :: "string \<Rightarrow> string \<Rightarrow> Entry list \<Rightarrow> int" where
  "sumFor d a es = sumDir d (filter (\<lambda>e. et_AccountID e = a) es)"

lemma sumFor_simps [simp]:
  "sumFor d a [] = 0"
  "sumFor d a (e # es) = (if et_AccountID e = a \<and> et_Direction e = d then am_Minor (et_Amount e) else 0) + sumFor d a es"
  by (simp_all add: sumFor_def)

lemma totals_fold:
  assumes "in64 (debitOf p a)" and "in64 (creditOf p a)"
  shows "debitOf (fold addEntry es p) a = wrap64 (debitOf p a + sumFor Debit a es)"
    and "creditOf (fold addEntry es p) a = wrap64 (creditOf p a + sumFor Credit a es)"
proof -
  show "debitOf (fold addEntry es p) a = wrap64 (debitOf p a + sumFor Debit a es)"
    using assms(1)
    by (induction es arbitrary: p) (auto simp: debitOf_addEntry wrap64_add_left add.assoc)
  show "creditOf (fold addEntry es p) a = wrap64 (creditOf p a + sumFor Credit a es)"
    using assms(2)
    by (induction es arbitrary: p) (auto simp: creditOf_addEntry wrap64_add_left add.assoc)
qed

lemma sumFor_none: "a \<notin> et_AccountID ` set es \<Longrightarrow> sumFor d a es = 0"
  by (induction es) auto

subsection \<open>Sums per currency\<close>

lemma sumCur_Cons [simp]:
  "sumCur c [] f = 0" "sumCur c ((i, a) # accs) f = (if ac_Currency a = c then f i else 0) + sumCur c accs f"
  by (simp_all add: sumCur_def)

lemma sumCur_cong: "(\<And>i. i \<in> fst ` set accs \<Longrightarrow> f i = g i) \<Longrightarrow> sumCur c accs f = sumCur c accs g"
  by (induction accs) auto

lemma sumCur_add: "sumCur c accs (\<lambda>i. f i + g i) = sumCur c accs f + sumCur c accs g"
  by (induction accs) auto

lemma sumCur_wrap: "wrap64 (sumCur c accs (\<lambda>i. wrap64 (f i))) = wrap64 (sumCur c accs f)"
proof (induction accs)
  case (Cons x accs)
  obtain i a where x: "x = (i, a)" by (cases x)
  have "wrap64 (wrap64 (f i) + sumCur c accs (\<lambda>i. wrap64 (f i)))
      = wrap64 (f i + wrap64 (sumCur c accs (\<lambda>i. wrap64 (f i))))"
    by (simp only: wrap64_add_left wrap64_add_right)
  also have "\<dots> = wrap64 (f i + sumCur c accs f)" by (simp only: Cons.IH wrap64_add_right)
  finally show ?case using Cons.IH by (simp add: x)
qed simp

lemma sumCur_point:
  assumes "distinct (map fst accs)" and "map_of accs k = Some acc"
  shows "sumCur c accs (\<lambda>i. if i = k then m else 0) = (if ac_Currency acc = c then m else 0)"
  using assms
proof (induction accs)
  case (Cons x accs)
  obtain i a where x: "x = (i, a)" by (cases x)
  have zero: "sumCur c bs (\<lambda>i. if i = k then m else 0) = 0" if "k \<notin> fst ` set bs" for bs
    using that by (induction bs) auto
  show ?case using Cons zero [of accs] by (auto simp: x)
qed simp

text \<open>The entries of an accepted transaction are counted once, in its own currency.\<close>

lemma sumCur_sumFor:
  assumes "distinct (map fst (pj_accounts p))" and "\<forall>e \<in> set es. entry_ok p cur e"
  shows "sumCur c (pj_accounts p) (\<lambda>a. sumFor d a es) = (if c = cur then sumDir d es else 0)"
  using assms(2)
proof (induction es)
  case Nil
  have "sumCur c accs (\<lambda>a. 0) = 0" for accs by (induction accs) auto
  then show ?case by simp
next
  case (Cons e es)
  then obtain acc where acc: "map_of (pj_accounts p) (et_AccountID e) = Some acc" "ac_Currency acc = cur"
    by (auto simp: entry_ok_def)
  let ?m = "if et_Direction e = d then am_Minor (et_Amount e) else 0"
  have "(\<lambda>a. sumFor d a (e # es)) = (\<lambda>a. (if a = et_AccountID e then ?m else 0) + sumFor d a es)"
    by (auto simp: fun_eq_iff)
  then show ?case
    using Cons acc sumCur_point [OF assms(1) acc(1), of c ?m] by (auto simp: sumCur_add)
qed

subsection \<open>The three effects keep the invariant\<close>

lemma validate_accounts:
  "(\<And>i a. map_of (pj_accounts p) i = Some a \<Longrightarrow> map_of (pj_accounts q) i = Some a) \<Longrightarrow>
     validate p t = Inr () \<Longrightarrow> validate q t = Inr ()"
  by (auto simp: validate_iff entry_ok_def)

lemma validate_update [simp]:
  "validate p (t\<lparr>tx_Status := x\<rparr>) = validate p t" "validate p (t\<lparr>tx_ID := i\<rparr>) = validate p t"
  "validate p (t\<lparr>tx_OccurredAt := n\<rparr>) = validate p t"
  by (simp_all add: validate_def)

lemma tx_typed_update [simp]:
  "tx_typed (t\<lparr>tx_Status := x\<rparr>) = tx_typed t" "tx_typed (t\<lparr>tx_ID := i\<rparr>) = tx_typed t"
  "tx_typed (t\<lparr>tx_OccurredAt := n\<rparr>) = tx_typed t"
  by (simp_all add: tx_typed_def)

lemma postedProj_frame [simp]:
  "pj_accounts (postedProj t p) = pj_accounts p" "pj_txs (postedProj t p) = AList.update (tx_ID t) t (pj_txs p)"
  by (simp_all add: postedProj_def)

lemma postedProj_totals:
  assumes "totals_wf p"
  shows "debitOf (postedProj t p) a = wrap64 (debitOf p a + sumFor Debit a (tx_Entries t))"
    and "creditOf (postedProj t p) a = wrap64 (creditOf p a + sumFor Credit a (tx_Entries t))"
proof -
  let ?q = "p\<lparr>pj_txs := AList.update (tx_ID t) t (pj_txs p)\<rparr>"
  have "debitOf ?q = debitOf p" "creditOf ?q = creditOf p"
    by (simp_all add: debitOf_def creditOf_def fun_eq_iff)
  then show "debitOf (postedProj t p) a = wrap64 (debitOf p a + sumFor Debit a (tx_Entries t))"
    "creditOf (postedProj t p) a = wrap64 (creditOf p a + sumFor Credit a (tx_Entries t))"
    using totals_fold [of ?q a "tx_Entries t"] assms by (simp_all add: postedProj_def totals_wf_def)
qed

lemma proj_inv_posted:
  assumes inv: "proj_inv p" and typed: "tx_typed t" and ok: "validate p t = Inr ()"
    and st: "tx_Status t = StatusPending"
  shows "proj_inv (postedProj t p)"
proof -
  note w = inv [unfolded proj_inv_def]
  let ?q = "postedProj t p"
  have val: "validate ?q u = Inr ()" if "validate p u = Inr ()" for u
    using validate_accounts [of p ?q u] that by simp
  have acc: "accounts_wf ?q" using w by (simp add: accounts_wf_def)
  have txs: "txs_wf ?q"
    using w typed ok st val by (auto simp: txs_wf_def tx_ok_def distinct_update split: if_splits)
  have ents: "\<forall>e \<in> set (tx_Entries t). entry_ok p (tx_Currency t) e"
    and bal: "wrap64 (sumDir Debit (tx_Entries t)) = wrap64 (sumDir Credit (tx_Entries t))"
    using ok by (simp_all add: validate_iff)
  have tot: "totals_wf p" and dis: "distinct (map fst (pj_accounts p))"
    using w by (simp_all add: accounts_wf_def)
  have none: "a \<notin> et_AccountID ` set (tx_Entries t)" if "map_of (pj_accounts p) a = None" for a
    using ents that by (auto simp: entry_ok_def)
  have "totals_wf ?q"
    unfolding totals_wf_def using tot none
    by (simp add: postedProj_totals [OF tot] sumFor_none) (simp add: totals_wf_def)
  moreover have "trial_balance ?q"
    unfolding trial_balance_def
  proof
    fix c
    let ?A = "pj_accounts p" and ?es = "tx_Entries t"
    have split: "wrap64 (sumCur c ?A (\<lambda>a. wrap64 (f a + sumFor d a ?es)))
        = wrap64 (wrap64 (sumCur c ?A f) + wrap64 (if c = tx_Currency t then sumDir d ?es else 0))" for f d
      by (simp only: sumCur_wrap sumCur_add sumCur_sumFor [OF dis ents] wrap64_add_left wrap64_add_right)
    have "wrap64 (sumCur c ?A (debitOf p)) = wrap64 (sumCur c ?A (creditOf p))"
      using w by (simp add: trial_balance_def)
    with bal show "wrap64 (sumCur c (pj_accounts ?q) (debitOf ?q)) = wrap64 (sumCur c (pj_accounts ?q) (creditOf ?q))"
      by (simp add: postedProj_totals [OF tot, abs_def] split)
  qed
  ultimately show ?thesis using acc txs by (simp add: proj_inv_def)
qed

lemma proj_inv_status:
  assumes inv: "proj_inv p" and st: "st \<in> {StatusPending, StatusSettled, StatusFinal}"
  shows "proj_inv (statusProj i st p)"
proof (cases "map_of (pj_txs p) i")
  case None
  then show ?thesis using inv by (simp add: statusProj_def)
next
  case (Some t)
  let ?q = "statusProj i st p"
  have q: "?q = p\<lparr>pj_txs := AList.update i (t\<lparr>tx_Status := st\<rparr>) (pj_txs p)\<rparr>"
    using Some by (simp add: statusProj_def)
  have val: "validate ?q u = Inr ()" if "validate p u = Inr ()" for u
    using validate_accounts [of p ?q u] that by (simp add: q)
  have "debitOf ?q = debitOf p" "creditOf ?q = creditOf p"
    by (simp_all add: debitOf_def creditOf_def fun_eq_iff q)
  moreover have "txs_wf ?q"
    using inv Some st val unfolding proj_inv_def
    by (auto simp: q txs_wf_def tx_ok_def distinct_update split: if_splits)
  ultimately show ?thesis
    using inv by (simp add: proj_inv_def accounts_wf_def totals_wf_def trial_balance_def) (simp add: q)
qed

lemma proj_inv_opened:
  assumes inv: "proj_inv p" and new: "map_of (pj_accounts p) (ac_ID a) = None"
    and a: "ac_ID a \<noteq> ''''" "Currencies (ac_Currency a) \<noteq> None"
  shows "proj_inv (openedProj a p)"
proof -
  let ?q = "openedProj a p"
  have accs: "pj_accounts ?q = pj_accounts p @ [(ac_ID a, a)]"
    by (simp add: openedProj_def update_new [OF new])
  have look: "map_of (pj_accounts ?q) i = (if i = ac_ID a then Some a else map_of (pj_accounts p) i)" for i
    by (simp add: openedProj_def)
  have val: "validate ?q u = Inr ()" if "validate p u = Inr ()" for u
    by (rule validate_accounts [OF _ that]) (use new in \<open>auto simp: look\<close>)
  have same: "debitOf ?q = debitOf p" "creditOf ?q = creditOf p" "pj_txs ?q = pj_txs p"
    by (simp_all add: debitOf_def creditOf_def fun_eq_iff openedProj_def)
  note w = inv [unfolded proj_inv_def]
  have "distinct (map fst (pj_accounts ?q))"
    using w by (simp add: openedProj_def accounts_wf_def distinct_update)
  then have "accounts_wf ?q" using w a by (auto simp: accounts_wf_def look)
  moreover have "txs_wf ?q" using w val by (auto simp: txs_wf_def tx_ok_def same)
  moreover have "totals_wf ?q" using w by (auto simp: totals_wf_def look same)
  moreover have "trial_balance ?q"
  proof -
    have zero: "debitOf p (ac_ID a) = 0" "creditOf p (ac_ID a) = 0"
      using w new by (simp_all add: totals_wf_def)
    have "sumCur c (pj_accounts p @ [(ac_ID a, a)]) f = sumCur c (pj_accounts p) f" if "f (ac_ID a) = 0" for c f
      using that by (simp add: sumCur_def)
    then show ?thesis using w zero by (simp add: trial_balance_def accs same)
  qed
  ultimately show ?thesis by (simp add: proj_inv_def)
qed

section \<open>Every operation keeps the invariant\<close>

lemma ledger_inv_synced: "ledger_inv s \<Longrightarrow> ledger_synced s"
  by (simp add: ledger_inv_def)

lemma journal_ok_accounts:
  "(\<And>i a. map_of (pj_accounts p) i = Some a \<Longrightarrow> map_of (pj_accounts q) i = Some a) \<Longrightarrow>
     journal_ok p es \<Longrightarrow> journal_ok q es"
  by (auto simp: journal_ok_def entry_ok_def)

lemma ledger_inv_withProj:
  assumes "ledger_inv s" and "ledger_synced s'" and w: "withProj p es s s'" and "proj_inv p"
    and mono: "\<And>i a. map_of (pj_accounts (lg_proj s)) i = Some a \<Longrightarrow> map_of (pj_accounts p) i = Some a"
    and "journal_ok p es"
  shows "ledger_inv s'"
proof -
  obtain n where p: "lg_proj s' = p\<lparr>pj_lastSeq := n\<rparr>" using w by (auto simp: withProj_def)
  have "journal_ok p (journal (st_events s) @ es)"
    using assms(1,6) journal_ok_accounts [OF mono] by (auto simp: ledger_inv_def journal_ok_def)
  moreover have "journal_ok (lg_proj s') x = journal_ok p x" for x
    by (simp add: p journal_ok_def entry_ok_def)
  ultimately show ?thesis using assms(2,4) w by (simp add: ledger_inv_def withProj_def p)
qed

lemma validate_pending [simp]: "validate p (pending tx s) = validate p tx"
  by (simp add: pending_def)

lemma typed_pending [simp]: "tx_typed (pending tx s) = tx_typed tx"
  by (simp add: pending_def)

lemma ledger_inv_frame:
  "ledger_inv (s\<lparr>drawn := n\<rparr>) = ledger_inv s" "ledger_inv (s\<lparr>now := t\<rparr>) = ledger_inv s"
  "ledger_inv (s\<lparr>now := t, notified := ns\<rparr>) = ledger_inv s"
  "ledger_inv (s\<lparr>st_versions := v\<rparr>) = ledger_inv s" "ledger_inv (s\<lparr>en_cache := c\<rparr>) = ledger_inv s"
  by (simp_all add: ledger_inv_def ledger_synced_def log_wf_def)

lemma preserves_refresh [pres]: "preserves ledger_inv refresh_ledger"
  by (rule preservesI) (simp add: ledger_inv_synced)

lemma preserves_Post [pres]:
  assumes "tx_typed tx"
  shows "preserves ledger_inv (Post tx)"
proof (rule preservesI)
  fix s :: "'a ledger_scheme"
  assume inv: "ledger_inv s"
  note app = Post_app [OF ledger_inv_synced [OF inv] assms]
  show "ledger_inv (snd (Post tx s))"
  proof (cases "validate (lg_proj s) tx")
    case (Inl e)
    then show ?thesis using app(1) inv by simp
  next
    case (Inr u)
    then have ok: "validate (lg_proj s) tx = Inr ()" by simp
    have "proj_inv (postedProj (pending tx s) (lg_proj s))"
      by (rule proj_inv_posted) (use inv assms ok in \<open>simp_all add: ledger_inv_def, simp add: pending_def\<close>)
    moreover have "journal_ok (postedProj (pending tx s) (lg_proj s)) (tx_Entries tx)"
      using ok by (auto simp: validate_iff journal_ok_def entry_ok_def)
    ultimately show ?thesis
      using app(2,3) [OF ok] inv
      by (cases "timeOK (now s)") (auto simp: ledger_inv_frame intro: ledger_inv_withProj)
  qed
qed

lemma preserves_transition [pres]:
  assumes "eventType = eventTxSettled \<or> eventType = eventTxFinalized"
    and "to \<in> {StatusPending, StatusSettled, StatusFinal}"
  shows "preserves ledger_inv (transition i from to eventType)"
proof (rule preservesI)
  fix s :: "'a ledger_scheme"
  assume inv: "ledger_inv s"
  note app = transition_app [OF ledger_inv_synced [OF inv] assms(1), of i]
  show "ledger_inv (snd (transition i from to eventType s))"
  proof (cases "map_of (pj_txs (lg_proj s)) i")
    case None
    then show ?thesis using app(1) inv by simp
  next
    case (Some t)
    then have "tx_typed t" "tx_ID t = i"
      using inv by (auto simp: ledger_inv_def proj_inv_def txs_wf_def tx_ok_def)
    moreover have "proj_inv (statusProj i to (lg_proj s))"
      by (rule proj_inv_status) (use inv assms(2) in \<open>simp_all add: ledger_inv_def\<close>)
    moreover have "pj_accounts (statusProj i to (lg_proj s)) = pj_accounts (lg_proj s)"
      by (simp add: statusProj_def split: option.split)
    ultimately show ?thesis
      using app(2-4) [OF Some, of "from" to] inv
      by (cases "tx_Status t = from"; cases "timeOK (now s)")
        (auto intro: ledger_inv_withProj [where es = "[]"] simp: journal_ok_def)
  qed
qed

lemma preserves_Settle [pres]: "preserves ledger_inv (Settle i)"
  unfolding Settle_def by (rule preserves_transition) simp_all

lemma preserves_Finalize [pres]: "preserves ledger_inv (Finalize i)"
  unfolding Finalize_def by (rule preserves_transition) simp_all

lemma preserves_PostAndFinalize [pres]: "tx_typed tx \<Longrightarrow> preserves ledger_inv (PostAndFinalize tx)"
  unfolding PostAndFinalize_def by (intro pres)

lemma preserves_OpenAccount [pres]: "preserves ledger_inv (OpenAccount a)"
proof (rule preservesI)
  fix s :: "'a ledger_scheme"
  assume inv: "ledger_inv s"
  note app = OpenAccount_app [OF ledger_inv_synced [OF inv], of a]
  show "ledger_inv (snd (OpenAccount a s))"
  proof (cases "ac_ID a = '''' \<or> Currencies (ac_Currency a) = None \<or>
      map_of (pj_accounts (lg_proj s)) (ac_ID a) \<noteq> None \<or> \<not> timeOK (now s)")
    case True
    then show ?thesis using app(2) inv by auto
  next
    case False
    moreover from False have "proj_inv (openedProj (a\<lparr>ac_OpenedAt := now s\<rparr>) (lg_proj s))"
      by (intro proj_inv_opened) (use inv in \<open>auto simp: ledger_inv_def\<close>)
    moreover from False have "map_of (pj_accounts (openedProj (a\<lparr>ac_OpenedAt := now s\<rparr>) (lg_proj s))) i = Some b"
      if "map_of (pj_accounts (lg_proj s)) i = Some b" for i b
      using that by (auto simp: openedProj_def)
    ultimately show ?thesis
      using app(1) inv by (auto intro: ledger_inv_withProj [where es = "[]"] simp: journal_ok_def)
  qed
qed

lemma preserves_EnsureSystemAccounts [pres]: "preserves ledger_inv EnsureSystemAccounts"
  unfolding EnsureSystemAccounts_def ensureAccount_def by (intro pres)

lemma typed_seedTx: "in64 n \<Longrightarrow> tx_typed (seedTx n)"
  by (simp add: tx_typed_def seedTx_def newTx_def mkEntry_def)

lemma preserves_SeedCapital [pres]: "in64 n \<Longrightarrow> preserves ledger_inv (SeedCapital n)"
  unfolding SeedCapital_def by (intro pres typed_seedTx)

text \<open>Reading does not write.\<close>

lemma preserves_reads [pres]:
  "preserves ledger_inv (GetAccount i)" "preserves ledger_inv ListAccounts"
  "preserves ledger_inv (GetTransaction i)" "preserves ledger_inv (ListTransactions f)"
  "preserves ledger_inv (Balance i)" "preserves ledger_inv Balances" "preserves ledger_inv BalancesByType"
  unfolding GetAccount_def ListAccounts_def GetTransaction_def ListTransactions_def Balance_def
    Balances_def BalancesByType_def
  by (intro pres)+

text \<open>The rest of the process: the clock, the rules engine, the events of other services.\<close>

lemma preserves_clock [pres]:
  "preserves ledger_inv (SetTo t)" "preserves ledger_inv (Advance d)" "preserves ledger_inv (AdvanceDays n)"
proof -
  show a: "preserves ledger_inv (SetTo t)" "preserves ledger_inv (Advance d)"
    by (auto simp: preserves_def SetTo_app Advance_app ledger_inv_frame)
  show "preserves ledger_inv (AdvanceDays n)"
    by (auto simp: preserves_def AdvanceDays_app Advance_app ledger_inv_frame)
qed

lemma ledger_inv_foreign:
  assumes "ledger_inv s" and "ev_Type e \<notin> set ledgerEventTypes"
  shows "ledger_inv (snd (appendOne e s))"
proof -
  have "log_wf (snd (appendOne e s))"
    by (rule log_wf_appendOne) (use assms in \<open>simp add: ledger_inv_def ledger_synced_def\<close>)
  moreover have "lg_proj (snd (appendOne e s)) = lg_proj s"
    and "\<exists>e'. st_events (snd (appendOne e s)) = st_events s @ [e'] \<and> ev_Type e' = ev_Type e"
    by (simp_all add: op_simps Let_def)
  ultimately show ?thesis
    using assms
    by (auto simp: ledger_inv_def ledger_synced_def replay_append postedEntries_def) (simp_all add: replay_def)
qed

lemma preserves_foreign:
  assumes "\<forall>e \<in> set es. ev_Type e \<notin> set ledgerEventTypes"
  shows "preserves ledger_inv (Append es)"
  unfolding Append_def
proof (rule preserves_mapE_on)
  fix e assume "e \<in> set es"
  then show "preserves ledger_inv (appendOne e)"
    by (intro preservesI ledger_inv_foreign) (use assms in auto)
qed

section \<open>Balances refine the journal\<close>

definition journalVolume :: "Event list \<Rightarrow> int" where
  "journalVolume es = sum_list (map (\<lambda>e. am_Minor (et_Amount e)) (journal es))"

text \<open>The balance the specification gives an account.\<close>

definition specBalance :: "Event list \<Rightarrow> Account \<Rightarrow> int" where
  "specBalance es acc =
     (let d = sumFor Debit (ac_ID acc) (journal es); c = sumFor Credit (ac_ID acc) (journal es)
      in if NormalBalance (ac_Type acc) = Debit then d - c else c - d)"

lemma sumFor_append [simp]: "sumFor d a (xs @ ys) = sumFor d a xs + sumFor d a ys"
  by (simp add: sumFor_def sumDir_def)

lemma apply_totals:
  assumes "in64 (debitOf p a)" and "in64 (creditOf p a)"
  shows "debitOf (snd (apply_ledger e p)) a = wrap64 (debitOf p a + sumFor Debit a (postedEntries e))"
    and "creditOf (snd (apply_ledger e p)) a = wrap64 (creditOf p a + sumFor Credit a (postedEntries e))"
proof -
  have upd [simp]: "debitOf (p\<lparr>pj_accounts := x\<rparr>) = debitOf p" "creditOf (p\<lparr>pj_accounts := x\<rparr>) = creditOf p"
    "debitOf (p\<lparr>pj_txs := y\<rparr>) = debitOf p" "creditOf (p\<lparr>pj_txs := y\<rparr>) = creditOf p"
    "debitOf (seen e q) = debitOf q" "creditOf (seen e q) = creditOf q" for x y q
    by (simp_all add: debitOf_def creditOf_def fun_eq_iff)
  show "debitOf (snd (apply_ledger e p)) a = wrap64 (debitOf p a + sumFor Debit a (postedEntries e))"
    "creditOf (snd (apply_ledger e p)) a = wrap64 (creditOf p a + sumFor Credit a (postedEntries e))"
    using assms by (auto simp: apply_ledger_def postedEntries_def totals_fold split: option.split)
qed

lemma replay_totals:
  "debitOf (replay apply_ledger ledgerEventTypes es newProjection) a = wrap64 (sumFor Debit a (journal es)) \<and>
   creditOf (replay apply_ledger ledgerEventTypes es newProjection) a = wrap64 (sumFor Credit a (journal es))"
proof (induction es rule: rev_induct)
  case Nil
  show ?case by (simp add: newProjection_def debitOf_def creditOf_def)
next
  case (snoc e es)
  let ?p = "replay apply_ledger ledgerEventTypes es newProjection"
  show ?case
  proof (cases "ev_Type e \<in> set ledgerEventTypes")
    case True
    then have "replay apply_ledger ledgerEventTypes (es @ [e]) newProjection = snd (apply_ledger e ?p)"
      by (simp add: replay_def del: set_ledgerEventTypes)
    then show ?thesis using snoc apply_totals [of ?p a e] by (simp add: wrap64_add_left)
  next
    case False
    then have "replay apply_ledger ledgerEventTypes (es @ [e]) newProjection = ?p"
      by (simp add: replay_def del: set_ledgerEventTypes)
    moreover have "postedEntries e = []" using False by (simp add: postedEntries_def)
    ultimately show ?thesis using snoc by simp
  qed
qed

lemma synced_totals:
  assumes "ledger_synced s"
  shows "debitOf (lg_proj s) a = wrap64 (sumFor Debit a (journal (st_events s)))"
    and "creditOf (lg_proj s) a = wrap64 (sumFor Credit a (journal (st_events s)))"
  using assms replay_totals [of "st_events s" a] by (simp_all add: ledger_synced_def)

lemma naturalBalance_spec:
  assumes "ledger_synced s"
  shows "naturalBalance (lg_proj s) acc = wrap64 (specBalance (st_events s) acc)"
  using synced_totals [OF assms, of "ac_ID acc"]
  by (simp add: naturalBalance_def specBalance_def Let_def debitOf_def creditOf_def
      wrap64_diff_left wrap64_diff_right)

text \<open>Without overflow: the volume of the journal fits the machine.\<close>

lemma sumFor_bounds:
  assumes "\<forall>e \<in> set es. 0 < am_Minor (et_Amount e)"
  shows "0 \<le> sumFor d a es" and "sumFor d a es \<le> sumDir d es"
    and "sumDir d es \<le> sum_list (map (\<lambda>e. am_Minor (et_Amount e)) es)"
  using assms by (induction es) auto

lemma sumCur_le:
  assumes "distinct (map fst accs)" and "\<forall>e \<in> set es. 0 < am_Minor (et_Amount e)"
  shows "sumCur c accs (\<lambda>a. sumFor d a es) \<le> sumDir d es" and "0 \<le> sumCur c accs (\<lambda>a. sumFor d a es)"
proof -
  have zero: "sumCur c accs (\<lambda>a. 0) = 0" by (induction accs) auto
  show "sumCur c accs (\<lambda>a. sumFor d a es) \<le> sumDir d es"
    using assms(2)
  proof (induction es)
    case (Cons e es)
    let ?m = "if et_Direction e = d then am_Minor (et_Amount e) else 0"
    have eq: "(\<lambda>a. sumFor d a (e # es)) = (\<lambda>a. (if a = et_AccountID e then ?m else 0) + sumFor d a es)"
      by (auto simp: fun_eq_iff)
    have "sumCur c accs (\<lambda>i. if i = et_AccountID e then ?m else 0) \<le> ?m"
    proof (cases "map_of accs (et_AccountID e)")
      case None
      then have "sumCur c accs (\<lambda>i. if i = et_AccountID e then ?m else 0) = sumCur c accs (\<lambda>_. 0)"
        by (intro sumCur_cong) (force simp: map_of_eq_None_iff)
      then show ?thesis using Cons.prems zero by simp
    next
      case (Some acc)
      then show ?thesis using sumCur_point [OF assms(1) Some, of c ?m] Cons.prems by auto
    qed
    then show ?case using Cons by (simp only: eq sumCur_add) simp
  qed (simp add: zero)
  have "0 \<le> sumCur c accs f" if "\<And>a. 0 \<le> f a" for f
    using that by (induction accs) (auto simp: add_nonneg_nonneg)
  then show "0 \<le> sumCur c accs (\<lambda>a. sumFor d a es)" by (simp add: sumFor_bounds(1) [OF assms(2)])
qed

section \<open>What a client sees of the ledger\<close>

text \<open>Successful operations, read backwards.\<close>

lemma Post_InrE:
  assumes inv: "ledger_inv s" and typed: "tx_typed tx" and post: "Post tx s = (Inr t, s')"
  obtains "t = pending tx s" and "validate (lg_proj s) tx = Inr ()" and "timeOK (now s)" and "ledger_inv s'"
    and "withProj (postedProj (pending tx s) (lg_proj s)) (tx_Entries tx) s s'"
proof -
  note app = Post_app [OF ledger_inv_synced [OF inv] typed]
  have ok: "validate (lg_proj s) tx = Inr ()"
    using app(1) post by (cases "validate (lg_proj s) tx") auto
  have t: "timeOK (now s)" using app(2) [OF ok] post by auto
  have inv': "ledger_inv s'" by (rule preserves_result [OF preserves_Post [OF typed] inv post])
  show thesis using app(3) [OF ok t] post inv' ok t that by auto
qed

lemma transition_InrE:
  assumes inv: "ledger_inv s" and tr: "transition i from to eventType s = (Inr u, s')"
    and ty: "eventType = eventTxSettled \<or> eventType = eventTxFinalized"
    and to: "to \<in> {StatusPending, StatusSettled, StatusFinal}"
  obtains t where "map_of (pj_txs (lg_proj s)) i = Some t" and "tx_Status t = from" and "tx_ID t = i"
    and "u = t\<lparr>tx_Status := to, tx_OccurredAt := now s\<rparr>" and "timeOK (now s)" and "ledger_inv s'"
    and "withProj (statusProj i to (lg_proj s)) [] s s'"
proof -
  note app = transition_app [OF ledger_inv_synced [OF inv] ty, of i]
  obtain t where t: "map_of (pj_txs (lg_proj s)) i = Some t"
    using app(1) [of "from" to] tr by (cases "map_of (pj_txs (lg_proj s)) i") auto
  then have tt: "tx_typed t" "tx_ID t = i"
    using inv by (auto simp: ledger_inv_def proj_inv_def txs_wf_def tx_ok_def)
  have st: "tx_Status t = from" using app(2) [OF t, of "from" to] tr by auto
  have ok: "timeOK (now s)" using app(3) [OF t st, of to] tr by auto
  have inv': "ledger_inv s'" by (rule preserves_result [OF preserves_transition [OF ty to] inv tr])
  show thesis using app(4) [OF t st ok tt, of to] tr inv' t st ok tt that by auto
qed

lemma withProj_trans:
  assumes 1: "withProj p es s s1" and 2: "withProj (G (lg_proj s1)) fs s1 s2"
    and G: "\<And>n. \<exists>m. G (p\<lparr>pj_lastSeq := n\<rparr>) = (G p)\<lparr>pj_lastSeq := m\<rparr>"
  shows "withProj (G p) (es @ fs) s s2"
proof -
  obtain n where "lg_proj s1 = p\<lparr>pj_lastSeq := n\<rparr>" using 1 by (auto simp: withProj_def)
  then obtain m where "G (lg_proj s1) = (G p)\<lparr>pj_lastSeq := m\<rparr>" using G by metis
  then show ?thesis using 1 2 by (auto simp: withProj_def)
qed

lemma projection_eq_iff:
  "p = q \<longleftrightarrow> pj_lastSeq p = pj_lastSeq q \<and> pj_accounts p = pj_accounts q \<and> pj_txs p = pj_txs q \<and>
     pj_debit p = pj_debit q \<and> pj_credit p = pj_credit q" for p q :: projection
  by (auto intro: projection.equality)

lemma statusProj_lastSeq: "\<exists>m. statusProj i st (p\<lparr>pj_lastSeq := n\<rparr>) = (statusProj i st p)\<lparr>pj_lastSeq := m\<rparr>"
  by (intro exI [of _ n]) (simp add: statusProj_def projection_eq_iff split: option.split)

lemma addEntry_lastSeq: "addEntry e (p\<lparr>pj_lastSeq := n\<rparr>) = (addEntry e p)\<lparr>pj_lastSeq := n\<rparr>"
  by (simp add: addEntry_def projection_eq_iff)

lemma postedProj_lastSeq: "\<exists>m. postedProj t (p\<lparr>pj_lastSeq := n\<rparr>) = (postedProj t p)\<lparr>pj_lastSeq := m\<rparr>"
proof -
  have f: "fold addEntry es (q\<lparr>pj_lastSeq := n\<rparr>) = (fold addEntry es q)\<lparr>pj_lastSeq := n\<rparr>" for es q
    by (induction es arbitrary: q) (simp_all add: addEntry_lastSeq)
  let ?txs = "AList.update (tx_ID t) t (pj_txs p)"
  have "p\<lparr>pj_lastSeq := n, pj_txs := ?txs\<rparr> = (p\<lparr>pj_txs := ?txs\<rparr>)\<lparr>pj_lastSeq := n\<rparr>"
    by (simp add: projection_eq_iff)
  then have "fold addEntry (tx_Entries t) (p\<lparr>pj_lastSeq := n, pj_txs := ?txs\<rparr>) =
      (fold addEntry (tx_Entries t) (p\<lparr>pj_txs := ?txs\<rparr>))\<lparr>pj_lastSeq := n\<rparr>"
    by (metis f)
  then show ?thesis unfolding postedProj_def by (intro exI [of _ n]) simp
qed

lemma statusProj_frame [simp]:
  "pj_accounts (statusProj i st p) = pj_accounts p"
  "pj_debit (statusProj i st p) = pj_debit p" "pj_credit (statusProj i st p) = pj_credit p"
  by (simp_all add: statusProj_def split: option.split)

lemma statusProj_txs:
  "map_of (pj_txs (statusProj i st p)) j =
     (if j = i then map_option (\<lambda>t. t\<lparr>tx_Status := st\<rparr>) (map_of (pj_txs p) i) else map_of (pj_txs p) j)"
  by (simp add: statusProj_def split: option.split)

lemma statusProj_twice [simp]: "statusProj i st (statusProj i su p) = statusProj i st p"
proof (cases "map_of (pj_txs p) i")
  case (Some t)
  have "AList.update i u (AList.update i v xs) = AList.update i u xs" for u v :: Transaction and xs
    by (induction xs) auto
  then show ?thesis using Some by (simp add: statusProj_def)
qed (simp add: statusProj_def)

text \<open>
  \<open>PostAndFinalize\<close> is all or nothing: after a successful post, settling and finalising cannot
  fail, because nothing comes between.
\<close>

definition finalProj :: "Transaction \<Rightarrow> projection \<Rightarrow> projection" where
  "finalProj t p = statusProj (tx_ID t) StatusFinal (postedProj t p)"

lemma settle_finalize:
  assumes inv: "ledger_inv s" and t: "map_of (pj_txs (lg_proj s)) i = Some t" "tx_Status t = StatusPending"
    and ok: "timeOK (now s)"
  shows "\<exists>s'. bindE (Settle i) (\<lambda>u. Finalize (tx_ID u)) s =
      (Inr (t\<lparr>tx_Status := StatusFinal, tx_OccurredAt := now s\<rparr>), s')
    \<and> ledger_inv s' \<and> withProj (statusProj i StatusFinal (lg_proj s)) [] s s'"
proof -
  have tt: "tx_typed t" "tx_ID t = i"
    using inv t by (auto simp: ledger_inv_def proj_inv_def txs_wf_def tx_ok_def)
  obtain s1 where 1: "Settle i s = (Inr (t\<lparr>tx_Status := StatusSettled, tx_OccurredAt := now s\<rparr>), s1)"
    and w1: "withProj (statusProj i StatusSettled (lg_proj s)) [] s s1"
    using transition_app(4) [OF ledger_inv_synced [OF inv], of eventTxSettled i t StatusPending StatusSettled] t ok tt
    unfolding Settle_def by auto
  have inv1: "ledger_inv s1" by (rule preserves_result [OF preserves_Settle inv 1])
  have now1: "now s1 = now s" using w1 by (simp add: withProj_def)
  have t1: "map_of (pj_txs (lg_proj s1)) i = Some (t\<lparr>tx_Status := StatusSettled\<rparr>)"
    using w1 t by (auto simp: withProj_def statusProj_txs)
  obtain s2 where 2: "Finalize i s1 = (Inr (t\<lparr>tx_Status := StatusFinal, tx_OccurredAt := now s\<rparr>), s2)"
    and w2: "withProj (statusProj i StatusFinal (lg_proj s1)) [] s1 s2"
    using transition_app(4) [OF ledger_inv_synced [OF inv1], of eventTxFinalized i _ StatusSettled StatusFinal, OF _ t1]
      ok tt now1 unfolding Finalize_def by auto
  have "ledger_inv s2" by (rule preserves_result [OF preserves_Finalize inv1 2])
  moreover have "withProj (statusProj i StatusFinal (statusProj i StatusSettled (lg_proj s))) ([] @ []) s s2"
    by (rule withProj_trans [OF w1 w2 statusProj_lastSeq])
  ultimately show ?thesis using 1 2 tt by (simp add: op_simps)
qed

lemma PostAndFinalize_app:
  assumes inv: "ledger_inv s" and typed: "tx_typed tx"
  shows "validate (lg_proj s) tx = Inl e \<Longrightarrow> PostAndFinalize tx s = (Inl e, s)"
    and "validate (lg_proj s) tx = Inr () \<Longrightarrow> \<not> timeOK (now s) \<Longrightarrow>
       \<exists>n. PostAndFinalize tx s = (Inl (EEncode ''occurred_at''), s\<lparr>drawn := n\<rparr>)"
    and "validate (lg_proj s) tx = Inr () \<Longrightarrow> timeOK (now s) \<Longrightarrow>
       \<exists>s'. PostAndFinalize tx s = (Inr ((pending tx s)\<lparr>tx_Status := StatusFinal\<rparr>), s') \<and> ledger_inv s'
            \<and> withProj (finalProj (pending tx s) (lg_proj s)) (tx_Entries tx) s s'"
proof -
  note app = Post_app [OF ledger_inv_synced [OF inv] typed]
  show "validate (lg_proj s) tx = Inl e \<Longrightarrow> PostAndFinalize tx s = (Inl e, s)"
    using app(1) by (simp add: PostAndFinalize_def op_simps)
  show "validate (lg_proj s) tx = Inr () \<Longrightarrow> \<not> timeOK (now s) \<Longrightarrow>
       \<exists>n. PostAndFinalize tx s = (Inl (EEncode ''occurred_at''), s\<lparr>drawn := n\<rparr>)"
    using app(2) by (auto simp: PostAndFinalize_def op_simps)
  assume ok: "validate (lg_proj s) tx = Inr ()" and t: "timeOK (now s)"
  obtain s1 where 1: "Post tx s = (Inr (pending tx s), s1)"
    and w1: "withProj (postedProj (pending tx s) (lg_proj s)) (tx_Entries tx) s s1"
    using app(3) [OF ok t] by blast
  have inv1: "ledger_inv s1" by (rule preserves_result [OF preserves_Post [OF typed] inv 1])
  let ?i = "tx_ID (pending tx s)"
  have t1: "map_of (pj_txs (lg_proj s1)) ?i = Some (pending tx s)" and n1: "now s1 = now s"
    using w1 by (auto simp: withProj_def)
  obtain s2 where 2: "bindE (Settle ?i) (\<lambda>u. Finalize (tx_ID u)) s1 =
      (Inr ((pending tx s)\<lparr>tx_Status := StatusFinal, tx_OccurredAt := now s1\<rparr>), s2)"
    and inv2: "ledger_inv s2" and w2: "withProj (statusProj ?i StatusFinal (lg_proj s1)) [] s1 s2"
    using settle_finalize [OF inv1 t1] t n1 by (auto simp: pending_def)
  have "withProj (finalProj (pending tx s) (lg_proj s)) (tx_Entries tx @ []) s s2"
    unfolding finalProj_def by (rule withProj_trans [OF w1 w2 statusProj_lastSeq])
  moreover have "PostAndFinalize tx s = (Inr ((pending tx s)\<lparr>tx_Status := StatusFinal\<rparr>), s2)"
    using 1 2 n1 by (simp add: PostAndFinalize_def op_simps) (simp add: pending_def)
  ultimately show "\<exists>s'. PostAndFinalize tx s = (Inr ((pending tx s)\<lparr>tx_Status := StatusFinal\<rparr>), s') \<and> ledger_inv s'
      \<and> withProj (finalProj (pending tx s) (lg_proj s)) (tx_Entries tx) s s'"
    using inv2 by auto
qed

end
