(* ===== verification/Ledger_Fx.thy ===== *)
theory Ledger_Fx
  imports Ledger_Inv
begin

text \<open>
  \<open>internal/ledger/fx.go\<close> and \<open>internal/ledger/policy.go\<close>: rates from the \<open>fx_policy\<close> rule,
  exact conversion with the two rounding modes, quotes, the two linked transactions of a
  conversion, and the evaluators of \<open>fx_policy\<close> and \<open>depeg_policy\<close>. The lemmas bound the rounding
  error, relate \<open>Quote\<close> to the evaluator, and say what \<open>Convert\<close> leaves in the ledger on success
  and on failure.
\<close>

section \<open>Exact arithmetic\<close>

definition scaleFactor :: int where "scaleFactor = 100000000"

text \<open>
  \<open>roundRat\<close> works on numerator and denominator in lowest terms; the sign is put back after the
  quotient of the absolute values has been rounded and checked for range.
\<close>

definition roundRat :: "rat \<Rightarrow> string \<Rightarrow> int64 res" where
  "roundRat r mode =
     (let neg = r < 0;
          n = \<bar>fst (quotient_of r)\<bar>;
          d = \<bar>snd (quotient_of r)\<bar>;
          q = n div d;
          rem = n mod d
      in bindR
           (if mode = ''down'' \<or> mode = '''' then Inr q
            else if mode = ''half_up'' then Inr (if 2 * rem \<ge> d then q + 1 else q)
            else Inl (EFx (UnknownRounding mode)))
           (\<lambda>q'. if \<not> in64 q' then Inl (EFx AmountOverflow)
                 else Inr (if neg then wrap64 (- q') else q')))"

definition convertMinor :: "int64 \<Rightarrow> nat \<Rightarrow> nat \<Rightarrow> int64 \<Rightarrow> string \<Rightarrow> int64 res" where
  "convertMinor fromMinor fromDecimals toDecimals scaled mode =
     (let num = fromMinor * scaled * 10 ^ toDecimals;
          den = scaleFactor * 10 ^ fromDecimals
      in roundRat (of_int num / of_int den) mode)"

definition invertScaled :: "int64 \<Rightarrow> string \<Rightarrow> int64 res" where
  "invertScaled scaled mode =
     (if scaled = 0 then Inl (EFx ZeroRate)
      else roundRat (of_int (10 ^ 16) / of_int scaled) mode)"

definition decimalStringToScaled :: "string \<Rightarrow> nat \<Rightarrow> int64 res" where
  "decimalStringToScaled s decimals =
     (case SetString (TrimSpace s) of
        None \<Rightarrow> Inl (EFx (InvalidDecimal s))
      | Some r \<Rightarrow>
          (let scaledRat = r * 10 ^ decimals
           in if snd (quotient_of scaledRat) \<noteq> 1 then Inl (EFx (DecimalPlaces s (int decimals)))
              else let v = fst (quotient_of scaledRat)
                   in if \<not> in64 v then Inl (EFx (DecimalRange s)) else Inr v))"

section \<open>The policy\<close>

fun fxPairLoop :: "gval list \<Rightarrow> string \<Rightarrow> string \<Rightarrow> (int64 \<times> string \<times> bool) res" where
  "fxPairLoop [] from to = Inl (EFx (NoPair from to))"
| "fxPairLoop (p # ps) from to =
     (case asMap p of
        None \<Rightarrow> fxPairLoop ps from to
      | Some m \<Rightarrow>
          (let base = strOr (gget m ''base''); quote = strOr (gget m ''quote'')
           in case asStr (gget m ''mock_rate'') of
                None \<Rightarrow> fxPairLoop ps from to
              | Some mockRateStr \<Rightarrow>
                  (let src = strOr (gget m ''source'')
                   in if base = from \<and> quote = to then
                        bindR (decimalStringToScaled mockRateStr 8) (\<lambda>scaled. Inr (scaled, src, False))
                      else if base = to \<and> quote = from then
                        bindR (decimalStringToScaled mockRateStr 8) (\<lambda>scaled. Inr (scaled, src, True))
                      else fxPairLoop ps from to)))"

definition findFXPair :: "gmap \<Rightarrow> string \<Rightarrow> string \<Rightarrow> (int64 \<times> string \<times> bool) res" where
  "findFXPair content from to =
     (case map_of content ''pairs'' of
        None \<Rightarrow> Inl (EFx MissingPairs)
      | Some raw \<Rightarrow>
          (case asList raw of
             None \<Rightarrow> Inl (EFx MalformedPairs)
           | Some pairs \<Rightarrow> fxPairLoop pairs from to))"

definition rateFromPolicy :: "gmap \<Rightarrow> string \<Rightarrow> string \<Rightarrow> string \<Rightarrow> (int64 \<times> string) res" where
  "rateFromPolicy content from to mode =
     bindR (findFXPair content from to) (\<lambda>(pairScaled, source, inverted).
     if \<not> inverted then Inr (pairScaled, source)
     else bindR (invertScaled pairScaled mode) (\<lambda>scaled. Inr (scaled, source)))"

definition roundingModeFromContent :: "gmap \<Rightarrow> string res" where
  "roundingModeFromContent content =
     (case map_of content ''rounding'' of
        None \<Rightarrow> Inr ''half_up''
      | Some v \<Rightarrow>
          (case asStr v of
             None \<Rightarrow> Inl (EFx RoundingNotString)
           | Some s \<Rightarrow> if s = ''half_up'' \<or> s = ''down'' then Inr s else Inl (EFx (UnknownRounding s))))"

section \<open>Rate providers\<close>

text \<open>
  A provider that reads the rule takes its content from the engine's cache at the moment of the
  call; the static one is a table keyed by \<open>FROM->TO\<close>.
\<close>

definition fxContent :: "'z engine_scheme \<Rightarrow> string \<Rightarrow> gmap res" where
  "fxContent s ruleID =
     bindR (GetContent s (if ruleID = '''' then ''fx_policy'' else ruleID)) (\<lambda>(content, _). Inr content)"

definition providerRate :: "'z engine_scheme \<Rightarrow> RateProvider \<Rightarrow> string \<Rightarrow> string \<Rightarrow> Rate res" where
  "providerRate s p from to =
     (case p of
        RuleRateProvider ruleID hasClock \<Rightarrow>
          bindR (fxContent s ruleID) (\<lambda>content.
          bindR (roundingModeFromContent content) (\<lambda>mode.
          bindR (rateFromPolicy content from to mode) (\<lambda>(scaled, source).
          Inr \<lparr>rt_From = from, rt_To = to, rt_Scaled = scaled, rt_Source = source,
               rt_AsOf = (if hasClock then now s else zeroTime)\<rparr>)))
      | StaticRateProvider rates mode \<Rightarrow>
          ofOption (EFx (NoStaticRate from to)) (map_of rates (from @ ''->'' @ to)))"

definition providerMode :: "'z engine_scheme \<Rightarrow> RateProvider \<Rightarrow> string res" where
  "providerMode s p =
     (case p of
        RuleRateProvider ruleID hasClock \<Rightarrow> bindR (fxContent s ruleID) roundingModeFromContent
      | StaticRateProvider rates mode \<Rightarrow> Inr (if mode = '''' then ''half_up'' else mode))"

section \<open>Quotes and conversions\<close>

record FXRequest =
  fr_FromAccountID :: string
  fr_ToAccountID :: string
  fr_From :: Amount
  fr_Kind :: string
  fr_Description :: string
  fr_Metadata :: "(string \<times> string) list"

record FXQuote =
  fq_From :: Amount
  fq_To :: Amount
  fq_Rate :: Rate
  fq_RoundingMode :: string

record FXResult =
  fx_Quote :: FXQuote
  fx_FromTx :: Transaction
  fx_ToTx :: Transaction

definition Quote :: "'z ledger_scheme \<Rightarrow> string \<Rightarrow> string \<Rightarrow> int64 \<Rightarrow> FXQuote res" where
  "Quote s from to fromMinor =
     (case lg_rates s of
        None \<Rightarrow> Inl (EFx NoRateProvider)
      | Some rates \<Rightarrow>
          bindR (ofOption (ELedger (UnknownCurrency from)) (Currencies from)) (\<lambda>fromCur.
          bindR (ofOption (ELedger (UnknownCurrency to)) (Currencies to)) (\<lambda>toCur.
          bindR (providerRate s rates from to) (\<lambda>rate.
          (let mode = (case providerMode s rates of Inr m \<Rightarrow> (if m \<noteq> '''' then m else ''half_up'') | Inl _ \<Rightarrow> ''half_up'')
           in bindR (convertMinor fromMinor (Decimals fromCur) (Decimals toCur) (rt_Scaled rate) mode) (\<lambda>toMinor.
              Inr \<lparr>fq_From = mkAmount from fromMinor, fq_To = mkAmount to toMinor, fq_Rate = rate,
                   fq_RoundingMode = mode\<rparr>))))))"

definition buildMeta :: "FXRequest \<Rightarrow> FXQuote \<Rightarrow> (string \<times> string) list" where
  "buildMeta req quote =
     AList.update ''fx_source'' (rt_Source (fq_Rate quote))
       (AList.update ''fx_rate'' (formatMinor (rt_Scaled (fq_Rate quote)) 8)
          (fold (\<lambda>(k, v) m. AList.update k v m) (fr_Metadata req) []))"

definition fxTx :: "FXRequest \<Rightarrow> FXQuote \<Rightarrow> string \<Rightarrow> string \<Rightarrow> string \<Rightarrow> Entry list \<Rightarrow> Transaction" where
  "fxTx req quote i linked cur entries =
     \<lparr>tx_ID = i, tx_Kind = (if fr_Kind req = '''' then ''fx'' else fr_Kind req),
      tx_Description = fr_Description req, tx_Currency = cur, tx_Entries = entries, tx_Status = '''',
      tx_LinkedTxID = linked, tx_Metadata = buildMeta req quote, tx_OccurredAt = zeroTime\<rparr>"

definition Convert :: "FXRequest \<Rightarrow> ('z ledger_scheme, FXResult) oper" where
  "Convert req =
     bindE (guardE (fr_FromAccountID req \<noteq> '''' \<and> fr_ToAccountID req \<noteq> '''') (EFx FxAccountsRequired)) (\<lambda>_.
     bindE refresh_ledger (\<lambda>_.
     bindE (getE (\<lambda>s. map_of (pj_accounts (lg_proj s)) (fr_FromAccountID req))) (\<lambda>fa.
     bindE (liftE (ofOption (EFx (FxAccountNotFound (fr_FromAccountID req))) fa)) (\<lambda>fromAcc.
     bindE (getE (\<lambda>s. map_of (pj_accounts (lg_proj s)) (fr_ToAccountID req))) (\<lambda>ta.
     bindE (liftE (ofOption (EFx (FxAccountNotFound (fr_ToAccountID req))) ta)) (\<lambda>toAcc.
     bindE (guardE (ac_Currency fromAcc = am_Currency (fr_From req))
        (EFx (FxFromCurrency (ac_Currency fromAcc) (am_Currency (fr_From req))))) (\<lambda>_.
     (let fromCurrency = am_Currency (fr_From req); toCurrency = ac_Currency toAcc
      in bindE (getE (\<lambda>s. Quote s fromCurrency toCurrency (am_Minor (fr_From req)))) (\<lambda>q.
         bindE (liftE q) (\<lambda>quote.
         bindE newID (\<lambda>fromTxID.
         bindE newID (\<lambda>toTxID.
         (let fromTx = fxTx req quote fromTxID toTxID fromCurrency
                [mkEntry (fr_FromAccountID req) Debit (fr_From req),
                 mkEntry (''treasury-fx-'' @ ToLower fromCurrency) Credit (fr_From req)];
              toTx = fxTx req quote toTxID fromTxID toCurrency
                [mkEntry (''treasury-fx-'' @ ToLower toCurrency) Debit (fq_To quote),
                 mkEntry (fr_ToAccountID req) Credit (fq_To quote)]
          in bindE (Post fromTx) (\<lambda>postedFrom.
             bindE (Post toTx) (\<lambda>postedTo.
             bindE (Settle (tx_ID postedFrom)) (\<lambda>settledFrom.
             bindE (Finalize (tx_ID settledFrom)) (\<lambda>finalFrom.
             bindE (Settle (tx_ID postedTo)) (\<lambda>settledTo.
             bindE (Finalize (tx_ID settledTo)) (\<lambda>finalTo.
             returnE \<lparr>fx_Quote = quote, fx_FromTx = finalFrom, fx_ToTx = finalTo\<rparr>)))))))))))))))))))"

section \<open>Evaluators\<close>

definition stringField :: "gval \<Rightarrow> string res" where
  "stringField v = ofOption (EFx ExpectedString) (asStr v)"

definition intFieldL :: "gval \<Rightarrow> int64 res" where
  "intFieldL v =
     (case v of
        GInt64 t \<Rightarrow> Inr t
      | GInt t \<Rightarrow> Inr t
      | GFloat t \<Rightarrow> Inr (float_to_int64 t)
      | GStr t \<Rightarrow> ofOption (EFx (InvalidInteger t)) (ParseInt t)
      | _ \<Rightarrow> Inl (EFx ExpectedNumber))"

definition EvaluateFXPolicy :: Evaluator where
  "EvaluateFXPolicy content input =
     bindR (ctxR ''input.from'' (stringField (gget input ''from''))) (\<lambda>from.
     bindR (ctxR ''input.to'' (stringField (gget input ''to''))) (\<lambda>to.
     bindR (ctxR ''input.amount_minor'' (intFieldL (gget input ''amount_minor''))) (\<lambda>amountMinor.
     bindR (roundingModeFromContent content) (\<lambda>mode.
     bindR (findFXPair content from to) (\<lambda>(pairScaled, source, inverted).
     bindR (ofOption (ELedger (UnknownCurrency from)) (Currencies from)) (\<lambda>fromCur.
     bindR (ofOption (ELedger (UnknownCurrency to)) (Currencies to)) (\<lambda>toCur.
     bindR (if inverted then invertScaled pairScaled mode else Inr pairScaled) (\<lambda>effective.
     bindR (convertMinor amountMinor (Decimals fromCur) (Decimals toCur) effective mode) (\<lambda>toMinor.
     Inr [(''to_amount_minor'', GInt64 toMinor), (''rate_scaled'', GInt64 pairScaled),
          (''rate_display'', GStr (formatMinor pairScaled 8)), (''source'', GStr source)])))))))))"

definition EvaluateDepegPolicy :: Evaluator where
  "EvaluateDepegPolicy content input =
     bindR (ctxR ''input.usdc_price_usd'' (stringField (gget input ''usdc_price_usd''))) (\<lambda>priceStr.
     bindR (ofOption (EFx (InvalidPrice priceStr)) (SetString priceStr)) (\<lambda>price.
     bindR (ofOption (EFx MissingThresholds) (asMap (gget content ''thresholds''))) (\<lambda>thresholds.
     bindR (ctxR ''watch_below_usd'' (stringField (gget thresholds ''watch_below_usd''))) (\<lambda>watchStr.
     bindR (ctxR ''depeg_below_usd'' (stringField (gget thresholds ''depeg_below_usd''))) (\<lambda>depegStr.
     bindR (ofOption (EFx (InvalidPrice watchStr)) (SetString watchStr)) (\<lambda>watch.
     bindR (ofOption (EFx (InvalidPrice depegStr)) (SetString depegStr)) (\<lambda>depeg.
     Inr [(''status'', GStr (if price < depeg then ''depeg'' else if price < watch then ''watch'' else ''normal''))])))))))"

section \<open>Lemmas: rounding\<close>

lemma half_up_div:
  assumes "0 < (d :: int)" and "0 \<le> n"
  shows "(if 2 * (n mod d) \<ge> d then n div d + 1 else n div d) = (2 * n + d) div (2 * d)"
proof -
  define q r where "q = n div d" and "r = n mod d"
  have n: "n = d * q + r" and r: "0 \<le> r" "r < d" using assms by (simp_all add: q_def r_def)
  have "2 * n + d = (2 * d) * q + (2 * r + d)" by (simp add: n algebra_simps)
  then have "(2 * n + d) div (2 * d) = q + (2 * r + d) div (2 * d)"
    using assms(1) by (metis div_mult_self2 add.commute mult_eq_0_iff not_less_iff_gr_or_eq zero_less_mult_iff zero_neq_numeral)
  moreover have "(2 * r + d) div (2 * d) = (if 2 * r \<ge> d then 1 else 0)"
  proof (cases "2 * r \<ge> d")
    case True
    then have "2 * r + d = 2 * d + (2 * r - d)" "0 \<le> 2 * r - d" "2 * r - d < 2 * d" using r by simp_all
    then show ?thesis using True assms(1) by (simp add: div_pos_geq div_pos_pos_trivial)
  next
    case False
    then show ?thesis using r assms(1) by (simp add: div_pos_pos_trivial)
  qed
  ultimately show ?thesis by (simp add: q_def r_def)
qed

text \<open>What the two modes compute: the floor, and the floor of the value plus a half.\<close>

definition halfUp :: "rat \<Rightarrow> int" where
  "halfUp r = \<lfloor>r + 1 / 2\<rfloor>"

lemma quotient_floor:
  assumes "0 \<le> r"
  shows "\<bar>fst (quotient_of r)\<bar> div \<bar>snd (quotient_of r)\<bar> = \<lfloor>r\<rfloor>"
    and "(if 2 * (\<bar>fst (quotient_of r)\<bar> mod \<bar>snd (quotient_of r)\<bar>) \<ge> \<bar>snd (quotient_of r)\<bar>
          then \<bar>fst (quotient_of r)\<bar> div \<bar>snd (quotient_of r)\<bar> + 1
          else \<bar>fst (quotient_of r)\<bar> div \<bar>snd (quotient_of r)\<bar>) = halfUp r"
proof -
  obtain n d where q: "quotient_of r = (n, d)" by (cases "quotient_of r")
  have d: "0 < d" and r: "r = of_int n / of_int d"
    using quotient_of_denom_pos [OF q] quotient_of_div [OF q] by simp_all
  have n: "0 \<le> n" using assms d by (simp add: r zero_le_divide_iff)
  show "\<bar>fst (quotient_of r)\<bar> div \<bar>snd (quotient_of r)\<bar> = \<lfloor>r\<rfloor>"
    using n d by (simp add: q) (simp add: r floor_divide_of_int_eq)
  have "r + 1 / 2 = of_int (2 * n + d) / of_int (2 * d)"
    using d by (simp add: r field_simps)
  then have h: "halfUp r = (2 * n + d) div (2 * d)"
    by (simp only: halfUp_def floor_divide_of_int_eq)
  have e: "\<bar>fst (quotient_of r)\<bar> = n" "\<bar>snd (quotient_of r)\<bar> = d" using n d by (simp_all add: q)
  show "(if 2 * (\<bar>fst (quotient_of r)\<bar> mod \<bar>snd (quotient_of r)\<bar>) \<ge> \<bar>snd (quotient_of r)\<bar>
          then \<bar>fst (quotient_of r)\<bar> div \<bar>snd (quotient_of r)\<bar> + 1
          else \<bar>fst (quotient_of r)\<bar> div \<bar>snd (quotient_of r)\<bar>) = halfUp r"
    unfolding e h by (rule half_up_div [OF d n])
qed

lemma roundRat_nonneg:
  assumes "0 \<le> r"
  shows "roundRat r ''down'' = (if in64 \<lfloor>r\<rfloor> then Inr \<lfloor>r\<rfloor> else Inl (EFx AmountOverflow))"
    and "roundRat r ''half_up'' = (if in64 (halfUp r) then Inr (halfUp r) else Inl (EFx AmountOverflow))"
proof -
  have "\<not> r < 0" using assms by simp
  then show "roundRat r ''down'' = (if in64 \<lfloor>r\<rfloor> then Inr \<lfloor>r\<rfloor> else Inl (EFx AmountOverflow))"
    "roundRat r ''half_up'' = (if in64 (halfUp r) then Inr (halfUp r) else Inl (EFx AmountOverflow))"
    using quotient_floor [OF assms] unfolding roundRat_def Let_def by (simp_all split del: if_split) simp_all
qed

lemma halfUp_bounds: "of_int (halfUp r) - 1 / 2 \<le> r" "r < of_int (halfUp r) + 1 / 2"
  unfolding halfUp_def by linarith+

lemma halfUp_mono: "r \<le> r' \<Longrightarrow> halfUp r \<le> halfUp r'"
  unfolding halfUp_def by (simp add: floor_mono)

lemma halfUp_of_int [simp]: "halfUp (of_int n) = n"
  unfolding halfUp_def by linarith

lemma quotient_of_uminus: "quotient_of (- r) = (- fst (quotient_of r), snd (quotient_of r))"
  by (simp add: rat_uminus_code split_beta)

text \<open>A negative amount is rounded as its absolute value.\<close>

lemma roundRat_uminus:
  assumes "0 < r"
  shows "roundRat (- r) mode = bindR (roundRat r mode) (\<lambda>v. Inr (- v))"
proof -
  have q: "quotient_of (- r) = (- fst (quotient_of r), snd (quotient_of r))"
    by (rule quotient_of_uminus)
  have nn: "0 \<le> \<bar>n\<bar> div \<bar>d\<bar>" for n d :: int by (cases "d = 0") (simp_all add: pos_imp_zdiv_nonneg_iff)
  have w: "wrap64 (- v) = - v" if "in64 v" "0 \<le> v" for v
    using that by (intro wrap64_id) (auto simp: in64_def min64_def max64_def)
  show ?thesis
    using assms nn [of "fst (quotient_of r)" "snd (quotient_of r)"]
    unfolding roundRat_def Let_def q by (auto simp: w bindR_def)
qed

lemma roundRat_in64: "roundRat r mode = Inr v \<Longrightarrow> in64 v"
  by (auto simp: roundRat_def Let_def bindR_def split: if_splits sum.splits)

lemma convertMinor_in64: "convertMinor n a b sc mode = Inr v \<Longrightarrow> in64 v"
  by (auto simp: convertMinor_def Let_def dest: roundRat_in64)

text \<open>The exact value a conversion approximates.\<close>

definition exactConversion :: "int64 \<Rightarrow> nat \<Rightarrow> nat \<Rightarrow> int64 \<Rightarrow> rat" where
  "exactConversion fromMinor fromDecimals toDecimals scaled =
     of_int fromMinor / 10 ^ fromDecimals * (of_int scaled / 10 ^ 8) * 10 ^ toDecimals"

lemma convertMinor_exact:
  "convertMinor fromMinor fd td scaled mode = roundRat (exactConversion fromMinor fd td scaled) mode"
  by (simp add: convertMinor_def Let_def exactConversion_def scaleFactor_def field_simps)

lemma exactConversion_nonneg: "0 \<le> n \<Longrightarrow> 0 \<le> sc \<Longrightarrow> 0 \<le> exactConversion n a b sc"
  by (simp add: exactConversion_def)

section \<open>Lemmas: quotes and conversions\<close>

lemma Quote_InrE:
  assumes "Quote s from to n = Inr q"
  obtains rates fc tc rate where "lg_rates s = Some rates" "Currencies from = Some fc" "Currencies to = Some tc"
    "providerRate s rates from to = Inr rate" "fq_From q = mkAmount from n" "fq_Rate q = rate"
    "am_Currency (fq_To q) = to" "in64 (am_Minor (fq_To q))"
    "convertMinor n (Decimals fc) (Decimals tc) (rt_Scaled rate) (fq_RoundingMode q) = Inr (am_Minor (fq_To q))"
  using assms
  by (auto simp: Quote_def ofOption_def bindR_eq_Inr Let_def split: option.splits dest: convertMinor_in64
      intro!: that)

lemma typed_fxTx:
  "tx_typed (fxTx req q i l cur [mkEntry a d m, mkEntry b e m]) = in64 (am_Minor m)"
  by (simp add: tx_typed_def fxTx_def mkEntry_def)

lemma preserves_newID_inv [pres]: "preserves ledger_inv newID"
  by (rule preservesI) (simp add: op_simps ledger_inv_frame)

lemma preserves_Convert [pres]:
  assumes "in64 (am_Minor (fr_From req))"
  shows "preserves ledger_inv (Convert req)"
  unfolding Convert_def Let_def
  by (intro preserves_bindE preserves_guardE preserves_refresh preserves_getE preserves_liftE
      preserves_getlift preserves_newID_inv preserves_Post preserves_Settle preserves_Finalize preserves_returnE)
    (auto simp: typed_fxTx assms elim: Quote_InrE)

text \<open>The two legs of a conversion.\<close>

definition fromLeg :: "FXRequest \<Rightarrow> Entry list" where
  "fromLeg req =
     [mkEntry (fr_FromAccountID req) Debit (fr_From req),
      mkEntry (''treasury-fx-'' @ ToLower (am_Currency (fr_From req))) Credit (fr_From req)]"

definition toLeg :: "FXRequest \<Rightarrow> FXQuote \<Rightarrow> Entry list" where
  "toLeg req q =
     [mkEntry (''treasury-fx-'' @ ToLower (am_Currency (fq_To q))) Debit (fq_To q),
      mkEntry (fr_ToAccountID req) Credit (fq_To q)]"

lemma fxTx_simps [simp]:
  "tx_ID (fxTx req q i l cur es) = i" "tx_LinkedTxID (fxTx req q i l cur es) = l"
  "tx_Entries (fxTx req q i l cur es) = es" "tx_Currency (fxTx req q i l cur es) = cur"
  by (simp_all add: fxTx_def)

lemma pending_simps [simp]:
  "tx_LinkedTxID (pending tx s) = tx_LinkedTxID tx" "tx_Entries (pending tx s) = tx_Entries tx"
  "tx_Status (pending tx s) = StatusPending" "tx_ID tx \<noteq> '''' \<Longrightarrow> tx_ID (pending tx s) = tx_ID tx"
  "tx_OccurredAt (pending tx s) = now s"
  by (simp_all add: pending_def postID_def)

lemma withProjD:
  assumes "withProj p es s s'"
  shows "map_of (pj_txs (lg_proj s')) i = map_of (pj_txs p) i" "pj_accounts (lg_proj s') = pj_accounts p"
    "journal (st_events s') = journal (st_events s) @ es" "now s' = now s" "lg_rates s' = lg_rates s"
  using assms by (auto simp: withProj_def)

lemma Convert_success:
  assumes inv: "ledger_inv s" and n: "in64 (am_Minor (fr_From req))"
    and c: "Convert req s = (Inr r, s')"
    and ids: "rand s (drawn s) \<noteq> ''''" "rand s (drawn s + 1) \<noteq> ''''" "rand s (drawn s) \<noteq> rand s (drawn s + 1)"
  obtains cur where
    "Quote s (am_Currency (fr_From req)) cur (am_Minor (fr_From req)) = Inr (fx_Quote r)"
    "journal (st_events s') = journal (st_events s) @ fromLeg req @ toLeg req (fx_Quote r)"
    "map_of (pj_txs (lg_proj s')) (rand s (drawn s)) = Some (fx_FromTx r)"
    "map_of (pj_txs (lg_proj s')) (rand s (drawn s + 1)) = Some (fx_ToTx r)"
    "tx_Status (fx_FromTx r) = StatusFinal" "tx_Status (fx_ToTx r) = StatusFinal"
    "tx_LinkedTxID (fx_FromTx r) = rand s (drawn s + 1)" "tx_LinkedTxID (fx_ToTx r) = rand s (drawn s)"
    "tx_Entries (fx_FromTx r) = fromLeg req" "tx_Entries (fx_ToTx r) = toLeg req (fx_Quote r)"
proof -
  let ?i = "rand s (drawn s)" and ?j = "rand s (drawn s + 1)" and ?fc = "am_Currency (fr_From req)"
  let ?s0 = "s\<lparr>drawn := drawn s + 2\<rparr>"
  have rs: "refresh_ledger s = (Inr (), s)" using inv by (simp add: ledger_inv_synced)
  obtain q cur t1 s1 t2 s2 u1 s3 v1 s4 u2 s5 v2 where
    q: "Quote s ?fc cur (am_Minor (fr_From req)) = Inr q"
    and p1: "Post (fxTx req q ?i ?j ?fc (fromLeg req)) ?s0 = (Inr t1, s1)"
    and p2: "Post (fxTx req q ?j ?i cur (toLeg req q)) s1 = (Inr t2, s2)"
    and st1: "Settle (tx_ID t1) s2 = (Inr u1, s3)" and fi1: "Finalize (tx_ID u1) s3 = (Inr v1, s4)"
    and st2: "Settle (tx_ID t2) s4 = (Inr u2, s5)" and fi2: "Finalize (tx_ID u2) s5 = (Inr v2, s')"
    and r: "r = \<lparr>fx_Quote = q, fx_FromTx = v1, fx_ToTx = v2\<rparr>"
  proof -
    from c rs obtain ta q where ta: "map_of (pj_accounts (lg_proj s)) (fr_ToAccountID req) = Some ta"
      and q: "Quote s ?fc (ac_Currency ta) (am_Minor (fr_From req)) = Inr q"
      by (auto simp: Convert_def op_simps bindE_eq_Inr ofOption_def Let_def split: option.splits if_splits)
    have cur: "am_Currency (fq_To q) = ac_Currency ta" using q by (rule Quote_InrE)
    show thesis
      using c rs ta q cur
      by (auto simp: Convert_def op_simps bindE_eq_Inr ofOption_def Let_def fromLeg_def toLeg_def
          split: option.splits if_splits intro!: that [OF q])
  qed
  have q64: "in64 (am_Minor (fq_To q))" using q by (rule Quote_InrE)
  have "ledger_inv ?s0" using inv by (simp add: ledger_inv_frame)
  then obtain t1: "t1 = pending (fxTx req q ?i ?j ?fc (fromLeg req)) ?s0" and ok: "timeOK (now s)"
    and inv1: "ledger_inv s1" and w1: "withProj (postedProj t1 (lg_proj s)) (fromLeg req) ?s0 s1"
    by (rule Post_InrE [OF _ _ p1]) (use n in \<open>auto simp: fromLeg_def typed_fxTx\<close>)
  obtain t2: "t2 = pending (fxTx req q ?j ?i cur (toLeg req q)) s1"
    and inv2: "ledger_inv s2" and w2: "withProj (postedProj t2 (lg_proj s1)) (toLeg req q) s1 s2"
    by (rule Post_InrE [OF inv1 _ p2]) (use q64 in \<open>auto simp: toLeg_def typed_fxTx\<close>)
  have i1: "tx_ID t1 = ?i" and i2: "tx_ID t2 = ?j" using ids by (simp_all add: t1 t2)
  have now2: "now s2 = now s" using withProjD(4) [OF w1] withProjD(4) [OF w2] by simp
  have m1: "map_of (pj_txs (lg_proj s2)) ?i = Some t1"
    using withProjD(1) [OF w1] withProjD(1) [OF w2] ids i1 i2 by simp
  have m2: "map_of (pj_txs (lg_proj s2)) ?j = Some t2" using withProjD(1) [OF w2] i2 by simp
  obtain inv4: "ledger_inv s4" and v1: "v1 = t1\<lparr>tx_Status := StatusFinal, tx_OccurredAt := now s2\<rparr>"
    and w4: "withProj (statusProj ?i StatusFinal (lg_proj s2)) [] s2 s4"
    using settle_finalize [OF inv2 m1] st1 fi1 ok now2 i1 by (auto simp: t1 op_simps)
  have m4: "map_of (pj_txs (lg_proj s4)) ?j = Some t2"
    using withProjD(1) [OF w4] m2 ids(3) by (simp add: statusProj_txs)
  have now4: "now s4 = now s" using withProjD(4) [OF w4] now2 by simp
  obtain v2: "v2 = t2\<lparr>tx_Status := StatusFinal, tx_OccurredAt := now s4\<rparr>"
    and w6: "withProj (statusProj ?j StatusFinal (lg_proj s4)) [] s4 s'"
    using settle_finalize [OF inv4 m4] st2 fi2 ok now4 i2 by (auto simp: t2 op_simps)
  have j: "journal (st_events s') = journal (st_events s) @ fromLeg req @ toLeg req q"
    using withProjD(3) [OF w1] withProjD(3) [OF w2] withProjD(3) [OF w4] withProjD(3) [OF w6] by simp
  have f1: "map_of (pj_txs (lg_proj s')) ?i = Some (t1\<lparr>tx_Status := StatusFinal\<rparr>)"
    and f2: "map_of (pj_txs (lg_proj s')) ?j = Some (t2\<lparr>tx_Status := StatusFinal\<rparr>)"
    using withProjD(1) [OF w6] withProjD(1) [OF w4] m1 m4 ids(3) by (simp_all add: statusProj_txs)
  have e1: "t1\<lparr>tx_Status := StatusFinal\<rparr> = v1" and e2: "t2\<lparr>tx_Status := StatusFinal\<rparr> = v2"
    using now2 now4 withProjD(4) [OF w1] by (simp_all add: v1 v2 t1 t2 pending_def)
  show thesis
    by (rule that [of cur]) (use q j f1 f2 e1 e2 in \<open>simp_all add: r\<close>, simp_all add: v1 v2 t1 t2)
qed

text \<open>
  When the accounts, the quote and the first leg are in order, everything depends on the second
  leg: if it is refused, the first one stays in the ledger, pending; if it is accepted, the
  conversion succeeds.
\<close>

lemma validate_cong: "pj_accounts p = pj_accounts q \<Longrightarrow> validate p t = validate q t"
proof -
  assume eq: "pj_accounts p = pj_accounts q"
  have "validateLoop p cur es d c = validateLoop q cur es d c" for cur es d c
    using eq by (induction es arbitrary: d c) (auto split: option.split)
  then show ?thesis by (simp add: validate_def)
qed

lemma Convert_run:
  assumes inv: "ledger_inv s" and n: "in64 (am_Minor (fr_From req))" and ok: "timeOK (now s)"
    and ids: "rand s (drawn s) \<noteq> ''''" "rand s (drawn s + 1) \<noteq> ''''" "rand s (drawn s) \<noteq> rand s (drawn s + 1)"
    and acc: "fr_FromAccountID req \<noteq> ''''" "fr_ToAccountID req \<noteq> ''''"
      "map_of (pj_accounts (lg_proj s)) (fr_FromAccountID req) = Some fa" "ac_Currency fa = am_Currency (fr_From req)"
      "map_of (pj_accounts (lg_proj s)) (fr_ToAccountID req) = Some ta"
    and q: "Quote s (am_Currency (fr_From req)) (ac_Currency ta) (am_Minor (fr_From req)) = Inr q"
    and v1: "validate (lg_proj s) (fxTx req q (rand s (drawn s)) (rand s (drawn s + 1)) (am_Currency (fr_From req)) (fromLeg req)) = Inr ()"
  shows "validate (lg_proj s) (fxTx req q (rand s (drawn s + 1)) (rand s (drawn s)) (ac_Currency ta) (toLeg req q)) = Inl e \<Longrightarrow>
      \<exists>s' t. Convert req s = (Inl e, s') \<and> journal (st_events s') = journal (st_events s) @ fromLeg req
        \<and> map_of (pj_txs (lg_proj s')) (rand s (drawn s)) = Some t \<and> tx_Status t = StatusPending"
    and "validate (lg_proj s) (fxTx req q (rand s (drawn s + 1)) (rand s (drawn s)) (ac_Currency ta) (toLeg req q)) = Inr () \<Longrightarrow>
      \<exists>r s'. Convert req s = (Inr r, s')"
proof -
  let ?i = "rand s (drawn s)" and ?j = "rand s (drawn s + 1)" and ?fc = "am_Currency (fr_From req)"
  let ?s0 = "s\<lparr>drawn := drawn s + 2\<rparr>"
  let ?f = "fxTx req q ?i ?j ?fc (fromLeg req)" and ?t = "fxTx req q ?j ?i (ac_Currency ta) (toLeg req q)"
  have rs: "refresh_ledger s = (Inr (), s)" using inv by (simp add: ledger_inv_synced)
  have q64: "in64 (am_Minor (fq_To q))" using q by (rule Quote_InrE)
  have cur: "am_Currency (fq_To q) = ac_Currency ta" using q by (rule Quote_InrE)
  have tf: "tx_typed ?f" and tt: "tx_typed ?t" using n q64 by (simp_all add: fromLeg_def toLeg_def typed_fxTx)
  have inv0: "ledger_inv ?s0" using inv by (simp add: ledger_inv_frame)
  have conv: "Convert req s =
      bindE (Post ?f) (\<lambda>postedFrom. bindE (Post ?t) (\<lambda>postedTo.
      bindE (bindE (Settle (tx_ID postedFrom)) (\<lambda>u. Finalize (tx_ID u))) (\<lambda>finalFrom.
      bindE (bindE (Settle (tx_ID postedTo)) (\<lambda>u. Finalize (tx_ID u))) (\<lambda>finalTo.
      returnE \<lparr>fx_Quote = q, fx_FromTx = finalFrom, fx_ToTx = finalTo\<rparr>)))) ?s0"
    using rs acc q cur by (simp add: Convert_def op_simps ofOption_def Let_def fromLeg_def toLeg_def bindE_assoc)
  obtain s1 where p1: "Post ?f ?s0 = (Inr (pending ?f ?s0), s1)"
    and w1: "withProj (postedProj (pending ?f ?s0) (lg_proj s)) (fromLeg req) ?s0 s1"
    using Post_app(3) [OF ledger_inv_synced [OF inv0] tf] v1 ok by auto
  have inv1: "ledger_inv s1" by (rule preserves_result [OF preserves_Post [OF tf] inv0 p1])
  have same: "validate (lg_proj s1) t = validate (lg_proj s) t" for t
    by (rule validate_cong) (simp add: withProjD(2) [OF w1])
  have m1: "map_of (pj_txs (lg_proj s1)) ?i = Some (pending ?f ?s0)"
    using withProjD(1) [OF w1] ids by simp
  have ok1: "timeOK (now s1)" using withProjD(4) [OF w1] ok by simp
  show "\<exists>s' t. Convert req s = (Inl e, s') \<and> journal (st_events s') = journal (st_events s) @ fromLeg req
        \<and> map_of (pj_txs (lg_proj s')) ?i = Some t \<and> tx_Status t = StatusPending"
    if "validate (lg_proj s) ?t = Inl e"
    using Post_app(1) [OF ledger_inv_synced [OF inv1] tt] same that p1 m1 withProjD(3) [OF w1]
    by (auto simp: conv op_simps)
  assume v2: "validate (lg_proj s) ?t = Inr ()"
  obtain s2 where p2: "Post ?t s1 = (Inr (pending ?t s1), s2)"
    and w2: "withProj (postedProj (pending ?t s1) (lg_proj s1)) (toLeg req q) s1 s2"
    using Post_app(3) [OF ledger_inv_synced [OF inv1] tt] v2 same ok1 by auto
  have inv2: "ledger_inv s2" by (rule preserves_result [OF preserves_Post [OF tt] inv1 p2])
  have m1': "map_of (pj_txs (lg_proj s2)) ?i = Some (pending ?f ?s0)"
    and m2: "map_of (pj_txs (lg_proj s2)) ?j = Some (pending ?t s1)"
    using withProjD(1) [OF w2] m1 ids by simp_all
  have ok2: "timeOK (now s2)" using withProjD(4) [OF w2] ok1 by simp
  obtain x s4 where f1: "bindE (Settle ?i) (\<lambda>u. Finalize (tx_ID u)) s2 = (Inr x, s4)"
    and inv4: "ledger_inv s4" and w4: "withProj (statusProj ?i StatusFinal (lg_proj s2)) [] s2 s4"
    using settle_finalize [OF inv2 m1' _ ok2] by auto
  have m4: "map_of (pj_txs (lg_proj s4)) ?j = Some (pending ?t s1)"
    using withProjD(1) [OF w4] m2 ids(3) by (simp add: statusProj_txs)
  have ok4: "timeOK (now s4)" using withProjD(4) [OF w4] ok2 by simp
  obtain y s' where f2: "bindE (Settle ?j) (\<lambda>u. Finalize (tx_ID u)) s4 = (Inr y, s')"
    using settle_finalize [OF inv4 m4 _ ok4] by auto
  show "\<exists>r s'. Convert req s = (Inr r, s')"
    unfolding conv using p1 p2 f1 f2 ids by (auto simp: bindE_eq_Inr op_simps)
qed

end
