(* ===== verification/Acct_Waterfall.thy ===== *)
theory Acct_Waterfall
  imports Ledger_Fx
begin

text \<open>
  \<open>internal/account/waterfall.go\<close>: the evaluator of the \<open>spend_waterfall\<close> rule, which decides from
  which balances a purchase is paid. The theorem says what an approval is worth: the funding legs
  are positive, add up to the price, have shares that add up to one hundred, and none draws more
  than the balance it is taken from.
\<close>

section \<open>The evaluator\<close>

definition ruleFiatFirst :: string where "ruleFiatFirst = ''prefer_fiat_if_sufficient''"
definition ruleCoinFirst :: string where "ruleCoinFirst = ''prefer_stablecoin_if_sufficient''"
definition ruleSplitFiat :: string where "ruleSplitFiat = ''split_fiat_then_stablecoin''"
definition ruleSplitCoin :: string where "ruleSplitCoin = ''split_stablecoin_then_fiat''"
definition ruleDeclineAll :: string where "ruleDeclineAll = ''decline''"

definition numField :: "gval \<Rightarrow> int64 res" where
  "numField v =
     (case v of
        GInt64 t \<Rightarrow> Inr t
      | GInt t \<Rightarrow> Inr t
      | GFloat t \<Rightarrow> Inr (float_to_int64 t)
      | GStr t \<Rightarrow> ofOption (EFx (InvalidInteger t)) (ParseInt t)
      | _ \<Rightarrow> Inl (EFx ExpectedNumber))"

definition fundingLeg :: "string \<Rightarrow> int64 \<Rightarrow> int \<Rightarrow> gval" where
  "fundingLeg currency cents pct =
     GMap [(''currency'', GStr currency), (''usd_equivalent_cents'', GInt64 cents), (''share_pct'', GInt pct)]"

definition approvedWith :: "string \<Rightarrow> gval list \<Rightarrow> gmap" where
  "approvedWith rule funding =
     [(''decision'', GStr ''approved''), (''matched_rule'', GStr rule), (''funding'', GList funding)]"

definition approvedSingle :: "string \<Rightarrow> string \<Rightarrow> int64 \<Rightarrow> gmap" where
  "approvedSingle rule currency amount = approvedWith rule [fundingLeg currency amount 100]"

definition approvedSplit :: "string \<Rightarrow> string \<Rightarrow> int64 \<Rightarrow> string \<Rightarrow> int64 \<Rightarrow> gmap" where
  "approvedSplit rule firstCcy firstBal secondCcy amount =
     (let p = (if firstBal > amount then amount else firstBal);
          firstPortion = (if p < 0 then 0 else p);
          secondPortion = wrap64 (amount - firstPortion)
      in approvedWith rule
           (if 0 < firstPortion \<and> 0 < secondPortion then
              (let firstPct = go_quot (wrap64 (firstPortion * 100)) amount
               in [fundingLeg firstCcy firstPortion firstPct,
                   fundingLeg secondCcy secondPortion (wrap64 (100 - firstPct))])
            else if 0 < firstPortion then [fundingLeg firstCcy firstPortion 100]
            else [fundingLeg secondCcy secondPortion 100]))"

definition declinedAll :: gmap where
  "declinedAll =
     [(''decision'', GStr ''declined''), (''matched_rule'', GStr ruleDeclineAll), (''funding'', GList [])]"

text \<open>The loop over the conditions.\<close>

fun waterfallLoop :: "bool \<Rightarrow> int64 \<Rightarrow> int64 \<Rightarrow> int64 \<Rightarrow> gval list \<Rightarrow> gmap res" where
  "waterfallLoop allowSplit amount usdBal usdcBal [] = Inl (EAccount ConditionsExhausted)"
| "waterfallLoop allowSplit amount usdBal usdcBal (c # cs) =
     (case asMap c of
        None \<Rightarrow> Inl (EAccount MalformedCondition)
      | Some cm \<Rightarrow>
          (let name = strOr (gget cm ''rule'');
               next = waterfallLoop allowSplit amount usdBal usdcBal cs
           in if name = ruleFiatFirst then
                (if usdBal \<ge> amount then Inr (approvedSingle name ''USD'' amount) else next)
              else if name = ruleCoinFirst then
                (if usdcBal \<ge> amount then Inr (approvedSingle name ''USDC'' amount) else next)
              else if name = ruleSplitFiat then
                (if allowSplit \<and> wrap64 (usdBal + usdcBal) \<ge> amount
                 then Inr (approvedSplit name ''USD'' usdBal ''USDC'' amount) else next)
              else if name = ruleSplitCoin then
                (if allowSplit \<and> wrap64 (usdBal + usdcBal) \<ge> amount
                 then Inr (approvedSplit name ''USDC'' usdcBal ''USD'' amount) else next)
              else if name = ruleDeclineAll then Inr declinedAll
              else Inl (EAccount (UnknownWaterfallRule name))))"

definition EvaluateWaterfall :: Evaluator where
  "EvaluateWaterfall content input =
     bindR (ctxR ''input.amount_cents'' (numField (gget input ''amount_cents''))) (\<lambda>amount.
     if amount \<le> 0 then Inl (EAccount AmountNotPositive)
     else
       bindR (ctxR ''input.usd_balance_cents'' (numField (gget input ''usd_balance_cents''))) (\<lambda>usdBal.
       bindR (ctxR ''input.usdc_balance_usd_equivalent_cents''
                (numField (gget input ''usdc_balance_usd_equivalent_cents''))) (\<lambda>usdcBal.
       (let allowSplit = boolOr (gget content ''allow_split'')
        in bindR (ofOption (EAccount MissingConditions)
                    (asList (gget content ''conditions_evaluated_in_order''))) (\<lambda>condsRaw.
           waterfallLoop allowSplit amount usdBal usdcBal condsRaw)))))"

section \<open>What an approval is worth\<close>

text \<open>
  The specification of a funding: legs in different currencies, each positive and covered by the
  balance of its currency, that add up to the price and to one hundred percent.
\<close>

definition balanceIn :: "int64 \<Rightarrow> int64 \<Rightarrow> string \<Rightarrow> int64" where
  "balanceIn usd usdc c = (if c = ''USD'' then usd else if c = ''USDC'' then usdc else 0)"

definition funds :: "int64 \<Rightarrow> int64 \<Rightarrow> int64 \<Rightarrow> (string \<times> int64 \<times> int) list \<Rightarrow> bool" where
  "funds amount usd usdc legs \<longleftrightarrow>
     legs \<noteq> [] \<and> distinct (map fst legs) \<and>
     sum_list (map (\<lambda>(c, n, p). n) legs) = amount \<and> sum_list (map (\<lambda>(c, n, p). p) legs) = 100 \<and>
     list_all (\<lambda>(c, n, p). 0 < n \<and> n \<le> balanceIn usd usdc c \<and> 0 \<le> p \<and> p \<le> 100) legs"

definition fundingOf :: "(string \<times> int64 \<times> int) list \<Rightarrow> gval" where
  "fundingOf legs = GList (map (\<lambda>(c, n, p). fundingLeg c n p) legs)"

lemma approvedWith_simps [simp]:
  "gget (approvedWith rule legs) ''decision'' = GStr ''approved''"
  "gget (approvedWith rule legs) ''funding'' = GList legs"
  "gget (approvedWith rule legs) ''matched_rule'' = GStr rule"
  "gget declinedAll ''decision'' = GStr ''declined''"
  by (simp_all add: approvedWith_def declinedAll_def)

lemma single_funds:
  assumes "0 < amount" and "amount \<le> balanceIn usd usdc c"
  shows "\<exists>legs. gget (approvedSingle rule c amount) ''funding'' = fundingOf legs \<and> funds amount usd usdc legs"
  using assms by (intro exI [of _ "[(c, amount, 100)]"]) (simp add: approvedSingle_def fundingOf_def funds_def)

lemma pct_bounds:
  fixes x amount :: int
  assumes "0 \<le> x" "x < amount"
  shows "0 \<le> x * 100 div amount" "x * 100 div amount \<le> 100"
proof -
  show "0 \<le> x * 100 div amount" using assms by (intro pos_imp_zdiv_nonneg_iff [THEN iffD2]) auto
  have "x * 100 \<le> amount * 100" using assms by simp
  then have "x * 100 div amount \<le> amount * 100 div amount" using assms by (intro zdiv_mono1) auto
  then show "x * 100 div amount \<le> 100" using assms by simp
qed

text \<open>The legs of a split, when the two balances together cover the price.\<close>

lemma split_funds:
  assumes pos: "0 < amount" "amount * 100 \<le> max64"
    and ccy: "c \<noteq> d" and cover: "amount \<le> balanceIn usd usdc c + balanceIn usd usdc d"
  shows "\<exists>legs. gget (approvedSplit rule c (balanceIn usd usdc c) d amount) ''funding'' = fundingOf legs \<and>
    funds amount usd usdc legs"
proof -
  let ?b = "balanceIn usd usdc c"
  have in64: "in64 x" if "0 \<le> x" "x \<le> amount * 100" for x
    using that pos by (simp add: in64_def min64_def)
  consider (first) "amount \<le> ?b" | (both) "0 < ?b" "?b < amount" | (second) "?b \<le> 0"
    by linarith
  then show ?thesis
  proof cases
    case first
    then have "gget (approvedSplit rule c ?b d amount) ''funding'' = fundingOf [(c, amount, 100)]"
      using pos by (auto simp: approvedSplit_def fundingOf_def Let_def)
    then show ?thesis using first pos by (intro exI [of _ "[(c, amount, 100)]"]) (simp add: funds_def)
  next
    case both
    let ?p = "?b * 100 div amount"
    have w: "wrap64 (amount - ?b) = amount - ?b" "wrap64 (?b * 100) = ?b * 100"
      using both by (auto intro!: wrap64_id in64)
    have p: "0 \<le> ?p" "?p \<le> 100" using both by (auto intro: pct_bounds)
    then have "wrap64 (100 - ?p) = 100 - ?p"
      by (intro wrap64_id) (simp add: in64_def min64_def max64_def)
    then have "gget (approvedSplit rule c ?b d amount) ''funding'' = fundingOf [(c, ?b, ?p), (d, amount - ?b, 100 - ?p)]"
      using both w by (simp add: approvedSplit_def fundingOf_def Let_def go_quot_nonneg)
    then show ?thesis using both p cover ccy
      by (intro exI [of _ "[(c, ?b, ?p), (d, amount - ?b, 100 - ?p)]"]) (simp add: funds_def)
  next
    case second
    have w: "wrap64 amount = amount" using pos by (intro wrap64_id in64) auto
    have "gget (approvedSplit rule c ?b d amount) ''funding'' = fundingOf [(d, amount, 100)]"
      using second pos w by (auto simp: approvedSplit_def fundingOf_def Let_def)
    then show ?thesis using second pos cover by (intro exI [of _ "[(d, amount, 100)]"]) (simp add: funds_def)
  qed
qed

lemma waterfallLoop_funds:
  assumes "waterfallLoop allow amount usd usdc conds = Inr out"
    and pos: "0 < amount" "amount * 100 \<le> max64" and sum: "in64 (usd + usdc)"
    and "gget out ''decision'' = GStr ''approved''"
  shows "\<exists>legs. gget out ''funding'' = fundingOf legs \<and> funds amount usd usdc legs"
  using assms(1,5)
proof (induction conds)
  case (Cons c cs)
  have w: "wrap64 (usd + usdc) = usd + usdc" using sum by simp
  have single: "\<exists>legs. gget (approvedSingle r c amount) ''funding'' = fundingOf legs \<and> funds amount usd usdc legs"
    if "amount \<le> balanceIn usd usdc c" for r c
    using single_funds [OF pos(1) that] .
  have sf: "\<exists>legs. gget (approvedSplit r ''USD'' usd ''USDC'' amount) ''funding'' = fundingOf legs \<and> funds amount usd usdc legs"
    and sc: "\<exists>legs. gget (approvedSplit r ''USDC'' usdc ''USD'' amount) ''funding'' = fundingOf legs \<and> funds amount usd usdc legs"
    if "amount \<le> usd + usdc" for r
    using split_funds [OF pos, of "''USD''" "''USDC''" usd usdc r]
      split_funds [OF pos, of "''USDC''" "''USD''" usd usdc r] that
    by (simp_all add: balanceIn_def)
  from Cons.prems Cons.IH show ?case
    by (auto simp: Let_def w balanceIn_def split: option.splits if_splits intro: single sf sc)
qed simp

lemma EvaluateWaterfall_eq:
  assumes "numField (gget input ''amount_cents'') = Inr amount" and "0 < amount"
    and "numField (gget input ''usd_balance_cents'') = Inr usd"
    and "numField (gget input ''usdc_balance_usd_equivalent_cents'') = Inr usdc"
  shows "EvaluateWaterfall content input =
    bindR (ofOption (EAccount MissingConditions) (asList (gget content ''conditions_evaluated_in_order'')))
      (waterfallLoop (boolOr (gget content ''allow_split'')) amount usd usdc)"
  using assms by (simp add: EvaluateWaterfall_def Let_def)

text \<open>C17: An approval of the waterfall is covered: whatever the order of the conditions, the legs it
  returns are in different currencies, positive, within the balance of their currency, and add up
  to the price with shares that add up to one hundred. (Prices up to $2^{63}/100$ cents, balances
  whose sum does not wrap around.)\<close>

theorem waterfall_approval_is_covered:
  assumes "EvaluateWaterfall content input = Inr out" and "gget out ''decision'' = GStr ''approved''"
    and "numField (gget input ''amount_cents'') = Inr amount" and "amount * 100 \<le> max64"
    and "numField (gget input ''usd_balance_cents'') = Inr usd"
    and "numField (gget input ''usdc_balance_usd_equivalent_cents'') = Inr usdc" and "in64 (usd + usdc)"
  shows "\<exists>legs. gget out ''funding'' = fundingOf legs \<and> funds amount usd usdc legs"
proof -
  have pos: "0 < amount" using assms(1,3) by (auto simp: EvaluateWaterfall_def split: if_splits)
  then obtain conds where
    "waterfallLoop (boolOr (gget content ''allow_split'')) amount usd usdc conds = Inr out"
    using assms EvaluateWaterfall_eq [OF assms(3) pos assms(5,6)] by (auto simp: bindR_eq_Inr)
  then show ?thesis using assms pos waterfallLoop_funds by blast
qed

definition sampleWaterfall :: gmap where
  "sampleWaterfall =
     [(''allow_split'', GBool True),
      (''conditions_evaluated_in_order'',
        GList (map (\<lambda>r. GMap [(''rule'', GStr r)]) [ruleFiatFirst, ruleCoinFirst, ruleSplitFiat, ruleDeclineAll]))]"

definition sampleBasket :: "int \<Rightarrow> int \<Rightarrow> int \<Rightarrow> gmap" where
  "sampleBasket amount usd usdc =
     [(''amount_cents'', GInt64 amount), (''usd_balance_cents'', GInt64 usd),
      (''usdc_balance_usd_equivalent_cents'', GInt64 usdc)]"

lemma sampleBasket_fields [simp]:
  "numField (gget (sampleBasket a u c) ''amount_cents'') = Inr a"
  "numField (gget (sampleBasket a u c) ''usd_balance_cents'') = Inr u"
  "numField (gget (sampleBasket a u c) ''usdc_balance_usd_equivalent_cents'') = Inr c"
  by (simp_all add: sampleBasket_def numField_def)

theorem waterfall_approval_is_covered_witness:
  "EvaluateWaterfall sampleWaterfall (sampleBasket 5000 2000 4000) =
     Inr (approvedSplit ruleSplitFiat ''USD'' 2000 ''USDC'' 5000) \<and>
   (\<exists>legs. gget (approvedSplit ruleSplitFiat ''USD'' 2000 ''USDC'' 5000) ''funding'' = fundingOf legs \<and>
      funds 5000 2000 4000 legs)"
proof -
  have run: "EvaluateWaterfall sampleWaterfall (sampleBasket 5000 2000 4000) =
     Inr (approvedSplit ruleSplitFiat ''USD'' 2000 ''USDC'' 5000)"
    by code_simp
  have "gget (approvedSplit ruleSplitFiat ''USD'' 2000 ''USDC'' 5000) ''decision'' = GStr ''approved''"
    by code_simp
  from waterfall_approval_is_covered [OF run this sampleBasket_fields(1) _ sampleBasket_fields(2,3)] run
  show ?thesis by (simp add: max64_def in64_def min64_def)
qed

end
