(* ===== verification/Ledger_Steps.thy ===== *)
theory Ledger_Steps
  imports Ledger_Fx
begin

text \<open>
  The ledger as a state machine: \<open>ledger_step\<close> has a rule for every operation of the ledger that
  writes, for the clock, for the events of the other services and for a restart; the properties of
  the ledger and of foreign exchange are stated on its reachable states and on the operations.
\<close>

section \<open>Steps\<close>

inductive ledger_step :: "'z ledger_scheme \<Rightarrow> 'z ledger_scheme \<Rightarrow> bool" where
  open_account: "ledger_step s (snd (OpenAccount a s))"
| ensure: "ledger_step s (snd (EnsureSystemAccounts s))"
| seed: "in64 n \<Longrightarrow> ledger_step s (snd (SeedCapital n s))"
| post: "tx_typed tx \<Longrightarrow> ledger_step s (snd (Post tx s))"
| settle: "ledger_step s (snd (Settle i s))"
| finalize: "ledger_step s (snd (Finalize i s))"
| post_finalize: "tx_typed tx \<Longrightarrow> ledger_step s (snd (PostAndFinalize tx s))"
| convert: "in64 (am_Minor (fr_From req)) \<Longrightarrow> ledger_step s (snd (Convert req s))"
| tick: "ledger_step s (snd (SetTo t s))"
| foreign: "\<forall>e \<in> set es. ev_Type e \<notin> set ledgerEventTypes \<Longrightarrow> ledger_step s (snd (Append es s))"
| restart: "ledger_step s (snd (refresh_ledger (s\<lparr>lg_proj := newProjection\<rparr>)))"

definition ledger_init :: "'z ledger_scheme \<Rightarrow> bool" where
  "ledger_init s \<longleftrightarrow> st_events s = [] \<and> st_seq s = 0 \<and> lg_proj s = newProjection"

inductive reachable :: "'z ledger_scheme \<Rightarrow> bool" where
  init: "ledger_init s \<Longrightarrow> reachable s"
| step: "reachable s \<Longrightarrow> ledger_step s s' \<Longrightarrow> reachable s'"

inductive_cases ledger_stepE: "ledger_step s s'"

lemma ledger_inv_init: "ledger_init s \<Longrightarrow> ledger_inv s"
proof -
  assume i: "ledger_init s"
  have "proj_inv newProjection"
    by (simp add: proj_inv_def accounts_wf_def txs_wf_def totals_wf_def trial_balance_def newProjection_def
        debitOf_def creditOf_def sumCur_def)
  with i show ?thesis
    by (simp add: ledger_init_def ledger_inv_def ledger_synced_def log_wf_def journal_ok_def)
qed

lemma ledger_inv_restart:
  assumes "ledger_inv s"
  shows "refresh_ledger (s\<lparr>lg_proj := newProjection\<rparr>) = (Inr (), s)"
proof -
  have "ledger_synced s" using assms by (rule ledger_inv_synced)
  then show ?thesis
    using refresh_catches_up [of "s\<lparr>lg_proj := newProjection\<rparr>" "[]" "st_events s"]
    by (simp add: ledger_synced_def log_wf_def)
qed

lemma ledger_inv_step: "ledger_step s s' \<Longrightarrow> ledger_inv s \<Longrightarrow> ledger_inv s'"
proof (induction rule: ledger_step.induct)
  case (foreign es s)
  then show ?case using preservesD [OF preserves_foreign] by blast
next
  case (restart s)
  then show ?case by (simp add: ledger_inv_restart)
qed (auto intro: preservesD [OF preserves_OpenAccount] preservesD [OF preserves_EnsureSystemAccounts]
    preservesD [OF preserves_SeedCapital] preservesD [OF preserves_Post] preservesD [OF preserves_Settle]
    preservesD [OF preserves_Finalize] preservesD [OF preserves_PostAndFinalize]
    preservesD [OF preserves_Convert] preservesD [OF preserves_clock(1)])

lemma reachable_inv: "reachable s \<Longrightarrow> ledger_inv s"
  by (induction rule: reachable.induct) (auto intro: ledger_inv_init ledger_inv_step)

section \<open>A sample ledger\<close>

text \<open>An empty store, a clock in 2023 and the \<open>fx_policy\<close> rule in the cache.\<close>

definition samplePolicy :: gmap where
  "samplePolicy =
     [(''rule_id'', GStr ''fx_policy''), (''rule_type'', GStr ''fx_policy''), (''rounding'', GStr ''half_up''),
      (''pairs'', GList [GMap [(''base'', GStr ''USDC''), (''quote'', GStr ''USD''),
         (''mock_rate'', GStr ''0.99850000''), (''source'', GStr ''mock'')]])]"

definition sampleBank0 :: ledger where
  "sampleBank0 =
     \<lparr>now = 1700000000 * 1000000000, listeners = [], notified = [], rand = (\<lambda>n. ''id'' @ natStr n),
      drawn = 0, wall = 7, st_events = [], st_versions = [], st_apps = [], st_seq = 0,
      en_schemaErr = None, en_schemas = [], en_canon = (\<lambda>_. Inl ''''), en_hash = (\<lambda>_. ''h''), en_commit = '''',
      en_registryFile = Inr [], en_readFile = (\<lambda>_. Inl ''''), en_registry = [], en_registryByID = [],
      en_cache = [(''fx_policy'', ruleFromContent '''' samplePolicy)], en_evaluators = [],
      lg_rates = Some (RuleRateProvider ''fx_policy'' False), lg_proj = newProjection\<rparr>"

definition sampleAccount :: "string \<Rightarrow> string \<Rightarrow> Account" where
  "sampleAccount i cur =
     \<lparr>ac_ID = i, ac_OwnerID = ''cust'', ac_Type = CustomerDeposit, ac_Currency = cur, ac_Name = i, ac_OpenedAt = 0\<rparr>"

definition sampleBank :: ledger where
  "sampleBank =
     snd (OpenAccount (sampleAccount ''treasury-fx-usd'' ''USD'')
       (snd (OpenAccount (sampleAccount ''treasury-fx-usdc'' ''USDC'')
         (snd (OpenAccount (sampleAccount ''c'' ''USDC'')
           (snd (OpenAccount (sampleAccount ''d'' ''USD'') sampleBank0)))))))"

lemma sampleBank_reachable: "reachable sampleBank"
proof -
  have "reachable sampleBank0"
    by (rule reachable.init) (simp add: ledger_init_def sampleBank0_def)
  then show ?thesis
    unfolding sampleBank_def by (intro reachable.step [OF _ open_account])
qed

definition sampleAccounts :: "(string \<times> Account) list" where
  "sampleAccounts =
     map (\<lambda>(i, cur). (i, (sampleAccount i cur)\<lparr>ac_OpenedAt := 1700000000 * 1000000000\<rparr>))
       [(''d'', ''USD''), (''c'', ''USDC''), (''treasury-fx-usdc'', ''USDC''), (''treasury-fx-usd'', ''USD'')]"

lemma sampleBank_accounts: "pj_accounts (lg_proj sampleBank) = sampleAccounts"
  by code_simp

lemma OpenAccount_frame:
  assumes "ledger_inv s" and "s' = snd (OpenAccount a s)"
  shows "now s' = now s \<and> rand s' = rand s \<and> lg_rates s' = lg_rates s \<and> en_cache s' = en_cache s \<and>
    en_evaluators s' = en_evaluators s \<and> journal (st_events s') = journal (st_events s) \<and> ledger_inv s'"
proof -
  note app = OpenAccount_app [OF ledger_inv_synced [OF assms(1)], of a]
  have inv': "ledger_inv s'" using preservesD [OF preserves_OpenAccount assms(1)] by (simp add: assms(2))
  show ?thesis
  proof (cases "ac_ID a = '''' \<or> Currencies (ac_Currency a) = None \<or>
      map_of (pj_accounts (lg_proj s)) (ac_ID a) \<noteq> None \<or> \<not> timeOK (now s)")
    case True
    then show ?thesis using app(2) inv' assms by auto
  next
    case False
    then show ?thesis using app(1) inv' assms(2) by (auto simp: withProj_def)
  qed
qed

lemma sampleBank_fields:
  "now sampleBank = 1700000000 * 1000000000" "lg_rates sampleBank = lg_rates sampleBank0"
  "en_cache sampleBank = en_cache sampleBank0" "rand sampleBank = rand sampleBank0"
  "journal (st_events sampleBank) = []" "ledger_inv sampleBank"
proof -
  have "ledger_inv sampleBank0"
    by (rule ledger_inv_init) (simp add: ledger_init_def sampleBank0_def)
  note f = OpenAccount_frame [OF _ refl]
  have "now sampleBank = now sampleBank0 \<and> rand sampleBank = rand sampleBank0 \<and>
      lg_rates sampleBank = lg_rates sampleBank0 \<and> en_cache sampleBank = en_cache sampleBank0 \<and>
      journal (st_events sampleBank) = journal (st_events sampleBank0) \<and> ledger_inv sampleBank"
    unfolding sampleBank_def using \<open>ledger_inv sampleBank0\<close> by (simp add: f)
  then show "now sampleBank = 1700000000 * 1000000000" "lg_rates sampleBank = lg_rates sampleBank0"
    "en_cache sampleBank = en_cache sampleBank0" "rand sampleBank = rand sampleBank0"
    "journal (st_events sampleBank) = []" "ledger_inv sampleBank"
    by (simp_all add: sampleBank0_def)
qed

lemma sampleBank_drawn: "drawn sampleBank = 4"
  by code_simp

definition sampleTx :: Transaction where
  "sampleTx = newTx ''transfer'' '''' ''USD''
     [mkEntry ''treasury-fx-usd'' Debit (mkAmount ''USD'' 500), mkEntry ''d'' Credit (mkAmount ''USD'' 500)] []"

lemma sampleTx_valid: "validate (lg_proj sampleBank) sampleTx = Inr ()" "tx_typed sampleTx"
proof -
  show "validate (lg_proj sampleBank) sampleTx = Inr ()"
    unfolding validate_iff entry_ok_def sampleBank_accounts
    by (simp add: sampleTx_def newTx_def mkEntry_def sampleAccounts_def sampleAccount_def wrap64_def)
  show "tx_typed sampleTx"
    by (simp add: tx_typed_def sampleTx_def newTx_def mkEntry_def in64_def min64_def max64_def)
qed

definition sampleConvert :: "int \<Rightarrow> FXRequest" where
  "sampleConvert n =
     \<lparr>fr_FromAccountID = ''c'', fr_ToAccountID = ''d'', fr_From = mkAmount ''USDC'' n, fr_Kind = '''',
      fr_Description = '''', fr_Metadata = []\<rparr>"

definition sampleQuote :: "int \<Rightarrow> int \<Rightarrow> FXQuote" where
  "sampleQuote n m =
     \<lparr>fq_From = mkAmount ''USDC'' n, fq_To = mkAmount ''USD'' m,
      fq_Rate = \<lparr>rt_From = ''USDC'', rt_To = ''USD'', rt_Scaled = 99850000, rt_Source = ''mock'', rt_AsOf = zeroTime\<rparr>,
      fq_RoundingMode = ''half_up''\<rparr>"

lemma Quote_cong:
  "lg_rates t = lg_rates s \<Longrightarrow> en_cache t = en_cache s \<Longrightarrow> now t = now s \<Longrightarrow> Quote t a b n = Quote s a b n"
  by (simp add: Quote_def providerRate_def providerMode_def fxContent_def GetContent_def GetRule_def
      split: option.split RateProvider.split)

lemma sampleRate_scaled: "decimalStringToScaled ''0.99850000'' 8 = Inr 99850000"
proof -
  have "TrimSpace ''0.99850000'' = ''0.99850000''" by code_simp
  moreover have "SetString ''0.99850000'' = Some (99850000 / 10 ^ 8)"
    by (simp add: SetString_def unsignedRat_def unsignedMantissa_def isExpChar_def isDigitChar_def
        decVal_def digitVal_def Let_def)
  ultimately show ?thesis
    by (simp add: decimalStringToScaled_def Let_def in64_def min64_def max64_def)
qed

lemma samplePolicy_pair: "findFXPair samplePolicy ''USDC'' ''USD'' = Inr (99850000, ''mock'', False)"
  "findFXPair samplePolicy ''USD'' ''USDC'' = Inr (99850000, ''mock'', True)"
  by (simp_all add: findFXPair_def samplePolicy_def sampleRate_scaled)

lemma samplePolicy_mode: "roundingModeFromContent samplePolicy = Inr ''half_up''"
  by (simp add: roundingModeFromContent_def samplePolicy_def)

lemma sampleContent: "fxContent sampleBank ''fx_policy'' = Inr samplePolicy"
  by (simp add: fxContent_def GetContent_def GetRule_def ofOption_def sampleBank_fields)
    (simp add: sampleBank0_def ruleFromContent_def)

lemma sampleQuote_conv:
  assumes "convertMinor n 6 2 99850000 ''half_up'' = Inr m"
  shows "Quote sampleBank ''USDC'' ''USD'' n = Inr (sampleQuote n m)"
proof -
  have "lg_rates sampleBank = Some (RuleRateProvider ''fx_policy'' False)"
    by (simp add: sampleBank_fields) (simp add: sampleBank0_def)
  then show ?thesis
    using assms
    by (simp add: Quote_def providerRate_def providerMode_def sampleContent samplePolicy_mode rateFromPolicy_def
        samplePolicy_pair ofOption_def Let_def sampleQuote_def)
qed

lemma sampleQuotes:
  "Quote sampleBank ''USDC'' ''USD'' 1000000 = Inr (sampleQuote 1000000 100)"
  "Quote sampleBank ''USDC'' ''USD'' 1 = Inr (sampleQuote 1 0)"
  by (rule sampleQuote_conv, code_simp)+

section \<open>Lemmas: transactions and accounts after an operation\<close>

lemma transition_txs:
  assumes inv: "ledger_inv s" and t: "map_of (pj_txs (lg_proj s)) i = Some t"
    and ty: "ty = eventTxSettled \<or> ty = eventTxFinalized" and to: "to \<in> {StatusPending, StatusSettled, StatusFinal}"
  shows "map_of (pj_txs (lg_proj (snd (transition j from to ty s)))) i =
      Some (t\<lparr>tx_Status := if j = i \<and> tx_Status t = from \<and> timeOK (now s) then to else tx_Status t\<rparr>)"
proof -
  note app = transition_app [OF ledger_inv_synced [OF inv] ty, of j]
  show ?thesis
  proof (cases "map_of (pj_txs (lg_proj s)) j")
    case None
    then show ?thesis using app(1) t by auto
  next
    case (Some u)
    then have u: "tx_typed u" "tx_ID u = j"
      using inv by (auto simp: ledger_inv_def proj_inv_def txs_wf_def tx_ok_def)
    consider "tx_Status u \<noteq> from" | "tx_Status u = from" "\<not> timeOK (now s)" | "tx_Status u = from" "timeOK (now s)"
      by blast
    then show ?thesis
    proof cases
      case 1
      then show ?thesis using app(2) [OF Some 1] t Some by auto
    next
      case 2
      then show ?thesis using app(3) [OF Some 2] t by auto
    next
      case 3
      from app(4) [OF Some 3 u, of to] obtain s' where tr: "transition j from to ty s =
          (Inr (u\<lparr>tx_Status := to, tx_OccurredAt := now s\<rparr>), s')"
        and w: "withProj (statusProj j to (lg_proj s)) [] s s'" by blast
      have "map_of (pj_txs (lg_proj s')) i = map_of (pj_txs (statusProj j to (lg_proj s))) i"
        by (rule withProjD(1) [OF w])
      then show ?thesis
        unfolding tr snd_conv using t Some 3 by (cases "j = i") (simp_all add: statusProj_txs)
    qed
  qed
qed

lemma Post_txs:
  assumes inv: "ledger_inv s" and t: "map_of (pj_txs (lg_proj s)) i = Some t"
    and "tx_typed tx" and "postID tx s \<noteq> i"
  shows "map_of (pj_txs (lg_proj (snd (Post tx s)))) i = Some t"
proof -
  note app = Post_app [OF ledger_inv_synced [OF inv] assms(3)]
  have i: "tx_ID (pending tx s) \<noteq> i" using assms(4) by (simp add: pending_def)
  show ?thesis
  proof (cases "validate (lg_proj s) tx")
    case (Inl e)
    then show ?thesis using app(1) t by simp
  next
    case (Inr u)
    then have ok: "validate (lg_proj s) tx = Inr ()" by simp
    show ?thesis
    proof (cases "timeOK (now s)")
      case True
      from app(3) [OF ok this] obtain s' where "Post tx s = (Inr (pending tx s), s')"
        and w: "withProj (postedProj (pending tx s) (lg_proj s)) (tx_Entries tx) s s'" by blast
      then show ?thesis using withProjD(1) [OF w, of i] t i by simp
    next
      case False
      then show ?thesis using app(2) [OF ok] t by auto
    qed
  qed
qed

lemma OpenAccount_txs:
  assumes inv: "ledger_inv s"
  shows "pj_txs (lg_proj (snd (OpenAccount a s))) = pj_txs (lg_proj s)"
    and "map_of (pj_accounts (lg_proj s)) i = Some b \<Longrightarrow> map_of (pj_accounts (lg_proj (snd (OpenAccount a s)))) i = Some b"
proof -
  note app = OpenAccount_app [OF ledger_inv_synced [OF inv], of a]
  have "pj_txs (lg_proj (snd (OpenAccount a s))) = pj_txs (lg_proj s) \<and>
    (map_of (pj_accounts (lg_proj s)) i = Some b \<longrightarrow> map_of (pj_accounts (lg_proj (snd (OpenAccount a s)))) i = Some b)"
  proof (cases "ac_ID a = '''' \<or> Currencies (ac_Currency a) = None \<or>
      map_of (pj_accounts (lg_proj s)) (ac_ID a) \<noteq> None \<or> \<not> timeOK (now s)")
    case True
    then show ?thesis using app(2) by auto
  next
    case False
    then obtain s' where "OpenAccount a s = (Inr (a\<lparr>ac_OpenedAt := now s\<rparr>), s')"
      and "withProj (openedProj (a\<lparr>ac_OpenedAt := now s\<rparr>) (lg_proj s)) [] s s'"
      using app(1) by auto
    then show ?thesis using False by (auto simp: withProj_def openedProj_def)
  qed
  then show "pj_txs (lg_proj (snd (OpenAccount a s))) = pj_txs (lg_proj s)"
    "map_of (pj_accounts (lg_proj s)) i = Some b \<Longrightarrow> map_of (pj_accounts (lg_proj (snd (OpenAccount a s)))) i = Some b"
    by simp_all
qed

section \<open>Properties: the books\<close>

text \<open>C1: In every reachable state the books balance: for each currency, the debit totals and the
  credit totals of the accounts of that currency add up to the same 64-bit value, whatever
  sequence of operations, restarts, clock changes and foreign events led there.\<close>

theorem books_balance:
  assumes "reachable s"
  shows "wrap64 (sumCur c (pj_accounts (lg_proj s)) (debitOf (lg_proj s))) =
    wrap64 (sumCur c (pj_accounts (lg_proj s)) (creditOf (lg_proj s)))"
  using reachable_inv [OF assms] by (simp add: ledger_inv_def proj_inv_def trial_balance_def)

theorem books_balance_witness:
  "wrap64 (sumCur ''USD'' (pj_accounts (lg_proj (snd (Post sampleTx sampleBank)))) (debitOf (lg_proj (snd (Post sampleTx sampleBank))))) =
   wrap64 (sumCur ''USD'' (pj_accounts (lg_proj (snd (Post sampleTx sampleBank)))) (creditOf (lg_proj (snd (Post sampleTx sampleBank)))))"
  by (rule books_balance, rule reachable.step [OF sampleBank_reachable post [OF sampleTx_valid(2)]])

text \<open>C2: As long as the amounts ever posted add up to less than $2^{63}$ minor units, nothing has
  wrapped: every account's totals are the exact sums of its journal entries, and debits equal
  credits exactly in every currency.\<close>

theorem books_balance_exactly:
  assumes "reachable s" and "journalVolume (st_events s) \<le> max64"
  shows "debitOf (lg_proj s) a = sumFor Debit a (journal (st_events s))
    \<and> creditOf (lg_proj s) a = sumFor Credit a (journal (st_events s))
    \<and> sumCur c (pj_accounts (lg_proj s)) (debitOf (lg_proj s)) = sumCur c (pj_accounts (lg_proj s)) (creditOf (lg_proj s))"
proof -
  let ?J = "journal (st_events s)" and ?p = "lg_proj s"
  have inv: "ledger_inv s" by (rule reachable_inv [OF assms(1)])
  have pos: "\<forall>e \<in> set ?J. 0 < am_Minor (et_Amount e)"
    using inv by (auto simp: ledger_inv_def journal_ok_def entry_ok_def)
  have small: "in64 x" if "0 \<le> x" "x \<le> sumDir d ?J" for x d
    using that sumFor_bounds(3) [OF pos, of d] assms(2)
    by (auto simp: in64_def min64_def max64_def journalVolume_def)
  have exact: "wrap64 (sumFor d a ?J) = sumFor d a ?J" for d a
    by (rule wrap64_id, rule small [OF sumFor_bounds(1,2) [OF pos]])
  have tot: "debitOf ?p = (\<lambda>a. sumFor Debit a ?J)" "creditOf ?p = (\<lambda>a. sumFor Credit a ?J)"
    using synced_totals [OF ledger_inv_synced [OF inv]] by (auto simp: fun_eq_iff exact)
  have dis: "distinct (map fst (pj_accounts ?p))"
    using inv by (simp add: ledger_inv_def proj_inv_def accounts_wf_def)
  have "in64 (sumCur c (pj_accounts ?p) (\<lambda>a. sumFor d a ?J))" for d
    using small sumCur_le [OF dis pos] by blast
  moreover have "wrap64 (sumCur c (pj_accounts ?p) (debitOf ?p)) = wrap64 (sumCur c (pj_accounts ?p) (creditOf ?p))"
    using inv by (simp add: ledger_inv_def proj_inv_def trial_balance_def)
  ultimately show ?thesis by (simp add: tot)
qed

theorem books_balance_exactly_witness:
  "debitOf (lg_proj sampleBank) ''d'' = sumFor Debit ''d'' (journal (st_events sampleBank))"
  using books_balance_exactly [OF sampleBank_reachable]
  by (simp add: journalVolume_def sampleBank_fields max64_def)

text \<open>C3: The balance reported for an account is the one the journal of posted transactions gives it
  on the account type's normal side; reading it changes nothing.\<close>

theorem balance_refines_journal:
  assumes "reachable s" and "map_of (pj_accounts (lg_proj s)) a = Some acc"
  shows "Balance a s = (Inr (mkAmount (ac_Currency acc) (wrap64 (specBalance (st_events s) acc))), s)"
proof -
  have "ledger_synced s" using reachable_inv [OF assms(1)] by (rule ledger_inv_synced)
  then show ?thesis
    using assms(2) naturalBalance_spec [of s acc]
    by (simp add: Balance_def op_simps ofOption_def)
qed

theorem balance_refines_journal_witness:
  "Balance ''d'' sampleBank = (Inr (mkAmount ''USD'' 0), sampleBank)"
proof -
  obtain acc where acc: "map_of (pj_accounts (lg_proj sampleBank)) ''d'' = Some acc" and "ac_Currency acc = ''USD''"
    by (simp add: sampleBank_accounts sampleAccounts_def sampleAccount_def)
  then show ?thesis
    using balance_refines_journal [OF sampleBank_reachable acc]
    by (simp add: specBalance_def sampleBank_fields Let_def)
qed

text \<open>The read model is never anything but the replay of the event log: a service restarted with
  the projection of any prefix of the log (the empty one included) is brought back by its first
  refresh to exactly the state of the service that kept running.\<close>

theorem restart_catches_up:
  assumes "reachable s"
  shows "refresh_ledger (s\<lparr>lg_proj := replay apply_ledger ledgerEventTypes (take k (st_events s)) newProjection\<rparr>) = (Inr (), s)"
proof -
  have sy: "ledger_synced s" using reachable_inv [OF assms] by (rule ledger_inv_synced)
  let ?s = "s\<lparr>lg_proj := replay apply_ledger ledgerEventTypes (take k (st_events s)) newProjection\<rparr>"
  have "refresh_ledger ?s = (Inr (), ?s\<lparr>lg_proj := replay apply_ledger ledgerEventTypes (st_events ?s) newProjection\<rparr>)"
    by (rule refresh_catches_up [of _ "take k (st_events s)" "drop k (st_events s)"])
      (use sy in \<open>simp_all add: ledger_synced_def log_wf_def\<close>)
  then show ?thesis using sy by (simp add: ledger_synced_def)
qed

theorem restart_catches_up_witness:
  "refresh_ledger (sampleBank\<lparr>lg_proj := newProjection\<rparr>) = (Inr (), sampleBank)"
  using restart_catches_up [OF sampleBank_reachable, of 0] by simp

text \<open>\<open>validate\<close> accepts exactly the transactions with at least two entries in a known currency,
  every entry positive, on an existing account, in the currency of account and transaction and
  with a valid direction, whose debits and credits agree and are positive as 64-bit sums.\<close>

theorem validate_accepts:
  "validate p tx = Inr () \<longleftrightarrow>
     \<not> (length (tx_Entries tx) < 2) \<and> Currencies (tx_Currency tx) \<noteq> None \<and>
     list_all (entry_ok p (tx_Currency tx)) (tx_Entries tx) \<and>
     wrap64 (sumDir Debit (tx_Entries tx)) = wrap64 (sumDir Credit (tx_Entries tx)) \<and>
     0 < wrap64 (sumDir Debit (tx_Entries tx))"
  by (auto simp: validate_iff list_all_iff)

text \<open>C4: \<open>PostAndFinalize\<close> is all or nothing. When it returns an error the ledger's events and
  projection are untouched; when it succeeds the transaction is stored with status final, the
  journal has grown by exactly its entries and the accounts are the same.\<close>

theorem post_and_finalize_atomic:
  assumes "reachable s" and "tx_typed tx"
  shows "case PostAndFinalize tx s of
      (Inl e, s') \<Rightarrow> st_events s' = st_events s \<and> lg_proj s' = lg_proj s
    | (Inr t, s') \<Rightarrow> validate (lg_proj s) tx = Inr () \<and> tx_Status t = StatusFinal \<and> tx_Entries t = tx_Entries tx
        \<and> map_of (pj_txs (lg_proj s')) (tx_ID t) = Some t
        \<and> journal (st_events s') = journal (st_events s) @ tx_Entries tx
        \<and> pj_accounts (lg_proj s') = pj_accounts (lg_proj s)"
proof -
  note app = PostAndFinalize_app [OF reachable_inv [OF assms(1)] assms(2)]
  show ?thesis
  proof (cases "validate (lg_proj s) tx")
    case (Inl e)
    then show ?thesis using app(1) by simp
  next
    case (Inr u)
    then have ok: "validate (lg_proj s) tx = Inr ()" by simp
    show ?thesis
    proof (cases "timeOK (now s)")
      case False
      then show ?thesis using app(2) [OF ok] by auto
    next
      case True
      from app(3) [OF ok this] obtain s' where
        p: "PostAndFinalize tx s = (Inr ((pending tx s)\<lparr>tx_Status := StatusFinal\<rparr>), s')"
        and w: "withProj (finalProj (pending tx s) (lg_proj s)) (tx_Entries tx) s s'" by blast
      show ?thesis
        using ok withProjD [OF w] by (simp add: p finalProj_def statusProj_txs)
    qed
  qed
qed

theorem post_and_finalize_atomic_witness:
  "case PostAndFinalize sampleTx sampleBank of
     (Inl e, s') \<Rightarrow> st_events s' = st_events sampleBank
   | (Inr t, s') \<Rightarrow> tx_Status t = StatusFinal \<and> journal (st_events s') = tx_Entries sampleTx"
  using post_and_finalize_atomic [OF sampleBank_reachable sampleTx_valid(2)]
  by (auto simp: sampleBank_fields split: prod.splits sum.splits)

text \<open>C5: Settling and finalising move a transaction from pending to settled to final, one step at a
  time and never back, and touch neither its entries nor any other transaction; opening an account
  and posting under another identifier leave it alone.\<close>

theorem transaction_lifecycle:
  assumes "reachable s" and "map_of (pj_txs (lg_proj s)) i = Some t" and "tx_typed tx" and "postID tx s \<noteq> i"
  shows "map_of (pj_txs (lg_proj (snd (Settle j s)))) i =
      Some (t\<lparr>tx_Status := if j = i \<and> tx_Status t = StatusPending \<and> timeOK (now s) then StatusSettled else tx_Status t\<rparr>)
    \<and> map_of (pj_txs (lg_proj (snd (Finalize j s)))) i =
      Some (t\<lparr>tx_Status := if j = i \<and> tx_Status t = StatusSettled \<and> timeOK (now s) then StatusFinal else tx_Status t\<rparr>)
    \<and> map_of (pj_txs (lg_proj (snd (OpenAccount a s)))) i = Some t
    \<and> map_of (pj_txs (lg_proj (snd (Post tx s)))) i = Some t"
  using transition_txs [OF reachable_inv [OF assms(1)] assms(2)] OpenAccount_txs(1) [OF reachable_inv [OF assms(1)]]
    Post_txs [OF reachable_inv [OF assms(1)] assms(2-4)] assms(2)
  by (simp add: Settle_def Finalize_def)

theorem transaction_lifecycle_witness:
  "\<exists>t. map_of (pj_txs (lg_proj (snd (Settle ''x'' (snd (Post (sampleTx\<lparr>tx_ID := ''x''\<rparr>) sampleBank)))))) ''x'' =
     Some (t\<lparr>tx_Status := StatusSettled\<rparr>)"
proof -
  let ?tx = "sampleTx\<lparr>tx_ID := ''x''\<rparr>"
  have typed: "tx_typed ?tx" using sampleTx_valid(2) by simp
  have ok: "timeOK (now sampleBank)" by (simp add: sampleBank_fields timeOK_def)
  obtain s1 where p: "Post ?tx sampleBank = (Inr (pending ?tx sampleBank), s1)"
    and w: "withProj (postedProj (pending ?tx sampleBank) (lg_proj sampleBank)) (tx_Entries ?tx) sampleBank s1"
    using Post_app(3) [OF ledger_inv_synced [OF sampleBank_fields(6)] typed] sampleTx_valid(1) ok by auto
  have "ledger_step sampleBank (snd (Post ?tx sampleBank))" using typed by (rule post)
  then have r: "reachable s1" using sampleBank_reachable p by (auto intro: reachable.step)
  have t: "map_of (pj_txs (lg_proj s1)) ''x'' = Some (pending ?tx sampleBank)"
    using withProjD(1) [OF w] by simp
  have "postID (sampleTx\<lparr>tx_ID := ''y''\<rparr>) s1 \<noteq> ''x''" "tx_typed (sampleTx\<lparr>tx_ID := ''y''\<rparr>)"
    using sampleTx_valid(2) by (simp_all add: postID_def)
  then show ?thesis
    using transaction_lifecycle [OF r t, of "sampleTx\<lparr>tx_ID := ''y''\<rparr>" "''x''"] ok withProjD(4) [OF w]
    by (auto simp: p)
qed

text \<open>Posting a second time under an identifier already in use is accepted: it puts a final
  transaction back to pending and counts its entries twice. (The type's comment says that entries
  never change and that only the status advances.)\<close>

theorem repost_resets_transaction:
  assumes "reachable s" and "map_of (pj_txs (lg_proj s)) i = Some t" and "i \<noteq> ''''" and "timeOK (now s)"
  shows "\<exists>s'. Post t s = (Inr (t\<lparr>tx_Status := StatusPending, tx_OccurredAt := now s\<rparr>), s')
    \<and> map_of (pj_txs (lg_proj s')) i = Some (t\<lparr>tx_Status := StatusPending, tx_OccurredAt := now s\<rparr>)
    \<and> journal (st_events s') = journal (st_events s) @ tx_Entries t"
proof -
  have inv: "ledger_inv s" by (rule reachable_inv [OF assms(1)])
  then have t: "tx_typed t" "tx_ID t = i" "validate (lg_proj s) t = Inr ()"
    using assms(2) by (auto simp: ledger_inv_def proj_inv_def txs_wf_def tx_ok_def)
  have pend: "pending t s = t\<lparr>tx_Status := StatusPending, tx_OccurredAt := now s\<rparr>"
    using t(2) assms(3) by (simp add: pending_def postID_def)
  obtain s' where "Post t s = (Inr (pending t s), s')"
    and w: "withProj (postedProj (pending t s) (lg_proj s)) (tx_Entries t) s s'"
    using Post_app(3) [OF ledger_inv_synced [OF inv] t(1) t(3) assms(4)] by blast
  then show ?thesis using withProjD(1,3) [OF w] t(2) by (simp add: pend)
qed

theorem repost_resets_transaction_witness:
  "\<exists>(s :: ledger) s' t. map_of (pj_txs (lg_proj s)) ''x'' = Some t \<and> tx_Status t = StatusFinal \<and> tx_Entries t = tx_Entries sampleTx
     \<and> Post t s = (Inr (t\<lparr>tx_Status := StatusPending, tx_OccurredAt := now s\<rparr>), s')
     \<and> journal (st_events s') = tx_Entries sampleTx @ tx_Entries sampleTx"
proof -
  let ?tx = "sampleTx\<lparr>tx_ID := ''x''\<rparr>"
  have typed: "tx_typed ?tx" using sampleTx_valid(2) by simp
  have ok: "timeOK (now sampleBank)" by (simp add: sampleBank_fields timeOK_def)
  obtain s where p: "PostAndFinalize ?tx sampleBank = (Inr ((pending ?tx sampleBank)\<lparr>tx_Status := StatusFinal\<rparr>), s)"
    and w: "withProj (finalProj (pending ?tx sampleBank) (lg_proj sampleBank)) (tx_Entries ?tx) sampleBank s"
    using PostAndFinalize_app(3) [OF sampleBank_fields(6) typed] sampleTx_valid(1) ok by auto
  have "ledger_step sampleBank (snd (PostAndFinalize ?tx sampleBank))" using typed by (rule post_finalize)
  then have r: "reachable s" using sampleBank_reachable p by (auto intro: reachable.step)
  have t: "map_of (pj_txs (lg_proj s)) ''x'' = Some ((pending ?tx sampleBank)\<lparr>tx_Status := StatusFinal\<rparr>)"
    using withProjD(1) [OF w] by (simp add: finalProj_def statusProj_txs)
  have "now s = now sampleBank" by (rule withProjD(4) [OF w])
  with ok repost_resets_transaction [OF r t] obtain s' where
    "Post ((pending ?tx sampleBank)\<lparr>tx_Status := StatusFinal\<rparr>) s =
      (Inr ((pending ?tx sampleBank)\<lparr>tx_Status := StatusFinal, tx_Status := StatusPending, tx_OccurredAt := now s\<rparr>), s')"
    "journal (st_events s') = journal (st_events s) @ tx_Entries sampleTx"
    by auto
  then show ?thesis
    using t withProjD(3) [OF w]
    by (intro exI [of _ s] exI [of _ s'] exI [of _ "(pending ?tx sampleBank)\<lparr>tx_Status := StatusFinal\<rparr>"])
      (simp add: sampleBank_fields)
qed

section \<open>Properties: system accounts and capital\<close>

lemma ensureAccount_run:
  assumes inv: "ledger_inv s" and ok: "timeOK (now s)" and i: "i \<noteq> ''''" and cur: "Currencies cur \<noteq> None"
  shows "\<exists>s'. ensureAccount (i, ty, cur, nm) s = (Inr (), s') \<and> ledger_inv s' \<and> now s' = now s
    \<and> journal (st_events s') = journal (st_events s) \<and> map_of (pj_accounts (lg_proj s')) i \<noteq> None
    \<and> (\<forall>k b. map_of (pj_accounts (lg_proj s)) k = Some b \<longrightarrow> map_of (pj_accounts (lg_proj s')) k = Some b)"
proof (cases "map_of (pj_accounts (lg_proj s)) i")
  case None
  let ?a = "\<lparr>ac_ID = i, ac_OwnerID = ''system'', ac_Type = ty, ac_Currency = cur, ac_Name = nm, ac_OpenedAt = zeroTime\<rparr>"
  obtain s' where op: "OpenAccount ?a s = (Inr (?a\<lparr>ac_OpenedAt := now s\<rparr>), s')"
    and w: "withProj (openedProj (?a\<lparr>ac_OpenedAt := now s\<rparr>) (lg_proj s)) [] s s'"
    using OpenAccount_app(1) [OF ledger_inv_synced [OF inv], of ?a] None ok i cur by auto
  have "ensureAccount (i, ty, cur, nm) s = (Inr (), s')"
    using None op by (simp add: ensureAccount_def op_simps)
  then show ?thesis
    using w preserves_result [OF preserves_OpenAccount inv op] None
    by (auto simp: withProj_def openedProj_def)
next
  case (Some a)
  then show ?thesis using inv by (simp add: ensureAccount_def op_simps)
qed

lemma ensure_all:
  assumes "ledger_inv s" and "timeOK (now s)" and "\<forall>(i, ty, cur, nm) \<in> set specs. i \<noteq> '''' \<and> Currencies cur \<noteq> None"
  shows "\<exists>s'. foreachE specs ensureAccount s = (Inr (), s') \<and> ledger_inv s' \<and> now s' = now s
    \<and> journal (st_events s') = journal (st_events s)
    \<and> (\<forall>spec \<in> set specs. map_of (pj_accounts (lg_proj s')) (fst spec) \<noteq> None)
    \<and> (\<forall>k b. map_of (pj_accounts (lg_proj s)) k = Some b \<longrightarrow> map_of (pj_accounts (lg_proj s')) k = Some b)"
  using assms
proof (induction specs arbitrary: s)
  case Nil
  then show ?case by (simp add: op_simps)
next
  case (Cons spec specs)
  obtain i ty cur nm where spec: "spec = (i, ty, cur, nm)" by (cases spec)
  obtain s1 where 1: "ensureAccount spec s = (Inr (), s1)" "ledger_inv s1" "now s1 = now s"
    "journal (st_events s1) = journal (st_events s)" "map_of (pj_accounts (lg_proj s1)) i \<noteq> None"
    "\<And>k b. map_of (pj_accounts (lg_proj s)) k = Some b \<Longrightarrow> map_of (pj_accounts (lg_proj s1)) k = Some b"
    using ensureAccount_run [OF Cons.prems(1,2), of i cur ty nm] Cons.prems(3) by (auto simp: spec)
  obtain s2 where 2: "foreachE specs ensureAccount s1 = (Inr (), s2)" "ledger_inv s2" "now s2 = now s1"
    "journal (st_events s2) = journal (st_events s1)"
    "\<forall>spec \<in> set specs. map_of (pj_accounts (lg_proj s2)) (fst spec) \<noteq> None"
    "\<forall>k b. map_of (pj_accounts (lg_proj s1)) k = Some b \<longrightarrow> map_of (pj_accounts (lg_proj s2)) k = Some b"
    using Cons.IH [OF 1(2)] 1(3) Cons.prems by auto
  obtain b where "map_of (pj_accounts (lg_proj s1)) i = Some b" using 1(5) by blast
  then have "map_of (pj_accounts (lg_proj s2)) (fst spec) \<noteq> None" using 2(6) by (auto simp: spec)
  with 1 2 show ?case by (auto simp: op_simps)
qed

lemma ensured_noop:
  "\<forall>spec \<in> set specs. map_of (pj_accounts (lg_proj s)) (fst spec) \<noteq> None \<Longrightarrow> foreachE specs ensureAccount s = (Inr (), s)"
  by (induction specs) (auto simp: op_simps ensureAccount_def)

text \<open>\<open>EnsureSystemAccounts\<close> succeeds, opens every missing system account without posting anything
  or losing an account, and running it again changes nothing at all.\<close>

theorem ensure_accounts_idempotent:
  assumes "reachable s" and "timeOK (now s)"
  shows "\<exists>s'. EnsureSystemAccounts s = (Inr (), s')
    \<and> list_all (\<lambda>spec. map_of (pj_accounts (lg_proj s')) (fst spec) \<noteq> None) systemAccounts
    \<and> journal (st_events s') = journal (st_events s)
    \<and> EnsureSystemAccounts s' = (Inr (), s')"
proof -
  have inv: "ledger_inv s" by (rule reachable_inv [OF assms(1)])
  have "\<forall>(i, ty, cur, nm) \<in> set systemAccounts. i \<noteq> '''' \<and> Currencies cur \<noteq> None"
    by (simp add: systemAccounts_def)
  then obtain s' where s': "foreachE systemAccounts ensureAccount s = (Inr (), s')" "ledger_inv s'"
    "journal (st_events s') = journal (st_events s)"
    and all: "\<forall>spec \<in> set systemAccounts. map_of (pj_accounts (lg_proj s')) (fst spec) \<noteq> None"
    using ensure_all [OF inv assms(2)] by blast
  have "EnsureSystemAccounts s = (Inr (), s')"
    using s' inv by (simp add: EnsureSystemAccounts_def op_simps ledger_inv_synced)
  moreover have "EnsureSystemAccounts s' = (Inr (), s')"
    using ensured_noop [OF all] s'(2) by (simp add: EnsureSystemAccounts_def op_simps ledger_inv_synced)
  ultimately show ?thesis using s'(3) all by (auto simp: list_all_iff)
qed

theorem ensure_accounts_idempotent_witness:
  "\<exists>s'. EnsureSystemAccounts sampleBank = (Inr (), s') \<and> EnsureSystemAccounts s' = (Inr (), s')"
  using ensure_accounts_idempotent [OF sampleBank_reachable] by (auto simp: sampleBank_fields timeOK_def)

text \<open>Capital is seeded once: after a successful \<open>SeedCapital\<close>, seeding any other amount returns
  without changing anything.\<close>

theorem seed_capital_once:
  assumes "reachable s" and "in64 n" and "SeedCapital n s = (Inr (), s')"
  shows "SeedCapital m s' = (Inr (), s')"
proof -
  have inv: "ledger_inv s" by (rule reachable_inv [OF assms(1)])
  have inv': "ledger_inv s'" by (rule preserves_result [OF preserves_SeedCapital [OF assms(2)] inv assms(3)])
  note typed = typed_seedTx [OF assms(2)]
  have "\<exists>i t. map_of (pj_txs (lg_proj s')) i = Some t \<and> tx_Kind t = ''capital.seed''"
  proof (cases "list_ex (\<lambda>(_, tx). tx_Kind tx = ''capital.seed'') (pj_txs (lg_proj s))")
    case True
    then obtain i t where it: "(i, t) \<in> set (pj_txs (lg_proj s))" "tx_Kind t = ''capital.seed''"
      by (auto simp: list_ex_iff)
    have "distinct (map fst (pj_txs (lg_proj s)))" using inv by (simp add: ledger_inv_def proj_inv_def txs_wf_def)
    with it have "map_of (pj_txs (lg_proj s)) i = Some t" by simp
    moreover have "s' = s" using assms(3) True inv by (simp add: SeedCapital_def op_simps ledger_inv_synced)
    ultimately show ?thesis using it by blast
  next
    case False
    then obtain t where p: "PostAndFinalize (seedTx n) s = (Inr t, s')"
      using assms(3) inv by (auto simp: SeedCapital_def op_simps ledger_inv_synced bindE_eq_Inr)
    note app = PostAndFinalize_app [OF inv typed]
    have ok: "validate (lg_proj s) (seedTx n) = Inr ()"
      using app(1) p by (cases "validate (lg_proj s) (seedTx n)") auto
    have "timeOK (now s)" using app(2) [OF ok] p by auto
    from app(3) [OF ok this] p obtain
      w: "withProj (finalProj (pending (seedTx n) s) (lg_proj s)) (tx_Entries (seedTx n)) s s'" by auto
    have "map_of (pj_txs (lg_proj s')) (tx_ID (pending (seedTx n) s)) =
        Some ((pending (seedTx n) s)\<lparr>tx_Status := StatusFinal\<rparr>)"
      using withProjD(1) [OF w] by (simp add: finalProj_def statusProj_txs)
    moreover have "tx_Kind (pending (seedTx n) s) = ''capital.seed''"
      by (simp add: pending_def seedTx_def newTx_def)
    ultimately show ?thesis
      by (intro exI [of _ "tx_ID (pending (seedTx n) s)"] exI [of _ "(pending (seedTx n) s)\<lparr>tx_Status := StatusFinal\<rparr>"]) simp
  qed
  then have "list_ex (\<lambda>(_, tx). tx_Kind tx = ''capital.seed'') (pj_txs (lg_proj s'))"
    by (auto simp: list_ex_iff dest!: map_of_SomeD)
  then show ?thesis using inv' by (simp add: SeedCapital_def op_simps ledger_inv_synced)
qed

definition sampleVault :: ledger where
  "sampleVault =
     snd (OpenAccount (sampleAccount ''equity-capital-usd'' ''USD'')
       (snd (OpenAccount (sampleAccount ''treasury-cash-usd'' ''USD'') sampleBank0)))"

lemma sampleVault_reachable: "reachable sampleVault" "now sampleVault = 1700000000 * 1000000000" "pj_txs (lg_proj sampleVault) = []"
proof -
  have r0: "reachable sampleBank0" by (rule reachable.init) (simp add: ledger_init_def sampleBank0_def)
  then show "reachable sampleVault"
    unfolding sampleVault_def by (intro reachable.step [OF _ open_account])
  note f = OpenAccount_frame [OF _ refl] OpenAccount_txs(1)
  show "now sampleVault = 1700000000 * 1000000000" "pj_txs (lg_proj sampleVault) = []"
    unfolding sampleVault_def using reachable_inv [OF r0]
    by (simp_all add: f) (simp_all add: sampleBank0_def newProjection_def)
qed

lemma sampleVault_accounts:
  "pj_accounts (lg_proj sampleVault) =
     map (\<lambda>i. (i, (sampleAccount i ''USD'')\<lparr>ac_OpenedAt := 1700000000 * 1000000000\<rparr>)) [''treasury-cash-usd'', ''equity-capital-usd'']"
  by code_simp

theorem seed_capital_once_witness:
  "\<exists>s'. SeedCapital 1000 sampleVault = (Inr (), s') \<and> SeedCapital 2000 s' = (Inr (), s')"
proof -
  have n: "in64 1000" by (simp add: in64_def min64_def max64_def)
  have "validate (lg_proj sampleVault) (seedTx 1000) = Inr ()"
    unfolding validate_iff entry_ok_def sampleVault_accounts
    by (simp add: seedTx_def newTx_def mkEntry_def sampleAccount_def wrap64_def)
  moreover have "timeOK (now sampleVault)" by (simp add: sampleVault_reachable timeOK_def)
  ultimately obtain t s' where "PostAndFinalize (seedTx 1000) sampleVault = (Inr t, s')"
    using PostAndFinalize_app(3) [OF reachable_inv [OF sampleVault_reachable(1)] typed_seedTx [OF n]] by blast
  then have "SeedCapital 1000 sampleVault = (Inr (), s')"
    using reachable_inv [OF sampleVault_reachable(1)]
    by (simp add: SeedCapital_def op_simps ledger_inv_synced sampleVault_reachable)
  with seed_capital_once [OF sampleVault_reachable(1) n this] show ?thesis by blast
qed

section \<open>Properties: foreign exchange\<close>

text \<open>C6: A successful conversion leaves exactly two linked, final transactions: the quoted amount goes
  from the customer's account to the treasury account of its currency and the quoted counter-amount
  from the treasury account of the other currency to the target account.\<close>

theorem convert_links_two_legs:
  assumes "reachable s" and "in64 (am_Minor (fr_From req))" and "Convert req s = (Inr r, s')"
    and "rand s (drawn s) \<noteq> ''''" and "rand s (drawn s + 1) \<noteq> ''''" and "rand s (drawn s) \<noteq> rand s (drawn s + 1)"
  shows "journal (st_events s') = journal (st_events s) @ fromLeg req @ toLeg req (fx_Quote r)
    \<and> (\<exists>cur. Quote s (am_Currency (fr_From req)) cur (am_Minor (fr_From req)) = Inr (fx_Quote r))
    \<and> map_of (pj_txs (lg_proj s')) (rand s (drawn s)) = Some (fx_FromTx r)
    \<and> map_of (pj_txs (lg_proj s')) (rand s (drawn s + 1)) = Some (fx_ToTx r)
    \<and> tx_Status (fx_FromTx r) = StatusFinal \<and> tx_Status (fx_ToTx r) = StatusFinal
    \<and> tx_LinkedTxID (fx_FromTx r) = rand s (drawn s + 1) \<and> tx_LinkedTxID (fx_ToTx r) = rand s (drawn s)
    \<and> tx_Entries (fx_FromTx r) = fromLeg req \<and> tx_Entries (fx_ToTx r) = toLeg req (fx_Quote r)"
  by (rule Convert_success [OF reachable_inv [OF assms(1)] assms(2-6)]) blast

lemma sampleIds: "rand sampleBank (drawn sampleBank) = ''id4''" "rand sampleBank (drawn sampleBank + 1) = ''id5''"
proof -
  have "natStr 4 = ''4''" "natStr 5 = ''5''" by code_simp+
  then show "rand sampleBank (drawn sampleBank) = ''id4''" "rand sampleBank (drawn sampleBank + 1) = ''id5''"
    by (simp_all add: sampleBank_fields sampleBank_drawn) (simp_all add: sampleBank0_def)
qed

lemma sampleConvert_valid:
  assumes "0 < n" and "in64 n"
  shows "validate (lg_proj sampleBank) (fxTx (sampleConvert n) q i j ''USDC'' (fromLeg (sampleConvert n))) = Inr ()"
    and "fq_To q = mkAmount ''USD'' 100 \<Longrightarrow>
      validate (lg_proj sampleBank) (fxTx (sampleConvert n) q i j ''USD'' (toLeg (sampleConvert n) q)) = Inr ()"
    and "fq_To q = mkAmount ''USD'' 0 \<Longrightarrow>
      validate (lg_proj sampleBank) (fxTx (sampleConvert n) q i j ''USD'' (toLeg (sampleConvert n) q)) = Inl (ELedger EntryNotPositive)"
proof -
  have low: "ToLower ''USDC'' = ''usdc''" "ToLower ''USD'' = ''usd''" by code_simp+
  show "validate (lg_proj sampleBank) (fxTx (sampleConvert n) q i j ''USDC'' (fromLeg (sampleConvert n))) = Inr ()"
    unfolding validate_iff entry_ok_def sampleBank_accounts using assms
    by (simp add: fxTx_def sampleConvert_def fromLeg_def mkEntry_def sampleAccounts_def sampleAccount_def low)
  show "fq_To q = mkAmount ''USD'' 100 \<Longrightarrow>
      validate (lg_proj sampleBank) (fxTx (sampleConvert n) q i j ''USD'' (toLeg (sampleConvert n) q)) = Inr ()"
    unfolding validate_iff entry_ok_def sampleBank_accounts
    by (simp add: fxTx_def sampleConvert_def toLeg_def mkEntry_def sampleAccounts_def sampleAccount_def low wrap64_def)
  show "fq_To q = mkAmount ''USD'' 0 \<Longrightarrow>
      validate (lg_proj sampleBank) (fxTx (sampleConvert n) q i j ''USD'' (toLeg (sampleConvert n) q)) = Inl (ELedger EntryNotPositive)"
    by (simp add: validate_def fxTx_def toLeg_def mkEntry_def)
qed

lemma sampleConvert_fails:
  "\<exists>s' t. Convert (sampleConvert 1) sampleBank = (Inl (ELedger EntryNotPositive), s')
     \<and> journal (st_events s') = fromLeg (sampleConvert 1)
     \<and> map_of (pj_txs (lg_proj s')) ''id4'' = Some t \<and> tx_Status t = StatusPending"
proof -
  have acc: "map_of (pj_accounts (lg_proj sampleBank)) ''c'' = Some ((sampleAccount ''c'' ''USDC'')\<lparr>ac_OpenedAt := 1700000000 * 1000000000\<rparr>)"
    "map_of (pj_accounts (lg_proj sampleBank)) ''d'' = Some ((sampleAccount ''d'' ''USD'')\<lparr>ac_OpenedAt := 1700000000 * 1000000000\<rparr>)"
    by (simp_all add: sampleBank_accounts sampleAccounts_def)
  have n: "in64 1" by (simp add: in64_def min64_def max64_def)
  show ?thesis
    using Convert_run(1) [OF sampleBank_fields(6), of "sampleConvert 1"] acc n sampleQuotes(2) sampleIds
      sampleConvert_valid(1,3) [OF _ n, of "sampleQuote 1 0"]
    by (simp add: sampleConvert_def sampleAccount_def timeOK_def sampleBank_fields(1,5) sampleQuote_def)
qed

lemma sampleConvert_ok: "\<exists>r s'. Convert (sampleConvert 1000000) sampleBank = (Inr r, s')"
proof -
  have acc: "map_of (pj_accounts (lg_proj sampleBank)) ''c'' = Some ((sampleAccount ''c'' ''USDC'')\<lparr>ac_OpenedAt := 1700000000 * 1000000000\<rparr>)"
    "map_of (pj_accounts (lg_proj sampleBank)) ''d'' = Some ((sampleAccount ''d'' ''USD'')\<lparr>ac_OpenedAt := 1700000000 * 1000000000\<rparr>)"
    by (simp_all add: sampleBank_accounts sampleAccounts_def)
  have n: "in64 1000000" by (simp add: in64_def min64_def max64_def)
  show ?thesis
    using Convert_run(2) [OF sampleBank_fields(6), of "sampleConvert 1000000"] acc n sampleQuotes(1) sampleIds
      sampleConvert_valid(1,2) [OF _ n, of "sampleQuote 1000000 100"]
    by (simp add: sampleConvert_def sampleAccount_def timeOK_def sampleBank_fields(1,5) sampleQuote_def)
qed

theorem convert_links_two_legs_witness:
  "\<exists>r s'. Convert (sampleConvert 1000000) sampleBank = (Inr r, s') \<and> tx_LinkedTxID (fx_FromTx r) = ''id5''
     \<and> journal (st_events s') = fromLeg (sampleConvert 1000000) @ toLeg (sampleConvert 1000000) (fx_Quote r)"
proof -
  obtain r s' where c: "Convert (sampleConvert 1000000) sampleBank = (Inr r, s')" using sampleConvert_ok by blast
  have "in64 (am_Minor (fr_From (sampleConvert 1000000)))"
    by (simp add: sampleConvert_def in64_def min64_def max64_def)
  with convert_links_two_legs [OF sampleBank_reachable _ c] c sampleIds show ?thesis
    by (auto simp: sampleBank_fields(5))
qed

text \<open>A conversion is not atomic: for one millionth of a USDC, whose counter-value rounds to zero
  cents, \<open>Convert\<close> reports an error after the first leg has been posted; the leg stays in the
  journal as a pending transaction and the customer's balance is reduced.\<close>

theorem convert_not_atomic:
  "\<exists>(s :: ledger) req e s' t. reachable s \<and> Convert req s = (Inl e, s')
     \<and> journal (st_events s') = journal (st_events s) @ fromLeg req
     \<and> map_of (pj_txs (lg_proj s')) (rand s (drawn s)) = Some t \<and> tx_Status t = StatusPending"
proof -
  obtain s' t where f: "Convert (sampleConvert 1) sampleBank = (Inl (ELedger EntryNotPositive), s')"
      "journal (st_events s') = fromLeg (sampleConvert 1)"
      "map_of (pj_txs (lg_proj s')) ''id4'' = Some t" "tx_Status t = StatusPending"
    using sampleConvert_fails by blast
  show ?thesis
    by (rule exI [of _ sampleBank], rule exI [of _ "sampleConvert 1"],
        rule exI [of _ "ELedger EntryNotPositive"], rule exI [of _ s'], rule exI [of _ t])
      (simp add: f sampleIds(1) sampleBank_fields(5) sampleBank_reachable)
qed

text \<open>C7: Rounding of a conversion of a non-negative amount: half-up is within half a minor unit of the
  exact value, truncation below it by less than one; only a result outside 64 bits is refused.\<close>

theorem convert_rounding:
  assumes "0 \<le> n" and "0 \<le> scaled"
  shows "(case convertMinor n fd td scaled ''half_up'' of
        Inr v \<Rightarrow> \<bar>of_int v - exactConversion n fd td scaled\<bar> \<le> 1 / 2
      | Inl e \<Rightarrow> e = EFx AmountOverflow \<and> of_int max64 < exactConversion n fd td scaled + 1)
    \<and> (case convertMinor n fd td scaled ''down'' of
        Inr v \<Rightarrow> of_int v \<le> exactConversion n fd td scaled \<and> exactConversion n fd td scaled < of_int v + 1
      | Inl e \<Rightarrow> e = EFx AmountOverflow \<and> of_int max64 < exactConversion n fd td scaled)"
proof -
  let ?x = "exactConversion n fd td scaled"
  have x: "0 \<le> ?x" using assms by (rule exactConversion_nonneg)
  have h: "\<bar>of_int (halfUp ?x) - ?x\<bar> \<le> 1 / 2" using halfUp_bounds [of ?x] by linarith
  have h0: "0 \<le> halfUp ?x" and f0: "0 \<le> \<lfloor>?x\<rfloor>" using x by (simp_all add: halfUp_def)
  have big: "of_int max64 < ?x + 1" if "\<not> in64 (halfUp ?x)"
  proof -
    have "max64 + 1 \<le> halfUp ?x" using that h0 by (simp add: in64_def min64_def max64_def)
    then have "of_int (max64 + 1) \<le> (of_int (halfUp ?x) :: rat)" by (simp only: of_int_le_iff)
    then show ?thesis using halfUp_bounds(1) [of ?x] by simp
  qed
  have bigf: "of_int max64 < ?x" if "\<not> in64 \<lfloor>?x\<rfloor>"
  proof -
    have "max64 + 1 \<le> \<lfloor>?x\<rfloor>" using that f0 by (simp add: in64_def min64_def max64_def)
    then have "of_int (max64 + 1) \<le> ?x" by (simp only: le_floor_iff)
    then show ?thesis by simp
  qed
  show ?thesis
    unfolding convertMinor_exact roundRat_nonneg [OF x]
    using h big bigf floor_correct [of ?x] by simp
qed

theorem convert_rounding_witness:
  "case convertMinor 1000000 6 2 99850000 ''half_up'' of
     Inr v \<Rightarrow> \<bar>of_int v - exactConversion 1000000 6 2 99850000\<bar> \<le> 1 / 2
   | Inl e \<Rightarrow> False"
proof -
  have "convertMinor 1000000 6 2 99850000 ''half_up'' = Inr 100" by code_simp
  then show ?thesis using convert_rounding [of 1000000 99850000 6 2] by simp
qed

text \<open>\<open>Quote\<close> with the rule-backed provider and the evaluator of the \<open>fx_policy\<close> rule agree: on
  the cached content they both succeed or both fail, and they give the same amount.\<close>

theorem quote_agrees_with_policy:
  assumes "lg_rates s = Some (RuleRateProvider r clk)" and "fxContent s r = Inr content"
  shows "case EvaluateFXPolicy content [(''from'', GStr from), (''to'', GStr to), (''amount_minor'', GInt64 n)] of
      Inr out \<Rightarrow> (\<exists>q. Quote s from to n = Inr q \<and> gget out ''to_amount_minor'' = GInt64 (am_Minor (fq_To q))
                    \<and> gget out ''source'' = GStr (rt_Source (fq_Rate q)))
    | Inl e \<Rightarrow> (\<exists>e'. Quote s from to n = Inl e')"
proof (cases "roundingModeFromContent content")
  case (Inl e)
  then show ?thesis
    using assms by (simp add: EvaluateFXPolicy_def Quote_def providerRate_def stringField_def intFieldL_def
        ofOption_def split: option.splits)
next
  case (Inr mode)
  then have "mode \<noteq> ''''" by (auto simp: roundingModeFromContent_def split: option.splits if_splits)
  with Inr show ?thesis
    using assms
    by (auto simp: EvaluateFXPolicy_def Quote_def providerRate_def providerMode_def stringField_def intFieldL_def
        ofOption_def rateFromPolicy_def bindR_def Let_def split: option.splits sum.splits if_splits prod.splits)
qed

theorem quote_agrees_with_policy_witness:
  "\<exists>q. Quote sampleBank ''USDC'' ''USD'' 1000000 = Inr q \<and>
     (case EvaluateFXPolicy samplePolicy [(''from'', GStr ''USDC''), (''to'', GStr ''USD''), (''amount_minor'', GInt64 1000000)] of
        Inr out \<Rightarrow> gget out ''to_amount_minor'' = GInt64 (am_Minor (fq_To q))
      | Inl e \<Rightarrow> False)"
proof -
  have "lg_rates sampleBank = Some (RuleRateProvider ''fx_policy'' False)"
    by (simp add: sampleBank_fields(2)) (simp add: sampleBank0_def)
  from quote_agrees_with_policy [OF this sampleContent, of "''USDC''" "''USD''" 1000000] sampleQuotes(1)
  show ?thesis by (auto split: sum.splits)
qed

text \<open>The inverse direction is not converted exactly: the inverse rate is first rounded to eight
  decimals. A million dollars at a USDC price of 0.9985 dollars are quoted at 1001502.250000 USDC,
  while dividing by the rate, as the comments on the two functions say, gives 1001502.253380.\<close>

theorem inverse_rate_is_rounded:
  "(case EvaluateFXPolicy samplePolicy [(''from'', GStr ''USD''), (''to'', GStr ''USDC''), (''amount_minor'', GInt64 100000000)] of
      Inr out \<Rightarrow> gget out ''to_amount_minor'' = GInt64 1001502250000
    | Inl e \<Rightarrow> False)
   \<and> roundRat (100000000 / 10 ^ 2 / (9985 / 10000) * 10 ^ 6) ''half_up'' = Inr 1001502253380"
proof -
  have "invertScaled 99850000 ''half_up'' = Inr 100150225" by code_simp
  moreover have "convertMinor 100000000 2 6 100150225 ''half_up'' = Inr 1001502250000" by code_simp
  ultimately have "case EvaluateFXPolicy samplePolicy [(''from'', GStr ''USD''), (''to'', GStr ''USDC''), (''amount_minor'', GInt64 100000000)] of
      Inr out \<Rightarrow> gget out ''to_amount_minor'' = GInt64 1001502250000 | Inl e \<Rightarrow> False"
    by (simp add: EvaluateFXPolicy_def stringField_def intFieldL_def ofOption_def samplePolicy_mode samplePolicy_pair)
  moreover have "roundRat (100000000 / 10 ^ 2 / (9985 / 10000) * 10 ^ 6) ''half_up'' = Inr 1001502253380"
    by code_simp
  ultimately show ?thesis by blast
qed

end
