(* ===== verification/Acct_Service.thy ===== *)
theory Acct_Service
  imports Acct_Waterfall Ledger_Steps
begin

text \<open>
  \<open>internal/account/service.go\<close> and \<open>types.go\<close>: customer accounts as pairs of ledger accounts,
  deposits, seeding of the demo account, purchases funded by the waterfall rule, random bulk
  purchases and the purchase history. The service has no state of its own.
\<close>

section \<open>Types\<close>

record PurchaseRequest =
  pq_AccountID :: string
  pq_AmountCents :: int64
  pq_Merchant :: string

record BulkRequest =
  bq_AccountID :: string
  bq_Count :: int64
  bq_MinCents :: int64
  bq_MaxCents :: int64
  bq_Seed :: int64

record Funding =
  fu_Currency :: string
  fu_AmountMinor :: int64
  fu_AmountDisplay :: string
  fu_UsdEquivalentCents :: int64
  fu_SharePct :: int64

record WaterfallInfo =
  wi_RuleID :: string
  wi_Version :: int64
  wi_MatchedRule :: string
  wi_ApplicationID :: string

record Receipt =
  rc_PurchaseID :: string
  rc_AccountID :: string
  rc_Status :: string
  rc_AmountCents :: int64
  rc_Merchant :: string
  rc_FundedBy :: "Funding list"
  rc_Waterfall :: WaterfallInfo
  rc_LedgerTransactionIDs :: "string list"
  rc_DeclineReason :: string
  rc_OccurredAt :: instant

record View =
  vw_ID :: string
  vw_OwnerID :: string
  vw_Balances :: "(string \<times> Amount) list"
  vw_LedgerAccountIDs :: "(string \<times> string) list"
  vw_UsdEquivalentCents :: int64

section \<open>Identifiers\<close>

text \<open>\<open>%020d-%s\<close> of the wall clock in nanoseconds and eight random bytes in hexadecimal.\<close>

definition pad20 :: "int \<Rightarrow> string" where
  "pad20 n =
     (let ds = natStr (nat \<bar>n\<bar>)
      in if n < 0 then CHR ''-'' # replicate (19 - length ds) CHR ''0'' @ ds
         else replicate (20 - length ds) CHR ''0'' @ ds)"

definition newPurchaseID :: "('z ledger_scheme, string) oper" where
  "newPurchaseID =
     bindE (getE wall) (\<lambda>w.
     bindE newID (\<lambda>r. returnE (pad20 (wrap64 w) @ ''-'' @ r)))"

definition ledgerAccountID :: "string \<Rightarrow> string \<Rightarrow> string" where
  "ledgerAccountID customerID currency = customerID @ ''-'' @ ToLower currency"

section \<open>Views\<close>

text \<open>An error other than \<open>ErrNotFound\<close> ends the call, \<open>ErrNotFound\<close> is looked at later.\<close>

definition unlessNotFound :: "'a res \<Rightarrow> ('s, unit) oper" where
  "unlessNotFound r =
     (case r of Inr _ \<Rightarrow> returnE () | Inl e \<Rightarrow> if errors_Is e ErrNotFound then returnE () else throwE e)"

definition viewUSD :: "string \<Rightarrow> Account res \<Rightarrow> View \<Rightarrow> ('z ledger_scheme, View) oper" where
  "viewUSD usdID usdAcc view =
     (case usdAcc of
        Inl e \<Rightarrow> returnE view
      | Inr acc \<Rightarrow>
          bindE (Balance usdID) (\<lambda>bal.
          returnE (view\<lparr>vw_OwnerID := ac_OwnerID acc,
            vw_Balances := AList.update ''USD'' bal (vw_Balances view),
            vw_LedgerAccountIDs := AList.update ''USD'' usdID (vw_LedgerAccountIDs view),
            vw_UsdEquivalentCents := wrap64 (vw_UsdEquivalentCents view + am_Minor bal)\<rparr>)))"

definition viewUSDC :: "string \<Rightarrow> Account res \<Rightarrow> View \<Rightarrow> ('z ledger_scheme, View) oper" where
  "viewUSDC usdcID usdcAcc view =
     (case usdcAcc of
        Inl e \<Rightarrow> returnE view
      | Inr acc \<Rightarrow>
          bindE (Balance usdcID) (\<lambda>bal.
          bindE (getE (\<lambda>s. Quote s ''USDC'' ''USD'' (am_Minor bal))) (\<lambda>q.
          bindE (liftE q) (\<lambda>quote.
          returnE (view\<lparr>vw_OwnerID := (if vw_OwnerID view = '''' then ac_OwnerID acc else vw_OwnerID view),
            vw_Balances := AList.update ''USDC'' bal (vw_Balances view),
            vw_LedgerAccountIDs := AList.update ''USDC'' usdcID (vw_LedgerAccountIDs view),
            vw_UsdEquivalentCents := wrap64 (vw_UsdEquivalentCents view + am_Minor (fq_To quote))\<rparr>)))))"

definition GetView :: "string \<Rightarrow> ('z ledger_scheme, View) oper" where
  "GetView i =
     (let usdID = ledgerAccountID i ''USD''; usdcID = ledgerAccountID i ''USDC''
      in bindE (attemptE (GetAccount usdID)) (\<lambda>usdAcc.
         bindE (unlessNotFound usdAcc) (\<lambda>_.
         bindE (attemptE (GetAccount usdcID)) (\<lambda>usdcAcc.
         bindE (unlessNotFound usdcAcc) (\<lambda>_.
         bindE (guardE (\<not> (isl usdAcc \<and> isl usdcAcc)) (Ctx ''account'' ErrNotFound)) (\<lambda>_.
         bindE (viewUSD usdID usdAcc
                 \<lparr>vw_ID = i, vw_OwnerID = '''', vw_Balances = [], vw_LedgerAccountIDs = [],
                  vw_UsdEquivalentCents = 0\<rparr>) (\<lambda>view.
         viewUSDC usdcID usdcAcc view)))))))"

text \<open>The customer a ledger account belongs to, by its suffix.\<close>

definition customerOf :: "Account \<Rightarrow> string option" where
  "customerOf a =
     (if ac_Type a \<noteq> CustomerDeposit then None
      else if HasSuffix (ac_ID a) ''-usd'' then Some (TrimSuffix (ac_ID a) ''-usd'')
      else if HasSuffix (ac_ID a) ''-usdc'' then Some (TrimSuffix (ac_ID a) ''-usdc'')
      else None)"

definition ListCustomers :: "('z ledger_scheme, View list) oper" where
  "ListCustomers =
     bindE ListAccounts (\<lambda>accs.
     mapE GetView (sort (remdups (List.map_filter customerOf accs))))"

section \<open>Deposits and seeding\<close>

definition depositTx :: "string \<Rightarrow> Amount \<Rightarrow> Transaction" where
  "depositTx i amt =
     newTx ''deposit'' (''Deposit to '' @ i) (am_Currency amt)
       [mkEntry (''treasury-cash-'' @ ToLower (am_Currency amt)) Debit amt,
        mkEntry (ledgerAccountID i (am_Currency amt)) Credit amt] [(''account_id'', i)]"

definition Deposit :: "string \<Rightarrow> Amount \<Rightarrow> ('z ledger_scheme, Transaction) oper" where
  "Deposit i amt =
     bindE (guardE (0 < am_Minor amt) (EAccount (AccValidation ''deposit amount must be positive''))) (\<lambda>_.
     bindE (guardE (Currencies (am_Currency amt) \<noteq> None) (EAccount (AccValidation ''unknown currency''))) (\<lambda>_.
     bindE (attemptE (GetAccount (ledgerAccountID i (am_Currency amt)))) (\<lambda>target.
     case target of
       Inl e \<Rightarrow> throwE (if errors_Is e ErrNotFound then Ctx ''account: no ledger account'' ErrNotFound else e)
     | Inr _ \<Rightarrow> PostAndFinalize (depositTx i amt))))"

definition DemoAccountID :: string where "DemoAccountID = ''demo-account-1''"
definition DemoOwnerID :: string where "DemoOwnerID = ''demo-user''"

definition customerLedgerAccount :: "string \<Rightarrow> string \<Rightarrow> string \<Rightarrow> Account" where
  "customerLedgerAccount i owner cur =
     \<lparr>ac_ID = ledgerAccountID i cur, ac_OwnerID = owner, ac_Type = CustomerDeposit, ac_Currency = cur,
      ac_Name = i @ '' ('' @ cur @ '')'', ac_OpenedAt = zeroTime\<rparr>"

definition openLeg :: "string \<Rightarrow> string \<Rightarrow> string \<Rightarrow> ('z ledger_scheme, unit) oper" where
  "openLeg i owner cur =
     bindE (attemptE (GetAccount (ledgerAccountID i cur))) (\<lambda>found.
     case found of
       Inr _ \<Rightarrow> returnE ()
     | Inl e \<Rightarrow>
         if errors_Is e ErrNotFound
         then bindE (OpenAccount (customerLedgerAccount i owner cur)) (\<lambda>_. returnE ())
         else throwE e)"

definition openCustomerAccount :: "string \<Rightarrow> string \<Rightarrow> ('z ledger_scheme, unit) oper" where
  "openCustomerAccount i owner = foreachE [''USD'', ''USDC''] (openLeg i owner)"

definition depositIfEmpty :: "string \<Rightarrow> Amount \<Rightarrow> ('z ledger_scheme, unit) oper" where
  "depositIfEmpty i amt =
     bindE (ListTransactions (txFilterBy (ledgerAccountID i (am_Currency amt)) ''deposit'')) (\<lambda>txs.
     if txs \<noteq> [] then returnE () else bindE (Deposit i amt) (\<lambda>_. returnE ()))"

definition Seed :: "('z ledger_scheme, unit) oper" where
  "Seed =
     bindE (openCustomerAccount DemoAccountID DemoOwnerID) (\<lambda>_.
     bindE (liftE (ParseAmount ''USD'' ''1500.00'')) (\<lambda>usd.
     bindE (liftE (ParseAmount ''USDC'' ''800.000000'')) (\<lambda>usdc.
     bindE (depositIfEmpty DemoAccountID usd) (\<lambda>_.
     depositIfEmpty DemoAccountID usdc))))"

section \<open>Purchases\<close>

definition spendWaterfallRuleID :: string where "spendWaterfallRuleID = ''spend_waterfall''"

definition defaultMerchants :: "string list" where
  "defaultMerchants =
     [''General Store'', ''Coffee Corner'', ''Grocery Mart'', ''Metro Transit'', ''Cloud Hosting Co'',
      ''Bookstore Nine'', ''Pharmacy Plus'', ''Streaming Plus'']"

definition purchaseInput :: "int64 \<Rightarrow> int64 \<Rightarrow> int64 \<Rightarrow> gmap" where
  "purchaseInput amount usd usdc =
     [(''amount_cents'', GInt64 amount), (''usd_balance_cents'', GInt64 usd),
      (''usdc_balance_usd_equivalent_cents'', GInt64 usdc)]"

definition purchaseMeta ::
  "string \<Rightarrow> string \<Rightarrow> int64 \<Rightarrow> string \<Rightarrow> Decision \<Rightarrow> int64 \<Rightarrow> int64 \<Rightarrow> (string \<times> string) list" where
  "purchaseMeta purchaseID merchant amountCents matchedRule decision usdEquiv sharePct =
     [(''purchase_id'', purchaseID),
      (''merchant'', merchant),
      (''funded_share_pct'', FormatInt sharePct),
      (''usd_equivalent_cents'', FormatInt usdEquiv),
      (''amount_cents'', FormatInt amountCents),
      (''matched_rule'', matchedRule),
      (''rule_id'', de_RuleID decision),
      (''rule_version'', FormatInt (de_Version decision)),
      (''application_id'', de_ApplicationID decision)]"

definition purchaseTx :: "string \<Rightarrow> string \<Rightarrow> string \<Rightarrow> Amount \<Rightarrow> (string \<times> string) list \<Rightarrow> Transaction" where
  "purchaseTx merchant account settlement amt meta =
     newTx ''purchase'' (''Purchase at '' @ merchant) (am_Currency amt)
       [mkEntry account Debit amt, mkEntry settlement Credit amt] meta"

definition mkFunding :: "Amount \<Rightarrow> int64 \<Rightarrow> int64 \<Rightarrow> Funding" where
  "mkFunding amt usdEquiv sharePct =
     \<lparr>fu_Currency = am_Currency amt, fu_AmountMinor = am_Minor amt, fu_AmountDisplay = Display amt,
      fu_UsdEquivalentCents = usdEquiv, fu_SharePct = sharePct\<rparr>"

text \<open>One turn of the loop over the funding legs: the transaction posted and the funding noted.\<close>

definition purchaseLeg ::
  "PurchaseRequest \<Rightarrow> string \<Rightarrow> string \<Rightarrow> string \<Rightarrow> Decision \<Rightarrow> gval \<Rightarrow>
     ('z ledger_scheme, string \<times> Funding) oper" where
  "purchaseLeg req merchant purchaseID matchedRule decision raw =
     (case asMap raw of
        None \<Rightarrow> throwE (EAccount MalformedLeg)
      | Some leg \<Rightarrow>
          (let currency = strOr (gget leg ''currency'')
           in bindE (liftE (ctxR ''account: usd_equivalent_cents'' (numField (gget leg ''usd_equivalent_cents'')))) (\<lambda>usdEquiv.
              bindE (liftE (ctxR ''account: share_pct'' (numField (gget leg ''share_pct'')))) (\<lambda>sharePct.
              (let meta = purchaseMeta purchaseID merchant (pq_AmountCents req) matchedRule decision usdEquiv sharePct
               in if currency = ''USD'' then
                    (let amt = mkAmount ''USD'' usdEquiv
                     in bindE (PostAndFinalize (purchaseTx merchant (ledgerAccountID (pq_AccountID req) ''USD'')
                                 ''merchant-settlement-usd'' amt meta)) (\<lambda>tx.
                        returnE (tx_ID tx, mkFunding amt usdEquiv sharePct)))
                  else if currency = ''USDC'' then
                    bindE (getE (\<lambda>s. Quote s ''USD'' ''USDC'' usdEquiv)) (\<lambda>q.
                    bindE (liftE q) (\<lambda>legQuote.
                    (let amt = fq_To legQuote
                     in bindE (PostAndFinalize (purchaseTx merchant (ledgerAccountID (pq_AccountID req) ''USDC'')
                                 ''merchant-settlement-usdc'' amt meta)) (\<lambda>tx.
                        returnE (tx_ID tx, mkFunding amt usdEquiv sharePct)))))
                  else throwE (EAccount (UnknownFundingCurrency currency)))))))"

text \<open>
  The result is the receipt and the error returned with it: \<open>ErrDeclined\<close> comes with a receipt,
  every other error with an empty one. \<open>settlePurchase\<close> is what follows the decision of the rule.
\<close>

definition settlePurchase ::
  "PurchaseRequest \<Rightarrow> string \<Rightarrow> string \<Rightarrow> Decision \<Rightarrow> ('z ledger_scheme, Receipt \<times> err option) oper" where
  "settlePurchase req merchant purchaseID decision =
     bindE Now (\<lambda>n.
     (let matchedRule = strOr (gget (de_Output decision) ''matched_rule'');
          receipt = \<lparr>rc_PurchaseID = purchaseID, rc_AccountID = pq_AccountID req, rc_Status = '''',
            rc_AmountCents = pq_AmountCents req, rc_Merchant = merchant, rc_FundedBy = [],
            rc_Waterfall = \<lparr>wi_RuleID = de_RuleID decision, wi_Version = de_Version decision,
              wi_MatchedRule = matchedRule, wi_ApplicationID = de_ApplicationID decision\<rparr>,
            rc_LedgerTransactionIDs = [], rc_DeclineReason = '''', rc_OccurredAt = n\<rparr>
      in if strOr (gget (de_Output decision) ''decision'') \<noteq> ''approved'' then
           returnE (receipt\<lparr>rc_Status := ''declined'', rc_DeclineReason := ''insufficient_funds''\<rparr>,
             Some (EAccount ErrDeclined))
         else
           (let fundingRaw = (case asList (gget (de_Output decision) ''funding'') of Some l \<Rightarrow> l | None \<Rightarrow> [])
            in bindE (guardE (fundingRaw \<noteq> []) (EAccount NoFundingLegs)) (\<lambda>_.
               bindE (mapE (purchaseLeg req merchant purchaseID matchedRule decision) fundingRaw) (\<lambda>legs.
               returnE (receipt\<lparr>rc_Status := ''approved'', rc_FundedBy := map snd legs,
                          rc_LedgerTransactionIDs := map fst legs\<rparr>, None))))))"

definition Purchase :: "PurchaseRequest \<Rightarrow> ('z ledger_scheme, Receipt \<times> err option) oper" where
  "Purchase req =
     bindE (guardE (pq_AccountID req \<noteq> '''') (EAccount (AccValidation ''account_id is required''))) (\<lambda>_.
     bindE (guardE (0 < pq_AmountCents req) (EAccount (AccValidation ''amount_cents must be positive''))) (\<lambda>_.
     (let merchant = (if pq_Merchant req = '''' then hd defaultMerchants else pq_Merchant req);
          usdID = ledgerAccountID (pq_AccountID req) ''USD'';
          usdcID = ledgerAccountID (pq_AccountID req) ''USDC''
      in bindE (ctxE ''account'' (Balance usdID)) (\<lambda>usdBal.
         bindE (ctxE ''account'' (Balance usdcID)) (\<lambda>usdcBal.
         bindE (getE (\<lambda>s. Quote s ''USDC'' ''USD'' (am_Minor usdcBal))) (\<lambda>q.
         bindE (liftE q) (\<lambda>usdcQuote.
         bindE newPurchaseID (\<lambda>purchaseID.
         bindE (ctxE ''account: evaluating spend_waterfall''
                 (Evaluate spendWaterfallRuleID ''purchase'' purchaseID
                    (purchaseInput (pq_AmountCents req) (am_Minor usdBal) (am_Minor (fq_To usdcQuote)))))
           (settlePurchase req merchant purchaseID)))))))))"

text \<open>
  Bulk purchases draw amounts and merchants from \<open>math/rand\<close> seeded by the request. The generator
  is a parameter: \<open>newRand seed k n\<close> is the number, below \<open>n\<close>, that the call number \<open>k\<close> on a source
  with that seed returns. \<open>bulkLoop\<close> has the calls made so far. An error ends the run and is returned
  with the receipts collected before it.
\<close>

definition bulkSpan :: "BulkRequest \<Rightarrow> int64" where
  "bulkSpan req = wrap64 (wrap64 (bq_MaxCents req - bq_MinCents req) + 1)"

fun bulkLoop ::
  "(nat \<Rightarrow> int \<Rightarrow> int) \<Rightarrow> BulkRequest \<Rightarrow> nat \<Rightarrow> nat \<Rightarrow> ('z ledger_scheme, Receipt list \<times> err option) oper" where
  "bulkLoop rng req 0 k = returnE ([], None)"
| "bulkLoop rng req (Suc n) k =
     (let span = bulkSpan req;
          amount = (if 1 < span then wrap64 (bq_MinCents req + rng k span) else bq_MinCents req);
          k' = (if 1 < span then k + 1 else k);
          merchant = defaultMerchants ! nat (rng k' (int (length defaultMerchants)))
      in bindE (attemptE (Purchase \<lparr>pq_AccountID = bq_AccountID req, pq_AmountCents = amount,
                                    pq_Merchant = merchant\<rparr>)) (\<lambda>result.
         case result of
           Inl e \<Rightarrow> returnE ([], Some e)
         | Inr (receipt, _) \<Rightarrow>
             bindE (bulkLoop rng req n (k' + 1)) (\<lambda>(rest, e). returnE (receipt # rest, e))))"

definition BulkRandomPurchases ::
  "(int64 \<Rightarrow> nat \<Rightarrow> int \<Rightarrow> int) \<Rightarrow> BulkRequest \<Rightarrow> ('z ledger_scheme, Receipt list \<times> err option) oper" where
  "BulkRandomPurchases newRand req =
     bindE (guardE (bq_AccountID req \<noteq> '''') (EAccount (AccValidation ''account_id is required''))) (\<lambda>_.
     bindE (guardE (0 < bq_Count req) (EAccount (AccValidation ''count must be positive''))) (\<lambda>_.
     bindE (guardE (\<not> (bq_MinCents req \<le> 0 \<or> bq_MaxCents req \<le> 0 \<or> bq_MaxCents req < bq_MinCents req))
        (EAccount (AccValidation ''min_cents/max_cents''))) (\<lambda>_.
     bulkLoop (newRand (bq_Seed req)) req (nat (bq_Count req)) 0)))"

section \<open>Purchase history\<close>

definition newGroup :: "string \<Rightarrow> string \<Rightarrow> Transaction \<Rightarrow> Receipt" where
  "newGroup i pid tx =
     \<lparr>rc_PurchaseID = pid, rc_AccountID = i, rc_Status = ''approved'',
      rc_AmountCents = ParseIntVal (metaOf tx ''amount_cents''), rc_Merchant = metaOf tx ''merchant'',
      rc_FundedBy = [],
      rc_Waterfall = \<lparr>wi_RuleID = metaOf tx ''rule_id'', wi_Version = ParseIntVal (metaOf tx ''rule_version''),
        wi_MatchedRule = metaOf tx ''matched_rule'', wi_ApplicationID = metaOf tx ''application_id''\<rparr>,
      rc_LedgerTransactionIDs = [], rc_DeclineReason = '''', rc_OccurredAt = zeroTime\<rparr>"

definition legMinor :: "string \<Rightarrow> Entry list \<Rightarrow> int64" where
  "legMinor account es =
     fold (\<lambda>e minor. if et_AccountID e = account then am_Minor (et_Amount e) else minor) es 0"

definition addLeg :: "string \<Rightarrow> Transaction \<Rightarrow> Receipt \<Rightarrow> Receipt" where
  "addLeg i tx g =
     (let legAccount = ledgerAccountID i (if tx_Currency tx = ''USD'' then ''USD'' else ''USDC'');
          minor = legMinor legAccount (tx_Entries tx)
      in g\<lparr>rc_OccurredAt := (if rc_OccurredAt g < tx_OccurredAt tx then tx_OccurredAt tx else rc_OccurredAt g),
           rc_LedgerTransactionIDs := rc_LedgerTransactionIDs g @ [tx_ID tx],
           rc_FundedBy := rc_FundedBy g @
             [mkFunding (mkAmount (tx_Currency tx) minor) (ParseIntVal (metaOf tx ''usd_equivalent_cents''))
                (ParseIntVal (metaOf tx ''funded_share_pct''))]\<rparr>)"

definition groupTx :: "string \<Rightarrow> Transaction \<Rightarrow> (string \<times> Receipt) list \<Rightarrow> (string \<times> Receipt) list" where
  "groupTx i tx groups =
     (let pid = metaOf tx ''purchase_id''
      in if pid = '''' then groups
         else AList.update pid (addLeg i tx
                (case map_of groups pid of Some g \<Rightarrow> g | None \<Rightarrow> newGroup i pid tx)) groups)"

definition ListPurchases :: "string \<Rightarrow> ('z ledger_scheme, Receipt list) oper" where
  "ListPurchases i =
     bindE (ListTransactions (txFilterBy (ledgerAccountID i ''USD'') ''purchase'')) (\<lambda>usdTxs.
     bindE (ListTransactions (txFilterBy (ledgerAccountID i ''USDC'') ''purchase'')) (\<lambda>usdcTxs.
     (let groups = fold (groupTx i) (usdTxs @ usdcTxs) []
      in returnE (map (\<lambda>pid. the (map_of groups pid)) (rev (sort (map fst groups)))))))"

end
