(* ===== verification/Ledger_Client.thy ===== *)
theory Ledger_Client
  imports Ledger_Steps
begin

text \<open>
  The ledger as the services above it use it: \<open>PostAndFinalize\<close> adds the entries of a transaction
  to the journal or leaves it alone, and keeps everything else a client looks at. A transfer
  between two accounts of one currency is always accepted, and moves the two balances.
\<close>

section \<open>What an operation adds to the journal\<close>

definition posted :: "Entry list \<Rightarrow> 'z ledger_scheme \<Rightarrow> 'z ledger_scheme \<Rightarrow> bool" where
  "posted es s s' \<longleftrightarrow> ledger_inv s' \<and> journal (st_events s') = journal (st_events s) @ es \<and>
     now s' = now s \<and> lg_rates s' = lg_rates s \<and> en_cache s' = en_cache s \<and>
     en_evaluators s' = en_evaluators s \<and> rand s' = rand s \<and>
     pj_accounts (lg_proj s') = pj_accounts (lg_proj s)"

lemma posted_refl: "ledger_inv s \<Longrightarrow> posted [] s s"
  by (simp add: posted_def)

lemma posted_trans: "posted es s s' \<Longrightarrow> posted fs s' s'' \<Longrightarrow> posted (es @ fs) s s''"
  by (simp add: posted_def)

lemma finalProj_accounts [simp]: "pj_accounts (finalProj t p) = pj_accounts p"
  by (simp add: finalProj_def)

lemma posted_withProj:
  assumes "withProj p es s s'" and "ledger_inv s'" and "pj_accounts p = pj_accounts (lg_proj s)"
  shows "posted es s s'"
  using assms by (auto simp: posted_def withProj_def)

lemma PostAndFinalize_posted:
  assumes inv: "ledger_inv s" and ty: "tx_typed tx" and run: "PostAndFinalize tx s = (Inr t, s')"
  shows "posted (tx_Entries tx) s s'" and "tx_ID t = postID tx s"
    and "map_of (pj_txs (lg_proj s')) (postID tx s) = Some ((pending tx s)\<lparr>tx_Status := StatusFinal\<rparr>)"
proof -
  note app = PostAndFinalize_app [OF inv ty]
  have v: "validate (lg_proj s) tx = Inr ()" using app(1) run by (cases "validate (lg_proj s) tx") auto
  moreover have "timeOK (now s)" using app(2) [OF v] run by (cases "timeOK (now s)") auto
  ultimately obtain u where u: "PostAndFinalize tx s = (Inr ((pending tx s)\<lparr>tx_Status := StatusFinal\<rparr>), u)"
    and inv': "ledger_inv u" and w: "withProj (finalProj (pending tx s) (lg_proj s)) (tx_Entries tx) s u"
    using app(3) by blast
  have "posted (tx_Entries tx) s u" by (rule posted_withProj [OF w inv']) (simp add: finalProj_def)
  then show "posted (tx_Entries tx) s s'" "tx_ID t = postID tx s"
    using run u by (auto simp: pending_def)
  show "map_of (pj_txs (lg_proj s')) (postID tx s) = Some ((pending tx s)\<lparr>tx_Status := StatusFinal\<rparr>)"
    using run u withProjD(1) [OF w, of "postID tx s"]
    by (simp add: finalProj_def statusProj_txs) (simp add: pending_def)
qed

text \<open>
  A transfer, one debit and one credit of the same positive amount on two accounts of its currency,
  is always accepted; what it does to the balances of the two accounts.
\<close>

lemma transfer_valid:
  assumes "tx_Entries tx = [mkEntry a Debit amt, mkEntry b Credit amt]" and "tx_Currency tx = am_Currency amt"
    and "map_of (pj_accounts p) a = Some x" "map_of (pj_accounts p) b = Some y"
    and "ac_Currency x = am_Currency amt" "ac_Currency y = am_Currency amt"
    and "Currencies (am_Currency amt) \<noteq> None" and "0 < am_Minor amt" "in64 (am_Minor amt)"
  shows "validate p tx = Inr ()" and "tx_typed tx"
  using assms by (auto simp: validate_def ofOption_def mkEntry_def tx_typed_def)

lemma transfer_runs:
  assumes inv: "ledger_inv s" and ok: "timeOK (now s)"
    and tx: "tx_Entries tx = [mkEntry a Debit amt, mkEntry b Credit amt]" "tx_Currency tx = am_Currency amt"
    and accs: "map_of (pj_accounts (lg_proj s)) a = Some x" "map_of (pj_accounts (lg_proj s)) b = Some y"
      "ac_Currency x = am_Currency amt" "ac_Currency y = am_Currency amt"
    and amt: "Currencies (am_Currency amt) \<noteq> None" "0 < am_Minor amt" "in64 (am_Minor amt)"
  obtains t s' where "PostAndFinalize tx s = (Inr t, s')" and "posted (tx_Entries tx) s s'"
    and "tx_ID t = postID tx s"
    and "\<And>i. debitOf (lg_proj s') i = (if i = a then wrap64 (debitOf (lg_proj s) i + am_Minor amt) else debitOf (lg_proj s) i)"
    and "\<And>i. creditOf (lg_proj s') i = (if i = b then wrap64 (creditOf (lg_proj s) i + am_Minor amt) else creditOf (lg_proj s) i)"
proof -
  note v = transfer_valid [OF tx accs amt]
  obtain s' where run: "PostAndFinalize tx s = (Inr ((pending tx s)\<lparr>tx_Status := StatusFinal\<rparr>), s')"
    and w: "withProj (finalProj (pending tx s) (lg_proj s)) (tx_Entries tx) s s'"
    using PostAndFinalize_app(3) [OF inv v(2) v(1) ok] by blast
  from w obtain n where p: "lg_proj s' = (finalProj (pending tx s) (lg_proj s))\<lparr>pj_lastSeq := n\<rparr>"
    by (auto simp: withProj_def)
  have "statusProj j st q = q \<or> (\<exists>txs. statusProj j st q = q\<lparr>pj_txs := txs\<rparr>)" for j st q
    by (cases "map_of (pj_txs q) j") (auto simp: statusProj_def)
  then have d: "debitOf (finalProj t q) = debitOf (postedProj t q)" "creditOf (finalProj t q) = creditOf (postedProj t q)" for t q
    unfolding finalProj_def debitOf_def creditOf_def by (metis projection.select_convs projection.update_convs projection.surjective)+
  show thesis
    by (rule that [OF run PostAndFinalize_posted(1) [OF inv v(2) run]])
      (use w in \<open>auto simp: pending_def withProj_def p d postedProj_def tx addEntry_def mkEntry_def debitOf_def creditOf_def getOr_addTo\<close>)
qed

lemma naturalBalance_eq:
  "naturalBalance p acc = (if NormalBalance (ac_Type acc) = Debit then wrap64 (debitOf p (ac_ID acc) - creditOf p (ac_ID acc))
     else wrap64 (creditOf p (ac_ID acc) - debitOf p (ac_ID acc)))"
  by (simp add: naturalBalance_def Let_def debitOf_def creditOf_def)

section \<open>Clients that move money\<close>

text \<open>
  The contract of \<open>PostAndFinalize\<close> for a service that calls it: what succeeds adds the entries to
  the journal, what fails adds nothing, and the rest of what the client looks at stays. It makes a
  loop of transfers that stops at the first error add the entries of a prefix.
\<close>

locale atomic_transfers =
  fixes transfer :: "'t \<Rightarrow> ('s, 'r) oper"
    and inv :: "'s \<Rightarrow> bool"
    and ok :: "'t \<Rightarrow> bool"
    and entries :: "'t \<Rightarrow> 'e list"
    and jr :: "'s \<Rightarrow> 'e list"
    and view :: "'s \<Rightarrow> 'f"
  assumes transfer_Inr: "inv s \<Longrightarrow> ok t \<Longrightarrow> transfer t s = (Inr r, s') \<Longrightarrow>
      inv s' \<and> jr s' = jr s @ entries t \<and> view s' = view s"
    and transfer_Inl: "inv s \<Longrightarrow> ok t \<Longrightarrow> transfer t s = (Inl e, s') \<Longrightarrow>
      inv s' \<and> jr s' = jr s \<and> view s' = view s"
begin

lemma transfer_keeps: "ok t \<Longrightarrow> preserves (\<lambda>s. inv s \<and> view s = v) (transfer t)"
proof (rule preservesI)
  fix s assume t: "ok t" and s: "inv s \<and> view s = v"
  obtain r s' where run: "transfer t s = (r, s')" by (cases "transfer t s")
  show "inv (snd (transfer t s)) \<and> view (snd (transfer t s)) = v"
  proof (cases r)
    case (Inl e)
    then show ?thesis using transfer_Inl [OF _ t run [unfolded Inl]] s run by simp
  next
    case (Inr x)
    then show ?thesis using transfer_Inr [OF _ t run [unfolded Inr]] s run by simp
  qed
qed

lemma transfers_prefix:
  assumes "inv s" and "\<forall>t \<in> set ts. ok t" and "mapE transfer ts s = (res, s')"
  shows "\<exists>k \<le> length ts. inv s' \<and> jr s' = jr s @ concat (map entries (take k ts)) \<and> view s' = view s \<and>
    (\<not> isl res \<longrightarrow> k = length ts)"
  using assms
proof (induction ts arbitrary: s res)
  case Nil
  then show ?case by (simp add: op_simps)
next
  case (Cons t ts)
  obtain r s1 where run: "transfer t s = (r, s1)" by (cases "transfer t s")
  show ?case
  proof (cases r)
    case (Inl e)
    with run Cons.prems have "res = Inl e" "s' = s1" by (simp_all add: op_simps)
    moreover have "inv s1 \<and> jr s1 = jr s \<and> view s1 = view s"
      using transfer_Inl [of s t e s1] Cons.prems run Inl by simp
    ultimately show ?thesis by (intro exI [of _ 0]) simp
  next
    case (Inr x)
    have s1: "inv s1 \<and> jr s1 = jr s @ entries t \<and> view s1 = view s"
      using transfer_Inr [of s t x s1] Cons.prems run Inr by simp
    have "bindE (mapE transfer ts) (\<lambda>ys. returnE (x # ys)) s1 = (res, s')"
      using Cons.prems(3) run Inr by (simp add: bindE_def)
    then obtain res' where "mapE transfer ts s1 = (res', s')" "isl res' = isl res"
      by (cases "mapE transfer ts s1"; cases "fst (mapE transfer ts s1)") (auto simp: bindE_def returnE_def)
    then obtain k where "k \<le> length ts" "inv s'" "jr s' = jr s1 @ concat (map entries (take k ts))"
      "view s' = view s1" "\<not> isl res \<longrightarrow> k = length ts"
      using Cons.IH [of s1 res'] s1 Cons.prems(2) by auto
    then show ?thesis using s1 by (intro exI [of _ "Suc k"]) simp
  qed
qed

end

text \<open>What the services read beside the journal.\<close>

definition clientView :: "'z ledger_scheme \<Rightarrow>
    instant \<times> RateProvider option \<times> (string \<times> Rule) list \<times> (string \<times> Evaluator) list \<times> (nat \<Rightarrow> string) \<times>
    (string \<times> Account) list" where
  "clientView s = (now s, lg_rates s, en_cache s, en_evaluators s, rand s, pj_accounts (lg_proj s))"

lemma posted_view:
  "posted es s s' \<longleftrightarrow> ledger_inv s' \<and> journal (st_events s') = journal (st_events s) @ es \<and> clientView s' = clientView s"
  by (auto simp: posted_def clientView_def)

interpretation ledger_transfers: atomic_transfers PostAndFinalize ledger_inv tx_typed tx_Entries
  "\<lambda>s. journal (st_events s)" clientView
proof unfold_locales
  fix s s' :: "'z ledger_scheme" and tx t e
  assume inv: "ledger_inv s" and ty: "tx_typed tx"
  show "ledger_inv s' \<and> journal (st_events s') = journal (st_events s) @ tx_Entries tx \<and> clientView s' = clientView s"
    if "PostAndFinalize tx s = (Inr t, s')"
    using PostAndFinalize_posted(1) [OF inv ty that] by (simp add: posted_view)
  show "ledger_inv s' \<and> journal (st_events s') = journal (st_events s) \<and> clientView s' = clientView s"
    if run: "PostAndFinalize tx s = (Inl e, s')"
  proof (cases "validate (lg_proj s) tx")
    case (Inl f)
    then show ?thesis using PostAndFinalize_app(1) [OF inv ty Inl] run inv by simp
  next
    case (Inr u)
    then show ?thesis
      using PostAndFinalize_app(2,3) [OF inv ty] run inv
      by (cases "timeOK (now s)") (auto simp: ledger_inv_frame clientView_def)
  qed
qed

section \<open>Reads and rules\<close>

lemma Balance_app [op_simps]:
  "ledger_synced s \<Longrightarrow> Balance i s =
     (ofOption ErrNotFound (map_option (\<lambda>acc. mkAmount (ac_Currency acc) (naturalBalance (lg_proj s) acc))
        (map_of (pj_accounts (lg_proj s)) i)), s)"
  by (cases "map_of (pj_accounts (lg_proj s)) i") (simp_all add: Balance_def op_simps ofOption_def)

lemma Evaluate_frame:
  assumes "Evaluate r ty i input s = (res, s')"
  shows "lg_proj s' = lg_proj s \<and> st_events s' = st_events s \<and> now s' = now s \<and> lg_rates s' = lg_rates s \<and>
    en_cache s' = en_cache s \<and> en_evaluators s' = en_evaluators s \<and> st_seq s' = st_seq s \<and> rand s' = rand s"
  using assms
  by (auto simp: Evaluate_def GetRule_def getEvaluator_def ofOption_def ctxR_def ctxE_def bindE_def
      InsertRuleApplication_def op_simps Let_def split: option.splits sum.splits prod.splits if_splits)

lemma Evaluate_output:
  assumes "Evaluate r ty i input s = (Inr d, s')"
  shows "\<exists>rule ev. map_of (en_cache s) r = Some rule \<and> getEvaluator s (ru_RuleType rule) = Some ev \<and>
    ev (ru_Content rule) input = Inr (de_Output d)"
  using assms
  by (auto simp: Evaluate_def GetRule_def ofOption_def ctxR_def bindE_def op_simps
      split: option.splits sum.splits prod.splits if_splits)

lemma Evaluate_runs:
  assumes "map_of (en_cache s) r = Some rule" and "getEvaluator s (ru_RuleType rule) = Some ev"
    and "ev (ru_Content rule) input = Inr out" and "marshal (GMap input) \<noteq> None" and "marshal (GMap out) \<noteq> None"
  shows "\<exists>d s'. Evaluate r ty i input s = (Inr d, s') \<and> de_Output d = out"
  using assms
  by (auto simp: Evaluate_def GetRule_def ofOption_def ctxE_def bindE_def InsertRuleApplication_def op_simps Let_def
      split: sum.splits prod.splits)

lemma ledger_inv_cong:
  "lg_proj t = lg_proj s \<Longrightarrow> st_events t = st_events s \<Longrightarrow> st_seq t = st_seq s \<Longrightarrow> ledger_inv t = ledger_inv s"
  by (simp add: ledger_inv_def ledger_synced_def log_wf_def)

text \<open>
  \<open>sound v\<close>: the ledger's invariant holds and what the services read beside the journal is \<open>v\<close>.
  Transfers, reads and the evaluation of rules keep it whatever they return.
\<close>

definition sound :: "instant \<times> RateProvider option \<times> (string \<times> Rule) list \<times> (string \<times> Evaluator) list \<times>
    (nat \<Rightarrow> string) \<times> (string \<times> Account) list \<Rightarrow> 'z ledger_scheme \<Rightarrow> bool" where
  "sound v s \<longleftrightarrow> ledger_inv s \<and> clientView s = v"

lemma sound_PostAndFinalize [pres]: "tx_typed tx \<Longrightarrow> preserves (sound v) (PostAndFinalize tx)"
  using ledger_transfers.transfer_keeps [of tx v] by (simp add: sound_def [abs_def])

lemma sound_reads [pres]:
  "preserves (sound v) (Balance i)" "preserves (sound v) (GetAccount i)" "preserves (sound v) (ListTransactions f)"
  "preserves (sound v) ListAccounts" "preserves (sound v) Now"
  by (auto simp: preserves_def sound_def op_simps ledger_inv_synced GetAccount_def ListTransactions_def
      ListAccounts_def Now_def ledger_inv_frame clientView_def)

lemma sound_Evaluate [pres]: "preserves (sound v) (Evaluate r ty i input)"
proof (rule preservesI)
  fix s :: "'a ledger_scheme"
  assume s: "sound v s"
  obtain res s' where run: "Evaluate r ty i input s = (res, s')" by (cases "Evaluate r ty i input s")
  show "sound v (snd (Evaluate r ty i input s))"
    using s Evaluate_frame [OF run] ledger_inv_cong [of s' s] by (simp add: sound_def run clientView_def)
qed

end
