(* ===== verification/Acct_Props.thy ===== *)
theory Acct_Props
  imports Acct_Service Ledger_Client
begin

text \<open>
  The properties of customer accounts. Every operation of the service keeps the ledger's invariant;
  an approved purchase grows the journal by exactly the legs on its receipt, which add up to the
  price; a declined one leaves the ledger alone; seeding twice is seeding once.
\<close>

section \<open>Purchases\<close>

text \<open>The entries a leg on the receipt stands for.\<close>

definition legEntries :: "string \<Rightarrow> Funding \<Rightarrow> Entry list" where
  "legEntries customer f =
     (let amt = mkAmount (fu_Currency f) (fu_AmountMinor f)
      in [mkEntry (ledgerAccountID customer (fu_Currency f)) Debit amt,
          mkEntry (''merchant-settlement-'' @ ToLower (fu_Currency f)) Credit amt])"

lemma ToLower_currencies [simp]: "ToLower ''USD'' = ''usd''" "ToLower ''USDC'' = ''usdc''"
  by code_simp+

lemma typed_purchaseTx: "tx_typed (purchaseTx m a b amt meta) = in64 (am_Minor amt)"
  by (simp add: tx_typed_def purchaseTx_def newTx_def mkEntry_def)

lemma entries_purchaseTx [simp]: "tx_Entries (purchaseTx m a b amt meta) = [mkEntry a Debit amt, mkEntry b Credit amt]"
  by (simp add: purchaseTx_def newTx_def)

lemma fundingLeg_fields [simp]:
  "asMap (fundingLeg c n p) = Some [(''currency'', GStr c), (''usd_equivalent_cents'', GInt64 n), (''share_pct'', GInt p)]"
  by (simp add: fundingLeg_def)

text \<open>The amount a leg takes from the customer's account in its currency.\<close>

definition legAmount :: "'z ledger_scheme \<Rightarrow> string \<Rightarrow> int64 \<Rightarrow> int64 \<Rightarrow> bool" where
  "legAmount s c n m \<longleftrightarrow>
     (c = ''USD'' \<and> m = n \<or> c = ''USDC'' \<and> (\<exists>q. Quote s ''USD'' ''USDC'' n = Inr q \<and> m = am_Minor (fq_To q)))"

lemma legAmount_cong:
  "lg_rates t = lg_rates s \<Longrightarrow> en_cache t = en_cache s \<Longrightarrow> now t = now s \<Longrightarrow> legAmount t c n m = legAmount s c n m"
  using Quote_cong [of t s "''USD''" "''USDC''" n] by (simp add: legAmount_def)

lemma purchaseLeg_posted:
  assumes inv: "ledger_inv s" and n: "in64 n"
    and run: "purchaseLeg req m pid mr d (fundingLeg c n p) s = (Inr (i, f), s')"
  shows "posted (legEntries (pq_AccountID req) f) s s'"
    and "fu_Currency f = c" "fu_UsdEquivalentCents f = n" "fu_SharePct f = p" "legAmount s c n (fu_AmountMinor f)"
proof -
  let ?meta = "purchaseMeta pid m (pq_AmountCents req) mr d n p"
  note run' = run [unfolded purchaseLeg_def, simplified numField_def Let_def, simplified]
  consider (usd) "c = ''USD''" | (usdc) "c = ''USDC''"
    using run' by (auto simp: bindE_eq_Inr op_simps split: if_splits)
  then have "posted (legEntries (pq_AccountID req) f) s s' \<and> fu_Currency f = c \<and> fu_UsdEquivalentCents f = n \<and>
      fu_SharePct f = p \<and> legAmount s c n (fu_AmountMinor f)"
  proof cases
    case usd
    then obtain t where t: "PostAndFinalize (purchaseTx m (ledgerAccountID (pq_AccountID req) ''USD'')
        ''merchant-settlement-usd'' (mkAmount ''USD'' n) ?meta) s = (Inr t, s')"
      and f: "f = mkFunding (mkAmount ''USD'' n) n p"
      using run' by (auto simp: bindE_eq_Inr op_simps Let_def)
    show ?thesis
      using PostAndFinalize_posted(1) [OF inv _ t] n usd
      by (simp add: typed_purchaseTx f mkFunding_def legEntries_def legAmount_def Let_def)
  next
    case usdc
    then obtain q t where q: "Quote s ''USD'' ''USDC'' n = Inr q"
      and t: "PostAndFinalize (purchaseTx m (ledgerAccountID (pq_AccountID req) ''USDC'')
        ''merchant-settlement-usdc'' (fq_To q) ?meta) s = (Inr t, s')"
      and f: "f = mkFunding (fq_To q) n p"
      using run' by (auto simp: bindE_eq_Inr op_simps Let_def)
    have "in64 (am_Minor (fq_To q))" "am_Currency (fq_To q) = ''USDC''" using q by (auto elim: Quote_InrE)
    moreover from this(2) obtain k where "fq_To q = mkAmount ''USDC'' k"
      by (cases "fq_To q") (auto simp: mkAmount_def)
    ultimately show ?thesis
      using PostAndFinalize_posted(1) [OF inv _ t] usdc q
      by (simp add: typed_purchaseTx f mkFunding_def legEntries_def legAmount_def Let_def)
  qed
  then show "posted (legEntries (pq_AccountID req) f) s s'"
    "fu_Currency f = c" "fu_UsdEquivalentCents f = n" "fu_SharePct f = p" "legAmount s c n (fu_AmountMinor f)"
    by auto
qed

definition legTriple :: "Funding \<Rightarrow> string \<times> int64 \<times> int" where
  "legTriple f = (fu_Currency f, fu_UsdEquivalentCents f, fu_SharePct f)"

definition chargedAtQuote :: "'z ledger_scheme \<Rightarrow> Funding \<Rightarrow> bool" where
  "chargedAtQuote s f \<longleftrightarrow> legAmount s (fu_Currency f) (fu_UsdEquivalentCents f) (fu_AmountMinor f)"

lemma purchaseLegs_posted:
  assumes "ledger_inv s" and "list_all (\<lambda>(c, n, p). in64 n) legs"
    and "mapE (purchaseLeg req m pid mr d) (map (\<lambda>(c, n, p). fundingLeg c n p) legs) s = (Inr out, s')"
  shows "posted (concat (map (legEntries (pq_AccountID req)) (map snd out))) s s'"
    and "map legTriple (map snd out) = legs" and "list_all (chargedAtQuote s) (map snd out)"
  using assms
proof (atomize (full), induction legs arbitrary: s out)
  case Nil
  then show ?case by (simp add: op_simps posted_refl)
next
  case (Cons l legs)
  obtain c n p where l: "l = (c, n, p)" by (cases l)
  from Cons.prems(3) obtain i f s1 out' where
    1: "purchaseLeg req m pid mr d (fundingLeg c n p) s = (Inr (i, f), s1)"
    and 2: "mapE (purchaseLeg req m pid mr d) (map (\<lambda>(c, n, p). fundingLeg c n p) legs) s1 = (Inr out', s')"
    and out: "out = (i, f) # out'"
    by (auto simp: l bindE_eq_Inr op_simps)
  have n: "in64 n" using Cons.prems(2) by (simp add: l)
  note leg = purchaseLeg_posted [OF Cons.prems(1) n 1]
  have s1: "ledger_inv s1" and same: "chargedAtQuote s1 = chargedAtQuote s"
    using leg(1) by (auto simp: posted_def chargedAtQuote_def fun_eq_iff legAmount_cong [of s1 s])
  from Cons.IH [OF s1 _ 2] Cons.prems(2)
  have IH: "posted (concat (map (legEntries (pq_AccountID req)) (map snd out'))) s1 s'"
    "map legTriple (map snd out') = legs" "list_all (chargedAtQuote s1) (map snd out')" by auto
  have "legTriple f = l" "chargedAtQuote s f" using leg(2-) by (simp_all add: l legTriple_def chargedAtQuote_def)
  with IH posted_trans [OF leg(1) IH(1)] show ?case by (simp add: out same)
qed

text \<open>
  \<open>main.go\<close> registers \<open>EvaluateWaterfall\<close> for the type of the waterfall rule: whatever version of the
  rule is live, purchases are decided by it.
\<close>

definition waterfall_wired :: "'z ledger_scheme \<Rightarrow> bool" where
  "waterfall_wired s \<longleftrightarrow> (\<forall>rule. map_of (en_cache s) spendWaterfallRuleID = Some rule \<longrightarrow>
     getEvaluator s (ru_RuleType rule) = Some EvaluateWaterfall)"

text \<open>What a customer can spend: the dollars, and the stablecoins at the current quote.\<close>

definition spendable :: "'z ledger_scheme \<Rightarrow> string \<Rightarrow> int64 \<Rightarrow> int64 \<Rightarrow> bool" where
  "spendable s customer usd usdc \<longleftrightarrow>
     (\<exists>u c q. map_of (pj_accounts (lg_proj s)) (ledgerAccountID customer ''USD'') = Some u \<and>
        map_of (pj_accounts (lg_proj s)) (ledgerAccountID customer ''USDC'') = Some c \<and>
        usd = naturalBalance (lg_proj s) u \<and>
        Quote s ''USDC'' ''USD'' (naturalBalance (lg_proj s) c) = Inr q \<and> usdc = am_Minor (fq_To q))"

lemma newPurchaseID_app [op_simps]:
  "newPurchaseID s = (Inr (pad20 (wrap64 (wall s)) @ ''-'' @ rand s (drawn s)), s\<lparr>drawn := drawn s + 1\<rparr>)"
  by (simp add: newPurchaseID_def op_simps)

text \<open>A purchase that returns a receipt, step by step.\<close>

lemma settlePurchase_Inr:
  assumes "settlePurchase req m pid d s1 = (Inr (r, e), s')"
  shows "rc_AmountCents r = pq_AmountCents req" and "rc_AccountID r = pq_AccountID req"
    and "(if strOr (gget (de_Output d) ''decision'') = ''approved''
      then e = None \<and> rc_Status r = ''approved'' \<and>
        (\<exists>raw legs. gget (de_Output d) ''funding'' = GList raw \<and> raw \<noteq> [] \<and>
           mapE (purchaseLeg req m pid (strOr (gget (de_Output d) ''matched_rule'')) d) raw s1 = (Inr legs, s') \<and>
           rc_FundedBy r = map snd legs \<and> rc_LedgerTransactionIDs r = map fst legs)
      else e = Some (EAccount ErrDeclined) \<and> rc_Status r = ''declined'' \<and> rc_FundedBy r = [] \<and>
        rc_LedgerTransactionIDs r = [] \<and> s' = s1)"
  using assms
  by (cases "gget (de_Output d) ''funding''";
      auto simp: settlePurchase_def Let_def bindE_eq_Inr op_simps Now_def split: if_splits)+

lemma Purchase_InrE:
  assumes inv: "ledger_inv s" and run: "Purchase req s = (Inr (r, e), s')"
  obtains usd usdc pid d s1 m where
    "0 < pq_AmountCents req" "spendable s (pq_AccountID req) usd usdc"
    "Evaluate spendWaterfallRuleID ''purchase'' pid (purchaseInput (pq_AmountCents req) usd usdc)
       (s\<lparr>drawn := drawn s + 1\<rparr>) = (Inr d, s1)"
    "settlePurchase req m pid d s1 = (Inr (r, e), s')"
proof -
  from run ledger_inv_synced [OF inv] that show thesis
    by (auto simp: Purchase_def Let_def bindE_eq_Inr ctxE_eq_Inr op_simps ofOption_def spendable_def
        split: option.splits if_splits)
qed

lemma member_le_sum:
  fixes f :: "'a \<Rightarrow> int"
  assumes "\<forall>x \<in> set xs. 0 \<le> f x" and "x \<in> set xs"
  shows "f x \<le> sum_list (map f xs)"
  using assms
proof (induction xs)
  case (Cons a xs)
  then have "0 \<le> sum_list (map f xs)" by (intro sum_list_nonneg) auto
  with Cons show ?case by auto
qed simp

lemma funds_in64:
  assumes "funds amount usd usdc legs" and "amount * 100 \<le> max64"
  shows "list_all (\<lambda>(c, n, p). in64 n) legs"
proof -
  have pos: "\<forall>x \<in> set legs. 0 \<le> (\<lambda>(c, n, p). n) x"
    using assms(1) by (auto simp: funds_def list_all_iff)
  have "in64 n" if "(c, n, p) \<in> set legs" for c n p
    using member_le_sum [OF pos that] pos that assms by (auto simp: funds_def in64_def min64_def)
  then show ?thesis by (auto simp: list_all_iff)
qed

lemma purchaseInput_fields [simp]:
  "numField (gget (purchaseInput a u c) ''amount_cents'') = Inr a"
  "numField (gget (purchaseInput a u c) ''usd_balance_cents'') = Inr u"
  "numField (gget (purchaseInput a u c) ''usdc_balance_usd_equivalent_cents'') = Inr c"
  by (simp_all add: purchaseInput_def numField_def)

lemma waterfall_covered:
  assumes "EvaluateWaterfall content (purchaseInput amount usd usdc) = Inr out"
    and "strOr (gget out ''decision'') = ''approved''" and "amount * 100 \<le> max64" and "in64 (usd + usdc)"
  shows "\<exists>legs. gget out ''funding'' = fundingOf legs \<and> funds amount usd usdc legs"
proof -
  have pos: "0 < amount" using assms(1) by (auto simp: EvaluateWaterfall_def split: if_splits)
  have d: "gget out ''decision'' = GStr ''approved''"
    using assms(2) by (cases "gget out ''decision''") (auto simp: strOr_def)
  obtain conds where
    "waterfallLoop (boolOr (gget content ''allow_split'')) amount usd usdc conds = Inr out"
    using assms EvaluateWaterfall_eq [OF purchaseInput_fields(1) pos purchaseInput_fields(2,3)]
    by (auto simp: bindR_eq_Inr)
  then show ?thesis using assms pos d waterfallLoop_funds by blast
qed

lemma spendable_unique:
  "spendable s c usd usdc \<Longrightarrow> spendable s c usd' usdc' \<Longrightarrow> usd' = usd \<and> usdc' = usdc"
  by (auto simp: spendable_def)

text \<open>C18: A purchase that returns a receipt is one of two things. Approved: the legs on the receipt
  add up to the price, none exceeds what the customer could spend in its currency, each is charged
  in its currency at the quote, and the journal of the ledger grows by exactly one debit of the
  customer and one credit of the merchants per leg. Declined: the ledger's events and read model
  are untouched. Either way the ledger's invariant holds afterwards. This assumes that the waterfall
  rule, when it is loaded, is of the type that the waterfall evaluator is registered for, that the
  customer's two spendable amounts (dollars and stablecoins quoted in dollars) add up within 64 bits, and that a
  hundred times the price does. Nothing is said of a purchase that fails with an error.\<close>

theorem purchase_outcome:
  assumes inv: "ledger_inv s" and wired: "waterfall_wired s"
    and sp: "spendable s (pq_AccountID req) usd usdc" "in64 (usd + usdc)"
    and price: "pq_AmountCents req * 100 \<le> max64"
    and run: "Purchase req s = (Inr (r, e), s')"
  shows "ledger_inv s' \<and>
    (if e = None
     then rc_Status r = ''approved'' \<and>
       funds (pq_AmountCents req) usd usdc (map legTriple (rc_FundedBy r)) \<and>
       list_all (chargedAtQuote s) (rc_FundedBy r) \<and>
       journal (st_events s') = journal (st_events s) @ concat (map (legEntries (pq_AccountID req)) (rc_FundedBy r))
     else e = Some (EAccount ErrDeclined) \<and> rc_Status r = ''declined'' \<and>
       st_events s' = st_events s \<and> lg_proj s' = lg_proj s)"
proof -
  obtain usd' usdc' pid d s1 m where sp': "spendable s (pq_AccountID req) usd' usdc'"
    and ev: "Evaluate spendWaterfallRuleID ''purchase'' pid (purchaseInput (pq_AmountCents req) usd' usdc')
       (s\<lparr>drawn := drawn s + 1\<rparr>) = (Inr d, s1)"
    and set: "settlePurchase req m pid d s1 = (Inr (r, e), s')"
    by (rule Purchase_InrE [OF inv run])
  have eq: "usd' = usd" "usdc' = usdc" using spendable_unique [OF sp(1) sp'] by auto
  note f = Evaluate_frame [OF ev]
  have inv1: "ledger_inv s1" using inv ledger_inv_cong [of s1 s] f by simp
  have q1: "chargedAtQuote s1 = chargedAtQuote s"
    using f by (simp add: chargedAtQuote_def fun_eq_iff legAmount_cong [of s1 s])
  note st = settlePurchase_Inr(3) [OF set]
  show ?thesis
  proof (cases "strOr (gget (de_Output d) ''decision'') = ''approved''")
    case True
    from Evaluate_output [OF ev] wired obtain content where
      "EvaluateWaterfall content (purchaseInput (pq_AmountCents req) usd usdc) = Inr (de_Output d)"
      by (auto simp: waterfall_wired_def getEvaluator_def eq)
    then obtain legs where legs: "gget (de_Output d) ''funding'' = fundingOf legs"
      "funds (pq_AmountCents req) usd usdc legs"
      using waterfall_covered True price sp(2) by blast
    from st True legs(1) obtain out where
      "mapE (purchaseLeg req m pid (strOr (gget (de_Output d) ''matched_rule'')) d)
         (map (\<lambda>(c, n, p). fundingLeg c n p) legs) s1 = (Inr out, s')" "rc_FundedBy r = map snd out"
      "e = None" "rc_Status r = ''approved''"
      by (auto simp: fundingOf_def)
    with purchaseLegs_posted [OF inv1 funds_in64 [OF legs(2) price]] legs(2) f show ?thesis
      by (auto simp: q1 posted_def)
  next
    case False
    then show ?thesis using st f inv1 by simp
  qed
qed

section \<open>Every operation keeps the books\<close>

lemma sound_newPurchaseID [pres]: "preserves (sound v) newPurchaseID"
  by (auto simp: preserves_def sound_def op_simps ledger_inv_frame clientView_def)

lemma sound_Deposit [pres]: "in64 (am_Minor amt) \<Longrightarrow> preserves (sound v) (Deposit i amt)"
  unfolding Deposit_def
  by (intro pres) (simp add: tx_typed_def depositTx_def newTx_def mkEntry_def)

lemma sound_depositIfEmpty [pres]: "in64 (am_Minor amt) \<Longrightarrow> preserves (sound v) (depositIfEmpty i amt)"
  unfolding depositIfEmpty_def by (intro pres)

text \<open>The legs the waterfall returns are within 64 bits when its input is.\<close>

definition typedLeg :: "gval \<Rightarrow> bool" where
  "typedLeg leg \<longleftrightarrow> (\<exists>c n p. leg = fundingLeg c n p \<and> in64 n)"

definition typedLegs :: "gval \<Rightarrow> bool" where
  "typedLegs v \<longleftrightarrow> (case asList v of None \<Rightarrow> True | Some raw \<Rightarrow> list_all typedLeg raw)"

lemma typedLeg_simp [simp]: "typedLeg (fundingLeg c n p) = in64 n"
  by (auto simp: typedLeg_def fundingLeg_def)

lemma waterfallLoop_typed:
  "waterfallLoop allow amount usd usdc conds = Inr out \<Longrightarrow> in64 amount \<Longrightarrow> 0 < amount \<Longrightarrow>
     typedLegs (gget out ''funding'')"
proof (induction conds)
  case (Cons c cs)
  have split: "typedLegs (gget (approvedSplit r x b y amount) ''funding'')" for r x b y
    using Cons.prems(2,3)
    by (auto simp: approvedSplit_def Let_def typedLegs_def) (simp_all add: in64_def min64_def)
  have single: "typedLegs (gget (approvedSingle r x amount) ''funding'')" for r x
    using Cons.prems(2) by (auto simp: approvedSingle_def typedLegs_def)
  have none: "typedLegs (gget declinedAll ''funding'')"
    by (simp add: declinedAll_def typedLegs_def)
  show ?case
    using Cons single split none by (auto simp: Let_def split: option.splits if_splits)
qed simp


lemma sound_purchaseLeg:
  assumes "typedLeg leg"
  shows "preserves (sound v) (purchaseLeg req m pid mr d leg)"
proof -
  obtain c n p where leg: "leg = fundingLeg c n p" "in64 n" using assms by (auto simp: typedLeg_def)
  then show ?thesis
    by (auto simp: purchaseLeg_def Let_def typed_purchaseTx numField_def liftE_bind elim: Quote_InrE
        intro!: pres preserves_getlift)
qed

lemma sound_settlePurchase:
  assumes "typedLegs (gget (de_Output d) ''funding'')"
  shows "preserves (sound v) (settlePurchase req m pid d)"
  unfolding settlePurchase_def Let_def
  by (intro pres preserves_mapE_on sound_purchaseLeg)
    (use assms in \<open>auto simp: typedLegs_def list_all_iff split: option.splits\<close>)

text \<open>\<open>waterfall_wired\<close> in terms of what a client reads.\<close>

definition wiredView :: "instant \<times> RateProvider option \<times> (string \<times> Rule) list \<times> (string \<times> Evaluator) list \<times>
    (nat \<Rightarrow> string) \<times> (string \<times> Account) list \<Rightarrow> bool" where
  "wiredView v \<longleftrightarrow> (case v of (n, rates, cache, evs, rest) \<Rightarrow>
     \<forall>rule. map_of cache spendWaterfallRuleID = Some rule \<longrightarrow>
       map_of evs (ru_RuleType rule) = Some EvaluateWaterfall)"

lemma wiredView_iff: "wiredView (clientView s) = waterfall_wired s"
  by (simp add: wiredView_def clientView_def waterfall_wired_def getEvaluator_def)

lemma sound_decide:
  assumes "in64 (pq_AmountCents req)" and "wiredView v"
  shows "preserves (sound v) (bindE (ctxE c (Evaluate spendWaterfallRuleID ''purchase'' pid
      (purchaseInput (pq_AmountCents req) usd usdc))) (settlePurchase req m pid))"
proof (rule preserves_bindE_res)
  fix s :: "'a ledger_scheme" and d s'
  assume s: "sound v s" and "ctxE c (Evaluate spendWaterfallRuleID ''purchase'' pid
    (purchaseInput (pq_AmountCents req) usd usdc)) s = (Inr d, s')"
  then have run: "Evaluate spendWaterfallRuleID ''purchase'' pid (purchaseInput (pq_AmountCents req) usd usdc) s = (Inr d, s')"
    by (simp add: ctxE_eq_Inr)
  have "waterfall_wired s" using s assms(2) by (auto simp: sound_def wiredView_iff [symmetric])
  with Evaluate_output [OF run] obtain content where
    out: "EvaluateWaterfall content (purchaseInput (pq_AmountCents req) usd usdc) = Inr (de_Output d)"
    by (auto simp: waterfall_wired_def)
  then have pos: "0 < pq_AmountCents req" by (auto simp: EvaluateWaterfall_def split: if_splits)
  have "typedLegs (gget (de_Output d) ''funding'')"
    using out EvaluateWaterfall_eq [OF purchaseInput_fields(1) pos purchaseInput_fields(2,3)]
      waterfallLoop_typed assms(1) pos by (auto simp: bindR_eq_Inr)
  then show "preserves (sound v) (settlePurchase req m pid d)" by (rule sound_settlePurchase)
qed (intro pres)

lemma sound_Purchase:
  assumes "in64 (pq_AmountCents req)" and "wiredView v"
  shows "preserves (sound v) (Purchase req)"
  unfolding Purchase_def Let_def
  by (intro sound_decide [OF assms] pres)

lemma sound_bulkLoop:
  assumes "wiredView v" and "in64 (bq_MinCents req)"
  shows "preserves (sound v) (bulkLoop rng req n k)"
  using assms
  by (induction n arbitrary: k) (auto simp: Let_def intro!: sound_Purchase pres)

lemma sound_BulkRandomPurchases:
  assumes "wiredView v" and "in64 (bq_MinCents req)"
  shows "preserves (sound v) (BulkRandomPurchases newRand req)"
  unfolding BulkRandomPurchases_def by (intro sound_bulkLoop [OF assms] pres)

lemma seedAmounts: "ParseAmount ''USD'' ''1500.00'' = Inr (mkAmount ''USD'' 150000)"
  "ParseAmount ''USDC'' ''800.000000'' = Inr (mkAmount ''USDC'' 800000000)"
proof -
  have t: "TrimSpace ''1500.00'' = ''1500.00''" "TrimSpace ''800.000000'' = ''800.000000''" by code_simp+
  show "ParseAmount ''USD'' ''1500.00'' = Inr (mkAmount ''USD'' 150000)"
    "ParseAmount ''USDC'' ''800.000000'' = Inr (mkAmount ''USDC'' 800000000)"
    by (simp_all add: ParseAmount_def parseDecimalToMinor_def parseBody_def t isDigits_def isDigitChar_def
        TrimLeft_def ParseInt_def decVal_def digitVal_def in64_def min64_def max64_def ofOption_def Let_def)
qed

lemma Seed_eq:
  "Seed = bindE (openCustomerAccount DemoAccountID DemoOwnerID) (\<lambda>_.
     bindE (depositIfEmpty DemoAccountID (mkAmount ''USD'' 150000)) (\<lambda>_.
     depositIfEmpty DemoAccountID (mkAmount ''USDC'' 800000000)))"
  by (simp add: Seed_def seedAmounts liftE_bind)

section \<open>A sample shop\<close>

text \<open>
  A customer with 0.005008 USDC and no dollars, at 0.9985 dollars per USDC. Half a cent and a bit is
  worth one cent when rounded half up, so one cent can be spent.
\<close>

definition sampleShop0 :: ledger where
  "sampleShop0 = sampleBank0\<lparr>
     en_cache := [(''fx_policy'', ruleFromContent '''' samplePolicy),
       (''spend_waterfall'', ruleFromContent '''' ((''rule_type'', GStr ''spend_waterfall'') # sampleWaterfall))],
     en_evaluators := [(''spend_waterfall'', EvaluateWaterfall)]\<rparr>"

definition sampleShop1 :: ledger where
  "sampleShop1 =
     snd (OpenAccount (sampleAccount ''cust-usd'' ''USD'')
       (snd (OpenAccount (sampleAccount ''cust-usdc'' ''USDC'')
         (snd (OpenAccount (sampleAccount ''merchant-settlement-usdc'' ''USDC'')
           (snd (OpenAccount (sampleAccount ''treasury-cash-usdc'' ''USDC'') sampleShop0)))))))"

definition sampleShopAccounts :: "(string \<times> Account) list" where
  "sampleShopAccounts =
     map (\<lambda>(i, cur). (i, (sampleAccount i cur)\<lparr>ac_OpenedAt := 1700000000 * 1000000000\<rparr>))
       [(''treasury-cash-usdc'', ''USDC''), (''merchant-settlement-usdc'', ''USDC''), (''cust-usdc'', ''USDC''), (''cust-usd'', ''USD'')]"

lemma sampleShop1_proj: "pj_accounts (lg_proj sampleShop1) = sampleShopAccounts" "pj_debit (lg_proj sampleShop1) = []"
  "pj_credit (lg_proj sampleShop1) = []" 
  by code_simp+

lemma sampleShop1_fields:
  "now sampleShop1 = 1700000000 * 1000000000" "lg_rates sampleShop1 = Some (RuleRateProvider ''fx_policy'' False)"
  "en_cache sampleShop1 = en_cache sampleShop0" "rand sampleShop1 = rand sampleShop0" "ledger_inv sampleShop1"
    "en_evaluators sampleShop1 = [(''spend_waterfall'', EvaluateWaterfall)]"
proof -
  have "ledger_inv sampleShop0"
    by (rule ledger_inv_init) (simp add: ledger_init_def sampleShop0_def sampleBank0_def)
  note f = OpenAccount_frame [OF _ refl]
  have "now sampleShop1 = now sampleShop0 \<and> rand sampleShop1 = rand sampleShop0 \<and>
      lg_rates sampleShop1 = lg_rates sampleShop0 \<and> en_cache sampleShop1 = en_cache sampleShop0 \<and>
      en_evaluators sampleShop1 = en_evaluators sampleShop0 \<and> ledger_inv sampleShop1"
    unfolding sampleShop1_def using \<open>ledger_inv sampleShop0\<close> by (simp add: f)
  then show "now sampleShop1 = 1700000000 * 1000000000" "lg_rates sampleShop1 = Some (RuleRateProvider ''fx_policy'' False)"
    "en_cache sampleShop1 = en_cache sampleShop0" "rand sampleShop1 = rand sampleShop0" "ledger_inv sampleShop1"
    "en_evaluators sampleShop1 = [(''spend_waterfall'', EvaluateWaterfall)]"
    by (simp_all add: sampleShop0_def sampleBank0_def)
qed


definition sampleShop :: ledger where
  "sampleShop = snd (Deposit ''cust'' (mkAmount ''USDC'' 5008) sampleShop1)"

lemma sampleShop1_account [simp]:
  "map_of (pj_accounts (lg_proj sampleShop1)) i = map_of sampleShopAccounts i"
  by (simp add: sampleShop1_proj)

lemma sampleShop_run:
  "posted [mkEntry ''treasury-cash-usdc'' Debit (mkAmount ''USDC'' 5008), mkEntry ''cust-usdc'' Credit (mkAmount ''USDC'' 5008)]
     sampleShop1 sampleShop"
  "rand sampleShop = rand sampleShop0" "en_evaluators sampleShop = [(''spend_waterfall'', EvaluateWaterfall)]"
  "debitOf (lg_proj sampleShop) i = (if i = ''treasury-cash-usdc'' then 5008 else 0)"
  "creditOf (lg_proj sampleShop) i = (if i = ''cust-usdc'' then 5008 else 0)"
proof -
  let ?amt = "mkAmount ''USDC'' 5008"
  let ?tx = "depositTx ''cust'' ?amt"
  have e: "tx_Entries ?tx = [mkEntry ''treasury-cash-usdc'' Debit ?amt, mkEntry ''cust-usdc'' Credit ?amt]" "tx_Currency ?tx = am_Currency ?amt"
    by (simp_all add: depositTx_def newTx_def ledgerAccountID_def)
  obtain t s' where r: "PostAndFinalize ?tx sampleShop1 = (Inr t, s')" "posted (tx_Entries ?tx) sampleShop1 s'"
     "\<And>i. debitOf (lg_proj s') i = (if i = ''treasury-cash-usdc'' then wrap64 (debitOf (lg_proj sampleShop1) i + am_Minor ?amt) else debitOf (lg_proj sampleShop1) i)"
     "\<And>i. creditOf (lg_proj s') i = (if i = ''cust-usdc'' then wrap64 (creditOf (lg_proj sampleShop1) i + am_Minor ?amt) else creditOf (lg_proj sampleShop1) i)"
    by (rule transfer_runs [OF sampleShop1_fields(5) _ e])
      (auto simp: sampleShop1_fields timeOK_def sampleShopAccounts_def sampleAccount_def in64_def min64_def max64_def)
  have "GetAccount ''cust-usdc'' sampleShop1 = (Inr (the (map_of sampleShopAccounts ''cust-usdc'')), sampleShop1)"
    using ledger_inv_synced [OF sampleShop1_fields(5)]
    by (simp add: GetAccount_def op_simps ofOption_def) (simp add: sampleShopAccounts_def)
  then have s': "s' = sampleShop"
    by (simp add: sampleShop_def Deposit_def op_simps attemptE_def ledgerAccountID_def r(1))
  show "posted [mkEntry ''treasury-cash-usdc'' Debit ?amt, mkEntry ''cust-usdc'' Credit ?amt] sampleShop1 sampleShop"
    "rand sampleShop = rand sampleShop0" "en_evaluators sampleShop = [(''spend_waterfall'', EvaluateWaterfall)]"
    using r(2) e by (simp_all add: s' sampleShop1_fields posted_def)
  have z: "debitOf (lg_proj sampleShop1) i = 0" "creditOf (lg_proj sampleShop1) i = 0" for i
    by (simp_all add: debitOf_def creditOf_def sampleShop1_proj)
  show "debitOf (lg_proj sampleShop) i = (if i = ''treasury-cash-usdc'' then 5008 else 0)"
  "creditOf (lg_proj sampleShop) i = (if i = ''cust-usdc'' then 5008 else 0)"
    using r(3,4) z by (simp_all add: s' wrap64_def)
qed


lemma Quote_samplePolicy:
  assumes "lg_rates s = Some (RuleRateProvider ''fx_policy'' False)" and "fxContent s ''fx_policy'' = Inr samplePolicy"
  shows "convertMinor n 6 2 99850000 ''half_up'' = Inr m \<Longrightarrow> \<exists>q. Quote s ''USDC'' ''USD'' n = Inr q \<and> fq_To q = mkAmount ''USD'' m"
    and "convertMinor n 2 6 100150225 ''half_up'' = Inr m \<Longrightarrow> \<exists>q. Quote s ''USD'' ''USDC'' n = Inr q \<and> fq_To q = mkAmount ''USDC'' m"
proof -
  have i: "invertScaled 99850000 ''half_up'' = Inr 100150225" by code_simp
  show "convertMinor n 6 2 99850000 ''half_up'' = Inr m \<Longrightarrow> \<exists>q. Quote s ''USDC'' ''USD'' n = Inr q \<and> fq_To q = mkAmount ''USD'' m"
    "convertMinor n 2 6 100150225 ''half_up'' = Inr m \<Longrightarrow> \<exists>q. Quote s ''USD'' ''USDC'' n = Inr q \<and> fq_To q = mkAmount ''USDC'' m"
    using assms by (simp_all add: Quote_def providerRate_def providerMode_def samplePolicy_mode rateFromPolicy_def
        samplePolicy_pair i ofOption_def Let_def)
qed

lemma sampleShop_fields:
  "ledger_inv sampleShop" "now sampleShop = 1700000000 * 1000000000"
  "lg_rates sampleShop = Some (RuleRateProvider ''fx_policy'' False)" "en_cache sampleShop = en_cache sampleShop0"
  "pj_accounts (lg_proj sampleShop) = sampleShopAccounts"
  using sampleShop_run(1) by (simp_all add: posted_def sampleShop1_fields sampleShop1_proj)

lemma sampleShop_spendable: "spendable sampleShop ''cust'' 0 1"
  "\<exists>q. Quote sampleShop ''USD'' ''USDC'' 1 = Inr q \<and> fq_To q = mkAmount ''USDC'' 10015"
proof -
  have "fxContent sampleShop ''fx_policy'' = Inr samplePolicy"
    by (simp add: fxContent_def GetContent_def GetRule_def ofOption_def sampleShop_fields)
      (simp add: sampleShop0_def ruleFromContent_def)
  note q = Quote_samplePolicy [OF sampleShop_fields(3) this]
  have "convertMinor 5008 6 2 99850000 ''half_up'' = Inr 1" "convertMinor 1 2 6 100150225 ''half_up'' = Inr 10015"
    by code_simp+
  from q(1) [OF this(1)] q(2) [OF this(2)]
  show "\<exists>q. Quote sampleShop ''USD'' ''USDC'' 1 = Inr q \<and> fq_To q = mkAmount ''USDC'' 10015"
    and "spendable sampleShop ''cust'' 0 1"
    by (auto simp: spendable_def ledgerAccountID_def sampleShop_fields sampleShopAccounts_def sampleAccount_def
        naturalBalance_eq NormalBalance_def sampleShop_run CustomerDeposit_def LoanReceivable_def TreasuryCash_def TreasuryFX_def LoanLossExpense_def
        Debit_def Credit_def wrap64_def)
qed


definition samplePurchase :: PurchaseRequest where
  "samplePurchase = \<lparr>pq_AccountID = ''cust'', pq_AmountCents = 1, pq_Merchant = ''shop''\<rparr>"

lemma sampleShop_wired: "waterfall_wired sampleShop"
  by (simp add: waterfall_wired_def sampleShop_fields sampleShop_run getEvaluator_def spendWaterfallRuleID_def)
    (auto simp: sampleShop0_def ruleFromContent_def strField_def)

lemma samplePurchase_runs:
  "\<exists>r s'. Purchase samplePurchase sampleShop = (Inr (r, None), s') \<and>
     debitOf (lg_proj s') ''cust-usdc'' = 10015 \<and> creditOf (lg_proj s') ''cust-usdc'' = 5008 \<and>
     pj_accounts (lg_proj s') = sampleShopAccounts \<and> ledger_inv s'"
proof -
  let ?s = "sampleShop\<lparr>drawn := drawn sampleShop + 1\<rparr>"
  let ?pid = "pad20 (wrap64 (wall sampleShop)) @ ''-'' @ rand sampleShop (drawn sampleShop)"
  let ?in = "purchaseInput 1 0 1"
  let ?rule = "ruleFromContent '''' ((''rule_type'', GStr ''spend_waterfall'') # sampleWaterfall)"
  let ?out = "approvedSingle ruleCoinFirst ''USDC'' 1"
  have "EvaluateWaterfall (ru_Content ?rule) ?in = Inr ?out" "marshal (GMap ?in) \<noteq> None" "marshal (GMap ?out) \<noteq> None"
    by code_simp+
  moreover have "map_of (en_cache ?s) spendWaterfallRuleID = Some ?rule"
    by (simp add: sampleShop_fields spendWaterfallRuleID_def) (simp add: sampleShop0_def)
  moreover have "getEvaluator ?s (ru_RuleType ?rule) = Some EvaluateWaterfall"
    by (simp add: getEvaluator_def sampleShop_run ruleFromContent_def strField_def)
  ultimately obtain d s1 where ev: "Evaluate spendWaterfallRuleID ''purchase'' ?pid ?in ?s = (Inr d, s1)" and d: "de_Output d = ?out"
    using Evaluate_runs by blast
  note f = Evaluate_frame [OF ev]
  obtain q where q: "Quote sampleShop ''USD'' ''USDC'' 1 = Inr q" "fq_To q = mkAmount ''USDC'' 10015"
    using sampleShop_spendable(2) by blast
  have q1: "Quote s1 ''USD'' ''USDC'' 1 = Inr q" using q(1) Quote_cong [of s1 sampleShop] f by simp
  let ?meta = "purchaseMeta ?pid ''shop'' 1 (strOr (gget (de_Output d) ''matched_rule'')) d 1 100"
  let ?tx = "purchaseTx ''shop'' ''cust-usdc'' ''merchant-settlement-usdc'' (mkAmount ''USDC'' 10015) ?meta"
  have inv1: "ledger_inv s1" using sampleShop_fields(1) f ledger_inv_cong [of s1 sampleShop] by simp
  obtain t s' where t: "PostAndFinalize ?tx s1 = (Inr t, s')" "posted (tx_Entries ?tx) s1 s'"
    "debitOf (lg_proj s') ''cust-usdc'' = wrap64 (debitOf (lg_proj s1) ''cust-usdc'' + 10015)"
    "creditOf (lg_proj s') ''cust-usdc'' = creditOf (lg_proj s1) ''cust-usdc''"
    by (rule transfer_runs [OF inv1, of ?tx "''cust-usdc''" "mkAmount ''USDC'' 10015" "''merchant-settlement-usdc''"])
      (auto simp: f sampleShop_fields timeOK_def sampleShopAccounts_def sampleAccount_def in64_def min64_def max64_def
        purchaseTx_def newTx_def)
  have leg: "purchaseLeg samplePurchase ''shop'' ?pid (strOr (gget (de_Output d) ''matched_rule'')) d (fundingLeg ''USDC'' 1 100) s1 =
      (Inr (tx_ID t, mkFunding (mkAmount ''USDC'' 10015) 1 100), s')"
    using t(1) by (simp add: purchaseLeg_def numField_def samplePurchase_def op_simps q1 q(2) ledgerAccountID_def Let_def)
  have "asList (gget (de_Output d) ''funding'') = Some [fundingLeg ''USDC'' 1 100]" "strOr (gget (de_Output d) ''decision'') = ''approved''"
    by (simp_all add: d approvedSingle_def)
  with leg have "\<exists>r. settlePurchase samplePurchase ''shop'' ?pid d s1 = (Inr (r, None), s')"
    by (simp add: settlePurchase_def Now_def op_simps Let_def)
  then obtain r where r: "settlePurchase samplePurchase ''shop'' ?pid d s1 = (Inr (r, None), s')" ..
  obtain u c q0 where sp: "map_of sampleShopAccounts ''cust-usd'' = Some u" "map_of sampleShopAccounts ''cust-usdc'' = Some c"
    "naturalBalance (lg_proj sampleShop) u = 0" "Quote sampleShop ''USDC'' ''USD'' (naturalBalance (lg_proj sampleShop) c) = Inr q0"
    "am_Minor (fq_To q0) = 1"
    using sampleShop_spendable(1) by (auto simp: spendable_def ledgerAccountID_def sampleShop_fields)
  have "Purchase samplePurchase sampleShop = (Inr (r, None), s')"
    using sp r ev ledger_inv_synced [OF sampleShop_fields(1)]
    by (simp add: Purchase_def samplePurchase_def Let_def ctxE_def op_simps ledgerAccountID_def sampleShop_fields ofOption_def)
  then show ?thesis using t(2-4) f by (auto simp: sampleShop_run posted_def sampleShop_fields wrap64_def)
qed

theorem purchase_outcome_witness:
  "\<exists>r s'. Purchase samplePurchase sampleShop = (Inr (r, None), s') \<and>
     funds 1 0 1 (map legTriple (rc_FundedBy r)) \<and>
     journal (st_events s') = journal (st_events sampleShop) @ concat (map (legEntries ''cust'') (rc_FundedBy r))"
proof -
  obtain r s' where run: "Purchase samplePurchase sampleShop = (Inr (r, None), s')"
    using samplePurchase_runs by blast
  have "spendable sampleShop (pq_AccountID samplePurchase) 0 1" "in64 (0 + 1)"
    "pq_AmountCents samplePurchase * 100 \<le> max64"
    using sampleShop_spendable by (simp_all add: samplePurchase_def in64_def min64_def max64_def)
  from purchase_outcome [OF sampleShop_fields(1) sampleShop_wired this run] run show ?thesis
    by (auto simp: samplePurchase_def)
qed

text \<open>Rounding can overdraw an account. The balance of 0.005008 USDC is quoted half up at one
  cent, a purchase of one cent is approved and charged at the inverse quote, 0.010015 USDC, and the
  balance of the customer is negative afterwards.\<close>

theorem purchase_can_overdraw:
  "ledger_inv sampleShop \<and> fst (Balance ''cust-usdc'' sampleShop) = Inr (mkAmount ''USDC'' 5008) \<and>
   (\<exists>r s'. Purchase samplePurchase sampleShop = (Inr (r, None), s') \<and>
      fst (Balance ''cust-usdc'' s') = Inr (mkAmount ''USDC'' (- 5007)))"
proof -
  obtain r s' where run: "Purchase samplePurchase sampleShop = (Inr (r, None), s')"
    and b: "debitOf (lg_proj s') ''cust-usdc'' = 10015" "creditOf (lg_proj s') ''cust-usdc'' = 5008"
      "pj_accounts (lg_proj s') = sampleShopAccounts"
    and inv: "ledger_inv s'"
    using samplePurchase_runs by blast
  note simps = op_simps ledger_inv_synced ofOption_def naturalBalance_eq NormalBalance_def sampleAccount_def
    sampleShopAccounts_def CustomerDeposit_def LoanReceivable_def TreasuryCash_def TreasuryFX_def
    LoanLossExpense_def Debit_def Credit_def wrap64_def
  have "fst (Balance ''cust-usdc'' sampleShop) = Inr (mkAmount ''USDC'' 5008)"
    using sampleShop_fields(1,5) by (simp add: simps sampleShop_run)
  moreover have "fst (Balance ''cust-usdc'' s') = Inr (mkAmount ''USDC'' (- 5007))"
    using inv b by (simp add: simps)
  ultimately show ?thesis using run sampleShop_fields(1) by blast
qed

end
