(* ===== verification/Loan_Amortize.thy ===== *)
theory Loan_Amortize
  imports Go_Time Ledger_Fx
begin

text \<open>
  \<open>internal/loan/amortize.go\<close>: the level monthly payment, amortisation schedules and the what-if
  comparison. \<open>big.Rat\<close> is \<open>rat\<close>. The theorems say that the payment is the annuity rounded to a
  cent, that a schedule closes at exactly zero and accounts for every cent of the principal, and
  what each row pays.
\<close>

section \<open>Rounding\<close>

definition StatusScheduled :: string where "StatusScheduled = ''scheduled''"
definition StatusPaid :: string where "StatusPaid = ''paid''"
definition StatusMissed :: string where "StatusMissed = ''missed''"

record Installment =
  in_No :: int64
  in_DueDate :: instant
  in_PaymentCents :: int64
  in_PrincipalCents :: int64
  in_InterestCents :: int64
  in_RemainingPrincipalCents :: int64
  in_Status :: string

definition monthlyRate :: "int64 \<Rightarrow> rat" where
  "monthlyRate annualRateBps = of_int annualRateBps / 120000"

definition ratPow :: "rat \<Rightarrow> int64 \<Rightarrow> rat" where
  "ratPow base n = base ^ nat n"

text \<open>\<open>q.Int64()\<close> of a number out of range is its low 64 bits.\<close>

definition roundHalfUpRat :: "rat \<Rightarrow> int64" where
  "roundHalfUpRat r =
     (let neg = r < 0;
          n = \<bar>fst (quotient_of r)\<bar>; d = \<bar>snd (quotient_of r)\<bar>;
          q = n div d; rem = n mod d;
          q' = (if rem * 2 \<ge> d then q + 1 else q);
          v = wrap64 q'
      in if neg then wrap64 (- v) else v)"

definition roundHalfUpBigInt :: "int \<Rightarrow> int \<Rightarrow> int64" where
  "roundHalfUpBigInt num den = (if den = 0 then 0 else roundHalfUpRat (of_int num / of_int den))"

definition pad2 :: "int \<Rightarrow> string" where
  "pad2 n = (let ds = FormatInt n in replicate (2 - length ds) CHR ''0'' @ ds)"

definition formatHundredthsPct :: "int64 \<Rightarrow> string" where
  "formatHundredthsPct hundredths =
     (let neg = hundredths < 0;
          h = (if neg then wrap64 (- hundredths) else hundredths);
          s = FormatInt (go_quot h 100) @ ''.'' @ pad2 (go_rem h 100)
      in if neg then CHR ''-'' # s else s)"

definition pctHundredths :: "int64 \<Rightarrow> int64 \<Rightarrow> int64" where
  "pctHundredths numerator denominator =
     (if denominator \<le> 0 then 0 else roundHalfUpBigInt (numerator * 10000) denominator)"

section \<open>Payments and schedules\<close>

text \<open>
  The divisor is zero only for a monthly rate of minus two over an even number of months, where
  \<open>big.Rat\<close> panics; the schema of the rule has no negative rate.
\<close>

definition MonthlyPayment :: "int64 \<Rightarrow> int64 \<Rightarrow> int64 \<Rightarrow> int64" where
  "MonthlyPayment principalCents annualRateBps termMonths =
     (if termMonths \<le> 0 \<or> principalCents \<le> 0 then 0
      else
        (let r = monthlyRate annualRateBps
         in if r = 0 then roundHalfUpRat (of_int principalCents / of_int termMonths)
            else
              (let pow = ratPow (1 + r) termMonths
               in roundHalfUpRat (of_int principalCents * r * pow / (pow - 1)))))"

definition interestOn :: "int64 \<Rightarrow> rat \<Rightarrow> int64" where
  "interestOn outstanding r = roundHalfUpRat (of_int outstanding * r)"

definition mkInstallment :: "instant \<Rightarrow> int64 \<Rightarrow> int64 \<Rightarrow> int64 \<Rightarrow> int64 \<Rightarrow> int64 \<Rightarrow> Installment" where
  "mkInstallment originatedAt no pay princ interest outstanding =
     \<lparr>in_No = no, in_DueDate = addMonths originatedAt no, in_PaymentCents = pay, in_PrincipalCents = princ,
      in_InterestCents = interest, in_RemainingPrincipalCents = outstanding, in_Status = StatusScheduled\<rparr>"

text \<open>The loop of \<open>Schedule\<close>, over the numbers of the installments still to be written.\<close>

fun scheduleLoop :: "rat \<Rightarrow> int64 \<Rightarrow> int64 \<Rightarrow> instant \<Rightarrow> int64 list \<Rightarrow> int64 \<Rightarrow> Installment list" where
  "scheduleLoop r payment termMonths originatedAt [] outstanding = []"
| "scheduleLoop r payment termMonths originatedAt (no # nos) outstanding =
     (let interest = interestOn outstanding r;
          princ = (if no = termMonths then outstanding else wrap64 (payment - interest));
          pay = (if no = termMonths then wrap64 (princ + interest) else payment);
          outstanding' = wrap64 (outstanding - princ)
      in mkInstallment originatedAt no pay princ interest outstanding' #
           scheduleLoop r payment termMonths originatedAt nos outstanding')"

definition Schedule :: "int64 \<Rightarrow> int64 \<Rightarrow> int64 \<Rightarrow> instant \<Rightarrow> Installment list" where
  "Schedule principalCents annualRateBps termMonths originatedAt =
     (if termMonths \<le> 0 then []
      else scheduleLoop (monthlyRate annualRateBps) (MonthlyPayment principalCents annualRateBps termMonths)
             termMonths originatedAt [1..termMonths] principalCents)"

section \<open>What if\<close>

record WhatIfRequest =
  wr_ExtraMonthlyCents :: int64
  wr_LumpSumCents :: int64
  wr_LumpSumAtInstallment :: int64

record WhatIfTotals =
  wt_TotalInterestCents :: int64
  wt_PayoffInstallments :: int64

record WhatIfResult =
  wf_Baseline :: WhatIfTotals
  wf_Scenario :: WhatIfTotals
  wf_InterestSavedCents :: int64
  wf_MonthsSaved :: int64

definition totalsOf :: "Installment list \<Rightarrow> WhatIfTotals" where
  "totalsOf sched =
     \<lparr>wt_TotalInterestCents = fold (\<lambda>inst t. wrap64 (t + in_InterestCents inst)) sched 0,
      wt_PayoffInstallments = int (length sched)\<rparr>"

text \<open>The loop of \<open>scheduleWithExtra\<close>, which ends early when nothing is outstanding.\<close>

fun extraLoop :: "rat \<Rightarrow> int64 \<Rightarrow> int64 \<Rightarrow> int64 \<Rightarrow> instant \<Rightarrow> int64 list \<Rightarrow> int64 \<Rightarrow> Installment list" where
  "extraLoop r monthly lumpSum lumpSumAt originatedAt [] outstanding = []"
| "extraLoop r monthly lumpSum lumpSumAt originatedAt (no # nos) outstanding =
     (if outstanding \<le> 0 then []
      else
        (let interest = interestOn outstanding r;
             princ0 = wrap64 (monthly - interest);
             final = (princ0 \<ge> outstanding);
             princ = (if final then outstanding else princ0);
             pay = (if final then wrap64 (princ + interest) else monthly);
             out1 = wrap64 (outstanding - princ);
             out2 = (if no = lumpSumAt \<and> lumpSum > 0
                     then (if lumpSum \<ge> out1 then 0 else wrap64 (out1 - lumpSum)) else out1)
         in mkInstallment originatedAt no pay princ interest out2 #
              extraLoop r monthly lumpSum lumpSumAt originatedAt nos out2))"

definition scheduleWithExtra ::
  "int64 \<Rightarrow> int64 \<Rightarrow> int64 \<Rightarrow> int64 \<Rightarrow> int64 \<Rightarrow> int64 \<Rightarrow> instant \<Rightarrow> int64 \<Rightarrow> Installment list" where
  "scheduleWithExtra principalCents annualRateBps basePayment extraMonthly lumpSum lumpSumAt originatedAt maxInstallments =
     extraLoop (monthlyRate annualRateBps) (wrap64 (basePayment + extraMonthly)) lumpSum lumpSumAt originatedAt
       [1..maxInstallments] principalCents"

definition RunWhatIf :: "int64 \<Rightarrow> int64 \<Rightarrow> int64 \<Rightarrow> instant \<Rightarrow> WhatIfRequest \<Rightarrow> WhatIfResult" where
  "RunWhatIf principalCents annualRateBps termMonths originatedAt req =
     (let baseTotals = totalsOf (Schedule principalCents annualRateBps termMonths originatedAt);
          payment = MonthlyPayment principalCents annualRateBps termMonths;
          maxInstallments = wrap64 (wrap64 (termMonths * 4) + 12);
          scenTotals = totalsOf (scheduleWithExtra principalCents annualRateBps payment (wr_ExtraMonthlyCents req)
            (wr_LumpSumCents req) (wr_LumpSumAtInstallment req) originatedAt maxInstallments)
      in \<lparr>wf_Baseline = baseTotals, wf_Scenario = scenTotals,
          wf_InterestSavedCents = wrap64 (wt_TotalInterestCents baseTotals - wt_TotalInterestCents scenTotals),
          wf_MonthsSaved = wrap64 (wt_PayoffInstallments baseTotals - wt_PayoffInstallments scenTotals)\<rparr>)"

section \<open>The annuity\<close>

lemma roundHalfUpRat_nonneg: "0 \<le> r \<Longrightarrow> roundHalfUpRat r = wrap64 (halfUp r)"
  using quotient_floor(2) [of r] unfolding roundHalfUpRat_def Let_def
  by (simp add: mult.commute split del: if_split)

lemma in64_roundHalfUpRat [simp]: "in64 (roundHalfUpRat r)"
  by (simp add: roundHalfUpRat_def Let_def)

text \<open>
  The reference definition: what is owed after some months when each month adds interest and takes
  the same payment. The annuity is the payment that leaves nothing owed at the end.
\<close>

fun owedAfter :: "rat \<Rightarrow> rat \<Rightarrow> nat \<Rightarrow> rat \<Rightarrow> rat" where
  "owedAfter r pay 0 owed = owed"
| "owedAfter r pay (Suc n) owed = owedAfter r pay n (owed * (1 + r) - pay)"

definition annuity :: "int64 \<Rightarrow> rat \<Rightarrow> nat \<Rightarrow> rat" where
  "annuity p r n = (if r = 0 then of_int p / of_nat n else of_int p * r * (1 + r) ^ n / ((1 + r) ^ n - 1))"

lemma owedAfter_closed:
  "r \<noteq> 0 \<Longrightarrow> owedAfter r pay n owed = owed * (1 + r) ^ n - pay * (((1 + r) ^ n - 1) / r)"
proof (induction n arbitrary: owed)
  case (Suc n)
  have "owedAfter r pay (Suc n) owed = (owed * (1 + r) - pay) * (1 + r) ^ n - pay * (((1 + r) ^ n - 1) / r)"
    using Suc by simp
  also have "\<dots> = owed * (1 + r) ^ Suc n - pay * (((1 + r) ^ Suc n - 1) / r)"
    using Suc.prems by (simp add: field_simps)
  finally show ?case .
qed simp

lemma owedAfter_zero_rate: "owedAfter 0 pay n owed = owed - of_nat n * pay"
  by (induction n arbitrary: owed) (simp_all add: algebra_simps)

lemma pow_gt_1: "0 < (r :: rat) \<Longrightarrow> 0 < n \<Longrightarrow> 1 + r \<le> (1 + r) ^ n"
  by (cases n) (simp_all add: one_le_power mult_le_cancel_left1)

lemma annuity_unique:
  assumes "0 \<le> r" and "0 < n"
  shows "owedAfter r x n (of_int p) = 0 \<longleftrightarrow> x = annuity p r n"
proof (cases "r = 0")
  case True
  then show ?thesis using assms by (auto simp: owedAfter_zero_rate annuity_def field_simps)
next
  case False
  then have "0 < r" using assms by simp
  then have "1 < (1 + r) ^ n" using pow_gt_1 [of r n] assms by linarith
  then show ?thesis using False by (auto simp: owedAfter_closed annuity_def field_simps)
qed

lemma annuity_bounds:
  assumes "0 < p" "0 \<le> r" "0 < n"
  shows "of_int p * r \<le> annuity p r n" "annuity p r n \<le> of_int p * (1 + r)"
proof -
  have "of_int p * r \<le> annuity p r n \<and> annuity p r n \<le> of_int p * (1 + r)"
  proof (cases "r = 0")
    case True
    have "of_int p / of_nat n \<le> (of_int p :: rat)" using assms by (simp add: field_simps)
    then show ?thesis using True assms by (simp add: annuity_def)
  next
    case False
    then have r: "0 < r" using assms by simp
    let ?w = "(1 + r) ^ n"
    have w: "1 + r \<le> ?w" "0 < ?w - 1" using pow_gt_1 [OF r assms(3)] r by linarith+
    have "r * (?w - 1) \<le> r * ?w" using r by simp
    moreover have "r * ?w \<le> (1 + r) * (?w - 1)" using w(1) by (simp add: algebra_simps)
    ultimately have "r \<le> r * ?w / (?w - 1)" "r * ?w / (?w - 1) \<le> 1 + r"
      using w(2) by (simp_all add: pos_le_divide_eq pos_divide_le_eq)
    then have "of_int p * r \<le> of_int p * (r * ?w / (?w - 1))" "of_int p * (r * ?w / (?w - 1)) \<le> of_int p * (1 + r)"
      using assms(1) by (intro mult_left_mono; simp)+
    then show ?thesis using False by (simp add: annuity_def mult.assoc)
  qed
  then show "of_int p * r \<le> annuity p r n" "annuity p r n \<le> of_int p * (1 + r)" by auto
qed

lemma MonthlyPayment_annuity:
  assumes "0 < p" "0 < n" "0 \<le> bps"
  shows "MonthlyPayment p bps n = wrap64 (halfUp (annuity p (monthlyRate bps) (nat n)))"
proof -
  have r: "0 \<le> monthlyRate bps" using assms by (simp add: monthlyRate_def)
  have "0 \<le> annuity p (monthlyRate bps) (nat n)"
    using annuity_bounds(1) [OF assms(1) r, of "nat n"] r assms by (auto intro: order_trans [rotated])
  moreover have "MonthlyPayment p bps n = roundHalfUpRat (annuity p (monthlyRate bps) (nat n))"
    using assms by (simp add: MonthlyPayment_def annuity_def ratPow_def Let_def of_nat_nat)
  ultimately show ?thesis by (simp add: roundHalfUpRat_nonneg)
qed

lemma halfUp_in64: "0 \<le> x \<Longrightarrow> x \<le> 2 ^ 62 \<Longrightarrow> in64 (halfUp x)"
proof -
  assume x: "0 \<le> x" "x \<le> 2 ^ 62"
  have "0 \<le> halfUp x" "halfUp x \<le> 2 ^ 62"
    using halfUp_mono [OF x(1)] halfUp_mono [OF x(2)] halfUp_of_int [of 0] halfUp_of_int [of "2 ^ 62"] by simp_all
  then show "in64 (halfUp x)" by (simp add: in64_def min64_def max64_def)
qed

lemma payment_exact:
  assumes "0 < p" "0 < n" "0 \<le> bps" and fits: "of_int p * (1 + monthlyRate bps) \<le> 2 ^ 62"
  shows "MonthlyPayment p bps n = halfUp (annuity p (monthlyRate bps) (nat n))"
proof -
  have r: "0 \<le> monthlyRate bps" using assms by (simp add: monthlyRate_def)
  have "0 \<le> annuity p (monthlyRate bps) (nat n)" "annuity p (monthlyRate bps) (nat n) \<le> 2 ^ 62"
    using annuity_bounds [OF assms(1) r, of "nat n"] r assms by (auto intro: order_trans [rotated] order_trans)
  then show ?thesis using MonthlyPayment_annuity [OF assms(1-3)] halfUp_in64 by simp
qed


text \<open>C19: The monthly payment is the annuity to the nearest cent: there is exactly one level payment
  that leaves nothing owed after the term, and \<open>MonthlyPayment\<close> is within half a cent of it. (Loans
  that fit in 62 bits with a month of interest.)\<close>

theorem payment_is_the_annuity:
  assumes "0 < principalCents" "0 < termMonths" "0 \<le> annualRateBps"
    and "of_int principalCents * (1 + monthlyRate annualRateBps) \<le> 2 ^ 62"
  shows "\<exists>x. (\<forall>y. owedAfter (monthlyRate annualRateBps) y (nat termMonths) (of_int principalCents) = 0 \<longleftrightarrow> y = x) \<and>
    of_int (MonthlyPayment principalCents annualRateBps termMonths) - 1 / 2 \<le> x \<and>
    x < of_int (MonthlyPayment principalCents annualRateBps termMonths) + 1 / 2"
proof -
  let ?x = "annuity principalCents (monthlyRate annualRateBps) (nat termMonths)"
  have "0 \<le> monthlyRate annualRateBps" using assms by (simp add: monthlyRate_def)
  then have "\<forall>y. owedAfter (monthlyRate annualRateBps) y (nat termMonths) (of_int principalCents) = 0 \<longleftrightarrow> y = ?x"
    using annuity_unique assms by simp
  then show ?thesis using payment_exact [OF assms] halfUp_bounds [of ?x] by (intro exI [of _ ?x]) simp
qed

theorem payment_is_the_annuity_witness:
  "MonthlyPayment 300000 1200 3 = 102007 \<and>
   (\<exists>x. (\<forall>y. owedAfter (monthlyRate 1200) y (nat 3) (of_int 300000) = 0 \<longleftrightarrow> y = x) \<and>
      of_int (MonthlyPayment 300000 1200 3) - 1 / 2 \<le> x \<and> x < of_int (MonthlyPayment 300000 1200 3) + 1 / 2)"
proof
  show "MonthlyPayment 300000 1200 3 = 102007" by code_simp
  show "\<exists>x. (\<forall>y. owedAfter (monthlyRate 1200) y (nat 3) (of_int 300000) = 0 \<longleftrightarrow> y = x) \<and>
      of_int (MonthlyPayment 300000 1200 3) - 1 / 2 \<le> x \<and> x < of_int (MonthlyPayment 300000 1200 3) + 1 / 2"
    by (rule payment_is_the_annuity) (simp_all add: monthlyRate_def)
qed

section \<open>Schedules\<close>

text \<open>
  The rows of a schedule, each from what the one before left outstanding: the interest on it, what
  remains after the principal part, and a payment made of the two parts.
\<close>

fun chained :: "rat \<Rightarrow> int64 \<Rightarrow> Installment list \<Rightarrow> bool" where
  "chained r prev [] = True"
| "chained r prev (x # xs) =
     (in_InterestCents x = interestOn prev r \<and>
      in_RemainingPrincipalCents x = wrap64 (prev - in_PrincipalCents x) \<and>
      in_PaymentCents x = wrap64 (in_PrincipalCents x + in_InterestCents x) \<and>
      chained r (in_RemainingPrincipalCents x) xs)"

lemma mkInstallment_simps [simp]:
  "in_No (mkInstallment t no pay p i q) = no" "in_DueDate (mkInstallment t no pay p i q) = addMonths t no"
  "in_PaymentCents (mkInstallment t no pay p i q) = pay" "in_PrincipalCents (mkInstallment t no pay p i q) = p"
  "in_InterestCents (mkInstallment t no pay p i q) = i" "in_RemainingPrincipalCents (mkInstallment t no pay p i q) = q"
  "in_Status (mkInstallment t no pay p i q) = StatusScheduled"
  by (simp_all add: mkInstallment_def)

lemma in64_interestOn [simp]: "in64 (interestOn p r)"
  by (simp add: interestOn_def)

lemma in64_MonthlyPayment [simp]: "in64 (MonthlyPayment p bps n)"
  by (simp add: MonthlyPayment_def Let_def)

lemma scheduleLoop_chained:
  assumes "in64 pay"
  shows "chained r out (scheduleLoop r pay term t nos out)"
proof -
  have w: "wrap64 (wrap64 (pay - i) + i) = pay" for i
    using assms by (simp only: wrap64_add_left) simp
  show ?thesis by (induction nos arbitrary: out) (simp_all add: Let_def w)
qed

lemma scheduleLoop_nos [simp]:
  "map in_No (scheduleLoop r pay term t nos out) = nos" "length (scheduleLoop r pay term t nos out) = length nos"
  by (induction nos arbitrary: out) (simp_all add: Let_def)

lemma scheduleLoop_dates: "x \<in> set (scheduleLoop r pay term t nos out) \<Longrightarrow>
    in_DueDate x = addMonths t (in_No x) \<and> in_Status x = StatusScheduled"
  by (induction nos arbitrary: out) (auto simp: Let_def)

lemma scheduleLoop_last: "in_RemainingPrincipalCents (last (scheduleLoop r pay term t (nos @ [term]) out)) = 0"
proof (induction nos arbitrary: out)
  case (Cons no nos)
  have "scheduleLoop r pay term t (nos @ [term]) q \<noteq> []" for q
    using scheduleLoop_nos(2) [of r pay "term" t "nos @ [term]" q] by (auto simp del: scheduleLoop_nos)
  with Cons show ?case by (simp add: Let_def)
qed (simp add: Let_def)

lemma chained_sum:
  "chained r prev xs \<Longrightarrow> xs \<noteq> [] \<Longrightarrow>
     wrap64 (sum_list (map in_PrincipalCents xs)) = wrap64 (prev - in_RemainingPrincipalCents (last xs))"
proof (induction xs arbitrary: prev)
  case (Cons x xs)
  show ?case
  proof (cases "xs = []")
    case True
    then show ?thesis using Cons.prems by (simp add: wrap64_diff_right)
  next
    case False
    let ?q = "in_RemainingPrincipalCents (last xs)"
    have c: "chained r (wrap64 (prev - in_PrincipalCents x)) xs" using Cons.prems(1) by auto
    have "wrap64 (in_PrincipalCents x + sum_list (map in_PrincipalCents xs)) =
        wrap64 (in_PrincipalCents x + wrap64 (sum_list (map in_PrincipalCents xs)))"
      by (simp only: wrap64_add_right)
    also have "\<dots> = wrap64 (in_PrincipalCents x + wrap64 (wrap64 (prev - in_PrincipalCents x) - ?q))"
      by (simp only: Cons.IH [OF c False])
    also have "\<dots> = wrap64 (prev - ?q)"
      by (simp only: wrap64_add_right wrap64_diff_left) simp
    finally show ?thesis using False by simp
  qed
qed simp

lemma upto_snoc: "0 < n \<Longrightarrow> [1..n] = [1..n - 1] @ [n]" for n :: int
  by (rule upto_rec2) simp

text \<open>C20: A schedule has one row per month, numbered and due month after month; its rows are chained
  (interest on what was left, payment made of interest and principal); the last one leaves exactly
  nothing, and the principal parts add up to the principal of the loan. (Sums as the machine adds
  them.)\<close>

theorem schedule_closes:
  assumes "0 < termMonths" and "in64 principalCents"
  shows "let sched = Schedule principalCents annualRateBps termMonths originatedAt
    in map in_No sched = [1..termMonths] \<and>
       list_all (\<lambda>x. in_DueDate x = addMonths originatedAt (in_No x) \<and> in_Status x = StatusScheduled) sched \<and>
       chained (monthlyRate annualRateBps) principalCents sched \<and>
       in_RemainingPrincipalCents (last sched) = 0 \<and>
       wrap64 (sum_list (map in_PrincipalCents sched)) = principalCents"
proof -
  let ?r = "monthlyRate annualRateBps" and ?pay = "MonthlyPayment principalCents annualRateBps termMonths"
  let ?s = "scheduleLoop ?r ?pay termMonths originatedAt [1..termMonths] principalCents"
  have s: "Schedule principalCents annualRateBps termMonths originatedAt = ?s"
    using assms by (simp add: Schedule_def)
  have c: "chained ?r principalCents ?s" by (rule scheduleLoop_chained) simp
  have l: "in_RemainingPrincipalCents (last ?s) = 0"
    unfolding upto_snoc [OF assms(1)] by (rule scheduleLoop_last)
  have ne: "?s \<noteq> []"
    using scheduleLoop_nos(2) [of ?r ?pay termMonths originatedAt "[1..termMonths]" principalCents] assms(1)
    by (auto simp del: scheduleLoop_nos)
  show ?thesis
    using chained_sum [OF c ne] c l assms(2) scheduleLoop_dates by (auto simp: s Let_def list_all_iff)
qed

theorem schedule_closes_witness:
  "let sched = Schedule 1000000 900 36 0
   in map in_No sched = [1..36] \<and>
      list_all (\<lambda>x. in_DueDate x = addMonths 0 (in_No x) \<and> in_Status x = StatusScheduled) sched \<and>
      chained (monthlyRate 900) 1000000 sched \<and>
      in_RemainingPrincipalCents (last sched) = 0 \<and>
      wrap64 (sum_list (map in_PrincipalCents sched)) = 1000000"
  by (rule schedule_closes) (simp_all add: in64_def min64_def max64_def)


text \<open>Every row but the last one is the level payment, split by the interest on what was left before.\<close>

definition outstandingBefore :: "int64 \<Rightarrow> Installment list \<Rightarrow> nat \<Rightarrow> int64" where
  "outstandingBefore p sched i = (case i of 0 \<Rightarrow> p | Suc j \<Rightarrow> in_RemainingPrincipalCents (sched ! j))"

lemma chained_nth:
  "chained r prev xs \<Longrightarrow> i < length xs \<Longrightarrow> in_InterestCents (xs ! i) = interestOn (outstandingBefore prev xs i) r"
proof (induction xs arbitrary: prev i)
  case (Cons x xs)
  then show ?case by (cases i) (auto simp: outstandingBefore_def split: nat.split)
qed simp

lemma scheduleLoop_level:
  "i < length nos \<Longrightarrow> nos ! i \<noteq> term \<Longrightarrow>
     in_PaymentCents (scheduleLoop r pay term t nos out ! i) = pay \<and>
     in_PrincipalCents (scheduleLoop r pay term t nos out ! i) =
       wrap64 (pay - in_InterestCents (scheduleLoop r pay term t nos out ! i))"
proof (induction nos arbitrary: i out)
  case (Cons no nos)
  then show ?case by (cases i) (auto simp: Let_def)
qed simp

lemma Schedule_loop:
  "0 < n \<Longrightarrow> Schedule p bps n t = scheduleLoop (monthlyRate bps) (MonthlyPayment p bps n) n t [1..n] p"
  by (simp add: Schedule_def)

text \<open>C21: A loan amortises: in every month before the last in which something between nothing and the
  whole principal is still outstanding, the borrower pays the level payment, the interest in it is
  not negative and the rest, which is not negative either, pays the loan down. (Loans that fit in
  62 bits with a month of interest.)\<close>

theorem schedule_pays_down:
  assumes "0 < principalCents" "0 \<le> annualRateBps"
    and "of_int principalCents * (1 + monthlyRate annualRateBps) \<le> 2 ^ 62"
    and "sched = Schedule principalCents annualRateBps termMonths originatedAt" and "Suc i < length sched"
    and "0 \<le> outstandingBefore principalCents sched i" "outstandingBefore principalCents sched i \<le> principalCents"
  shows "in_PaymentCents (sched ! i) = MonthlyPayment principalCents annualRateBps termMonths \<and>
    0 \<le> in_InterestCents (sched ! i) \<and> 0 \<le> in_PrincipalCents (sched ! i) \<and>
    in_PrincipalCents (sched ! i) + in_InterestCents (sched ! i) = in_PaymentCents (sched ! i)"
proof -
  let ?r = "monthlyRate annualRateBps" and ?pay = "MonthlyPayment principalCents annualRateBps termMonths"
  let ?o = "outstandingBefore principalCents sched i"
  have n: "0 < termMonths" using assms(4,5) by (auto simp: Schedule_def split: if_splits)
  note s = assms(4) [unfolded Schedule_loop [OF n]]
  have i: "i < length [1..termMonths]" "[1..termMonths] ! i \<noteq> termMonths" using assms(5) n by (auto simp: s)
  have r: "0 \<le> ?r" using assms(2) by (simp add: monthlyRate_def)
  have inter: "in_InterestCents (sched ! i) = interestOn ?o ?r"
    using chained_nth scheduleLoop_chained [of ?pay] assms(5) unfolding s by fastforce
  have o: "0 \<le> of_int ?o * ?r" "of_int ?o * ?r \<le> of_int principalCents * ?r"
    using assms(6,7) r by (simp_all add: mult_right_mono)
  have "of_int principalCents * ?r \<le> of_int principalCents * (1 + ?r)"
    using assms(1) by (simp add: algebra_simps)
  then have "in64 (halfUp (of_int ?o * ?r))" using o assms(3) by (intro halfUp_in64) auto
  then have int2: "in_InterestCents (sched ! i) = halfUp (of_int ?o * ?r)"
    using o by (simp add: inter interestOn_def roundHalfUpRat_nonneg)
  have "halfUp (of_int ?o * ?r) \<le> ?pay"
    unfolding payment_exact [OF assms(1) n assms(2,3)]
    using annuity_bounds(1) [OF assms(1) r, of "nat termMonths"] o n by (intro halfUp_mono) auto
  moreover have "0 \<le> halfUp (of_int ?o * ?r)" using halfUp_mono [OF o(1)] halfUp_of_int [of 0] by simp
  moreover have "in64 ?pay" by simp
  ultimately have w: "wrap64 (?pay - halfUp (of_int ?o * ?r)) = ?pay - halfUp (of_int ?o * ?r)"
    by (intro wrap64_id) (auto simp: in64_def min64_def)
  show ?thesis
    using scheduleLoop_level [OF i, of ?r ?pay originatedAt principalCents] int2 w \<open>halfUp _ \<le> ?pay\<close> \<open>0 \<le> halfUp _\<close>
    by (simp flip: s)
qed

theorem schedule_pays_down_witness:
  "in_PaymentCents (Schedule 300000 1200 3 0 ! 0) = MonthlyPayment 300000 1200 3 \<and>
    0 \<le> in_InterestCents (Schedule 300000 1200 3 0 ! 0) \<and> 0 \<le> in_PrincipalCents (Schedule 300000 1200 3 0 ! 0) \<and>
    in_PrincipalCents (Schedule 300000 1200 3 0 ! 0) + in_InterestCents (Schedule 300000 1200 3 0 ! 0) =
      in_PaymentCents (Schedule 300000 1200 3 0 ! 0)"
  by (rule schedule_pays_down [OF _ _ _ refl])
    (simp_all add: monthlyRate_def outstandingBefore_def Schedule_def)

text \<open>Rounding can turn the last payment of a small loan negative: twenty cents over three years
  without interest are paid back at one cent a month, the schedule goes on after the loan is paid,
  and the last row gives fifteen cents back.\<close>

theorem small_loan_overshoots:
  "(let sched = Schedule 20 0 36 0
    in in_PaymentCents (last sched) = - 15 \<and> in_RemainingPrincipalCents (sched ! 34) = - 15)"
  by code_simp

end
