(* ===== verification/Loan_State.thy ===== *)
theory Loan_State
  imports Loan_Amortize Ledger_Client
begin

text \<open>
  \<open>internal/loan/state.go\<close>: applicants, loans, the events of the loan book and the projection folded
  from them, with the state of the loan service on top of the ledger's. The projection satisfies
  the contract \<open>event_projection\<close>, so a restarted service catches up with the log.
\<close>

section \<open>Types\<close>

record Applicant =
  ap_ID :: string
  ap_Name :: string
  ap_DepositAccountID :: string
  ap_CreditScore :: int64
  ap_MonthlyIncomeCents :: int64
  ap_ExistingDebtMonthlyCents :: int64
  ap_ExistingBalanceCents :: int64
  ap_AccountAgeDays :: int64

record Loan =
  ln_ID :: string
  ln_ApplicantID :: string
  ln_PrincipalCents :: int64
  ln_TermMonths :: int64
  ln_AnnualRateBps :: int64
  ln_Tier :: string
  ln_RiskScore :: int64
  ln_PDbps :: int64
  ln_LGDbps :: int64
  ln_OriginatedAt :: instant
  ln_ReceivableAccountID :: string
  ln_DepositAccountID :: string
  ln_Status :: string
  ln_MissedPayments :: int64
  ln_OutstandingPrincipalCents :: int64
  ln_InterestPaidCents :: int64
  ln_PrincipalPaidCents :: int64
  ln_Schedule :: "Installment list"
  ln_DefaultReason :: string

definition LoanActive :: string where "LoanActive = ''active''"
definition LoanRepaid :: string where "LoanRepaid = ''repaid''"
definition LoanDefaulted :: string where "LoanDefaulted = ''defaulted''"

definition eventLoanOriginated :: string where "eventLoanOriginated = ''loan.originated''"
definition eventLoanPaymentMissed :: string where "eventLoanPaymentMissed = ''loan.payment_missed''"
definition eventLoanDefaulted :: string where "eventLoanDefaulted = ''loan.defaulted''"
definition eventLoanRepaid :: string where "eventLoanRepaid = ''loan.repaid''"

definition loanEventTypes :: "string list" where
  "loanEventTypes = [eventLoanOriginated, eventLoanPaymentMissed, eventLoanDefaulted, eventLoanRepaid]"

record loanRecord =
  lr_ID :: string
  lr_ApplicantID :: string
  lr_PrincipalCents :: int64
  lr_TermMonths :: int64
  lr_AnnualRateBps :: int64
  lr_Tier :: string
  lr_RiskScore :: int64
  lr_PDbps :: int64
  lr_LGDbps :: int64
  lr_OriginatedAt :: instant
  lr_ReceivableAccountID :: string
  lr_DepositAccountID :: string

record paymentMissedPayload =
  pm_LoanID :: string
  pm_InstallmentNo :: int64
  pm_DaysPastDue :: int64
  pm_MissedPaymentsSoFar :: int64
  pm_LateFeeCents :: int64
  pm_OccurredAt :: instant

record defaultedPayload =
  dp_LoanID :: string
  dp_Reason :: string
  dp_WrittenOffCents :: int64
  dp_OccurredAt :: instant

record repaidPayload =
  rp_LoanID :: string
  rp_OccurredAt :: instant

section \<open>Payloads\<close>

definition encInstallment :: "Installment \<Rightarrow> json res" where
  "encInstallment x =
     (if timeOK (in_DueDate x) then
        Inr (JObj [(''no'', jInt_of (in_No x)), (''due_date'', JTime (in_DueDate x)),
          (''payment_cents'', jInt_of (in_PaymentCents x)), (''principal_cents'', jInt_of (in_PrincipalCents x)),
          (''interest_cents'', jInt_of (in_InterestCents x)),
          (''remaining_principal_cents'', jInt_of (in_RemainingPrincipalCents x)),
          (''status'', JStr (in_Status x))])
      else Inl (EEncode ''due_date''))"

definition decInstallment :: "json \<Rightarrow> Installment option" where
  "decInstallment j =
     (case jObj j of None \<Rightarrow> None | Some ob \<Rightarrow>
       (case (jInt (jfield ob ''no''), jTime zeroTime (jfield ob ''due_date''), jInt (jfield ob ''payment_cents''),
              jInt (jfield ob ''principal_cents''), jInt (jfield ob ''interest_cents''),
              jInt (jfield ob ''remaining_principal_cents''), jStr (jfield ob ''status'')) of
          (Some n, Some d, Some p, Some c, Some i, Some q, Some st) \<Rightarrow>
            Some \<lparr>in_No = n, in_DueDate = d, in_PaymentCents = p, in_PrincipalCents = c, in_InterestCents = i,
                  in_RemainingPrincipalCents = q, in_Status = st\<rparr>
        | _ \<Rightarrow> None))"

definition encOriginated :: "loanRecord \<Rightarrow> Installment list \<Rightarrow> json res" where
  "encOriginated r sched =
     (if timeOK (lr_OriginatedAt r) then
        bindR (mapR encInstallment sched) (\<lambda>rows.
        Inr (JObj [(''id'', JStr (lr_ID r)), (''applicant_id'', JStr (lr_ApplicantID r)),
          (''principal_cents'', jInt_of (lr_PrincipalCents r)), (''term_months'', jInt_of (lr_TermMonths r)),
          (''annual_rate_bps'', jInt_of (lr_AnnualRateBps r)), (''tier'', JStr (lr_Tier r)),
          (''risk_score'', jInt_of (lr_RiskScore r)), (''pd_bps'', jInt_of (lr_PDbps r)),
          (''lgd_bps'', jInt_of (lr_LGDbps r)), (''originated_at'', JTime (lr_OriginatedAt r)),
          (''receivable_account_id'', JStr (lr_ReceivableAccountID r)),
          (''deposit_account_id'', JStr (lr_DepositAccountID r)), (''schedule'', JArr rows)]))
      else Inl (EEncode ''originated_at''))"

definition decOriginated :: "json \<Rightarrow> loanRecord option" where
  "decOriginated j =
     (case jObj j of None \<Rightarrow> None | Some ob \<Rightarrow>
       (case (jStr (jfield ob ''id''), jStr (jfield ob ''applicant_id''), jInt (jfield ob ''principal_cents''),
              jInt (jfield ob ''term_months''), jInt (jfield ob ''annual_rate_bps''), jStr (jfield ob ''tier'')) of
          (Some i, Some a, Some p, Some n, Some b, Some t) \<Rightarrow>
            (case (jInt (jfield ob ''risk_score''), jInt (jfield ob ''pd_bps''), jInt (jfield ob ''lgd_bps''),
                   jTime zeroTime (jfield ob ''originated_at''), jStr (jfield ob ''receivable_account_id''),
                   jStr (jfield ob ''deposit_account_id''),
                   Option.bind (jArr (jfield ob ''schedule'')) (optList decInstallment)) of
               (Some k, Some pd, Some lgd, Some at0, Some ra, Some da, Some sched) \<Rightarrow>
                 Some \<lparr>lr_ID = i, lr_ApplicantID = a, lr_PrincipalCents = p, lr_TermMonths = n, lr_AnnualRateBps = b,
                       lr_Tier = t, lr_RiskScore = k, lr_PDbps = pd, lr_LGDbps = lgd, lr_OriginatedAt = at0,
                       lr_ReceivableAccountID = ra, lr_DepositAccountID = da\<rparr>
             | _ \<Rightarrow> None)
        | _ \<Rightarrow> None))"

definition encMissed :: "paymentMissedPayload \<Rightarrow> json res" where
  "encMissed p =
     (if timeOK (pm_OccurredAt p) then
        Inr (JObj [(''loan_id'', JStr (pm_LoanID p)), (''installment_no'', jInt_of (pm_InstallmentNo p)),
          (''days_past_due'', jInt_of (pm_DaysPastDue p)),
          (''missed_payments_so_far'', jInt_of (pm_MissedPaymentsSoFar p)),
          (''late_fee_cents'', jInt_of (pm_LateFeeCents p)), (''occurred_at'', JTime (pm_OccurredAt p))])
      else Inl (EEncode ''occurred_at''))"

definition decMissed :: "json \<Rightarrow> paymentMissedPayload option" where
  "decMissed j =
     (case jObj j of None \<Rightarrow> None | Some ob \<Rightarrow>
       (case (jStr (jfield ob ''loan_id''), jInt (jfield ob ''installment_no''), jInt (jfield ob ''days_past_due''),
              jInt (jfield ob ''missed_payments_so_far''), jInt (jfield ob ''late_fee_cents''),
              jTime zeroTime (jfield ob ''occurred_at'')) of
          (Some i, Some n, Some d, Some m, Some f, Some t) \<Rightarrow>
            Some \<lparr>pm_LoanID = i, pm_InstallmentNo = n, pm_DaysPastDue = d, pm_MissedPaymentsSoFar = m,
                  pm_LateFeeCents = f, pm_OccurredAt = t\<rparr>
        | _ \<Rightarrow> None))"

definition encDefaulted :: "defaultedPayload \<Rightarrow> json res" where
  "encDefaulted p =
     (if timeOK (dp_OccurredAt p) then
        Inr (JObj [(''loan_id'', JStr (dp_LoanID p)), (''reason'', JStr (dp_Reason p)),
          (''written_off_cents'', jInt_of (dp_WrittenOffCents p)), (''occurred_at'', JTime (dp_OccurredAt p))])
      else Inl (EEncode ''occurred_at''))"

definition decDefaulted :: "json \<Rightarrow> defaultedPayload option" where
  "decDefaulted j =
     (case jObj j of None \<Rightarrow> None | Some ob \<Rightarrow>
       (case (jStr (jfield ob ''loan_id''), jStr (jfield ob ''reason''), jInt (jfield ob ''written_off_cents''),
              jTime zeroTime (jfield ob ''occurred_at'')) of
          (Some i, Some r, Some w, Some t) \<Rightarrow>
            Some \<lparr>dp_LoanID = i, dp_Reason = r, dp_WrittenOffCents = w, dp_OccurredAt = t\<rparr>
        | _ \<Rightarrow> None))"

definition encRepaid :: "repaidPayload \<Rightarrow> json res" where
  "encRepaid p =
     (if timeOK (rp_OccurredAt p) then
        Inr (JObj [(''loan_id'', JStr (rp_LoanID p)), (''occurred_at'', JTime (rp_OccurredAt p))])
      else Inl (EEncode ''occurred_at''))"

definition decRepaid :: "json \<Rightarrow> repaidPayload option" where
  "decRepaid j =
     (case jObj j of None \<Rightarrow> None | Some ob \<Rightarrow>
       (case (jStr (jfield ob ''loan_id''), jTime zeroTime (jfield ob ''occurred_at'')) of
          (Some i, Some t) \<Rightarrow> Some \<lparr>rp_LoanID = i, rp_OccurredAt = t\<rparr>
        | _ \<Rightarrow> None))"

section \<open>The projection\<close>

text \<open>\<open>missed\<close> is the set of the numbers marked in the map of the source, as a list without repetition.\<close>

record loanState =
  ls_record :: loanRecord
  ls_missed :: "int64 list"
  ls_defaulted :: bool
  ls_defaultReason :: string
  ls_repaid :: bool

record loanProjection =
  lp_lastSeq :: int64
  lp_loans :: "(string \<times> loanState) list"
  lp_order :: "string list"

definition newLoanProjection :: loanProjection where
  "newLoanProjection = \<lparr>lp_lastSeq = 0, lp_loans = [], lp_order = []\<rparr>"

definition seenLoan :: "Event \<Rightarrow> loanProjection \<Rightarrow> loanProjection" where
  "seenLoan e p = (if ev_Seq e > lp_lastSeq p then p\<lparr>lp_lastSeq := ev_Seq e\<rparr> else p)"

definition onLoan :: "string \<Rightarrow> (loanState \<Rightarrow> loanState) \<Rightarrow> loanProjection \<Rightarrow> loanProjection" where
  "onLoan i f p =
     (case map_of (lp_loans p) i of
        None \<Rightarrow> p
      | Some st \<Rightarrow> p\<lparr>lp_loans := AList.update i (f st) (lp_loans p)\<rparr>)"

definition apply_loan :: "Event \<Rightarrow> (loanProjection, unit) oper" where
  "apply_loan e p =
     (if ev_Type e = eventLoanOriginated then
        (case decOriginated (ev_Payload e) of
           None \<Rightarrow> (Inl (ELoan (DecodeLoan (ev_Type e))), p)
         | Some r \<Rightarrow>
             (Inr (), seenLoan e (p\<lparr>
                lp_loans := AList.update (lr_ID r)
                  \<lparr>ls_record = r, ls_missed = [], ls_defaulted = False, ls_defaultReason = '''', ls_repaid = False\<rparr>
                  (lp_loans p),
                lp_order := lp_order p @ [lr_ID r]\<rparr>)))
      else if ev_Type e = eventLoanPaymentMissed then
        (case decMissed (ev_Payload e) of
           None \<Rightarrow> (Inl (ELoan (DecodeLoan (ev_Type e))), p)
         | Some pm \<Rightarrow>
             (Inr (), seenLoan e (onLoan (pm_LoanID pm)
                (\<lambda>st. st\<lparr>ls_missed := List.insert (pm_InstallmentNo pm) (ls_missed st)\<rparr>) p)))
      else if ev_Type e = eventLoanDefaulted then
        (case decDefaulted (ev_Payload e) of
           None \<Rightarrow> (Inl (ELoan (DecodeLoan (ev_Type e))), p)
         | Some d \<Rightarrow>
             (Inr (), seenLoan e (onLoan (dp_LoanID d)
                (\<lambda>st. st\<lparr>ls_defaulted := True, ls_defaultReason := dp_Reason d\<rparr>) p)))
      else if ev_Type e = eventLoanRepaid then
        (case decRepaid (ev_Payload e) of
           None \<Rightarrow> (Inl (ELoan (DecodeLoan (ev_Type e))), p)
         | Some rp \<Rightarrow> (Inr (), seenLoan e (onLoan (rp_LoanID rp) (\<lambda>st. st\<lparr>ls_repaid := True\<rparr>) p)))
      else (Inr (), seenLoan e p))"

section \<open>The state of the service\<close>

record loanbook = ledger +
  lb_proj :: loanProjection
  lb_applicants :: "(string \<times> Applicant) list"

definition refresh_loan :: "('z loanbook_scheme, unit) oper" where
  "refresh_loan =
     bindE (getE (\<lambda>s. lp_lastSeq (lb_proj s))) (\<lambda>n.
     bindE (ListEvents (tailFilter loanEventTypes n)) (\<lambda>events.
     zoomE lb_proj (\<lambda>p s. s\<lparr>lb_proj := p\<rparr>) (applyAll apply_loan events)))"

definition applyAppended_loan :: "Event list \<Rightarrow> ('z loanbook_scheme, unit) oper" where
  "applyAppended_loan events =
     zoomE lb_proj (\<lambda>p s. s\<lparr>lb_proj := p\<rparr>) (applyIgnoring apply_loan events)"

section \<open>The contract\<close>

text \<open>The events the service writes: their payloads decode, and every loan has a receivable of its own.\<close>

definition receivableID :: "string \<Rightarrow> string" where
  "receivableID i = ''loan-'' @ i @ ''-receivable''"

definition ownReceivable :: "loanRecord \<Rightarrow> bool" where
  "ownReceivable r \<longleftrightarrow> lr_ReceivableAccountID r = receivableID (lr_ID r)"

definition good_loan :: "Event \<Rightarrow> bool" where
  "good_loan e \<longleftrightarrow>
     (ev_Type e = eventLoanOriginated \<longrightarrow> (\<exists>r. decOriginated (ev_Payload e) = Some r \<and> ownReceivable r)) \<and>
     (ev_Type e = eventLoanPaymentMissed \<longrightarrow> decMissed (ev_Payload e) \<noteq> None) \<and>
     (ev_Type e = eventLoanDefaulted \<longrightarrow> decDefaulted (ev_Payload e) \<noteq> None) \<and>
     (ev_Type e = eventLoanRepaid \<longrightarrow> decRepaid (ev_Payload e) \<noteq> None)"

lemma loan_event_types [simp]:
  "eventLoanOriginated \<noteq> eventLoanPaymentMissed" "eventLoanOriginated \<noteq> eventLoanDefaulted"
  "eventLoanOriginated \<noteq> eventLoanRepaid" "eventLoanPaymentMissed \<noteq> eventLoanDefaulted"
  "eventLoanPaymentMissed \<noteq> eventLoanRepaid" "eventLoanDefaulted \<noteq> eventLoanRepaid"
  by (simp_all add: eventLoanOriginated_def eventLoanPaymentMissed_def eventLoanDefaulted_def eventLoanRepaid_def)

lemmas loan_event_types' [simp] = loan_event_types [symmetric]

lemma onLoan_frame [simp]:
  "lp_lastSeq (onLoan i f p) = lp_lastSeq p" "lp_order (onLoan i f p) = lp_order p"
  by (simp_all add: onLoan_def split: option.split)

lemma seenLoan_simps [simp]:
  "lp_lastSeq (seenLoan e p) = max (lp_lastSeq p) (ev_Seq e)" "lp_loans (seenLoan e p) = lp_loans p"
  "lp_order (seenLoan e p) = lp_order p"
  by (simp_all add: seenLoan_def max_def)

interpretation loan_log: event_projection apply_loan lp_lastSeq loanEventTypes good_loan
proof unfold_locales
  fix e :: Event and p :: loanProjection
  assume g: "good_loan e"
  consider "ev_Type e = eventLoanOriginated" | "ev_Type e = eventLoanPaymentMissed" | "ev_Type e = eventLoanDefaulted"
    | "ev_Type e = eventLoanRepaid" | "ev_Type e \<notin> {eventLoanOriginated, eventLoanPaymentMissed, eventLoanDefaulted, eventLoanRepaid}"
    by blast
  then have "fst (apply_loan e p) = Inr () \<and> lp_lastSeq (snd (apply_loan e p)) = max (lp_lastSeq p) (ev_Seq e)"
    using g by cases (auto simp: apply_loan_def good_loan_def)
  then show "fst (apply_loan e p) = Inr ()"
    and "lp_lastSeq (snd (apply_loan e p)) = max (lp_lastSeq p) (ev_Seq e)" by auto
qed (simp add: loanEventTypes_def)

definition loan_synced :: "'z loanbook_scheme \<Rightarrow> bool" where
  "loan_synced s \<longleftrightarrow> log_wf s \<and> (\<forall>e \<in> set (own loanEventTypes (st_events s)). good_loan e) \<and>
     lb_proj s = replay apply_loan loanEventTypes (st_events s) newLoanProjection"

lemma refresh_loan_app:
  "refresh_loan s =
     (case applyAll apply_loan
        (filter (matchesFilter (tailFilter loanEventTypes (lp_lastSeq (lb_proj s)))) (st_events s)) (lb_proj s) of
      (r, p) \<Rightarrow> (r, s\<lparr>lb_proj := p\<rparr>))"
  by (simp add: refresh_loan_def op_simps ListEvents_unlimited tailFilter_def split: prod.split)

lemma refresh_loan_catches_up:
  assumes wf: "log_wf s" and log: "st_events s = pre @ post"
    and good: "\<forall>e \<in> set (own loanEventTypes (st_events s)). good_loan e"
    and p: "lb_proj s = replay apply_loan loanEventTypes pre newLoanProjection"
  shows "refresh_loan s =
    (Inr (), s\<lparr>lb_proj := replay apply_loan loanEventTypes (st_events s) newLoanProjection\<rparr>)"
proof -
  have "\<forall>e \<in> set (pre @ post). lp_lastSeq newLoanProjection < ev_Seq e"
    using log_wf_pos [OF wf] by (simp add: log newLoanProjection_def)
  then show ?thesis
    using loan_log.catch_up [of pre post newLoanProjection] log_wf_sorted [OF wf] good
    by (simp add: refresh_loan_app p log)
qed

lemma refresh_loan_synced [simp]: "loan_synced s \<Longrightarrow> refresh_loan s = (Inr (), s)"
  using refresh_loan_catches_up [of s "st_events s" "[]"] by (simp add: loan_synced_def)

end
