(* ===== verification/Loan_Evaluators.thy ===== *)
theory Loan_Evaluators
  imports Go_Float Rules_Engine
begin

text \<open>
  \<open>internal/loan/evaluators.go\<close>: the evaluators of the \<open>risk_scoring\<close>, \<open>loan_underwriting\<close> and
  \<open>loan_servicing\<close> rules. Numbers are floating-point values here, as the decoded rules have them.
\<close>

section \<open>Reading fields\<close>

definition numFieldF :: "gval \<Rightarrow> float64 option" where
  "numFieldF v =
     (case v of
        GFloat t \<Rightarrow> Some t
      | GInt t \<Rightarrow> Some (floatOfInt t)
      | GInt64 t \<Rightarrow> Some (floatOfInt t)
      | GStr t \<Rightarrow> ParseFloat t
      | _ \<Rightarrow> None)"

definition requireNum :: "gmap \<Rightarrow> string \<Rightarrow> float64 res" where
  "requireNum m key =
     bindR (ofOption (ELoan (MissingField key)) (map_of m key)) (\<lambda>v.
     ofOption (ELoan (FieldNotNumber key)) (numFieldF v))"

definition requireStr :: "gmap \<Rightarrow> string \<Rightarrow> string res" where
  "requireStr m key =
     bindR (ofOption (ELoan (MissingField key)) (map_of m key)) (\<lambda>v.
     ofOption (ELoan (FieldNotString key)) (asStr v))"

definition requireMap :: "gmap \<Rightarrow> string \<Rightarrow> gmap res" where
  "requireMap m key =
     bindR (ofOption (ELoan (MissingField key)) (map_of m key)) (\<lambda>v.
     ofOption (ELoan (FieldNotObject key)) (asMap v))"

definition requireSlice :: "gmap \<Rightarrow> string \<Rightarrow> gval list res" where
  "requireSlice m key =
     bindR (ofOption (ELoan (MissingField key)) (map_of m key)) (\<lambda>v.
     ofOption (ELoan (FieldNotArray key)) (asList v))"

definition clampFloat :: "float64 \<Rightarrow> float64 \<Rightarrow> float64 \<Rightarrow> float64" where
  "clampFloat v lo hi = (if flLess v lo then lo else if flLess hi v then hi else v)"

section \<open>Bands and tiers\<close>

definition bandCovers :: "gmap \<Rightarrow> float64 \<Rightarrow> bool res" where
  "bandCovers b val =
     bindR (case map_of b ''min'' of
              None \<Rightarrow> Inr True
            | Some v \<Rightarrow> bindR (ofOption (ELoan BandNotNumber) (numFieldF v)) (\<lambda>mv. Inr (\<not> flLess val mv)))
       (\<lambda>above.
     if \<not> above then Inr False
     else
       (case map_of b ''max'' of
          None \<Rightarrow> Inr True
        | Some v \<Rightarrow> bindR (ofOption (ELoan BandNotNumber) (numFieldF v)) (\<lambda>mv. Inr (\<not> flLess mv val))))"

fun matchBand :: "gval list \<Rightarrow> float64 \<Rightarrow> float64 res" where
  "matchBand [] val = Inl (ELoan NoBandMatched)"
| "matchBand (bRaw # bs) val =
     (case asMap bRaw of
        None \<Rightarrow> matchBand bs val
      | Some b \<Rightarrow> bindR (bandCovers b val) (\<lambda>m. if m then requireNum b ''points'' else matchBand bs val))"

text \<open>
  \<open>sort.SliceStable\<close> by descending threshold, as an insertion sort; on numbers the stable order is
  unique.
\<close>

fun insertTier :: "gmap \<times> float64 \<Rightarrow> (gmap \<times> float64) list \<Rightarrow> (gmap \<times> float64) list" where
  "insertTier x [] = [x]"
| "insertTier x (y # ys) = (if flLess (snd x) (snd y) then y # insertTier x ys else x # y # ys)"

definition tierEntry :: "string \<Rightarrow> gval \<Rightarrow> (gmap \<times> float64) res" where
  "tierEntry thresholdKey r =
     bindR (ofOption (ELoan TierNotObject) (asMap r)) (\<lambda>m.
     bindR (requireNum m thresholdKey) (\<lambda>th. Inr (m, th)))"

definition sortedTiers :: "gval list \<Rightarrow> string \<Rightarrow> gmap list res" where
  "sortedTiers raw thresholdKey =
     bindR (mapR (tierEntry thresholdKey) raw) (\<lambda>entries. Inr (map fst (foldr insertTier entries [])))"

fun firstMatchingTier :: "gmap list \<Rightarrow> string \<Rightarrow> float64 \<Rightarrow> gmap option res" where
  "firstMatchingTier [] thresholdKey value = Inr None"
| "firstMatchingTier (t # ts) thresholdKey value =
     bindR (requireNum t thresholdKey) (\<lambda>th.
     if flLeq th value then Inr (Some t) else firstMatchingTier ts thresholdKey value)"

fun highestRateLoop :: "gmap list \<Rightarrow> gmap \<Rightarrow> float64 \<Rightarrow> gmap res" where
  "highestRateLoop [] best bestRate = Inr best"
| "highestRateLoop (t # ts) best bestRate =
     bindR (requireNum t ''annual_rate_bps'') (\<lambda>rate.
     if flLess bestRate rate then highestRateLoop ts t rate else highestRateLoop ts best bestRate)"

definition highestRateTier :: "gmap list \<Rightarrow> gmap res" where
  "highestRateTier tiers =
     (case tiers of
        [] \<Rightarrow> Inl (ELoan NoTiers)
      | best # rest \<Rightarrow>
          bindR (requireNum best ''annual_rate_bps'') (\<lambda>bestRate. highestRateLoop rest best bestRate))"

section \<open>Risk scoring\<close>

text \<open>One factor: its name and the points of the band that covers the input it names.\<close>

definition factorPoints :: "gmap \<Rightarrow> gval \<Rightarrow> (string \<times> float64) res" where
  "factorPoints input fRaw =
     bindR (ofOption (ELoan FactorNotObject) (asMap fRaw)) (\<lambda>f.
     bindR (requireStr f ''name'') (\<lambda>name.
     bindR (requireStr f ''input'') (\<lambda>inputKey.
     bindR (requireNum input inputKey) (\<lambda>val.
     bindR (requireSlice f ''bands'') (\<lambda>bandsRaw.
     bindR (ctxR (''loan: risk_scoring factor '' @ name) (matchBand bandsRaw val)) (\<lambda>points.
     Inr (name, points)))))))"

definition EvaluateRiskScore :: Evaluator where
  "EvaluateRiskScore content input =
     bindR (requireNum content ''base_score'') (\<lambda>base.
     bindR (requireSlice content ''factors'') (\<lambda>factorsRaw.
     bindR (mapR (factorPoints input) factorsRaw) (\<lambda>factors.
     (let total = foldl (\<lambda>t (name, points). flAdd t points) base factors;
          points = foldl (\<lambda>m (name, p). AList.update name (GInt64 (float_to_int64 p)) m) [] factors
      in bindR (requireMap content ''clamp'') (\<lambda>clamp.
         bindR (requireNum clamp ''min'') (\<lambda>clampMin.
         bindR (requireNum clamp ''max'') (\<lambda>clampMax.
         (let score = clampFloat total clampMin clampMax
          in bindR (requireSlice content ''tiers'') (\<lambda>tiersRaw.
             bindR (sortedTiers tiersRaw ''min_score'') (\<lambda>tiers.
             bindR (firstMatchingTier tiers ''min_score'' score) (\<lambda>found.
             bindR (ofOption (ELoan NoTierMatched) found) (\<lambda>tier.
             bindR (requireStr tier ''tier'') (\<lambda>tierName.
             bindR (requireNum tier ''pd_bps'') (\<lambda>pdBps.
             bindR (requireNum content ''lgd_bps'') (\<lambda>lgdBps.
             Inr [(''risk_score'', GInt64 (float_to_int64 score)), (''tier'', GStr tierName),
                  (''pd_bps'', GInt64 (float_to_int64 pdBps)), (''lgd_bps'', GInt64 (float_to_int64 lgdBps)),
                  (''factor_points'', GMap points)])))))))))))))))"

section \<open>Underwriting\<close>

definition ReasonCreditScoreBelowMinimum :: string where
  "ReasonCreditScoreBelowMinimum = ''credit_score_below_minimum''"
definition ReasonIncomeBelowMinimum :: string where
  "ReasonIncomeBelowMinimum = ''income_below_minimum''"
definition ReasonDebtToIncomeAboveMaximum :: string where
  "ReasonDebtToIncomeAboveMaximum = ''debt_to_income_above_maximum''"
definition ReasonAccountAgeBelowMinimum :: string where
  "ReasonAccountAgeBelowMinimum = ''account_age_below_minimum''"
definition ReasonRiskScoreBelowMinimum :: string where
  "ReasonRiskScoreBelowMinimum = ''risk_score_below_minimum''"
definition ReasonTermNotAllowed :: string where
  "ReasonTermNotAllowed = ''term_not_allowed''"
definition ReasonPrincipalAboveTierMaximum :: string where
  "ReasonPrincipalAboveTierMaximum = ''principal_above_tier_maximum''"

text \<open>The applicant's side and the rule's side of the eligibility check.\<close>

record underwritingInput =
  ui_creditScore :: float64
  ui_income :: float64
  ui_existingDebt :: float64
  ui_accountAge :: float64
  ui_riskScore :: float64
  ui_requestedPrincipal :: float64
  ui_termMonths :: float64
  ui_proposedInstallment :: float64

record eligibility =
  el_minCredit :: float64
  el_minIncome :: float64
  el_maxDTI :: float64
  el_minAge :: float64
  el_minRisk :: float64

definition readInput :: "gmap \<Rightarrow> underwritingInput res" where
  "readInput input =
     bindR (requireNum input ''credit_score'') (\<lambda>creditScore.
     bindR (requireNum input ''monthly_income_cents'') (\<lambda>income.
     bindR (requireNum input ''existing_debt_monthly_cents'') (\<lambda>existingDebt.
     bindR (requireNum input ''account_age_days'') (\<lambda>accountAge.
     bindR (requireNum input ''risk_score'') (\<lambda>riskScore.
     bindR (requireNum input ''requested_principal_cents'') (\<lambda>requestedPrincipal.
     bindR (requireNum input ''term_months'') (\<lambda>termMonths.
     bindR (requireNum input ''proposed_installment_cents'') (\<lambda>proposedInstallment.
     Inr \<lparr>ui_creditScore = creditScore, ui_income = income, ui_existingDebt = existingDebt,
          ui_accountAge = accountAge, ui_riskScore = riskScore, ui_requestedPrincipal = requestedPrincipal,
          ui_termMonths = termMonths, ui_proposedInstallment = proposedInstallment\<rparr>))))))))"

definition readEligibility :: "gmap \<Rightarrow> eligibility res" where
  "readEligibility content =
     bindR (requireMap content ''eligibility'') (\<lambda>elig.
     bindR (requireNum elig ''min_credit_score'') (\<lambda>minCredit.
     bindR (requireNum elig ''min_monthly_income_cents'') (\<lambda>minIncome.
     bindR (requireNum elig ''max_debt_to_income_pct'') (\<lambda>maxDTI.
     bindR (requireNum elig ''min_account_age_days'') (\<lambda>minAge.
     bindR (requireNum elig ''min_risk_score'') (\<lambda>minRisk.
     Inr \<lparr>el_minCredit = minCredit, el_minIncome = minIncome, el_maxDTI = maxDTI, el_minAge = minAge,
          el_minRisk = minRisk\<rparr>))))))"

definition dtiPct :: "underwritingInput \<Rightarrow> eligibility \<Rightarrow> float64" where
  "dtiPct i el =
     (if flLess (Fin 0) (ui_income i)
      then flMul (flDiv (flAdd (ui_existingDebt i) (ui_proposedInstallment i)) (ui_income i)) (Fin 100)
      else flAdd (el_maxDTI el) (Fin 1))"

definition unless :: "bool \<Rightarrow> string \<Rightarrow> string list" where
  "unless ok reason = (if ok then [] else [reason])"

definition eligibilityReasons :: "underwritingInput \<Rightarrow> eligibility \<Rightarrow> string list" where
  "eligibilityReasons i el =
     unless (\<not> flLess (ui_creditScore i) (el_minCredit el)) ReasonCreditScoreBelowMinimum @
     unless (\<not> flLess (ui_income i) (el_minIncome el)) ReasonIncomeBelowMinimum @
     unless (\<not> flLess (el_maxDTI el) (dtiPct i el)) ReasonDebtToIncomeAboveMaximum @
     unless (\<not> flLess (ui_accountAge i) (el_minAge el)) ReasonAccountAgeBelowMinimum @
     unless (\<not> flLess (ui_riskScore i) (el_minRisk el)) ReasonRiskScoreBelowMinimum"

definition termAllowed :: "gval list \<Rightarrow> float64 \<Rightarrow> bool" where
  "termAllowed terms term =
     list_ex (\<lambda>t. case numFieldF t of Some tf \<Rightarrow> flEq tf term | None \<Rightarrow> False) terms"

definition underwritingOutcome :: "string list \<Rightarrow> gmap \<Rightarrow> gmap" where
  "underwritingOutcome reasons extra =
     [(''approved'', GBool (reasons = [])), (''reasons'', GStrs reasons)] @ extra"

definition EvaluateUnderwriting :: Evaluator where
  "EvaluateUnderwriting content input =
     bindR (readInput input) (\<lambda>i.
     bindR (readEligibility content) (\<lambda>el.
     bindR (requireSlice content ''allowed_term_months'') (\<lambda>termsRaw.
     (let reasons = eligibilityReasons i el @ unless (termAllowed termsRaw (ui_termMonths i)) ReasonTermNotAllowed
      in bindR (requireSlice content ''pricing_tiers'') (\<lambda>tiersRaw.
         bindR (sortedTiers tiersRaw ''min_risk_score'') (\<lambda>tiers.
         bindR (firstMatchingTier tiers ''min_risk_score'' (ui_riskScore i)) (\<lambda>found.
         (case found of
            None \<Rightarrow> Inr (underwritingOutcome reasons [])
          | Some tier \<Rightarrow>
              bindR (requireStr tier ''tier'') (\<lambda>tierName.
              bindR (requireNum tier ''annual_rate_bps'') (\<lambda>annualRateBps.
              bindR (requireNum tier ''max_principal_cents'') (\<lambda>maxPrincipal.
              Inr (underwritingOutcome
                     (reasons @ unless (\<not> flLess maxPrincipal (ui_requestedPrincipal i)) ReasonPrincipalAboveTierMaximum)
                     [(''tier'', GStr tierName), (''annual_rate_bps'', GInt64 (float_to_int64 annualRateBps))]))))))))))))"

section \<open>Servicing\<close>

definition EvaluateServicing :: Evaluator where
  "EvaluateServicing content input =
     bindR (requireNum content ''grace_period_days'') (\<lambda>grace.
     bindR (requireNum content ''missed_payments_to_default'') (\<lambda>threshold.
     bindR (requireNum content ''late_fee_cents'') (\<lambda>fee.
     bindR (requireNum input ''days_past_due'') (\<lambda>daysPastDue.
     bindR (requireNum input ''missed_payments_so_far'') (\<lambda>missedSoFar.
     (let isMissed = flLess grace daysPastDue;
          lateFee = (if isMissed then fee else Fin 0);
          shouldDefault = (isMissed \<and> flLeq threshold (flAdd missedSoFar (Fin 1)))
      in Inr [(''is_missed'', GBool isMissed), (''late_fee_cents'', GInt64 (float_to_int64 lateFee)),
              (''should_default'', GBool shouldDefault)]))))))"

end
