(* ===== verification/Loan_Service.thy ===== *)
theory Loan_Service
  imports Loan_State Loan_Evaluators
begin

text \<open>
  \<open>internal/loan/service.go\<close> and \<open>seed.go\<close>: applicants, underwriting, origination, reads, and the
  servicing of loans (repayments, missed payments, defaults, the periodic tick). The service keeps
  applicants and a projection of its own events; what has been paid and what is outstanding it
  reads from the ledger.
\<close>

section \<open>Applicants\<close>

definition addApplicant :: "Applicant \<Rightarrow> ('z loanbook_scheme, unit) oper" where
  "addApplicant a = modifyE (\<lambda>s. s\<lparr>lb_applicants := AList.update (ap_ID a) a (lb_applicants s)\<rparr>)"

definition getApplicant :: "string \<Rightarrow> ('z loanbook_scheme, Applicant option) oper" where
  "getApplicant i = getE (\<lambda>s. map_of (lb_applicants s) i)"

definition Applicants :: "('z loanbook_scheme, Applicant list) oper" where
  "Applicants = getE (\<lambda>s. sort_key ap_ID (map snd (lb_applicants s)))"

section \<open>Underwriting\<close>

definition DefaultPrincipalCents :: int64 where "DefaultPrincipalCents = 1000000"
definition DefaultTermMonths :: int64 where "DefaultTermMonths = 36"

record UnderwriteRequest =
  uq_ApplicantID :: string
  uq_RequestedPrincipalCents :: int64
  uq_TermMonths :: int64

record RuleApplicationRef =
  rf_RuleID :: string
  rf_Version :: int64
  rf_ApplicationID :: string

record RiskView =
  rk_RiskScore :: int64
  rk_Tier :: string
  rk_PDbps :: int64
  rk_LGDbps :: int64

record PricingView =
  pv_AnnualRateBps :: int64
  pv_Tier :: string
  pv_MaxPrincipalCents :: int64

record AffordabilityView =
  af_InstallmentToIncomePct :: string
  af_Flag :: string

record UnderwriteResult =
  ur_Decision :: string
  ur_Applicant :: Applicant
  ur_Risk :: RiskView
  ur_Pricing :: PricingView
  ur_MonthlyInstallmentCents :: int64
  ur_Affordability :: AffordabilityView
  ur_Reasons :: "string list"
  ur_RuleApplications :: "RuleApplicationRef list"

definition affordability :: "int64 \<Rightarrow> int64 \<Rightarrow> AffordabilityView" where
  "affordability installmentCents incomeCents =
     (if incomeCents \<le> 0 then \<lparr>af_InstallmentToIncomePct = ''0.00'', af_Flag = ''unaffordable''\<rparr>
      else
        (let exact = (of_int (wrap64 (installmentCents * 100)) / of_int incomeCents :: rat)
         in \<lparr>af_InstallmentToIncomePct = formatHundredthsPct (pctHundredths installmentCents incomeCents),
             af_Flag = (if exact \<le> 15 then ''comfortable'' else if exact \<le> 30 then ''stretched''
                        else ''unaffordable'')\<rparr>))"

definition orDefault :: "int64 \<Rightarrow> int64 \<Rightarrow> int64" where
  "orDefault d n = (if n \<le> 0 then d else n)"

definition riskInput :: "Applicant \<Rightarrow> gmap" where
  "riskInput a =
     [(''credit_score'', GInt64 (ap_CreditScore a)), (''monthly_income_cents'', GInt64 (ap_MonthlyIncomeCents a)),
      (''account_age_days'', GInt64 (ap_AccountAgeDays a)),
      (''existing_balance_cents'', GInt64 (ap_ExistingBalanceCents a))]"

definition eligibilityInput :: "Applicant \<Rightarrow> int64 \<Rightarrow> int64 \<Rightarrow> int64 \<Rightarrow> int64 \<Rightarrow> gmap" where
  "eligibilityInput a riskScore princ months proposedInstallment =
     [(''credit_score'', GInt64 (ap_CreditScore a)), (''monthly_income_cents'', GInt64 (ap_MonthlyIncomeCents a)),
      (''existing_debt_monthly_cents'', GInt64 (ap_ExistingDebtMonthlyCents a)),
      (''account_age_days'', GInt64 (ap_AccountAgeDays a)), (''risk_score'', GInt64 riskScore),
      (''requested_principal_cents'', GInt64 princ), (''term_months'', GInt64 months),
      (''proposed_installment_cents'', GInt64 proposedInstallment)]"

text \<open>The tier that prices the loan: the one the score matches, or the one with the highest rate.\<close>

definition pricingTier :: "gmap \<Rightarrow> int64 \<Rightarrow> PricingView res" where
  "pricingTier content riskScore =
     bindR (requireSlice content ''pricing_tiers'') (\<lambda>tiersRaw.
     bindR (sortedTiers tiersRaw ''min_risk_score'') (\<lambda>tiers.
     bindR (firstMatchingTier tiers ''min_risk_score'' (floatOfInt riskScore)) (\<lambda>found.
     bindR (case found of Some tier \<Rightarrow> Inr tier | None \<Rightarrow> highestRateTier tiers) (\<lambda>tier.
     bindR (requireStr tier ''tier'') (\<lambda>tierName.
     bindR (requireNum tier ''annual_rate_bps'') (\<lambda>annualRateBps.
     bindR (requireNum tier ''max_principal_cents'') (\<lambda>maxPrincipal.
     Inr \<lparr>pv_AnnualRateBps = float_to_int64 annualRateBps, pv_Tier = tierName,
          pv_MaxPrincipalCents = float_to_int64 maxPrincipal\<rparr>)))))))"

definition strsOr :: "gval \<Rightarrow> string list" where
  "strsOr v = (case v of GStrs l \<Rightarrow> l | _ \<Rightarrow> [])"

text \<open>What the decision of the underwriting rule says replaces the tier and the rate priced with.\<close>

definition repriced :: "gmap \<Rightarrow> PricingView \<Rightarrow> PricingView" where
  "repriced out p =
     p\<lparr>pv_Tier := (if strOr (gget out ''tier'') \<noteq> '''' then strOr (gget out ''tier'') else pv_Tier p),
       pv_AnnualRateBps := (case gget out ''annual_rate_bps'' of GInt64 r \<Rightarrow> r | _ \<Rightarrow> pv_AnnualRateBps p)\<rparr>"

definition applicationRef :: "Decision \<Rightarrow> RuleApplicationRef" where
  "applicationRef d =
     \<lparr>rf_RuleID = de_RuleID d, rf_Version = de_Version d, rf_ApplicationID = de_ApplicationID d\<rparr>"

definition underwriteResult ::
  "Applicant \<Rightarrow> Decision \<Rightarrow> PricingView \<Rightarrow> int64 \<Rightarrow> Decision \<Rightarrow> UnderwriteResult" where
  "underwriteResult applicant riskDecision pricing proposedInstallment decision =
     \<lparr>ur_Decision = (if boolOr (gget (de_Output decision) ''approved'') then ''approved'' else ''declined''),
      ur_Applicant = applicant,
      ur_Risk = \<lparr>rk_RiskScore = int64Or (gget (de_Output riskDecision) ''risk_score''),
        rk_Tier = strOr (gget (de_Output riskDecision) ''tier''),
        rk_PDbps = int64Or (gget (de_Output riskDecision) ''pd_bps''),
        rk_LGDbps = int64Or (gget (de_Output riskDecision) ''lgd_bps'')\<rparr>,
      ur_Pricing = repriced (de_Output decision) pricing,
      ur_MonthlyInstallmentCents = proposedInstallment,
      ur_Affordability = affordability proposedInstallment (ap_MonthlyIncomeCents applicant),
      ur_Reasons = strsOr (gget (de_Output decision) ''reasons''),
      ur_RuleApplications = [applicationRef riskDecision, applicationRef decision]\<rparr>"

definition Underwrite :: "UnderwriteRequest \<Rightarrow> ('z loanbook_scheme, UnderwriteResult) oper" where
  "Underwrite req =
     bindE (getApplicant (uq_ApplicantID req)) (\<lambda>found.
     bindE (liftE (ofOption (ELoan ErrApplicantNotFound) found)) (\<lambda>applicant.
     (let princ = orDefault DefaultPrincipalCents (uq_RequestedPrincipalCents req);
          months = orDefault DefaultTermMonths (uq_TermMonths req)
      in bindE (Evaluate ''risk_scoring'' ''applicant'' (ap_ID applicant) (riskInput applicant)) (\<lambda>riskDecision.
         (let riskScore = int64Or (gget (de_Output riskDecision) ''risk_score'')
          in bindE (getE (\<lambda>s. GetRule s ''loan_underwriting'')) (\<lambda>r.
             bindE (liftE r) (\<lambda>rule.
             bindE (liftE (pricingTier (ru_Content rule) riskScore)) (\<lambda>pricing.
             (let proposed = MonthlyPayment princ (pv_AnnualRateBps pricing) months
              in bindE (Evaluate ''loan_underwriting'' ''applicant'' (ap_ID applicant)
                         (eligibilityInput applicant riskScore princ months proposed)) (\<lambda>decision.
                 returnE (underwriteResult applicant riskDecision pricing proposed decision)))))))))))"

section \<open>Reads\<close>

text \<open>The statuses of the installments, from the numbers paid and the numbers missed.\<close>

definition overlay :: "int64 list \<Rightarrow> int64 list \<Rightarrow> Installment \<Rightarrow> Installment" where
  "overlay paidNos missed inst =
     (if in_No inst \<in> set paidNos then inst\<lparr>in_Status := StatusPaid\<rparr>
      else if in_No inst \<in> set missed then inst\<lparr>in_Status := StatusMissed\<rparr>
      else inst)"

definition sumMeta :: "string \<Rightarrow> Transaction list \<Rightarrow> int64" where
  "sumMeta key txs = fold (\<lambda>tx t. wrap64 (t + ParseIntVal (metaOf tx key))) txs 0"

definition loanStatus :: "loanState \<Rightarrow> int64 \<Rightarrow> string" where
  "loanStatus st outstanding =
     (if ls_defaulted st then LoanDefaulted
      else if ls_repaid st \<or> outstanding \<le> 0 then LoanRepaid else LoanActive)"

definition loanOf :: "loanState \<Rightarrow> Transaction list \<Rightarrow> int64 \<Rightarrow> Loan" where
  "loanOf st txs outstanding =
     (let r = ls_record st
      in \<lparr>ln_ID = lr_ID r, ln_ApplicantID = lr_ApplicantID r, ln_PrincipalCents = lr_PrincipalCents r,
          ln_TermMonths = lr_TermMonths r, ln_AnnualRateBps = lr_AnnualRateBps r, ln_Tier = lr_Tier r,
          ln_RiskScore = lr_RiskScore r, ln_PDbps = lr_PDbps r, ln_LGDbps = lr_LGDbps r,
          ln_OriginatedAt = lr_OriginatedAt r, ln_ReceivableAccountID = lr_ReceivableAccountID r,
          ln_DepositAccountID = lr_DepositAccountID r, ln_Status = loanStatus st outstanding,
          ln_MissedPayments = int (length (ls_missed st)), ln_OutstandingPrincipalCents = outstanding,
          ln_InterestPaidCents = sumMeta ''interest_cents'' txs,
          ln_PrincipalPaidCents = sumMeta ''principal_cents'' txs,
          ln_Schedule = map (overlay (map (\<lambda>tx. ParseIntVal (metaOf tx ''installment_no'')) txs) (ls_missed st))
            (Schedule (lr_PrincipalCents r) (lr_AnnualRateBps r) (lr_TermMonths r) (lr_OriginatedAt r)),
          ln_DefaultReason = ls_defaultReason st\<rparr>)"

definition buildLoan :: "loanState \<Rightarrow> ('z loanbook_scheme, Loan) oper" where
  "buildLoan st =
     bindE (ListTransactions (txFilterBy (lr_ReceivableAccountID (ls_record st)) ''loan.repayment'')) (\<lambda>txs.
     bindE (Balance (lr_ReceivableAccountID (ls_record st))) (\<lambda>balance.
     returnE (loanOf st txs (am_Minor balance))))"

definition GetLoan :: "string \<Rightarrow> ('z loanbook_scheme, Loan) oper" where
  "GetLoan i =
     bindE refresh_loan (\<lambda>_.
     bindE (getE (\<lambda>s. map_of (lp_loans (lb_proj s)) i)) (\<lambda>found.
     bindE (liftE (ofOption ErrNotFound found)) buildLoan))"

text \<open>A loan of the order that is not in the map would be a nil pointer.\<close>

definition listedLoan :: "string \<Rightarrow> ('z loanbook_scheme, Loan) oper" where
  "listedLoan i =
     bindE (getE (\<lambda>s. map_of (lp_loans (lb_proj s)) i)) (\<lambda>found.
     bindE (liftE (ofOption (ELoan (NilLoan i)) found)) buildLoan)"

definition ListLoans :: "('z loanbook_scheme, Loan list) oper" where
  "ListLoans =
     bindE refresh_loan (\<lambda>_.
     bindE (getE (\<lambda>s. lp_order (lb_proj s))) (\<lambda>order. mapE listedLoan order))"

definition LoanSchedule :: "string \<Rightarrow> ('z loanbook_scheme, Installment list) oper" where
  "LoanSchedule i = bindE (GetLoan i) (\<lambda>loan. returnE (ln_Schedule loan))"

definition WhatIf :: "string \<Rightarrow> WhatIfRequest \<Rightarrow> ('z loanbook_scheme, WhatIfResult) oper" where
  "WhatIf i req =
     bindE (GetLoan i) (\<lambda>loan.
     returnE (RunWhatIf (ln_PrincipalCents loan) (ln_AnnualRateBps loan) (ln_TermMonths loan)
                (ln_OriginatedAt loan) req))"

section \<open>Origination\<close>

record OriginateRequest =
  oq_ApplicantID :: string
  oq_PrincipalCents :: int64
  oq_TermMonths :: int64

text \<open>\<open>applyAppended\<close> after one event has been written to the log.\<close>

definition emitLoan :: "string \<Rightarrow> string \<Rightarrow> instant \<Rightarrow> json \<Rightarrow> ('z loanbook_scheme, unit) oper" where
  "emitLoan ty i t payload =
     bindE (Append [newEvent ty i t payload]) (\<lambda>events. applyAppended_loan events)"

definition receivableAccount :: "string \<Rightarrow> string \<Rightarrow> Account" where
  "receivableAccount i owner =
     \<lparr>ac_ID = receivableID i, ac_OwnerID = owner, ac_Type = LoanReceivable,
      ac_Currency = ''USD'', ac_Name = ''Loan '' @ i @ '' Receivable'', ac_OpenedAt = zeroTime\<rparr>"

definition usdTransfer :: "string \<Rightarrow> string \<Rightarrow> string \<Rightarrow> string \<Rightarrow> int64 \<Rightarrow> Transaction" where
  "usdTransfer kind desc debited credited cents =
     newTx kind desc ''USD''
       [mkEntry debited Debit (mkAmount ''USD'' cents), mkEntry credited Credit (mkAmount ''USD'' cents)] []"

definition disbursementTx :: "string \<Rightarrow> string \<Rightarrow> int64 \<Rightarrow> Transaction" where
  "disbursementTx i depositID princ =
     usdTransfer ''loan.disbursement'' (''Disbursement for loan '' @ i) (receivableID i) depositID princ"

definition loanRecordOf :: "string \<Rightarrow> UnderwriteResult \<Rightarrow> int64 \<Rightarrow> int64 \<Rightarrow> instant \<Rightarrow> loanRecord" where
  "loanRecordOf i result princ months t =
     \<lparr>lr_ID = i, lr_ApplicantID = ap_ID (ur_Applicant result), lr_PrincipalCents = princ, lr_TermMonths = months,
      lr_AnnualRateBps = pv_AnnualRateBps (ur_Pricing result), lr_Tier = pv_Tier (ur_Pricing result),
      lr_RiskScore = rk_RiskScore (ur_Risk result), lr_PDbps = rk_PDbps (ur_Risk result),
      lr_LGDbps = rk_LGDbps (ur_Risk result), lr_OriginatedAt = t,
      lr_ReceivableAccountID = receivableID i,
      lr_DepositAccountID = ap_DepositAccountID (ur_Applicant result)\<rparr>"

definition Originate :: "OriginateRequest \<Rightarrow> ('z loanbook_scheme, Loan) oper" where
  "Originate req =
     (let princ = orDefault DefaultPrincipalCents (oq_PrincipalCents req);
          months = orDefault DefaultTermMonths (oq_TermMonths req)
      in bindE (Underwrite \<lparr>uq_ApplicantID = oq_ApplicantID req, uq_RequestedPrincipalCents = princ,
                            uq_TermMonths = months\<rparr>) (\<lambda>result.
         bindE (guardE (ur_Decision result = ''approved'') (ELoan (ErrNotApproved (ur_Reasons result)))) (\<lambda>_.
         bindE newID (\<lambda>i.
         bindE (OpenAccount (receivableAccount i (ap_ID (ur_Applicant result)))) (\<lambda>_.
         bindE (PostAndFinalize (disbursementTx i (ap_DepositAccountID (ur_Applicant result)) princ)) (\<lambda>_.
         bindE Now (\<lambda>t.
         bindE (liftE (encOriginated (loanRecordOf i result princ months t)
                  (Schedule princ (pv_AnnualRateBps (ur_Pricing result)) months t))) (\<lambda>payload.
         bindE (emitLoan eventLoanOriginated i t payload) (\<lambda>_.
         GetLoan i)))))))))"

section \<open>Servicing\<close>

definition firstScheduled :: "Installment list \<Rightarrow> Installment option" where
  "firstScheduled sched = find (\<lambda>x. in_Status x = StatusScheduled) sched"

definition appendRepaidEvent :: "string \<Rightarrow> ('z loanbook_scheme, unit) oper" where
  "appendRepaidEvent i =
     bindE (getE (\<lambda>s. map_of (lp_loans (lb_proj s)) i)) (\<lambda>found.
     if (case found of Some st \<Rightarrow> ls_repaid st | None \<Rightarrow> False) then returnE ()
     else
       bindE Now (\<lambda>t.
       bindE (liftE (encRepaid \<lparr>rp_LoanID = i, rp_OccurredAt = t\<rparr>)) (\<lambda>payload.
       emitLoan eventLoanRepaid i t payload)))"

definition repaymentEntries :: "Loan \<Rightarrow> int64 \<Rightarrow> int64 \<Rightarrow> int64 \<Rightarrow> Entry list" where
  "repaymentEntries loan amt principalPortion interestPortion =
     mkEntry (ln_DepositAccountID loan) Debit (mkAmount ''USD'' amt) #
     (if 0 < principalPortion
      then [mkEntry (ln_ReceivableAccountID loan) Credit (mkAmount ''USD'' principalPortion)] else []) @
     (if 0 < interestPortion
      then [mkEntry ''interest-income-usd'' Credit (mkAmount ''USD'' interestPortion)] else [])"

definition repaymentTx :: "string \<Rightarrow> Loan \<Rightarrow> Installment \<Rightarrow> int64 \<Rightarrow> Transaction" where
  "repaymentTx i loan nxt amt =
     (let interestPortion = (if amt < in_InterestCents nxt then amt else in_InterestCents nxt);
          principalPortion = wrap64 (amt - interestPortion)
      in newTx ''loan.repayment'' (''Repayment for loan '' @ i @ '' installment '' @ FormatInt (in_No nxt)) ''USD''
           (repaymentEntries loan amt principalPortion interestPortion)
           [(''installment_no'', FormatInt (in_No nxt)), (''principal_cents'', FormatInt principalPortion),
            (''interest_cents'', FormatInt interestPortion)])"

definition Repay :: "string \<Rightarrow> int64 \<Rightarrow> ('z loanbook_scheme, Loan) oper" where
  "Repay i amountCents =
     bindE (GetLoan i) (\<lambda>loan.
     bindE (guardE (ln_Status loan = LoanActive) (ELoan (CannotRepay (ln_Status loan)))) (\<lambda>_.
     bindE (liftE (ofOption (ELoan NoUnpaid) (firstScheduled (ln_Schedule loan)))) (\<lambda>nxt.
     (let amt = orDefault (in_PaymentCents nxt) amountCents
      in bindE (Balance (ln_DepositAccountID loan)) (\<lambda>depositBal.
         bindE (guardE (amt \<le> am_Minor depositBal)
                  (ELoan (ErrInsufficientFunds (ln_DepositAccountID loan) (am_Minor depositBal) amt))) (\<lambda>_.
         bindE (PostAndFinalize (repaymentTx i loan nxt amt)) (\<lambda>_.
         bindE (GetLoan i) (\<lambda>updated.
         if ln_OutstandingPrincipalCents updated \<le> 0
         then bindE (appendRepaidEvent i) (\<lambda>_. GetLoan i)
         else returnE updated))))))))"

text \<open>\<open>d.Hours()\<close> and \<open>int(d.Hours() / 24)\<close>, in floating point.\<close>

definition nanosPerHour :: int where "nanosPerHour = 3600000000000"

definition Hours :: "int64 \<Rightarrow> float64" where
  "Hours d = flAdd (floatOfInt (go_quot d nanosPerHour))
               (flDiv (floatOfInt (go_rem d nanosPerHour)) (Fin 3600000000000))"

definition daysPastDue :: "instant \<Rightarrow> instant \<Rightarrow> int64" where
  "daysPastDue t due = max 0 (float_to_int64 (flDiv (Hours (subTime t due)) (Fin 24)))"

definition servicingInput :: "int64 \<Rightarrow> int64 \<Rightarrow> gmap" where
  "servicingInput days missed =
     [(''days_past_due'', GInt64 days), (''missed_payments_so_far'', GInt64 missed)]"

definition lateFeeTx :: "string \<Rightarrow> Loan \<Rightarrow> Installment \<Rightarrow> int64 \<Rightarrow> Transaction" where
  "lateFeeTx i loan nxt fee =
     usdTransfer ''loan.late_fee'' (''Late fee for loan '' @ i @ '' installment '' @ FormatInt (in_No nxt))
       (ln_ReceivableAccountID loan) ''fee-income-usd'' fee"

text \<open>What follows the decision of the servicing rule.\<close>

definition recordMissed ::
  "string \<Rightarrow> Loan \<Rightarrow> Installment \<Rightarrow> int64 \<Rightarrow> Decision \<Rightarrow> ('z loanbook_scheme, Loan \<times> bool) oper" where
  "recordMissed i loan nxt days decision =
     (let lateFeeCents = int64Or (gget (de_Output decision) ''late_fee_cents'');
          shouldDefault = boolOr (gget (de_Output decision) ''should_default'')
      in bindE (if 0 < lateFeeCents
                then bindE (PostAndFinalize (lateFeeTx i loan nxt lateFeeCents)) (\<lambda>_. returnE ())
                else returnE ()) (\<lambda>_.
         bindE Now (\<lambda>t.
         bindE (liftE (encMissed \<lparr>pm_LoanID = i, pm_InstallmentNo = in_No nxt, pm_DaysPastDue = days,
                  pm_MissedPaymentsSoFar = wrap64 (ln_MissedPayments loan + 1), pm_LateFeeCents = lateFeeCents,
                  pm_OccurredAt = t\<rparr>)) (\<lambda>payload.
         bindE (emitLoan eventLoanPaymentMissed i t payload) (\<lambda>_.
         bindE (GetLoan i) (\<lambda>updated. returnE (updated, shouldDefault)))))))"

definition missPaymentInternal :: "string \<Rightarrow> ('z loanbook_scheme, Loan \<times> bool) oper" where
  "missPaymentInternal i =
     bindE (GetLoan i) (\<lambda>loan.
     bindE (guardE (ln_Status loan = LoanActive) (ELoan (CannotMiss (ln_Status loan)))) (\<lambda>_.
     bindE (liftE (ofOption (ELoan NoInstallment) (firstScheduled (ln_Schedule loan)))) (\<lambda>nxt.
     bindE Now (\<lambda>t.
     (let days = daysPastDue t (in_DueDate nxt)
      in bindE (Evaluate ''loan_servicing'' ''loan'' i (servicingInput days (ln_MissedPayments loan)))
           (recordMissed i loan nxt days))))))"

definition MissPayment :: "string \<Rightarrow> ('z loanbook_scheme, Loan) oper" where
  "MissPayment i = bindE (missPaymentInternal i) (\<lambda>(loan, d). returnE loan)"

definition writeoffTx :: "string \<Rightarrow> Loan \<Rightarrow> int64 \<Rightarrow> Transaction" where
  "writeoffTx i loan cents =
     usdTransfer ''loan.writeoff'' (''Write-off for loan '' @ i) ''loan-loss-expense-usd''
       (ln_ReceivableAccountID loan) cents"

definition Default :: "string \<Rightarrow> string \<Rightarrow> ('z loanbook_scheme, Loan) oper" where
  "Default i reason =
     bindE (GetLoan i) (\<lambda>loan.
     if ln_Status loan = LoanDefaulted then returnE loan
     else
       bindE (guardE (ln_Status loan \<noteq> LoanRepaid) (ELoan CannotDefaultRepaid)) (\<lambda>_.
       bindE (Balance (ln_ReceivableAccountID loan)) (\<lambda>balance.
       (let writtenOff = am_Minor balance
        in bindE (if 0 < writtenOff
                  then bindE (PostAndFinalize (writeoffTx i loan writtenOff)) (\<lambda>_. returnE ())
                  else returnE ()) (\<lambda>_.
           bindE Now (\<lambda>t.
           bindE (liftE (encDefaulted \<lparr>dp_LoanID = i, dp_Reason = reason, dp_WrittenOffCents = writtenOff,
                    dp_OccurredAt = t\<rparr>)) (\<lambda>payload.
           bindE (emitLoan eventLoanDefaulted i t payload) (\<lambda>_.
           GetLoan i))))))))"

record TickReport =
  tr_MissedPayments :: "string list"
  tr_Defaults :: "string list"

definition missedReason :: string where "missedReason = ''missed_payments_threshold_reached''"

text \<open>
  The inner loop of \<open>Tick\<close>, over the installments of a loan as they were listed: every scheduled one
  past its due date and grace makes the loan miss a payment, and the loop ends when it defaults.
\<close>

fun tickInstallments :: "int64 \<Rightarrow> instant \<Rightarrow> string \<Rightarrow> Installment list \<Rightarrow> TickReport \<Rightarrow> ('z loanbook_scheme, TickReport) oper" where
  "tickInstallments grace t i [] report = returnE report"
| "tickInstallments grace t i (inst # rest) report =
     (if in_Status inst \<noteq> StatusScheduled then tickInstallments grace t i rest report
      else if \<not> addDays (in_DueDate inst) grace < t then tickInstallments grace t i rest report
      else
        bindE (missPaymentInternal i) (\<lambda>(_, shouldDefault).
        (let report' = report\<lparr>tr_MissedPayments := tr_MissedPayments report @ [i]\<rparr>
         in if shouldDefault then
              bindE (Default i missedReason) (\<lambda>_.
              returnE (report'\<lparr>tr_Defaults := tr_Defaults report' @ [i]\<rparr>))
            else tickInstallments grace t i rest report')))"

fun tickLoans :: "int64 \<Rightarrow> instant \<Rightarrow> Loan list \<Rightarrow> TickReport \<Rightarrow> ('z loanbook_scheme, TickReport) oper" where
  "tickLoans grace t [] report = returnE report"
| "tickLoans grace t (loan # rest) report =
     (if ln_Status loan \<noteq> LoanActive then tickLoans grace t rest report
      else bindE (tickInstallments grace t (ln_ID loan) (ln_Schedule loan) report) (tickLoans grace t rest))"

definition Tick :: "('z loanbook_scheme, TickReport) oper" where
  "Tick =
     bindE ListLoans (\<lambda>loans.
     bindE (getE (\<lambda>s. GetRule s ''loan_servicing'')) (\<lambda>r.
     bindE (liftE r) (\<lambda>rule.
     bindE (liftE (requireNum (ru_Content rule) ''grace_period_days'')) (\<lambda>grace.
     bindE Now (\<lambda>t.
     tickLoans (float_to_int64 grace) t loans \<lparr>tr_MissedPayments = [], tr_Defaults = []\<rparr>)))))"

section \<open>Seeding\<close>

definition mkApplicant :: "string \<Rightarrow> string \<Rightarrow> int64 \<Rightarrow> int64 \<Rightarrow> int64 \<Rightarrow> int64 \<Rightarrow> int64 \<Rightarrow> Applicant" where
  "mkApplicant i name credit income debt bal age =
     \<lparr>ap_ID = i, ap_Name = name, ap_DepositAccountID = ''demo-account-1-usd'', ap_CreditScore = credit,
      ap_MonthlyIncomeCents = income, ap_ExistingDebtMonthlyCents = debt, ap_ExistingBalanceCents = bal,
      ap_AccountAgeDays = age\<rparr>"

definition seedApplicants :: "Applicant list" where
  "seedApplicants =
     [mkApplicant ''demo-applicant-1'' ''Demo Applicant One'' 650 650000 80000 150000 400,
      mkApplicant ''demo-applicant-2'' ''Demo Applicant Two'' 760 900000 50000 500000 900,
      mkApplicant ''demo-applicant-3'' ''Demo Applicant Three'' 590 300000 120000 20000 60]"

definition SeedLoans :: "('z loanbook_scheme, unit) oper" where
  "SeedLoans =
     bindE (foreachE seedApplicants addApplicant) (\<lambda>_.
     bindE refresh_loan (\<lambda>_.
     bindE (getE (\<lambda>s. lp_order (lb_proj s))) (\<lambda>order.
     if order \<noteq> [] then returnE ()
     else
       bindE (Originate \<lparr>oq_ApplicantID = ''demo-applicant-2'', oq_PrincipalCents = 500000, oq_TermMonths = 24\<rparr>)
         (\<lambda>_. returnE ()))))"

end
