(* ===== verification/Loan_Forecast.thy ===== *)
theory Loan_Forecast
  imports Loan_Service
begin

text \<open>
  \<open>internal/portfolio\<close> and \<open>internal/loan/forecast.go\<close>: the exposure of each loan as the dashboard
  reads it, the expected loss, the yield and the monthly cohorts of the portfolio, and the forecast
  of one loan for its borrower.
\<close>

section \<open>Exposures\<close>

definition ExposureActive :: string where "ExposureActive = ''active''"
definition ExposureRepaid :: string where "ExposureRepaid = ''repaid''"
definition ExposureDefaulted :: string where "ExposureDefaulted = ''defaulted''"

record LoanExposure =
  le_LoanID :: string
  le_ApplicantID :: string
  le_Tier :: string
  le_RiskScore :: int64
  le_PDbps :: int64
  le_LGDbps :: int64
  le_OriginalPrincipalCents :: int64
  le_OutstandingPrincipalCents :: int64
  le_AnnualRateBps :: int64
  le_TermMonths :: int64
  le_Status :: string
  le_MissedPayments :: int64
  le_OriginatedAt :: instant
  le_OriginationMonth :: string
  le_InterestPaidCents :: int64
  le_PrincipalPaidCents :: int64

definition exposureOf :: "Loan \<Rightarrow> LoanExposure" where
  "exposureOf l =
     \<lparr>le_LoanID = ln_ID l, le_ApplicantID = ln_ApplicantID l, le_Tier = ln_Tier l, le_RiskScore = ln_RiskScore l,
      le_PDbps = ln_PDbps l, le_LGDbps = ln_LGDbps l, le_OriginalPrincipalCents = ln_PrincipalCents l,
      le_OutstandingPrincipalCents = ln_OutstandingPrincipalCents l, le_AnnualRateBps = ln_AnnualRateBps l,
      le_TermMonths = ln_TermMonths l,
      le_Status = (if ln_Status l = LoanRepaid then ExposureRepaid
                   else if ln_Status l = LoanDefaulted then ExposureDefaulted else ExposureActive),
      le_MissedPayments = ln_MissedPayments l, le_OriginatedAt = ln_OriginatedAt l,
      le_OriginationMonth = formatMonth (ln_OriginatedAt l), le_InterestPaidCents = ln_InterestPaidCents l,
      le_PrincipalPaidCents = ln_PrincipalPaidCents l\<rparr>"

definition PortfolioSnapshot :: "('z loanbook_scheme, LoanExposure list) oper" where
  "PortfolioSnapshot = bindE ListLoans (\<lambda>loans. returnE (map exposureOf loans))"

section \<open>The forecast of the bank\<close>

record Cohort =
  co_Month :: string
  co_Loans :: int64
  co_OriginatedCents :: int64
  co_OutstandingCents :: int64
  co_RepaidCents :: int64
  co_Defaulted :: int64
  co_DefaultRatePct :: string

record BankForecast =
  bf_ExpectedLossCents :: int64
  bf_PortfolioYieldBps :: int64
  bf_Cohorts :: "Cohort list"

definition expectedLossCents :: "int64 \<Rightarrow> int64 \<Rightarrow> int64 \<Rightarrow> int64" where
  "expectedLossCents pdBps lgdBps eadCents = roundHalfUpBigInt (pdBps * lgdBps * eadCents) 100000000"

definition emptyCohort :: "string \<Rightarrow> Cohort" where
  "emptyCohort m =
     \<lparr>co_Month = m, co_Loans = 0, co_OriginatedCents = 0, co_OutstandingCents = 0, co_RepaidCents = 0,
      co_Defaulted = 0, co_DefaultRatePct = ''''\<rparr>"

definition addExposure :: "LoanExposure \<Rightarrow> Cohort \<Rightarrow> Cohort" where
  "addExposure e c =
     c\<lparr>co_Loans := wrap64 (co_Loans c + 1),
       co_OriginatedCents := wrap64 (co_OriginatedCents c + le_OriginalPrincipalCents e),
       co_OutstandingCents := wrap64 (co_OutstandingCents c + le_OutstandingPrincipalCents e),
       co_RepaidCents := wrap64 (co_RepaidCents c + le_PrincipalPaidCents e),
       co_Defaulted := (if le_Status e = ExposureDefaulted then wrap64 (co_Defaulted c + 1) else co_Defaulted c)\<rparr>"

definition cohortStep :: "LoanExposure \<Rightarrow> (string \<times> Cohort) list \<Rightarrow> (string \<times> Cohort) list" where
  "cohortStep e cohorts =
     (let m = le_OriginationMonth e
      in AList.update m (addExposure e (case map_of cohorts m of Some c \<Rightarrow> c | None \<Rightarrow> emptyCohort m)) cohorts)"

definition closeCohort :: "Cohort \<Rightarrow> Cohort" where
  "closeCohort c = c\<lparr>co_DefaultRatePct := formatHundredthsPct (pctHundredths (co_Defaulted c) (co_Loans c))\<rparr>"

text \<open>The months in the order they were first met are the keys of the map; they are sorted at the end.\<close>

definition cohortsOf :: "LoanExposure list \<Rightarrow> Cohort list" where
  "cohortsOf exposures =
     (let cohorts = fold cohortStep exposures []
      in map (\<lambda>m. closeCohort (the (map_of cohorts m))) (sort (map fst cohorts)))"

text \<open>The sums are of arbitrary precision; the expected loss is read back as an \<open>int64\<close> at the end.\<close>

definition forecastOf :: "LoanExposure list \<Rightarrow> BankForecast" where
  "forecastOf exposures =
     (let elTotal = (\<Sum>e\<leftarrow>exposures. if le_Status e = ExposureActive
            then expectedLossCents (le_PDbps e) (le_LGDbps e) (le_OutstandingPrincipalCents e) else 0);
          weightedRate = (\<Sum>e\<leftarrow>exposures. le_AnnualRateBps e * le_OutstandingPrincipalCents e);
          totalOutstanding = (\<Sum>e\<leftarrow>exposures. le_OutstandingPrincipalCents e)
      in \<lparr>bf_ExpectedLossCents = wrap64 elTotal,
          bf_PortfolioYieldBps = (if 0 < totalOutstanding then roundHalfUpBigInt weightedRate totalOutstanding else 0),
          bf_Cohorts = cohortsOf exposures\<rparr>)"

definition GetBankForecast :: "('z loanbook_scheme, BankForecast) oper" where
  "GetBankForecast = bindE PortfolioSnapshot (\<lambda>exposures. returnE (forecastOf exposures))"

section \<open>The forecast of a borrower\<close>

record ScheduleTotals =
  st_TotalPrincipalCents :: int64
  st_TotalInterestCents :: int64
  st_TotalPaymentCents :: int64

record CustomerForecast =
  cf_Loan :: Loan
  cf_ScheduleTotals :: ScheduleTotals
  cf_NextDue :: "Installment option"
  cf_Affordability :: AffordabilityView
  cf_WhatIf :: WhatIfResult

definition defaultWhatIfExtraCents :: int64 where "defaultWhatIfExtraCents = 5000"

definition scheduleTotals :: "Installment list \<Rightarrow> ScheduleTotals" where
  "scheduleTotals sched =
     fold (\<lambda>inst t. \<lparr>st_TotalPrincipalCents = wrap64 (st_TotalPrincipalCents t + in_PrincipalCents inst),
                      st_TotalInterestCents = wrap64 (st_TotalInterestCents t + in_InterestCents inst),
                      st_TotalPaymentCents = wrap64 (st_TotalPaymentCents t + in_PaymentCents inst)\<rparr>)
       sched \<lparr>st_TotalPrincipalCents = 0, st_TotalInterestCents = 0, st_TotalPaymentCents = 0\<rparr>"

text \<open>An applicant that is not known reads as the zero applicant, whose income is zero.\<close>

definition GetCustomerForecast :: "string \<Rightarrow> ('z loanbook_scheme, CustomerForecast) oper" where
  "GetCustomerForecast i =
     bindE (GetLoan i) (\<lambda>loan.
     bindE (getApplicant (ln_ApplicantID loan)) (\<lambda>applicant.
     (let installmentCents = (case ln_Schedule loan of x # _ \<Rightarrow> in_PaymentCents x | [] \<Rightarrow> 0);
          income = (case applicant of Some a \<Rightarrow> ap_MonthlyIncomeCents a | None \<Rightarrow> 0)
      in bindE (WhatIf i \<lparr>wr_ExtraMonthlyCents = defaultWhatIfExtraCents, wr_LumpSumCents = 0,
                          wr_LumpSumAtInstallment = 0\<rparr>) (\<lambda>whatIf.
         returnE \<lparr>cf_Loan = loan, cf_ScheduleTotals = scheduleTotals (ln_Schedule loan),
                  cf_NextDue = firstScheduled (ln_Schedule loan),
                  cf_Affordability = affordability installmentCents income, cf_WhatIf = whatIf\<rparr>))))"

end
