(* ===== verification/Loan_Inv.thy ===== *)
theory Loan_Inv
  imports Loan_Forecast
begin

text \<open>
  The invariant of the loan book: the ledger's own, the projection of the loans is the replay of
  their events in the shared log, and the evaluators the service relies on are the registered
  ones. Every operation of the service keeps it, also when it fails half way.
\<close>

section \<open>What the ledger does not touch\<close>

text \<open>
  The loan book's side of the state: its events, its projection, its applicants and the rules.
  Operations of the ledger write other events and leave all of it alone.
\<close>

definition loanSide :: "'z loanbook_scheme \<Rightarrow>
    Event list \<times> loanProjection \<times> (string \<times> Applicant) list \<times> (string \<times> Rule) list \<times> (string \<times> Evaluator) list" where
  "loanSide s = (own loanEventTypes (st_events s), lb_proj s, lb_applicants s, en_cache s, en_evaluators s)"

definition side :: "Event list \<times> loanProjection \<times> (string \<times> Applicant) list \<times> (string \<times> Rule) list \<times>
    (string \<times> Evaluator) list \<Rightarrow> 'z loanbook_scheme \<Rightarrow> bool" where
  "side v s \<longleftrightarrow> loanSide s = v"

lemmas event_name_defs = eventAccountOpened_def eventTxPosted_def eventTxSettled_def eventTxFinalized_def
  eventLoanOriginated_def eventLoanPaymentMissed_def eventLoanDefaulted_def eventLoanRepaid_def

lemma foreign_types [simp]:
  "eventAccountOpened \<notin> set loanEventTypes" "eventTxPosted \<notin> set loanEventTypes"
  "eventTxSettled \<notin> set loanEventTypes" "eventTxFinalized \<notin> set loanEventTypes"
  by (simp_all add: loanEventTypes_def event_name_defs)

lemma loan_types_foreign: "ty \<in> set loanEventTypes \<Longrightarrow> ty \<notin> set ledgerEventTypes"
  by (auto simp: loanEventTypes_def event_name_defs)

lemma loan_types [simp]:
  "eventLoanOriginated \<in> set loanEventTypes" "eventLoanPaymentMissed \<in> set loanEventTypes"
  "eventLoanDefaulted \<in> set loanEventTypes" "eventLoanRepaid \<in> set loanEventTypes"
  by (simp_all add: loanEventTypes_def)

lemma side_frame [simp]: "side v (s\<lparr>lg_proj := p\<rparr>) = side v s" "side v (s\<lparr>drawn := n\<rparr>) = side v s"
  by (simp_all add: side_def loanSide_def)

lemma side_basic [pres]:
  "preserves (side v) refresh_ledger" "preserves (side v) (applyAppended_ledger es)" "preserves (side v) newID"
  "preserves (side v) Now"
  by (auto simp: preserves_def refresh_app applyAppended_ledger_def op_simps Now_def split: prod.split)

lemma side_Append [pres]:
  "ty \<notin> set loanEventTypes \<Longrightarrow> preserves (side v) (Append [newEvent ty i t pl])"
  by (auto simp: preserves_def op_simps Let_def side_def loanSide_def)

lemma side_appendTxEvent [pres]:
  "ty \<notin> set loanEventTypes \<Longrightarrow> preserves (side v) (appendTxEvent ty tx)"
  unfolding appendTxEvent_def by (intro pres)

lemma side_transition [pres]:
  "ty \<notin> set loanEventTypes \<Longrightarrow> preserves (side v) (transition i from to ty)"
  unfolding transition_def Let_def by (intro pres)

lemma side_ledger [pres]:
  "preserves (side v) (Post tx)" "preserves (side v) (PostAndFinalize tx)" "preserves (side v) (OpenAccount a)"
  "preserves (side v) (Balance i)" "preserves (side v) (ListTransactions f)" "preserves (side v) (GetAccount i)"
  "preserves (side v) ListAccounts"
proof -
  show post: "preserves (side v) (Post tx)" for tx
    unfolding Post_def Let_def by (intro pres) simp
  show "preserves (side v) (PostAndFinalize tx)"
    unfolding PostAndFinalize_def Settle_def Finalize_def by (intro pres post) simp_all
  show "preserves (side v) (OpenAccount a)" unfolding OpenAccount_def Let_def by (intro pres) simp
  show "preserves (side v) (Balance i)" unfolding Balance_def by (intro pres)
  show "preserves (side v) (ListTransactions f)" unfolding ListTransactions_def by (intro pres)
  show "preserves (side v) (GetAccount i)" unfolding GetAccount_def by (intro pres)
  show "preserves (side v) ListAccounts" unfolding ListAccounts_def by (intro pres)
qed

lemma side_InsertRuleApplication [pres]: "preserves (side v) (InsertRuleApplication a)"
  by (auto simp: preserves_def InsertRuleApplication_def op_simps bindE_def side_def loanSide_def Let_def)

lemma side_Evaluate [pres]: "preserves (side v) (Evaluate r ty i input)"
  unfolding Evaluate_def by (intro pres)

section \<open>The invariant\<close>

text \<open>
  \<open>main.go\<close> registers the three evaluators of the package for the types of the three rules the
  service evaluates: whatever version of a rule is live, it is decided by its evaluator.
\<close>

definition decidedBy :: "(string \<times> Rule) list \<Rightarrow> (string \<times> Evaluator) list \<Rightarrow> string \<Rightarrow> Evaluator \<Rightarrow> bool" where
  "decidedBy cache evs r ev \<longleftrightarrow> (\<forall>rule. map_of cache r = Some rule \<longrightarrow> map_of evs (ru_RuleType rule) = Some ev)"

definition applicant_typed :: "Applicant \<Rightarrow> bool" where
  "applicant_typed a \<longleftrightarrow> in64 (ap_CreditScore a) \<and> in64 (ap_MonthlyIncomeCents a) \<and>
     in64 (ap_ExistingDebtMonthlyCents a) \<and> in64 (ap_ExistingBalanceCents a) \<and> in64 (ap_AccountAgeDays a)"

definition loan_ok :: "Event list \<times> loanProjection \<times> (string \<times> Applicant) list \<times> (string \<times> Rule) list \<times>
    (string \<times> Evaluator) list \<Rightarrow> bool" where
  "loan_ok v \<longleftrightarrow> (case v of (es, p, apps, cache, evs) \<Rightarrow>
     (\<forall>e \<in> set es. good_loan e) \<and> p = replay apply_loan loanEventTypes es newLoanProjection \<and>
     list_all (\<lambda>(i, a). applicant_typed a) apps \<and>
     decidedBy cache evs ''risk_scoring'' EvaluateRiskScore \<and>
     decidedBy cache evs ''loan_underwriting'' EvaluateUnderwriting \<and>
     decidedBy cache evs ''loan_servicing'' EvaluateServicing)"

definition loan_inv :: "'z loanbook_scheme \<Rightarrow> bool" where
  "loan_inv s \<longleftrightarrow> ledger_inv s \<and> loan_ok (loanSide s)"

lemma own_own [simp]: "own types (own types es) = own types es"
  by (simp add: own_def)

lemma replay_own [simp]: "replay f types (own types es) p = replay f types es p"
  by (simp add: replay_def)

lemma loan_inv_synced: "loan_inv s \<Longrightarrow> loan_synced s"
  by (simp add: loan_inv_def loan_ok_def loanSide_def loan_synced_def ledger_inv_def ledger_synced_def)

lemma loan_inv_ledger [simp]: "loan_inv s \<Longrightarrow> ledger_inv s" "loan_inv s \<Longrightarrow> ledger_synced s"
  by (simp_all add: loan_inv_def ledger_inv_synced)

lemma preserves_loan_inv:
  fixes m :: "('z loanbook_scheme, 'a) oper"
  assumes "preserves ledger_inv m" and "\<And>v. preserves (side v) m"
  shows "preserves loan_inv m"
proof (rule preservesI)
  fix s :: "'z loanbook_scheme"
  assume s: "loan_inv s"
  have "side (loanSide s) (snd (m s))" by (rule preservesD [OF assms(2)]) (simp only: side_def)
  with s preservesD [OF assms(1), of s] show "loan_inv (snd (m s))" by (simp add: loan_inv_def side_def)
qed

lemma ledger_inv_Evaluate [pres]: "preserves ledger_inv (Evaluate r ty i input)"
proof (rule preservesI)
  fix s :: "'z ledger_scheme"
  assume s: "ledger_inv s"
  then have "sound (clientView s) s" by (simp add: sound_def)
  then show "ledger_inv (snd (Evaluate r ty i input s))"
    using preservesD [OF sound_Evaluate, of "clientView s" s r ty i input] by (simp add: sound_def)
qed

lemma ledger_inv_draws: "preserves ledger_inv newID" "preserves ledger_inv Now"
  by (auto simp: preserves_def op_simps Now_def ledger_inv_frame)

lemma loan_inv_calls [pres]:
  "preserves loan_inv (Evaluate r ty i input)" "preserves loan_inv (Balance j)" "preserves loan_inv (ListTransactions f)"
  "preserves loan_inv (OpenAccount a)" "preserves loan_inv newID" "preserves loan_inv Now"
  "tx_typed tx \<Longrightarrow> preserves loan_inv (PostAndFinalize tx)"
  by (rule preserves_loan_inv; (intro pres ledger_inv_draws)?; assumption?)+

section \<open>Events of the loan book\<close>

definition emitted :: "'z loanbook_scheme \<Rightarrow> Event \<Rightarrow> 'z loanbook_scheme" where
  "emitted s e =
     s\<lparr>drawn := drawn s + 1, st_seq := st_seq s + 1, st_events := st_events s @ [stored s e],
       lb_proj := snd (apply_loan (stored s e) (lb_proj s))\<rparr>"

lemma emitLoan_app [op_simps]: "emitLoan ty i t pl s = (Inr (), emitted s (newEvent ty i t pl))"
  by (simp add: emitLoan_def bindE_def op_simps Let_def applyAppended_loan_def applyIgnoring_eq emitted_def stored_def)

lemma emitted_frame [simp]:
  "lg_proj (emitted s e) = lg_proj s" "now (emitted s e) = now s" "en_cache (emitted s e) = en_cache s"
  "en_evaluators (emitted s e) = en_evaluators s" "lb_applicants (emitted s e) = lb_applicants s"
  "rand (emitted s e) = rand s" "lg_rates (emitted s e) = lg_rates s"
  "lb_proj (emitted s e) = snd (apply_loan (stored s e) (lb_proj s))"
  "st_events (emitted s e) = st_events s @ [stored s e]"
  by (simp_all add: emitted_def)

lemma postedEntries_loan: "ev_Type e \<in> set loanEventTypes \<Longrightarrow> postedEntries e = []"
  using loan_types_foreign [of "ev_Type e"] by (auto simp: postedEntries_def)

lemma loanSide_emitted:
  "ev_Type e \<in> set loanEventTypes \<Longrightarrow> loanSide (emitted s e) =
     (own loanEventTypes (st_events s) @ [stored s e], snd (apply_loan (stored s e) (lb_proj s)), lb_applicants s,
      en_cache s, en_evaluators s)"
  by (simp add: loanSide_def)

lemma loan_ok_extend:
  assumes "loan_ok (es, p, rest)" and "good_loan e" and "ev_Type e \<in> set loanEventTypes"
  shows "loan_ok (es @ [e], snd (apply_loan e p), rest)"
proof -
  have "snd (apply_loan e p) = replay apply_loan loanEventTypes [e] p" using assms(3) by (simp add: replay_def)
  then show ?thesis using assms(1,2) by (cases rest) (simp add: loan_ok_def replay_append)
qed

lemma ledger_inv_emitted:
  assumes s: "ledger_inv s" and ty: "ev_Type e \<in> set loanEventTypes"
  shows "ledger_inv (emitted s e)"
proof -
  have foreign: "own ledgerEventTypes [stored s e] = []"
    using loan_types_foreign [OF ty] by (simp del: set_ledgerEventTypes)
  have "log_wf (emitted s e)" using s by (simp add: ledger_inv_def ledger_synced_def log_wf_def emitted_def)
  moreover have "journal (st_events (emitted s e)) = journal (st_events s)"
    using ty by (simp add: postedEntries_loan)
  moreover have "own ledgerEventTypes (st_events (emitted s e)) = own ledgerEventTypes (st_events s)"
    by (simp only: emitted_frame own_append foreign append_Nil2)
  ultimately show ?thesis
    using s unfolding ledger_inv_def ledger_synced_def replay_def by (metis emitted_frame(1))
qed

lemma emitted_inv:
  assumes s: "loan_inv s" and ty: "ev_Type e \<in> set loanEventTypes" and e: "good_loan e"
  shows "loan_inv (emitted s e)" and "journal (st_events (emitted s e)) = journal (st_events s)"
proof -
  have "good_loan (stored s e)" using e by (simp add: good_loan_def)
  moreover have "loan_ok (loanSide s)" using s by (simp add: loan_inv_def)
  ultimately have "loan_ok (loanSide (emitted s e))"
    using loan_ok_extend ty by (simp add: loanSide_emitted) (simp add: loanSide_def)
  then show "loan_inv (emitted s e)" using ledger_inv_emitted [OF loan_inv_ledger(1) [OF s] ty] by (simp add: loan_inv_def)
  show "journal (st_events (emitted s e)) = journal (st_events s)"
    using ty by (simp add: postedEntries_loan)
qed

section \<open>Payloads that decode\<close>

lemma encMissed_good:
  assumes "encMissed p = Inr j" and "in64 (pm_InstallmentNo p)" "in64 (pm_DaysPastDue p)"
    "in64 (pm_MissedPaymentsSoFar p)" "in64 (pm_LateFeeCents p)"
  shows "decMissed j = Some p"
  using assms by (auto simp: encMissed_def decMissed_def jfield_def getOr_def split: if_splits)

lemma encDefaulted_good: "encDefaulted p = Inr j \<Longrightarrow> in64 (dp_WrittenOffCents p) \<Longrightarrow> decDefaulted j = Some p"
  by (auto simp: encDefaulted_def decDefaulted_def jfield_def getOr_def split: if_splits)

lemma encRepaid_good: "encRepaid p = Inr j \<Longrightarrow> decRepaid j = Some p"
  by (auto simp: encRepaid_def decRepaid_def jfield_def getOr_def split: if_splits)

definition row_typed :: "Installment \<Rightarrow> bool" where
  "row_typed x \<longleftrightarrow> in64 (in_No x) \<and> in64 (in_PaymentCents x) \<and> in64 (in_PrincipalCents x) \<and>
     in64 (in_InterestCents x) \<and> in64 (in_RemainingPrincipalCents x)"

definition record_typed :: "loanRecord \<Rightarrow> bool" where
  "record_typed r \<longleftrightarrow> in64 (lr_PrincipalCents r) \<and> in64 (lr_TermMonths r) \<and> in64 (lr_AnnualRateBps r) \<and>
     in64 (lr_RiskScore r) \<and> in64 (lr_PDbps r) \<and> in64 (lr_LGDbps r)"

lemma encInstallment_good: "encInstallment x = Inr j \<Longrightarrow> row_typed x \<Longrightarrow> decInstallment j = Some x"
  by (auto simp: encInstallment_def decInstallment_def row_typed_def jfield_def getOr_def split: if_splits)

lemma encRows_good: "mapR encInstallment xs = Inr js \<Longrightarrow> list_all row_typed xs \<Longrightarrow> optList decInstallment js = Some xs"
  by (induction xs arbitrary: js) (auto simp: bindR_eq_Inr encInstallment_good)

lemma encOriginated_good:
  assumes "encOriginated r sched = Inr j" and "record_typed r" and "list_all row_typed sched"
  shows "decOriginated j = Some r"
proof -
  obtain rows where "mapR encInstallment sched = Inr rows"
    using assms(1) by (auto simp: encOriginated_def bindR_eq_Inr split: if_splits)
  with assms encRows_good [OF this assms(3)] show ?thesis
    by (auto simp: encOriginated_def decOriginated_def record_typed_def jfield_def getOr_def split: if_splits)
qed

lemma decOriginated_typed: "decOriginated j = Some r \<Longrightarrow> record_typed r"
  by (auto simp: decOriginated_def record_typed_def dest: jInt_in64 split: option.splits)

lemma scheduleLoop_typed:
  "in64 out \<Longrightarrow> in64 pay \<Longrightarrow> list_all in64 nos \<Longrightarrow> list_all row_typed (scheduleLoop r pay n t nos out)"
  by (induction nos arbitrary: out) (simp_all add: Let_def row_typed_def mkInstallment_def interestOn_def)

lemma Schedule_typed:
  assumes "in64 p" and "in64 n"
  shows "list_all row_typed (Schedule p r n t)"
proof -
  have "list_all in64 [1..n]" using assms(2) by (auto simp: list_all_iff in64_def min64_def)
  then show ?thesis using assms(1) by (simp add: Schedule_def scheduleLoop_typed)
qed

section \<open>The projection\<close>

text \<open>Every loan of the projection is stored under its identifier, its numbers are within 64 bits, and its receivable
  is its own.\<close>

definition loans_wf :: "loanProjection \<Rightarrow> bool" where
  "loans_wf p \<longleftrightarrow>
     (\<forall>i st. map_of (lp_loans p) i = Some st \<longrightarrow>
        lr_ID (ls_record st) = i \<and> record_typed (ls_record st) \<and> ownReceivable (ls_record st)) \<and>
     (\<forall>i \<in> set (lp_order p). map_of (lp_loans p) i \<noteq> None)"

lemma loans_wf_seen [simp]: "loans_wf (seenLoan e p) = loans_wf p"
  by (simp add: loans_wf_def)

lemma loans_wf_onLoan:
  "loans_wf p \<Longrightarrow> (\<And>st. ls_record (f st) = ls_record st) \<Longrightarrow> loans_wf (onLoan i f p)"
  by (auto simp: loans_wf_def onLoan_def split: option.split if_splits)

definition freshLoan :: "loanRecord \<Rightarrow> loanState" where
  "freshLoan r = \<lparr>ls_record = r, ls_missed = [], ls_defaulted = False, ls_defaultReason = '''', ls_repaid = False\<rparr>"

definition bookLoan :: "loanRecord \<Rightarrow> loanProjection \<Rightarrow> loanProjection" where
  "bookLoan r p =
     p\<lparr>lp_loans := AList.update (lr_ID r) (freshLoan r) (lp_loans p), lp_order := lp_order p @ [lr_ID r]\<rparr>"

lemma apply_loan_eqs:
  "ev_Type e = eventLoanOriginated \<Longrightarrow> decOriginated (ev_Payload e) = Some r \<Longrightarrow>
     snd (apply_loan e p) = seenLoan e (bookLoan r p)"
  "ev_Type e = eventLoanPaymentMissed \<Longrightarrow> decMissed (ev_Payload e) = Some pm \<Longrightarrow>
     snd (apply_loan e p) = seenLoan e (onLoan (pm_LoanID pm)
       (\<lambda>st. st\<lparr>ls_missed := List.insert (pm_InstallmentNo pm) (ls_missed st)\<rparr>) p)"
  "ev_Type e = eventLoanDefaulted \<Longrightarrow> decDefaulted (ev_Payload e) = Some d \<Longrightarrow>
     snd (apply_loan e p) = seenLoan e (onLoan (dp_LoanID d)
       (\<lambda>st. st\<lparr>ls_defaulted := True, ls_defaultReason := dp_Reason d\<rparr>) p)"
  "ev_Type e = eventLoanRepaid \<Longrightarrow> decRepaid (ev_Payload e) = Some rp \<Longrightarrow>
     snd (apply_loan e p) = seenLoan e (onLoan (rp_LoanID rp) (\<lambda>st. st\<lparr>ls_repaid := True\<rparr>) p)"
  by (simp_all add: apply_loan_def bookLoan_def freshLoan_def)

lemma apply_loan_cases:
  obtains "snd (apply_loan e p) = p" | "snd (apply_loan e p) = seenLoan e p"
  | r where "ev_Type e = eventLoanOriginated" "decOriginated (ev_Payload e) = Some r"
      "snd (apply_loan e p) = seenLoan e (bookLoan r p)"
  | i f where "\<And>st. ls_record (f st) = ls_record st" "snd (apply_loan e p) = seenLoan e (onLoan i f p)"
proof -
  consider (o) "ev_Type e = eventLoanOriginated" | (m) "ev_Type e = eventLoanPaymentMissed"
    | (d) "ev_Type e = eventLoanDefaulted" | (r) "ev_Type e = eventLoanRepaid"
    | (x) "ev_Type e \<notin> {eventLoanOriginated, eventLoanPaymentMissed, eventLoanDefaulted, eventLoanRepaid}"
    by blast
  then show thesis
  proof cases
    case o
    then show ?thesis
      by (cases "decOriginated (ev_Payload e)") (auto simp: apply_loan_eqs intro: that(3), simp add: apply_loan_def that(1))
  next
    case m
    then show ?thesis
      by (cases "decMissed (ev_Payload e)")
        (simp add: apply_loan_def that(1), rule that(4) [OF _ apply_loan_eqs(2)], simp_all)
  next
    case d
    then show ?thesis
      by (cases "decDefaulted (ev_Payload e)")
        (simp add: apply_loan_def that(1), rule that(4) [OF _ apply_loan_eqs(3)], simp_all)
  next
    case r
    then show ?thesis
      by (cases "decRepaid (ev_Payload e)")
        (simp add: apply_loan_def that(1), rule that(4) [OF _ apply_loan_eqs(4)], simp_all)
  next
    case x
    then show ?thesis by (simp add: apply_loan_def that(2))
  qed
qed

lemma loans_wf_book: "loans_wf p \<Longrightarrow> record_typed r \<Longrightarrow> ownReceivable r \<Longrightarrow> loans_wf (bookLoan r p)"
  by (auto simp: loans_wf_def bookLoan_def freshLoan_def)

lemma loans_wf_apply: "loans_wf p \<Longrightarrow> good_loan e \<Longrightarrow> loans_wf (snd (apply_loan e p))"
  by (cases rule: apply_loan_cases [of e p])
    (auto simp: loans_wf_book loans_wf_onLoan decOriginated_typed good_loan_def)

lemma loans_wf_replay:
  assumes "\<forall>e \<in> set (own types es). good_loan e"
  shows "loans_wf (replay apply_loan types es newLoanProjection)"
proof -
  have fold: "loans_wf p \<Longrightarrow> \<forall>e \<in> set es. good_loan e \<Longrightarrow> loans_wf (foldl (\<lambda>q e. snd (apply_loan e q)) p es)" for p es
    by (induction es arbitrary: p) (simp_all add: loans_wf_apply)
  have "loans_wf newLoanProjection" by (simp add: loans_wf_def newLoanProjection_def)
  then show ?thesis unfolding replay_def using assms by (rule fold)
qed

lemma loan_inv_wf: "loan_inv s \<Longrightarrow> loans_wf (lb_proj s)"
  using loans_wf_replay [of loanEventTypes "own loanEventTypes (st_events s)"]
  by (auto simp: loan_inv_def loan_ok_def loanSide_def)

text \<open>Reading a loan in a state with the invariant: it changes nothing.\<close>

definition repayments :: "'z loanbook_scheme \<Rightarrow> string \<Rightarrow> Transaction list" where
  "repayments s acct =
     sort_key (\<lambda>tx. (tx_OccurredAt tx, tx_ID tx))
       (filter (matchesTx (txFilterBy acct ''loan.repayment'')) (map snd (pj_txs (lg_proj s))))"

definition loanView :: "'z loanbook_scheme \<Rightarrow> loanState \<Rightarrow> Account \<Rightarrow> Loan" where
  "loanView s st acc =
     loanOf st (repayments s (lr_ReceivableAccountID (ls_record st))) (naturalBalance (lg_proj s) acc)"

lemma buildLoan_app [op_simps]:
  "ledger_synced s \<Longrightarrow> buildLoan st s =
     (ofOption ErrNotFound (map_option (loanView s st)
        (map_of (pj_accounts (lg_proj s)) (lr_ReceivableAccountID (ls_record st)))), s)"
  by (cases "map_of (pj_accounts (lg_proj s)) (lr_ReceivableAccountID (ls_record st))")
    (simp_all add: buildLoan_def ListTransactions_def op_simps ofOption_def loanView_def repayments_def)

lemma GetLoan_app:
  assumes "loan_inv s"
  shows "GetLoan i s =
     (case map_of (lp_loans (lb_proj s)) i of
        None \<Rightarrow> (Inl ErrNotFound, s)
      | Some st \<Rightarrow>
          (ofOption ErrNotFound (map_option (loanView s st)
             (map_of (pj_accounts (lg_proj s)) (lr_ReceivableAccountID (ls_record st)))), s))"
  using assms loan_inv_synced [OF assms]
  by (simp add: GetLoan_def op_simps ofOption_def split: option.split)

lemma GetLoan_InrE:
  assumes "loan_inv s" and "GetLoan i s = (Inr loan, s')"
  obtains st acc where "s' = s" and "map_of (lp_loans (lb_proj s)) i = Some st"
    and "map_of (pj_accounts (lg_proj s)) (lr_ReceivableAccountID (ls_record st)) = Some acc" and "loan = loanView s st acc"
  using assms by (auto simp: GetLoan_app ofOption_def split: option.splits)

lemma loan_inv_reads [pres]:
  "preserves loan_inv (buildLoan st)" "preserves loan_inv (GetLoan i)" "preserves loan_inv ListLoans"
  "preserves loan_inv (listedLoan i)"
proof -
  show b: "preserves loan_inv (buildLoan st)" for st unfolding buildLoan_def by (intro pres)
  have r: "preserves loan_inv refresh_loan" by (auto simp: preserves_def loan_inv_synced)
  show "preserves loan_inv (GetLoan i)" unfolding GetLoan_def by (intro pres b r)
  show l: "preserves loan_inv (listedLoan i)" for i unfolding listedLoan_def by (intro pres b)
  show "preserves loan_inv ListLoans" unfolding ListLoans_def by (intro pres l r)
qed

section \<open>Every operation keeps the invariant\<close>

lemma preserves_lift:
  "(\<And>x. r = Inr x \<Longrightarrow> preserves P (f x)) \<Longrightarrow> preserves P (bindE (liftE r) f)"
  by (cases r) (simp_all add: liftE_bind preserves_def bindE_def op_simps)

lemma loan_inv_emit:
  "ty \<in> set loanEventTypes \<Longrightarrow> good_loan (newEvent ty i t pl) \<Longrightarrow> preserves loan_inv (emitLoan ty i t pl)"
  by (auto simp: preserves_def op_simps intro: emitted_inv)

lemma good_loan_events:
  "decOriginated pl = Some r \<Longrightarrow> ownReceivable r \<Longrightarrow> good_loan (newEvent eventLoanOriginated i t pl)"
  "decMissed pl \<noteq> None \<Longrightarrow> good_loan (newEvent eventLoanPaymentMissed i t pl)"
  "decDefaulted pl \<noteq> None \<Longrightarrow> good_loan (newEvent eventLoanDefaulted i t pl)"
  "decRepaid pl \<noteq> None \<Longrightarrow> good_loan (newEvent eventLoanRepaid i t pl)"
  by (simp_all add: good_loan_def)

lemma loan_inv_appendRepaid [pres]: "preserves loan_inv (appendRepaidEvent i)"
  unfolding appendRepaidEvent_def
  by (intro pres preserves_lift loan_inv_emit good_loan_events loan_types) (simp add: encRepaid_good)

lemmas in64_float [simp] = in64_float_to_int64

lemma row_overlay [simp]: "row_typed (overlay a b x) = row_typed x"
  by (simp add: overlay_def row_typed_def)

lemma loanView_fields [simp]:
  "ln_ID (loanView s st acc) = lr_ID (ls_record st)"
  "ln_ReceivableAccountID (loanView s st acc) = lr_ReceivableAccountID (ls_record st)"
  "ln_DepositAccountID (loanView s st acc) = lr_DepositAccountID (ls_record st)"
  "ln_OutstandingPrincipalCents (loanView s st acc) = naturalBalance (lg_proj s) acc"
  "ln_Status (loanView s st acc) = loanStatus st (naturalBalance (lg_proj s) acc)"
  "ln_MissedPayments (loanView s st acc) = int (length (ls_missed st))"
  by (simp_all add: loanView_def loanOf_def Let_def)

lemma loanView_schedule:
  "ln_Schedule (loanView s st acc) =
     map (overlay (map (\<lambda>tx. ParseIntVal (metaOf tx ''installment_no''))
                    (repayments s (lr_ReceivableAccountID (ls_record st)))) (ls_missed st))
       (Schedule (lr_PrincipalCents (ls_record st)) (lr_AnnualRateBps (ls_record st)) (lr_TermMonths (ls_record st))
          (lr_OriginatedAt (ls_record st)))"
  by (simp add: loanView_def loanOf_def Let_def)

lemma loanView_rows:
  assumes "loan_inv s" and "map_of (lp_loans (lb_proj s)) i = Some st"
    and "firstScheduled (ln_Schedule (loanView s st acc)) = Some x"
  shows "row_typed x" and "in_Status x = StatusScheduled"
proof -
  have "record_typed (ls_record st)" using loan_inv_wf [OF assms(1)] assms(2) by (auto simp: loans_wf_def)
  then have "list_all row_typed (ln_Schedule (loanView s st acc))"
    using Schedule_typed by (auto simp: loanView_schedule list_all_iff record_typed_def)
  moreover have "x \<in> set (ln_Schedule (loanView s st acc)) \<and> in_Status x = StatusScheduled"
    using assms(3) by (auto simp: firstScheduled_def find_Some_iff)
  ultimately show "row_typed x" "in_Status x = StatusScheduled" by (auto simp: list_all_iff)
qed

text \<open>The loan an operation starts from: its next row is typed.\<close>

lemma loan_inv_from_loan:
  assumes "\<And>loan. (\<forall>x. firstScheduled (ln_Schedule loan) = Some x \<longrightarrow> row_typed x) \<Longrightarrow> preserves loan_inv (f loan)"
  shows "preserves loan_inv (bindE (GetLoan i) f)"
proof (rule preserves_bindE_res)
  fix s :: "'a loanbook_scheme" and loan s'
  assume s: "loan_inv s" and "GetLoan i s = (Inr loan, s')"
  then obtain st acc where "map_of (lp_loans (lb_proj s)) i = Some st" "loan = loanView s st acc"
    by (rule GetLoan_InrE)
  then show "preserves loan_inv (f loan)" using loanView_rows [OF s] assms by blast
qed (intro pres)

lemma typed_usdTransfer: "tx_typed (usdTransfer k d a b n) = in64 n"
  by (simp add: tx_typed_def usdTransfer_def newTx_def mkEntry_def)

lemma typed_repaymentTx: "in64 amt \<Longrightarrow> row_typed x \<Longrightarrow> tx_typed (repaymentTx i loan x amt)"
  by (auto simp: tx_typed_def repaymentTx_def repaymentEntries_def newTx_def mkEntry_def Let_def row_typed_def)

lemma in64_orDefault: "in64 d \<Longrightarrow> in64 n \<Longrightarrow> in64 (orDefault d n)"
  by (simp add: orDefault_def)

lemma loan_inv_Repay:
  assumes "in64 amount"
  shows "preserves loan_inv (Repay i amount)"
  unfolding Repay_def Let_def
  by (intro loan_inv_from_loan pres preserves_lift typed_repaymentTx in64_orDefault)
    (use assms in \<open>auto simp: row_typed_def ofOption_def split: option.splits\<close>)

text \<open>What the evaluators return is within 64 bits.\<close>

lemma servicing_typed: "EvaluateServicing c inp = Inr out \<Longrightarrow> in64 (int64Or (gget out ''late_fee_cents''))"
  by (auto simp: EvaluateServicing_def Let_def bindR_eq_Inr gget_def getOr_def int64Or_def)

lemma risk_typed:
  assumes "EvaluateRiskScore c inp = Inr out"
  shows "in64 (int64Or (gget out ''risk_score''))" "in64 (int64Or (gget out ''pd_bps''))"
    "in64 (int64Or (gget out ''lgd_bps''))"
  using assms by (auto simp: EvaluateRiskScore_def Let_def bindR_eq_Inr gget_def getOr_def int64Or_def)

lemma underwriting_typed:
  assumes "EvaluateUnderwriting c inp = Inr out" and "in64 (pv_AnnualRateBps p)"
  shows "in64 (pv_AnnualRateBps (repriced out p))"
  using assms
  by (auto simp: EvaluateUnderwriting_def underwritingOutcome_def Let_def bindR_eq_Inr gget_def getOr_def repriced_def
      split: option.splits)

lemma pricing_typed: "pricingTier c k = Inr p \<Longrightarrow> in64 (pv_AnnualRateBps p)"
  by (auto simp: pricingTier_def bindR_eq_Inr)

lemma Evaluate_decided:
  assumes "Evaluate r ty i input s = (Inr d, s')" and "decidedBy (en_cache s) (en_evaluators s) r ev"
  shows "\<exists>c. ev c input = Inr (de_Output d)"
  using Evaluate_output [OF assms(1)] assms(2) by (auto simp: decidedBy_def getEvaluator_def)

lemma loan_inv_decided:
  assumes "loan_inv s"
  shows "decidedBy (en_cache s) (en_evaluators s) ''risk_scoring'' EvaluateRiskScore"
    "decidedBy (en_cache s) (en_evaluators s) ''loan_underwriting'' EvaluateUnderwriting"
    "decidedBy (en_cache s) (en_evaluators s) ''loan_servicing'' EvaluateServicing"
  using assms by (simp_all add: loan_inv_def loan_ok_def loanSide_def)

lemma loan_inv_recordMissed:
  assumes "row_typed x" and "in64 days" and "in64 (int64Or (gget (de_Output d) ''late_fee_cents''))"
  shows "preserves loan_inv (recordMissed i loan x days d)"
  unfolding recordMissed_def Let_def lateFeeTx_def
  by (intro pres preserves_lift loan_inv_emit good_loan_events loan_types)
    (use assms in \<open>auto simp: typed_usdTransfer row_typed_def dest: encMissed_good\<close>)

lemma in64_daysPastDue [simp]: "in64 (daysPastDue t u)"
  using in64_float_to_int64 [of "flDiv (Hours (subTime t u)) (Fin 24)"] by (auto simp: daysPastDue_def max_def)

lemma loan_inv_from_servicing:
  assumes "\<And>d. in64 (int64Or (gget (de_Output d) ''late_fee_cents'')) \<Longrightarrow> preserves loan_inv (f d)"
  shows "preserves loan_inv (bindE (Evaluate ''loan_servicing'' ty i input) f)"
proof (rule preserves_bindE_res)
  fix s :: "'a loanbook_scheme" and d s'
  assume s: "loan_inv s" and run: "Evaluate ''loan_servicing'' ty i input s = (Inr d, s')"
  show "preserves loan_inv (f d)"
    using Evaluate_decided [OF run loan_inv_decided(3) [OF s]] by (auto intro: assms servicing_typed)
qed (intro pres)

lemma loan_inv_from_balance:
  assumes "\<And>b. in64 (am_Minor b) \<Longrightarrow> preserves loan_inv (f b)"
  shows "preserves loan_inv (bindE (Balance a) f)"
proof (rule preserves_bindE_res)
  fix s :: "'a loanbook_scheme" and b s'
  assume "loan_inv s" and "Balance a s = (Inr b, s')"
  then have "in64 (am_Minor b)"
    by (auto simp: op_simps ofOption_def naturalBalance_def Let_def split: option.splits)
  then show "preserves loan_inv (f b)" by (rule assms)
qed (intro pres)

lemma loan_inv_miss [pres]: "preserves loan_inv (missPaymentInternal i)"
  unfolding missPaymentInternal_def Let_def
  by (intro loan_inv_from_loan loan_inv_from_servicing loan_inv_recordMissed pres preserves_lift)
    (auto simp: ofOption_def split: option.splits)

lemma loan_inv_Default [pres]: "preserves loan_inv (Default i reason)"
  unfolding Default_def Let_def writeoffTx_def
  by (intro loan_inv_from_loan loan_inv_from_balance pres preserves_lift loan_inv_emit good_loan_events loan_types)
    (auto simp: typed_usdTransfer dest: encDefaulted_good)

lemma loan_inv_tick [pres]: "preserves loan_inv (tickInstallments grace t i xs report)"
  by (induction xs arbitrary: report) (auto simp: Let_def intro!: pres)

lemma loan_inv_Tick: "preserves loan_inv Tick"
proof -
  have "preserves loan_inv (tickLoans grace t loans report)" for grace t loans report
    by (induction loans arbitrary: report) (auto intro!: pres)
  then show ?thesis unfolding Tick_def by (intro pres)
qed

lemma loan_inv_MissPayment: "preserves loan_inv (MissPayment i)"
  unfolding MissPayment_def by (intro pres)

section \<open>Underwriting and origination\<close>

definition quietView :: "'z loanbook_scheme \<Rightarrow> Event list \<times> int \<times> projection \<times> loanProjection \<times> instant \<times>
    (nat \<Rightarrow> string) \<times> (string \<times> Applicant) list \<times> (string \<times> Rule) list \<times> (string \<times> Evaluator) list" where
  "quietView s = (st_events s, st_seq s, lg_proj s, lb_proj s, now s, rand s, lb_applicants s, en_cache s, en_evaluators s)"

definition quiet :: "Event list \<times> int \<times> projection \<times> loanProjection \<times> instant \<times>
    (nat \<Rightarrow> string) \<times> (string \<times> Applicant) list \<times> (string \<times> Rule) list \<times> (string \<times> Evaluator) list \<Rightarrow>
    'z loanbook_scheme \<Rightarrow> bool" where
  "quiet v s \<longleftrightarrow> quietView s = v"

lemma quiet_Evaluate: "preserves (quiet v) (Evaluate r ty i input)"
proof (rule preservesI)
  fix s :: "'z loanbook_scheme"
  assume s: "quiet v s"
  obtain res s' where run: "Evaluate r ty i input s = (res, s')" by (cases "Evaluate r ty i input s")
  have "side (loanSide s) s'" using preserves_result [OF side_Evaluate _ run] by (simp add: side_def)
  then show "quiet v (snd (Evaluate r ty i input s))"
    using s Evaluate_frame [OF run] by (simp add: run quiet_def quietView_def side_def loanSide_def)
qed

lemma quiet_Underwrite: "preserves (quiet v) (Underwrite req)"
  unfolding Underwrite_def Let_def getApplicant_def by (intro quiet_Evaluate pres)

text \<open>Underwriting writes rule applications and nothing else.\<close>

lemma Underwrite_quiet: "Underwrite req s = (res, s') \<Longrightarrow> quietView s' = quietView s"
  using preserves_result [OF quiet_Underwrite, of "quietView s" s] by (simp add: quiet_def)

lemma loan_inv_quiet: "quietView s' = quietView s \<Longrightarrow> loan_inv s \<Longrightarrow> loan_inv s'"
  using ledger_inv_cong [of s' s] by (simp add: quietView_def loan_inv_def loanSide_def)

lemma loan_inv_Underwrite [pres]: "preserves loan_inv (Underwrite req)"
proof (rule preservesI)
  fix s :: "'z loanbook_scheme"
  assume "loan_inv s"
  then show "loan_inv (snd (Underwrite req s))"
    using Underwrite_quiet [of req s] loan_inv_quiet by (cases "Underwrite req s") simp
qed

text \<open>A result of underwriting: whom it is for, how the decision came about, and that its numbers are typed.\<close>

definition result_typed :: "UnderwriteResult \<Rightarrow> bool" where
  "result_typed u \<longleftrightarrow> in64 (pv_AnnualRateBps (ur_Pricing u)) \<and> in64 (rk_RiskScore (ur_Risk u)) \<and>
     in64 (rk_PDbps (ur_Risk u)) \<and> in64 (rk_LGDbps (ur_Risk u))"

lemma Underwrite_InrE:
  assumes s: "loan_inv s" and run: "Underwrite req s = (Inr u, s')"
  obtains a d1 d2 rule p where "map_of (lb_applicants s) (uq_ApplicantID req) = Some a"
    and "\<exists>c. EvaluateRiskScore c (riskInput a) = Inr (de_Output d1)"
    and "map_of (en_cache s) ''loan_underwriting'' = Some rule"
    and "pricingTier (ru_Content rule) (int64Or (gget (de_Output d1) ''risk_score'')) = Inr p"
    and "EvaluateUnderwriting (ru_Content rule) (eligibilityInput a (int64Or (gget (de_Output d1) ''risk_score''))
        (orDefault DefaultPrincipalCents (uq_RequestedPrincipalCents req)) (orDefault DefaultTermMonths (uq_TermMonths req))
        (MonthlyPayment (orDefault DefaultPrincipalCents (uq_RequestedPrincipalCents req)) (pv_AnnualRateBps p)
          (orDefault DefaultTermMonths (uq_TermMonths req)))) = Inr (de_Output d2)"
    and "u = underwriteResult a d1 p (MonthlyPayment (orDefault DefaultPrincipalCents (uq_RequestedPrincipalCents req))
        (pv_AnnualRateBps p) (orDefault DefaultTermMonths (uq_TermMonths req))) d2"
proof -
  let ?princ = "orDefault DefaultPrincipalCents (uq_RequestedPrincipalCents req)"
    and ?n = "orDefault DefaultTermMonths (uq_TermMonths req)"
  from run obtain a d1 s1 rule p d2 where a: "map_of (lb_applicants s) (uq_ApplicantID req) = Some a"
    and 1: "Evaluate ''risk_scoring'' ''applicant'' (ap_ID a) (riskInput a) s = (Inr d1, s1)"
    and rule: "map_of (en_cache s1) ''loan_underwriting'' = Some rule"
    and p: "pricingTier (ru_Content rule) (int64Or (gget (de_Output d1) ''risk_score'')) = Inr p"
    and 2: "Evaluate ''loan_underwriting'' ''applicant'' (ap_ID a) (eligibilityInput a
        (int64Or (gget (de_Output d1) ''risk_score'')) ?princ ?n (MonthlyPayment ?princ (pv_AnnualRateBps p) ?n)) s1 = (Inr d2, s')"
    and u: "u = underwriteResult a d1 p (MonthlyPayment ?princ (pv_AnnualRateBps p) ?n) d2"
    by (auto simp: Underwrite_def Let_def getApplicant_def bindE_eq_Inr op_simps ofOption_def GetRule_def split: option.splits)
  note f = Evaluate_frame [OF 1]
  have "getEvaluator s1 (ru_RuleType rule) = Some EvaluateUnderwriting"
    using loan_inv_decided(2) [OF s] f rule by (simp add: decidedBy_def getEvaluator_def)
  then show thesis
    using that [OF a Evaluate_decided [OF 1 loan_inv_decided(1) [OF s]] _ p] f rule u Evaluate_output [OF 2] by auto
qed

lemma Underwrite_typed: "loan_inv s \<Longrightarrow> Underwrite req s = (Inr u, s') \<Longrightarrow> result_typed u"
  by (erule Underwrite_InrE, assumption)
    (auto simp: underwriteResult_def result_typed_def intro: risk_typed underwriting_typed pricing_typed)

lemma in64_defaults [simp]: "in64 DefaultPrincipalCents" "in64 DefaultTermMonths"
  by (simp_all add: DefaultPrincipalCents_def DefaultTermMonths_def in64_def min64_def max64_def)

lemma record_of_typed:
  "result_typed u \<Longrightarrow> in64 princ \<Longrightarrow> in64 months \<Longrightarrow> record_typed (loanRecordOf i u princ months t)"
  by (simp add: record_typed_def loanRecordOf_def result_typed_def)

lemma own_record [simp]: "ownReceivable (loanRecordOf i u princ months t)"
  by (simp add: ownReceivable_def loanRecordOf_def)

lemma good_originated:
  "encOriginated r sched = Inr pl \<Longrightarrow> record_typed r \<Longrightarrow> list_all row_typed sched \<Longrightarrow> ownReceivable r \<Longrightarrow>
     good_loan (newEvent eventLoanOriginated i t pl)"
  by (rule good_loan_events(1) [OF encOriginated_good])

lemma loan_inv_Originate:
  assumes "in64 (oq_PrincipalCents req)" and "in64 (oq_TermMonths req)"
  shows "preserves loan_inv (Originate req)"
proof -
  let ?p = "orDefault DefaultPrincipalCents (oq_PrincipalCents req)" and ?n = "orDefault DefaultTermMonths (oq_TermMonths req)"
  have in64: "in64 ?p" "in64 ?n" using assms by (simp_all add: in64_orDefault)
  let ?m = "Underwrite \<lparr>uq_ApplicantID = oq_ApplicantID req, uq_RequestedPrincipalCents = ?p, uq_TermMonths = ?n\<rparr>"
  have step: "preserves loan_inv (bindE ?m f)" if "\<And>u. result_typed u \<Longrightarrow> preserves loan_inv (f u)"
    for f :: "UnderwriteResult \<Rightarrow> ('a loanbook_scheme, Loan) oper"
  proof (rule preserves_bindE_res)
    fix s :: "'a loanbook_scheme" and u s'
    assume "loan_inv s" and "?m s = (Inr u, s')"
    then show "preserves loan_inv (f u)" by (intro that Underwrite_typed)
  qed (intro pres)
  show ?thesis
    unfolding Originate_def Let_def disbursementTx_def
    by (intro step pres preserves_lift loan_inv_emit good_originated loan_types; assumption?)
      (use in64 in \<open>simp_all add: typed_usdTransfer record_of_typed Schedule_typed\<close>)
qed

lemma loan_inv_addApplicant: "applicant_typed a \<Longrightarrow> preserves loan_inv (addApplicant a)"
proof (rule preservesI)
  fix s :: "'z loanbook_scheme"
  assume a: "applicant_typed a" and s: "loan_inv s"
  let ?ok = "list_all (\<lambda>(i :: string, a :: Applicant). applicant_typed a)"
    and ?s = "s\<lparr>lb_applicants := AList.update (ap_ID a) a (lb_applicants s)\<rparr>"
  have "?ok xs \<Longrightarrow> ?ok (AList.update i a xs)" for i xs
    using a by (induction xs) auto
  then have "loan_ok (loanSide ?s)" using s by (simp add: loan_inv_def loan_ok_def loanSide_def)
  moreover have "ledger_inv ?s = ledger_inv s" by (rule ledger_inv_cong) simp_all
  ultimately show "loan_inv (snd (addApplicant a s))" using s by (simp add: addApplicant_def op_simps loan_inv_def)
qed

lemma loan_inv_SeedLoans: "preserves loan_inv SeedLoans"
proof -
  have "applicant_typed a" if "a \<in> set seedApplicants" for a
    using that by (auto simp: seedApplicants_def mkApplicant_def applicant_typed_def in64_def min64_def max64_def)
  then have "preserves loan_inv (foreachE seedApplicants addApplicant)"
    by (intro preserves_foreachE_on loan_inv_addApplicant)
  moreover have "preserves loan_inv refresh_loan" by (auto simp: preserves_def loan_inv_synced)
  moreover have "preserves loan_inv (Originate \<lparr>oq_ApplicantID = ''demo-applicant-2'', oq_PrincipalCents = 500000, oq_TermMonths = 24\<rparr>)"
    by (rule loan_inv_Originate) (simp_all add: in64_def min64_def max64_def)
  ultimately show ?thesis
    unfolding SeedLoans_def by (intro preserves_bindE preserves_getE preserves_if preserves_returnE)
qed

end
