(* ===== verification/Loan_Props.thy ===== *)
theory Loan_Props
  imports Loan_Inv
begin

section \<open>Posting on the books of the bank\<close>

lemma accounts_id: "ledger_inv s \<Longrightarrow> map_of (pj_accounts (lg_proj s)) i = Some acc \<Longrightarrow> ac_ID acc = i"
  by (auto simp: ledger_inv_def proj_inv_def accounts_wf_def)

lemma balance_of_journal:
  assumes "ledger_synced s" and "ledger_synced s'" and "journal (st_events s') = journal (st_events s) @ es"
    and "NormalBalance (ac_Type acc) = Debit"
  shows "naturalBalance (lg_proj s') acc =
    wrap64 (naturalBalance (lg_proj s) acc + (sumFor Debit (ac_ID acc) es - sumFor Credit (ac_ID acc) es))"
  using assms
  by (simp add: naturalBalance_spec specBalance_def Let_def wrap64_add_left) (simp add: algebra_simps)

text \<open>
  What an operation of the loan book adds to the journal, and that it leaves the clock and the
  accounts alone.
\<close>

definition booked :: "Entry list \<Rightarrow> 'z loanbook_scheme \<Rightarrow> 'z loanbook_scheme \<Rightarrow> bool" where
  "booked es s s' \<longleftrightarrow> loan_inv s' \<and> journal (st_events s') = journal (st_events s) @ es \<and> now s' = now s \<and>
     pj_accounts (lg_proj s') = pj_accounts (lg_proj s) \<and> lb_applicants s' = lb_applicants s"

lemma booked_trans: "booked es s s' \<Longrightarrow> booked fs s' s'' \<Longrightarrow> booked (es @ fs) s s''"
  by (simp add: booked_def)

lemma loan_posts:
  assumes s: "loan_inv s" and ty: "tx_typed tx" and run: "PostAndFinalize tx s = (Inr t, s')"
  shows "booked (tx_Entries tx) s s'" and "lb_proj s' = lb_proj s"
    and "map_of (pj_txs (lg_proj s')) (postID tx s) = Some ((pending tx s)\<lparr>tx_Status := StatusFinal\<rparr>)"
proof -
  have inv: "loan_inv s'" by (rule preserves_result [OF loan_inv_calls(7) [OF ty] s run])
  have side: "loanSide s' = loanSide s"
    using preserves_result [OF side_ledger(2) _ run, of "loanSide s"] by (simp add: side_def)
  note p = PostAndFinalize_posted [OF loan_inv_ledger(1) [OF s] ty run]
  show "booked (tx_Entries tx) s s'" using inv side p(1) by (simp add: booked_def posted_def loanSide_def)
  show "lb_proj s' = lb_proj s" using side by (simp add: loanSide_def)
  show "map_of (pj_txs (lg_proj s')) (postID tx s) = Some ((pending tx s)\<lparr>tx_Status := StatusFinal\<rparr>)" by (rule p(3))
qed

lemma emitted_booked:
  assumes "loan_inv s" and "ev_Type e \<in> set loanEventTypes" and "good_loan e"
  shows "booked [] s (emitted s e)"
  using emitted_inv [OF assms] by (simp add: booked_def)

lemma usdTransfer_entries [simp]:
  "tx_Entries (usdTransfer k d a b n) = [mkEntry a Debit (mkAmount ''USD'' n), mkEntry b Credit (mkAmount ''USD'' n)]"
  by (simp add: usdTransfer_def newTx_def)

lemma usd_known [simp]: "Currencies ''USD'' \<noteq> None"
  by (simp add: Currencies_def)

text \<open>A transfer of dollars between two dollar accounts of the books always goes through.\<close>

lemma usdTransfer_runs:
  assumes s: "loan_inv s" and ok: "timeOK (now s)" and n: "0 < n" "in64 n"
    and accs: "map_of (pj_accounts (lg_proj s)) a = Some x" "map_of (pj_accounts (lg_proj s)) b = Some y"
      "ac_Currency x = ''USD''" "ac_Currency y = ''USD''"
  obtains t s' where "PostAndFinalize (usdTransfer k d a b n) s = (Inr t, s')"
    and "booked [mkEntry a Debit (mkAmount ''USD'' n), mkEntry b Credit (mkAmount ''USD'' n)] s s'"
    and "lb_proj s' = lb_proj s"
proof -
  obtain t s' where run: "PostAndFinalize (usdTransfer k d a b n) s = (Inr t, s')"
    by (rule transfer_runs [OF loan_inv_ledger(1) [OF s] ok, where a = a and b = b and amt = "mkAmount ''USD'' n"
          and tx = "usdTransfer k d a b n" and x = x and y = y])
      (use accs n in \<open>simp_all add: usdTransfer_def newTx_def mkAmount_def\<close>)
  then show thesis using loan_posts(1,2) [OF s _ run] that n by (simp add: typed_usdTransfer)
qed


section \<open>Defaulting\<close>

lemma loanStatus_simps [simp]:
  "loanStatus st n = LoanActive \<longleftrightarrow> \<not> ls_defaulted st \<and> \<not> ls_repaid st \<and> 0 < n"
  "loanStatus st n = LoanDefaulted \<longleftrightarrow> ls_defaulted st"
  by (auto simp: loanStatus_def LoanActive_def LoanRepaid_def LoanDefaulted_def)

lemma status_names [simp]: "LoanActive \<noteq> LoanDefaulted" "LoanActive \<noteq> LoanRepaid"
  by (simp_all add: LoanActive_def LoanRepaid_def LoanDefaulted_def)

lemma GetLoan_at:
  assumes "loan_inv s" and "map_of (lp_loans (lb_proj s)) i = Some st"
    and "map_of (pj_accounts (lg_proj s)) (lr_ReceivableAccountID (ls_record st)) = Some acc"
  shows "GetLoan i s = (Inr (loanView s st acc), s)"
  using assms by (simp add: GetLoan_app ofOption_def)

lemma emitted_loans:
  assumes "map_of (lp_loans (lb_proj s)) i = Some st"
    and "snd (apply_loan (stored s e) (lb_proj s)) = seenLoan (stored s e) (onLoan i f (lb_proj s))"
  shows "map_of (lp_loans (lb_proj (emitted s e))) i = Some (f st)"
  using assms by (simp add: onLoan_def)

text \<open>C24: An active loan whose receivable is a dollar asset of the bank can always be defaulted: what is
  outstanding is charged to the loan-loss expense in one balanced transfer, nothing is outstanding
  afterwards, and the loan is defaulted for the reason given.\<close>

theorem default_writes_off:
  assumes s: "loan_inv s" and ok: "timeOK (now s)"
    and loan: "GetLoan i s = (Inr loan, s)" "ln_Status loan = LoanActive"
    and accs: "map_of (pj_accounts (lg_proj s)) (ln_ReceivableAccountID loan) = Some r" "ac_Currency r = ''USD''"
      "NormalBalance (ac_Type r) = Debit" "ln_ReceivableAccountID loan \<noteq> ''loan-loss-expense-usd''"
      "map_of (pj_accounts (lg_proj s)) ''loan-loss-expense-usd'' = Some x" "ac_Currency x = ''USD''"
  shows "\<exists>loan' s'. Default i reason s = (Inr loan', s') \<and> loan_inv s' \<and>
    journal (st_events s') = journal (st_events s) @
      [mkEntry ''loan-loss-expense-usd'' Debit (mkAmount ''USD'' (ln_OutstandingPrincipalCents loan)),
       mkEntry (ln_ReceivableAccountID loan) Credit (mkAmount ''USD'' (ln_OutstandingPrincipalCents loan))] \<and>
    ln_Status loan' = LoanDefaulted \<and> ln_OutstandingPrincipalCents loan' = 0 \<and> ln_DefaultReason loan' = reason"
proof -
  obtain st where st: "map_of (lp_loans (lb_proj s)) i = Some st" and l: "loan = loanView s st r"
    using GetLoan_InrE [OF s loan(1)] accs(1) by (metis loanView_fields(2) option.inject)
  let ?n = "ln_OutstandingPrincipalCents loan" and ?rid = "ln_ReceivableAccountID loan"
  have n: "0 < ?n" "in64 ?n" "naturalBalance (lg_proj s) r = ?n"
    using loan(2) by (simp_all add: l naturalBalance_def Let_def)
  let ?es = "[mkEntry ''loan-loss-expense-usd'' Debit (mkAmount ''USD'' ?n), mkEntry ?rid Credit (mkAmount ''USD'' ?n)]"
  obtain t s1 where post: "PostAndFinalize (writeoffTx i loan ?n) s = (Inr t, s1)" and b1: "booked ?es s s1"
    and p1: "lb_proj s1 = lb_proj s"
    unfolding writeoffTx_def by (rule usdTransfer_runs [OF s ok n(1,2) accs(5,1,6,2)])
  let ?d = "\<lparr>dp_LoanID = i, dp_Reason = reason, dp_WrittenOffCents = ?n, dp_OccurredAt = now s\<rparr>"
  obtain j where j: "encDefaulted ?d = Inr j" using ok by (simp add: encDefaulted_def)
  have dec: "decDefaulted j = Some ?d" by (rule encDefaulted_good [OF j]) (simp add: n(2))
  let ?e = "newEvent eventLoanDefaulted i (now s) j"
  let ?s = "emitted s1 ?e" and ?st = "st\<lparr>ls_defaulted := True, ls_defaultReason := reason\<rparr>"
  have "booked [] s1 ?s"
    by (rule emitted_booked) (use b1 dec in \<open>simp_all add: booked_def good_loan_events\<close>)
  note b = booked_trans [OF b1 this, simplified append_Nil2]
  have st': "map_of (lp_loans (lb_proj ?s)) i = Some ?st"
    by (rule emitted_loans) (simp_all add: p1 st apply_loan_eqs(3) [where d = ?d] dec)
  have get: "GetLoan i ?s = (Inr (loanView ?s ?st r), ?s)"
    by (rule GetLoan_at [OF _ st']) (use b accs(1) in \<open>simp_all add: booked_def l\<close>)
  have "naturalBalance (lg_proj ?s) r = wrap64 (?n + (0 - ?n))"
    using balance_of_journal [of s ?s ?es r] b s n(3) accs(3,4) accounts_id [OF loan_inv_ledger(1) [OF s] accs(1)]
    by (simp add: booked_def mkEntry_def mkAmount_def)
  moreover have "Default i reason s = (Inr (loanView ?s ?st r), ?s)"
    using s accs(1) n post j get b1 p1 loan
    by (simp add: Default_def op_simps ofOption_def Now_def booked_def mkAmount_def Let_def)
  ultimately show ?thesis using b by (simp add: booked_def) (simp add: loanView_def loanOf_def Let_def)
qed

section \<open>Origination\<close>

lemma posted_txs:
  assumes inv: "ledger_inv s" and ty: "tx_typed tx" and run: "PostAndFinalize tx s = (Inr t, s')"
  shows "map_of (pj_txs (lg_proj s')) j =
    (if j = postID tx s then Some ((pending tx s)\<lparr>tx_Status := StatusFinal\<rparr>) else map_of (pj_txs (lg_proj s)) j)"
proof -
  note app = PostAndFinalize_app [OF inv ty]
  have v: "validate (lg_proj s) tx = Inr ()" using app(1) run by (cases "validate (lg_proj s) tx") auto
  moreover have "timeOK (now s)" using app(2) [OF v] run by (cases "timeOK (now s)") auto
  ultimately have w: "withProj (finalProj (pending tx s) (lg_proj s)) (tx_Entries tx) s s'"
    using app(3) run by auto
  show ?thesis
    using withProjD(1) [OF w, of j] by (simp add: finalProj_def statusProj_txs) (simp add: pending_def)
qed

lemma in_repayments:
  assumes "ledger_inv s"
  shows "tx \<in> set (repayments s a) \<longleftrightarrow>
    (\<exists>j. map_of (pj_txs (lg_proj s)) j = Some tx) \<and> matchesTx (txFilterBy a ''loan.repayment'') tx"
proof -
  have "distinct (map fst (pj_txs (lg_proj s)))" using assms by (simp add: ledger_inv_def proj_inv_def txs_wf_def)
  then show ?thesis by (force simp: repayments_def)
qed

text \<open>The recorded repayments, by their identifiers.\<close>

definition repaid :: "'z loanbook_scheme \<Rightarrow> (string \<times> Transaction) set" where
  "repaid s = {(j, tx). map_of (pj_txs (lg_proj s)) j = Some tx \<and> tx_Kind tx = ''loan.repayment''}"

text \<open>An account that is not open is on no transaction.\<close>

lemma closed_account_unused:
  assumes "ledger_inv s" and "map_of (pj_txs (lg_proj s)) j = Some tx" and "map_of (pj_accounts (lg_proj s)) a = None"
  shows "\<not> txHasAccount tx a"
proof -
  have "validate (lg_proj s) tx = Inr ()"
    using assms(1,2) by (auto simp: ledger_inv_def proj_inv_def txs_wf_def tx_ok_def)
  then have "\<forall>e \<in> set (tx_Entries tx). entry_ok (lg_proj s) (tx_Currency tx) e" by (simp add: validate_iff)
  then show ?thesis using assms(3) by (auto simp: txHasAccount_def entry_ok_def list_ex_iff)
qed

lemma no_repayments:
  assumes inv: "ledger_inv s" and ty: "tx_typed tx" and run: "PostAndFinalize tx s = (Inr t, s')" "ledger_inv s'"
    and kind: "tx_Kind tx \<noteq> ''loan.repayment''" and none: "\<And>j tx. map_of (pj_txs (lg_proj s)) j = Some tx \<Longrightarrow> \<not> txHasAccount tx a"
    and a: "a \<noteq> ''''"
  shows "repayments s' a = []"
proof -
  have "\<not> matchesTx (txFilterBy a ''loan.repayment'') u" if u: "map_of (pj_txs (lg_proj s')) j = Some u" for u j
  proof (cases "j = postID tx s")
    case True
    then have "tx_Kind u = tx_Kind tx" using u posted_txs [OF inv ty run(1), of j] by (auto simp: pending_def)
    then show ?thesis using kind by (simp add: matchesTx_def txFilterBy_def)
  next
    case False
    then have "map_of (pj_txs (lg_proj s)) j = Some u" using u posted_txs [OF inv ty run(1), of j] by simp
    then have "\<not> txHasAccount u a" by (rule none)
    then show ?thesis using a by (simp add: matchesTx_def txFilterBy_def)
  qed
  then have "u \<notin> set (repayments s' a)" for u using in_repayments [OF run(2), of u a] by auto
  then show ?thesis using list.set_sel(1) by blast
qed

text \<open>An account that is opened: it is on the books with nothing on it.\<close>

lemma loan_opens:
  assumes s: "loan_inv s" and ok: "timeOK (now s)"
    and a: "ac_ID a \<noteq> ''''" "Currencies (ac_Currency a) \<noteq> None" "map_of (pj_accounts (lg_proj s)) (ac_ID a) = None"
  obtains s' where "OpenAccount a s = (Inr (a\<lparr>ac_OpenedAt := now s\<rparr>), s')" and "loan_inv s'"
    and "journal (st_events s') = journal (st_events s)" and "now s' = now s" and "loanSide s' = loanSide s"
    and "pj_txs (lg_proj s') = pj_txs (lg_proj s)"
    and "\<And>i. map_of (pj_accounts (lg_proj s')) i =
      (if i = ac_ID a then Some (a\<lparr>ac_OpenedAt := now s\<rparr>) else map_of (pj_accounts (lg_proj s)) i)"
proof -
  from OpenAccount_app(1) [OF loan_inv_ledger(2) [OF s] a ok] obtain s' where
    run: "OpenAccount a s = (Inr (a\<lparr>ac_OpenedAt := now s\<rparr>), s')"
    and w: "withProj (openedProj (a\<lparr>ac_OpenedAt := now s\<rparr>) (lg_proj s)) [] s s'" by blast
  have "loan_inv s'" by (rule preserves_result [OF loan_inv_calls(4) s run])
  moreover have "loanSide s' = loanSide s"
    using preserves_result [OF side_ledger(3) _ run, of "loanSide s"] by (simp add: side_def)
  ultimately show thesis using that [OF run] w by (auto simp: withProj_def openedProj_def)
qed

lemma unused_balance:
  assumes "ledger_inv s" and "map_of (pj_accounts (lg_proj s)) (ac_ID acc) = None"
  shows "naturalBalance (lg_proj s) acc = 0"
  using assms by (simp add: naturalBalance_eq ledger_inv_def proj_inv_def totals_wf_def)

lemma LoanReceivable_normal [simp]: "NormalBalance LoanReceivable = Debit"
  by (simp add: NormalBalance_def)

lemma receivableID_nonempty [simp]: "receivableID i \<noteq> ''''"
  by (simp add: receivableID_def)

lemma encRows_ok: "\<forall>x \<in> set xs. timeOK (in_DueDate x) \<Longrightarrow> \<exists>js. mapR encInstallment xs = Inr js"
  by (induction xs) (auto simp: encInstallment_def)

lemma overlay_none [simp]: "overlay [] [] = (\<lambda>x. x)"
  by (simp add: overlay_def fun_eq_iff)

lemma orDefault_pos: "0 < orDefault DefaultPrincipalCents n" "0 < orDefault DefaultTermMonths n"
  by (simp_all add: orDefault_def DefaultPrincipalCents_def DefaultTermMonths_def)

lemma loanView_record [simp]:
  "ln_PrincipalCents (loanView s st acc) = lr_PrincipalCents (ls_record st)"
  "ln_TermMonths (loanView s st acc) = lr_TermMonths (ls_record st)"
  "ln_AnnualRateBps (loanView s st acc) = lr_AnnualRateBps (ls_record st)"
  "ln_Tier (loanView s st acc) = lr_Tier (ls_record st)"
  "ln_DepositAccountID (loanView s st acc) = lr_DepositAccountID (ls_record st)"
  by (simp_all add: loanView_def loanOf_def Let_def)

lemma loanRecordOf_simps [simp]:
  "lr_ID (loanRecordOf i u p n t) = i" "lr_PrincipalCents (loanRecordOf i u p n t) = p"
  "lr_TermMonths (loanRecordOf i u p n t) = n" "lr_OriginatedAt (loanRecordOf i u p n t) = t"
  "lr_AnnualRateBps (loanRecordOf i u p n t) = pv_AnnualRateBps (ur_Pricing u)"
  "lr_Tier (loanRecordOf i u p n t) = pv_Tier (ur_Pricing u)"
  "lr_ReceivableAccountID (loanRecordOf i u p n t) = receivableID i"
  by (simp_all add: loanRecordOf_def)

lemma freshLoan_simps [simp]:
  "ls_record (freshLoan r) = r" "ls_missed (freshLoan r) = []" "ls_defaulted (freshLoan r) = False"
  "ls_repaid (freshLoan r) = False"
  by (simp_all add: freshLoan_def)

text \<open>What follows an approval: the receivable, the disbursement, the event.\<close>

lemma disburse:
  assumes s: "loan_inv s" and ok: "timeOK (now s)" and n: "0 < princ" "in64 princ"
    and fresh: "map_of (pj_accounts (lg_proj s)) (receivableID i) = None"
    and dep: "map_of (pj_accounts (lg_proj s)) dep = Some d" "ac_Currency d = ''USD''"
  obtains a t s1 s2 where "OpenAccount (receivableAccount i owner) s = (Inr a, s1)"
    and "PostAndFinalize (disbursementTx i dep princ) s1 = (Inr t, s2)" and "loan_inv s2" and "now s2 = now s"
    and "journal (st_events s2) = journal (st_events s) @ tx_Entries (disbursementTx i dep princ)"
    and "lb_proj s2 = lb_proj s" and "ac_ID a = receivableID i" and "ac_Type a = LoanReceivable"
    and "map_of (pj_accounts (lg_proj s2)) (receivableID i) = Some a"
    and "repayments s2 (receivableID i) = []" and "ac_Currency a = ''USD''"
    and "\<And>j. j \<noteq> receivableID i \<Longrightarrow> map_of (pj_accounts (lg_proj s2)) j = map_of (pj_accounts (lg_proj s)) j"
    and "repaid s2 \<subseteq> repaid s"
proof -
  let ?rid = "receivableID i" and ?a = "receivableAccount i owner"
  have a: "ac_ID ?a = ?rid" "ac_ID ?a \<noteq> ''''" "ac_Currency ?a = ''USD''" "ac_Type ?a = LoanReceivable"
    by (simp_all add: receivableAccount_def)
  obtain s1 where open1: "OpenAccount ?a s = (Inr (?a\<lparr>ac_OpenedAt := now s\<rparr>), s1)" and s1: "loan_inv s1"
    "journal (st_events s1) = journal (st_events s)" "now s1 = now s" "loanSide s1 = loanSide s"
    "pj_txs (lg_proj s1) = pj_txs (lg_proj s)"
    and accs: "\<And>j. map_of (pj_accounts (lg_proj s1)) j =
      (if j = ac_ID ?a then Some (?a\<lparr>ac_OpenedAt := now s\<rparr>) else map_of (pj_accounts (lg_proj s)) j)"
    by (rule loan_opens [OF s ok a(2)]) (use fresh in \<open>simp_all add: a\<close>)
  have diff: "dep \<noteq> ?rid" using dep fresh by auto
  have "map_of (pj_accounts (lg_proj s1)) ?rid = Some (?a\<lparr>ac_OpenedAt := now s\<rparr>)"
    "map_of (pj_accounts (lg_proj s1)) dep = Some d" using accs [of ?rid] accs [of dep] diff dep a(1) by simp_all
  note runs = usdTransfer_runs [OF s1(1) _ n this, where k = "''loan.disbursement''" and d = "''Disbursement for loan '' @ i"]
  obtain t s2 where post: "PostAndFinalize (disbursementTx i dep princ) s1 = (Inr t, s2)"
    and b: "booked (tx_Entries (disbursementTx i dep princ)) s1 s2" and p: "lb_proj s2 = lb_proj s1"
    unfolding disbursementTx_def by (rule runs) (use ok s1(3) dep(2) a in \<open>simp_all\<close>)
  have "repayments s2 ?rid = []"
  proof (rule no_repayments [OF loan_inv_ledger(1) [OF s1(1)] _ post])
    show "tx_typed (disbursementTx i dep princ)" by (simp add: disbursementTx_def typed_usdTransfer n)
    show "ledger_inv s2" using b by (simp add: booked_def)
    show "tx_Kind (disbursementTx i dep princ) \<noteq> ''loan.repayment''"
      by (simp add: disbursementTx_def usdTransfer_def newTx_def)
    show "\<not> txHasAccount tx ?rid" if "map_of (pj_txs (lg_proj s1)) j = Some tx" for j tx
      using closed_account_unused [OF loan_inv_ledger(1) [OF s] _ fresh] that s1(5) by simp
  qed simp
  moreover have "repaid s2 \<subseteq> repaid s"
    using posted_txs [OF loan_inv_ledger(1) [OF s1(1)] _ post] s1(5) n
    by (auto simp: repaid_def disbursementTx_def typed_usdTransfer pending_def split: if_splits)
      (simp add: usdTransfer_def newTx_def)
  ultimately show thesis
    using that [OF open1 post] b p s1 accs a by (auto simp: booked_def loanSide_def)
qed

text \<open>What an approved origination leaves: the loan, its receivable and the disbursement.\<close>

lemma originated:
  fixes s :: "'z loanbook_scheme"
  assumes s: "loan_inv s" and ok: "timeOK (now s)"
    and req: "in64 (oq_PrincipalCents req)" "in64 (oq_TermMonths req)"
    and princ: "princ = orDefault DefaultPrincipalCents (oq_PrincipalCents req)"
    and months: "months = orDefault DefaultTermMonths (oq_TermMonths req)"
    and und: "Underwrite \<lparr>uq_ApplicantID = oq_ApplicantID req, uq_RequestedPrincipalCents = princ, uq_TermMonths = months\<rparr> s = (Inr u, s1)"
    and yes: "ur_Decision u = ''approved''"
    and i: "i = rand s (drawn s1)" and dep: "dep = ap_DepositAccountID (ur_Applicant u)"
    and fresh: "map_of (pj_accounts (lg_proj s)) (receivableID i) = None"
    and d: "map_of (pj_accounts (lg_proj s)) dep = Some d" "ac_Currency d = ''USD''"
    and sched: "sched = Schedule princ (pv_AnnualRateBps (ur_Pricing u)) months (now s)"
      "list_all (\<lambda>x. timeOK (in_DueDate x)) sched"
    and r: "r = loanRecordOf i u princ months (now s)"
  obtains a s' where "Originate req s = (Inr (loanView s' (freshLoan r) a), s')" and "loan_inv s'" and "now s' = now s"
    and "journal (st_events s') = journal (st_events s) @
      [mkEntry (receivableID i) Debit (mkAmount ''USD'' princ), mkEntry dep Credit (mkAmount ''USD'' princ)]"
    and "lp_order (lb_proj s') = lp_order (lb_proj s) @ [i]" and "map_of (lp_loans (lb_proj s')) i = Some (freshLoan r)"
    and "GetLoan i s' = (Inr (loanView s' (freshLoan r) a), s')"
    and "map_of (pj_accounts (lg_proj s')) (receivableID i) = Some a" and "ac_Type a = LoanReceivable" and "ac_Currency a = ''USD''"
    and "\<And>j. j \<noteq> receivableID i \<Longrightarrow> map_of (pj_accounts (lg_proj s')) j = map_of (pj_accounts (lg_proj s)) j"
    and "naturalBalance (lg_proj s') a = princ" and "ln_Schedule (loanView s' (freshLoan r) a) = sched"
    and "repaid s' \<subseteq> repaid s"
proof -
  note q = Underwrite_quiet [OF und, unfolded quietView_def]
  let ?s2 = "s1\<lparr>drawn := drawn s1 + 1\<rparr>"
  have s1: "loan_inv s1" using loan_inv_quiet [OF Underwrite_quiet [OF und] s] .
  have s2: "loan_inv ?s2" using preservesD [OF loan_inv_calls(5) s1] by (simp add: op_simps)
  have n: "0 < princ" "in64 princ" "in64 months" using req by (simp_all add: princ months orDefault_pos in64_orDefault)
  have typed: "record_typed r" unfolding r by (rule record_of_typed [OF Underwrite_typed [OF s und] n(2,3)])
  obtain rows where "mapR encInstallment sched = Inr rows" using encRows_ok sched(2) by (auto simp: list_all_iff)
  then obtain j where j: "encOriginated r sched = Inr j" using ok by (simp add: encOriginated_def loanRecordOf_def r)
  have dec: "decOriginated j = Some r"
    by (rule encOriginated_good [OF j typed]) (simp add: sched Schedule_typed n)
  obtain a t s3 s4 where run: "OpenAccount (receivableAccount i (ap_ID (ur_Applicant u))) ?s2 = (Inr a, s3)"
    "PostAndFinalize (disbursementTx i dep princ) s3 = (Inr t, s4)"
    and s4: "loan_inv s4" "now s4 = now s" "journal (st_events s4) = journal (st_events s) @ tx_Entries (disbursementTx i dep princ)"
      "lb_proj s4 = lb_proj s" and a: "ac_ID a = receivableID i" "ac_Type a = LoanReceivable"
      "map_of (pj_accounts (lg_proj s4)) (receivableID i) = Some a" and none: "repayments s4 (receivableID i) = []"
    and cur: "ac_Currency a = ''USD''"
    and rest: "\<And>j. j \<noteq> receivableID i \<Longrightarrow> map_of (pj_accounts (lg_proj s4)) j = map_of (pj_accounts (lg_proj s)) j"
    and paid: "repaid s4 \<subseteq> repaid ?s2"
    by (rule disburse [OF s2, of princ i dep d "ap_ID (ur_Applicant u)"]) (use q ok n fresh d in \<open>simp_all\<close>)
  let ?e = "newEvent eventLoanOriginated i (now s) j"
  let ?s = "emitted s4 ?e" and ?st = "freshLoan r"
  have b: "booked [] s4 ?s" by (rule emitted_booked) (use s4 in \<open>simp_all add: good_loan_events(1) [OF dec] r\<close>)
  have p: "lb_proj ?s = seenLoan (stored s4 ?e) (bookLoan r (lb_proj s))"
    using apply_loan_eqs(1) [of "stored s4 ?e" r "lb_proj s"] dec s4(4) by simp
  have st: "map_of (lp_loans (lb_proj ?s)) i = Some ?st" by (simp add: p bookLoan_def r del: emitted_frame)
  have get: "GetLoan i ?s = (Inr (loanView ?s ?st a), ?s)"
    by (rule GetLoan_at [OF _ st]) (use b a in \<open>simp_all add: booked_def r\<close>)
  have "naturalBalance (lg_proj ?s) a = wrap64 (0 + (princ - 0))"
    using balance_of_journal [of s ?s "tx_Entries (disbursementTx i dep princ)" a] unused_balance [of s a]
      b s4 s fresh d a by (auto simp: booked_def disbursementTx_def mkEntry_def mkAmount_def)
  then have bal: "naturalBalance (lg_proj ?s) a = princ" using n by simp
  have "repayments ?s (receivableID i) = []" using none by (simp add: repayments_def)
  then have sch: "ln_Schedule (loanView ?s ?st a) = sched" by (simp add: loanView_schedule sched r)
  have run: "Originate req s = (Inr (loanView ?s ?st a), ?s)"
    using yes und run q j get s4(2) sched(1)
    by (simp add: Originate_def op_simps Let_def princ [symmetric] months [symmetric] Now_def i [symmetric] dep [symmetric] r [symmetric])
  have order: "lp_order (lb_proj ?s) = lp_order (lb_proj s) @ [i]" by (simp add: p bookLoan_def r del: emitted_frame)
  show thesis
    by (rule that [OF run _ _ _ order st get _ a(2) cur _ bal sch])
      (use b s4 a rest paid q in \<open>simp_all add: booked_def disbursementTx_def repaid_def\<close>)
qed

lemma Evaluate_written:
  assumes "Evaluate r ty i input s = (Inr d, s')"
  obtains a where "s' = s\<lparr>drawn := drawn s + 1, st_apps := st_apps s @ [a]\<rparr>" and "ra_RuleID a = de_RuleID d"
    and "ra_ID a = de_ApplicationID d" and "ra_EntityID a = i"
  using assms
  by (auto simp: Evaluate_def GetRule_def getEvaluator_def ofOption_def ctxR_def ctxE_def bindE_def
      InsertRuleApplication_def op_simps Let_def split: option.splits sum.splits prod.splits if_splits)

text \<open>Underwriting draws two identifiers and records two rule applications, the ones its result refers to.\<close>

lemma Underwrite_written:
  assumes "Underwrite req s = (Inr u, s')"
  obtains a b where "s' = s\<lparr>drawn := drawn s + 2, st_apps := st_apps s @ [a, b]\<rparr>"
    and "map (\<lambda>r. (rf_RuleID r, rf_ApplicationID r)) (ur_RuleApplications u) = [(ra_RuleID a, ra_ID a), (ra_RuleID b, ra_ID b)]"
proof -
  obtain i input1 d1 s1 i' input2 d2 where 1: "Evaluate ''risk_scoring'' ''applicant'' i input1 s = (Inr d1, s1)"
    and 2: "Evaluate ''loan_underwriting'' ''applicant'' i' input2 s1 = (Inr d2, s')"
    and u: "ur_RuleApplications u = [applicationRef d1, applicationRef d2]"
    using assms by (auto simp: Underwrite_def Let_def getApplicant_def bindE_eq_Inr op_simps underwriteResult_def)
  obtain a where a: "s1 = s\<lparr>drawn := drawn s + 1, st_apps := st_apps s @ [a]\<rparr>" "ra_RuleID a = de_RuleID d1"
    "ra_ID a = de_ApplicationID d1" by (rule Evaluate_written [OF 1])
  obtain b where b: "s' = s1\<lparr>drawn := drawn s1 + 1, st_apps := st_apps s1 @ [b]\<rparr>" "ra_RuleID b = de_RuleID d2"
    "ra_ID b = de_ApplicationID d2" by (rule Evaluate_written [OF 2])
  show thesis by (rule that [of a b]) (use a b in \<open>simp_all add: u applicationRef_def\<close>)
qed

text \<open>C22: An application that underwriting declines fails with the reasons, and all that is left of it are the two
  applications of the rules that decided it, which the result refers to. A loan that it approves is paid out, provided
  that the deposit account of the applicant is an open dollar account, the identifier drawn for the loan has no
  receivable yet, and the present time and the due dates can be written down (years 0 to 9999): the receivable of the loan is debited and
  the deposit credited with the principal, and the loan is on the book, active, at the rate and tier it was priced
  with, with the whole principal outstanding and every installment of its schedule still due.\<close>

theorem originate_disburses:
  assumes s: "loan_inv s" and ok: "timeOK (now s)"
    and req: "in64 (oq_PrincipalCents req)" "in64 (oq_TermMonths req)"
    and princ: "princ = orDefault DefaultPrincipalCents (oq_PrincipalCents req)"
    and months: "months = orDefault DefaultTermMonths (oq_TermMonths req)"
    and und: "Underwrite \<lparr>uq_ApplicantID = oq_ApplicantID req, uq_RequestedPrincipalCents = princ, uq_TermMonths = months\<rparr> s = (Inr u, s1)"
    and sched: "sched = Schedule princ (pv_AnnualRateBps (ur_Pricing u)) months (now s)"
  shows "(ur_Decision u \<noteq> ''approved'' \<longrightarrow>
      (\<exists>a b. Originate req s = (Inl (ELoan (ErrNotApproved (ur_Reasons u))),
          s\<lparr>drawn := drawn s + 2, st_apps := st_apps s @ [a, b]\<rparr>) \<and>
        map (\<lambda>r. (rf_RuleID r, rf_ApplicationID r)) (ur_RuleApplications u) = [(ra_RuleID a, ra_ID a), (ra_RuleID b, ra_ID b)])) \<and>
    (ur_Decision u = ''approved'' \<and>
     map_of (pj_accounts (lg_proj s)) (receivableID (rand s (drawn s1))) = None \<and>
     (\<exists>d. map_of (pj_accounts (lg_proj s)) (ap_DepositAccountID (ur_Applicant u)) = Some d \<and> ac_Currency d = ''USD'') \<and>
     list_all (\<lambda>x. timeOK (in_DueDate x)) sched \<longrightarrow>
      (\<exists>loan s'. Originate req s = (Inr loan, s') \<and> loan_inv s' \<and>
      journal (st_events s') = journal (st_events s) @
        [mkEntry (ln_ReceivableAccountID loan) Debit (mkAmount ''USD'' princ),
         mkEntry (ap_DepositAccountID (ur_Applicant u)) Credit (mkAmount ''USD'' princ)] \<and>
      lp_order (lb_proj s') = lp_order (lb_proj s) @ [ln_ID loan] \<and>
      ln_PrincipalCents loan = princ \<and> ln_TermMonths loan = months \<and>
      ln_AnnualRateBps loan = pv_AnnualRateBps (ur_Pricing u) \<and> ln_Tier loan = pv_Tier (ur_Pricing u) \<and>
      ln_OutstandingPrincipalCents loan = princ \<and> ln_Status loan = LoanActive \<and> ln_Schedule loan = sched))"
proof (intro conjI impI)
  assume no: "ur_Decision u \<noteq> ''approved''"
  then have run: "Originate req s = (Inl (ELoan (ErrNotApproved (ur_Reasons u))), s1)"
    using und by (simp add: Originate_def op_simps Let_def princ months)
  show "\<exists>a b. Originate req s = (Inl (ELoan (ErrNotApproved (ur_Reasons u))),
          s\<lparr>drawn := drawn s + 2, st_apps := st_apps s @ [a, b]\<rparr>) \<and>
        map (\<lambda>r. (rf_RuleID r, rf_ApplicationID r)) (ur_RuleApplications u) = [(ra_RuleID a, ra_ID a), (ra_RuleID b, ra_ID b)]"
  proof -
    obtain a b where ab: "s1 = s\<lparr>drawn := drawn s + 2, st_apps := st_apps s @ [a, b]\<rparr>"
      "map (\<lambda>r. (rf_RuleID r, rf_ApplicationID r)) (ur_RuleApplications u) = [(ra_RuleID a, ra_ID a), (ra_RuleID b, ra_ID b)]"
      by (rule Underwrite_written [OF und])
    show ?thesis by (rule exI [of _ a], rule exI [of _ b]) (use run ab in simp)
  qed
next
  assume yes: "ur_Decision u = ''approved'' \<and>
     map_of (pj_accounts (lg_proj s)) (receivableID (rand s (drawn s1))) = None \<and>
     (\<exists>d. map_of (pj_accounts (lg_proj s)) (ap_DepositAccountID (ur_Applicant u)) = Some d \<and> ac_Currency d = ''USD'') \<and>
     list_all (\<lambda>x. timeOK (in_DueDate x)) sched"
  then obtain d where d: "map_of (pj_accounts (lg_proj s)) (ap_DepositAccountID (ur_Applicant u)) = Some d" "ac_Currency d = ''USD''"
    by blast
  have fresh: "map_of (pj_accounts (lg_proj s)) (receivableID (rand s (drawn s1))) = None"
    and app: "ur_Decision u = ''approved''" and due: "list_all (\<lambda>x. timeOK (in_DueDate x)) sched"
    using yes by blast+
  have "0 < princ" by (simp add: princ orDefault_pos)
  show "\<exists>loan s'. Originate req s = (Inr loan, s') \<and> loan_inv s' \<and>
      journal (st_events s') = journal (st_events s) @
        [mkEntry (ln_ReceivableAccountID loan) Debit (mkAmount ''USD'' princ),
         mkEntry (ap_DepositAccountID (ur_Applicant u)) Credit (mkAmount ''USD'' princ)] \<and>
      lp_order (lb_proj s') = lp_order (lb_proj s) @ [ln_ID loan] \<and>
      ln_PrincipalCents loan = princ \<and> ln_TermMonths loan = months \<and>
      ln_AnnualRateBps loan = pv_AnnualRateBps (ur_Pricing u) \<and> ln_Tier loan = pv_Tier (ur_Pricing u) \<and>
      ln_OutstandingPrincipalCents loan = princ \<and> ln_Status loan = LoanActive \<and> ln_Schedule loan = sched"
    by (rule originated [OF s ok req princ months und app refl refl fresh d sched due refl])
      (use \<open>0 < princ\<close> in auto)
qed

section \<open>Repayment\<close>

lemma ParseIntVal_FormatInt [simp]: "in64 n \<Longrightarrow> ParseIntVal (FormatInt n) = n"
  using ParseInt_FormatInt [of n] by (auto simp: ParseInt_def ParseIntVal_def Let_def in64_def split: if_splits)

lemma overlay_simps [simp]: "in_No (overlay a b x) = in_No x"
  by (simp add: overlay_def)

lemma repaymentTx_simps [simp]:
  "tx_Kind (repaymentTx i loan x amt) = ''loan.repayment''"
  "metaOf (repaymentTx i loan x amt) ''installment_no'' = FormatInt (in_No x)"
  "tx_Entries (repaymentTx i loan x amt) = repaymentEntries loan amt (wrap64 (amt - min amt (in_InterestCents x)))
     (min amt (in_InterestCents x))"
  "tx_Currency (repaymentTx i loan x amt) = ''USD''"
  by (simp_all add: repaymentTx_def newTx_def metaOf_def getOr_def Let_def min_def)

text \<open>What a repayment that the ledger accepts consists of.\<close>

lemma repayment_split:
  assumes v: "validate p (repaymentTx i loan x amt) = Inr ()" and ty: "in64 amt" "row_typed x"
  shows "0 < amt" and "0 \<le> min amt (in_InterestCents x)"
proof -
  let ?ip = "min amt (in_InterestCents x)" and ?pp = "wrap64 (amt - min amt (in_InterestCents x))"
  have es: "\<forall>e \<in> set (repaymentEntries loan amt ?pp ?ip). 0 < am_Minor (et_Amount e)"
    "2 \<le> length (repaymentEntries loan amt ?pp ?ip)"
    "wrap64 (sumDir Debit (repaymentEntries loan amt ?pp ?ip)) = wrap64 (sumDir Credit (repaymentEntries loan amt ?pp ?ip))"
    using v by (auto simp: validate_iff entry_ok_def)
  show amt: "0 < amt" using es(1) by (simp add: repaymentEntries_def mkEntry_def mkAmount_def)
  show "0 \<le> ?ip"
  proof (rule ccontr)
    assume neg: "\<not> 0 \<le> ?ip"
    then have "0 < ?pp" using es(2) by (simp add: repaymentEntries_def split: if_splits)
    moreover have "\<not> 0 < in_InterestCents x" using neg amt by auto
    ultimately have "wrap64 amt = wrap64 (amt - ?ip)"
      using es(3) neg amt by (simp add: repaymentEntries_def mkEntry_def mkAmount_def)
    then have "2 ^ 64 dvd ?ip" unfolding wrap64_eq_iff by (simp add: mod_eq_dvd_iff)
    then have "\<bar>2 ^ 64\<bar> \<le> \<bar>?ip\<bar>" using neg by (intro dvd_imp_le_int) auto
    then show False using neg ty amt by (simp add: row_typed_def in64_def min64_def min_def split: if_splits)
  qed
qed

lemma repayment_parts:
  assumes "in64 amt" "0 < amt" "0 \<le> ip" "ip \<le> amt"
  shows "wrap64 (amt - ip) = amt - ip"
  using assms by (intro wrap64_id) (simp add: in64_def min64_def)

text \<open>A repayment with some principal in it marks its row paid.\<close>

lemma repayment_marks_paid:
  assumes s: "loan_inv s" and loan: "loan = loanView s st acc"
    and x: "firstScheduled (ln_Schedule loan) = Some x" "row_typed x"
    and run: "PostAndFinalize (repaymentTx i loan x amt) s = (Inr t, s')" and s': "loan_inv s'"
    and ty: "tx_typed (repaymentTx i loan x amt)" and pp: "0 < wrap64 (amt - min amt (in_InterestCents x))"
    and proj: "lg_proj u = lg_proj s'" and st': "ls_record st' = ls_record st"
  shows "\<exists>row \<in> set (ln_Schedule (loanView u st' acc)). in_No row = in_No x \<and> in_Status row = StatusPaid"
proof -
  let ?tx = "repaymentTx i loan x amt" and ?rid = "lr_ReceivableAccountID (ls_record st)"
  let ?u = "(pending ?tx s)\<lparr>tx_Status := StatusFinal\<rparr>"
  have "map_of (pj_txs (lg_proj s')) (postID ?tx s) = Some ?u"
    using posted_txs [OF loan_inv_ledger(1) [OF s] ty run] by simp
  moreover have "matchesTx (txFilterBy ?rid ''loan.repayment'') ?u"
    using pp by (simp add: matchesTx_def txFilterBy_def pending_def txHasAccount_def repaymentEntries_def mkEntry_def loan)
  ultimately have "?u \<in> set (repayments s' ?rid)" using in_repayments [OF loan_inv_ledger(1) [OF s']] by blast
  then have "?u \<in> set (repayments u ?rid)" by (simp add: repayments_def proj)
  moreover have "metaOf ?u ''installment_no'' = FormatInt (in_No x)"
    using repaymentTx_simps(2) [of i loan x amt] by (simp add: pending_def metaOf_def)
  moreover have "in64 (in_No x)" using x(2) by (simp add: row_typed_def)
  ultimately have no: "in_No x \<in> set (map (\<lambda>tx. ParseIntVal (metaOf tx ''installment_no'')) (repayments u ?rid))"
    by (metis (no_types, lifting) ParseIntVal_FormatInt image_eqI list.set_map)
  have "x \<in> set (ln_Schedule loan)" using x(1) by (auto simp: firstScheduled_def find_Some_iff)
  then obtain x0 where x0: "x0 \<in> set (Schedule (lr_PrincipalCents (ls_record st)) (lr_AnnualRateBps (ls_record st))
      (lr_TermMonths (ls_record st)) (lr_OriginatedAt (ls_record st)))" "in_No x0 = in_No x"
    by (auto simp: loan loanView_schedule)
  let ?ov = "overlay (map (\<lambda>tx. ParseIntVal (metaOf tx ''installment_no'')) (repayments u ?rid)) (ls_missed st')"
  have "?ov x0 \<in> set (ln_Schedule (loanView u st' acc))"
    unfolding loanView_schedule st' using x0(1) by (simp only: set_map image_eqI)
  moreover have "in_Status (?ov x0) = StatusPaid" using no by (simp add: overlay_def x0(2))
  ultimately show ?thesis using x0(2) by (intro bexI [of _ "?ov x0"]) simp_all
qed

text \<open>The end of a repayment: when nothing is outstanding any more the loan is marked repaid.\<close>

definition closing :: "string \<Rightarrow> Loan \<Rightarrow> ('z loanbook_scheme, Loan) oper" where
  "closing i updated =
     (if ln_OutstandingPrincipalCents updated \<le> 0 then bindE (appendRepaidEvent i) (\<lambda>_. GetLoan i) else returnE updated)"

lemma closing_outcome:
  assumes s: "loan_inv s" and ok: "timeOK (now s)" and st: "map_of (lp_loans (lb_proj s)) i = Some st" "\<not> ls_defaulted st" "\<not> ls_repaid st"
    and acc: "map_of (pj_accounts (lg_proj s)) (lr_ReceivableAccountID (ls_record st)) = Some r"
    and run: "closing i (loanView s st r) s = (Inr loan', s')"
  obtains st' where "loan' = loanView s' st' r" and "booked [] s s'" and "lg_proj s' = lg_proj s" and "ls_record st' = ls_record st"
    and "ln_Status loan' = (if naturalBalance (lg_proj s) r \<le> 0 then LoanRepaid else LoanActive)"
proof (cases "naturalBalance (lg_proj s) r \<le> 0")
  case False
  then have e: "s' = s" "loan' = loanView s st r" using run by (auto simp: closing_def op_simps)
  show thesis by (rule that [of st]) (use False st s in \<open>simp_all add: booked_def e\<close>)
next
  case True
  let ?p = "\<lparr>rp_LoanID = i, rp_OccurredAt = now s\<rparr>"
  obtain j where j: "encRepaid ?p = Inr j" using ok by (simp add: encRepaid_def)
  note dec = encRepaid_good [OF j]
  let ?e = "newEvent eventLoanRepaid i (now s) j"
  let ?s = "emitted s ?e" and ?st = "st\<lparr>ls_repaid := True\<rparr>"
  have b: "booked [] s ?s" by (rule emitted_booked [OF s]) (simp_all add: good_loan_events dec)
  have st': "map_of (lp_loans (lb_proj ?s)) i = Some ?st"
    by (rule emitted_loans) (simp_all add: st apply_loan_eqs(4) [where rp = ?p] dec)
  have "GetLoan i ?s = (Inr (loanView ?s ?st r), ?s)"
    by (rule GetLoan_at [OF _ st']) (use b acc in \<open>simp_all add: booked_def\<close>)
  then have "loan' = loanView ?s ?st r \<and> s' = ?s"
    using run True st j by (auto simp: closing_def appendRepaidEvent_def op_simps Now_def)
  then show thesis
    using that [of ?st] b True st by (simp add: loanStatus_def)
qed

lemma Repay_InrE:
  assumes s: "loan_inv s" "in64 amount" and run: "Repay i amount s = (Inr loan', s')"
  obtains st r nxt amt d t s1 where "map_of (lp_loans (lb_proj s)) i = Some st" "ln_Status (loanView s st r) = LoanActive"
    and "GetLoan i s = (Inr (loanView s st r), s)"
    and "map_of (pj_accounts (lg_proj s)) (lr_ReceivableAccountID (ls_record st)) = Some r"
    and "firstScheduled (ln_Schedule (loanView s st r)) = Some nxt"
    and "row_typed nxt" and "amt = orDefault (in_PaymentCents nxt) amount" "in64 amt"
    and "map_of (pj_accounts (lg_proj s)) (lr_DepositAccountID (ls_record st)) = Some d" and "amt \<le> naturalBalance (lg_proj s) d"
    and "PostAndFinalize (repaymentTx i (loanView s st r) nxt amt) s = (Inr t, s1)"
    and "closing i (loanView s1 st r) s1 = (Inr loan', s')"
proof -
  from run obtain loan sl nxt s0 b t s1 updated s1' where get: "GetLoan i s = (Inr loan, sl)"
    and 1: "ln_Status loan = LoanActive" "firstScheduled (ln_Schedule loan) = Some nxt"
    and 2: "Balance (ln_DepositAccountID loan) sl = (Inr b, s0)" "orDefault (in_PaymentCents nxt) amount \<le> am_Minor b"
    and 3: "PostAndFinalize (repaymentTx i loan nxt (orDefault (in_PaymentCents nxt) amount)) s0 = (Inr t, s1)"
    and 4: "GetLoan i s1 = (Inr updated, s1')" "closing i updated s1' = (Inr loan', s')"
    by (auto simp: Repay_def bindE_eq_Inr op_simps ofOption_def closing_def Let_def split: option.splits if_splits)
  obtain st r where sl: "sl = s" and st: "map_of (lp_loans (lb_proj s)) i = Some st" "loan = loanView s st r"
    "map_of (pj_accounts (lg_proj s)) (lr_ReceivableAccountID (ls_record st)) = Some r"
    by (rule GetLoan_InrE [OF s(1) get])
  have s0: "s0 = s" and d: "\<exists>d. map_of (pj_accounts (lg_proj s)) (ln_DepositAccountID loan) = Some d \<and> am_Minor b = naturalBalance (lg_proj s) d"
    using 2(1) s by (auto simp: sl op_simps ofOption_def split: option.splits)
  have row: "row_typed nxt" using loanView_rows(1) [OF s(1) st(1)] 1(2) st(2) by simp
  then have amt: "in64 (orDefault (in_PaymentCents nxt) amount)" using s(2) by (simp add: in64_orDefault row_typed_def)
  note p = loan_posts(1,2) [OF s(1) typed_repaymentTx [OF amt row] 3 [unfolded s0]]
  have "GetLoan i s1 = (Inr (loanView s1 st r), s1)"
    by (rule GetLoan_at) (use p st in \<open>simp_all add: booked_def\<close>)
  then have "closing i (loanView s1 st r) s1 = (Inr loan', s')" using 4 by simp
  then show thesis
    using that [OF st(1) 1(1) [unfolded st(2)] _ st(3) 1(2) [unfolded st(2)] row refl amt _ _ 3 [unfolded s0 st(2)]] d 2(2) get sl
    by (auto simp: st(2))
qed

text \<open>A repayment that the deposit covers and the ledger accepts goes through.\<close>

lemma Repay_runs:
  assumes s: "loan_inv s" "in64 amount" and ok: "timeOK (now s)"
    and loan: "GetLoan i s = (Inr loan, s)" "ln_Status loan = LoanActive" "firstScheduled (ln_Schedule loan) = Some nxt"
    and amt: "amt = orDefault (in_PaymentCents nxt) amount"
    and d: "map_of (pj_accounts (lg_proj s)) (ln_DepositAccountID loan) = Some d" "amt \<le> naturalBalance (lg_proj s) d"
    and v: "validate (lg_proj s) (repaymentTx i loan nxt amt) = Inr ()"
  obtains loan' s' where "Repay i amount s = (Inr loan', s')"
proof -
  obtain st r where st: "map_of (lp_loans (lb_proj s)) i = Some st" "loan = loanView s st r"
    "map_of (pj_accounts (lg_proj s)) (lr_ReceivableAccountID (ls_record st)) = Some r"
    by (rule GetLoan_InrE [OF s(1) loan(1)])
  have row: "row_typed nxt" using loanView_rows(1) [OF s(1) st(1)] loan(3) st(2) by simp
  have in64: "in64 amt" using s(2) row by (simp add: amt in64_orDefault row_typed_def)
  have ty: "tx_typed (repaymentTx i loan nxt amt)" by (rule typed_repaymentTx [OF in64 row])
  obtain t s1 where post: "PostAndFinalize (repaymentTx i loan nxt amt) s = (Inr t, s1)"
    using PostAndFinalize_app(3) [OF loan_inv_ledger(1) [OF s(1)] ty v ok] by blast
  note p = loan_posts(1,2) [OF s(1) ty post]
  have get: "GetLoan i s1 = (Inr (loanView s1 st r), s1)"
    by (rule GetLoan_at) (use p st in \<open>simp_all add: booked_def\<close>)
  have s1: "loan_inv s1" "timeOK (now s1)" "map_of (lp_loans (lb_proj s1)) i = Some st"
    "map_of (pj_accounts (lg_proj s1)) (lr_ReceivableAccountID (ls_record st)) = Some r"
    using p ok st by (simp_all add: booked_def)
  have "\<exists>loan' s'. closing i (loanView s1 st r) s1 = (Inr loan', s')"
  proof (cases "ln_OutstandingPrincipalCents (loanView s1 st r) \<le> 0")
    case True
    let ?p = "\<lparr>rp_LoanID = i, rp_OccurredAt = now s1\<rparr>"
    obtain j where j: "encRepaid ?p = Inr j" using s1(2) by (simp add: encRepaid_def)
    note dec = encRepaid_good [OF j]
    let ?e = "newEvent eventLoanRepaid i (now s1) j"
    have b: "booked [] s1 (emitted s1 ?e)" by (rule emitted_booked [OF s1(1)]) (simp_all add: good_loan_events dec)
    have "map_of (lp_loans (lb_proj (emitted s1 ?e))) i = Some (st\<lparr>ls_repaid := True\<rparr>)"
      by (rule emitted_loans) (simp_all add: s1 apply_loan_eqs(4) [where rp = ?p] dec)
    then have "\<exists>l. GetLoan i (emitted s1 ?e) = (Inr l, emitted s1 ?e)"
      using GetLoan_at [of "emitted s1 ?e" i "st\<lparr>ls_repaid := True\<rparr>" r] b s1(4) by (auto simp: booked_def)
    moreover have "\<not> ls_repaid st" using loan(2) by (simp add: st(2))
    ultimately show ?thesis using True s1 j by (auto simp: closing_def appendRepaidEvent_def op_simps Now_def)
  qed (simp add: closing_def op_simps)
  then show thesis
    using that loan amt d post get s(1)
    by (auto simp: Repay_def op_simps ofOption_def mkAmount_def Let_def closing_def)
qed

text \<open>C23: A repayment that returns has taken the amount, or the payment due when none was given, from a
  deposit that had it: first the interest of the next row, the rest off the principal. The journal
  grows by one entry for each part that is not zero, what is outstanding falls by exactly the
  principal part, and the loan is repaid when nothing is outstanding and active otherwise. The row is marked paid when
  there is any principal in the payment; a payment of interest alone leaves it scheduled. The receivable is taken to be
  an asset and different from the deposit and the interest account.\<close>

theorem repay_outcome:
  assumes s: "loan_inv s" and n: "in64 amount" and run: "Repay i amount s = (Inr loan', s')"
    and loan: "GetLoan i s = (Inr loan, s)"
    and acc: "map_of (pj_accounts (lg_proj s)) (ln_ReceivableAccountID loan) = Some r" "NormalBalance (ac_Type r) = Debit"
    and ids: "distinct [ln_ReceivableAccountID loan, ln_DepositAccountID loan, ''interest-income-usd'']"
  shows "\<exists>nxt interest princ. ln_Status loan = LoanActive \<and> firstScheduled (ln_Schedule loan) = Some nxt \<and>
    princ + interest = orDefault (in_PaymentCents nxt) amount \<and> 0 \<le> princ \<and> 0 \<le> interest \<and>
    interest = min (princ + interest) (in_InterestCents nxt) \<and>
    (\<exists>d. map_of (pj_accounts (lg_proj s)) (ln_DepositAccountID loan) = Some d \<and> princ + interest \<le> naturalBalance (lg_proj s) d) \<and>
    loan_inv s' \<and> journal (st_events s') = journal (st_events s) @ repaymentEntries loan (princ + interest) princ interest \<and>
    ln_OutstandingPrincipalCents loan' = wrap64 (ln_OutstandingPrincipalCents loan - princ) \<and>
    (0 < princ \<longrightarrow> (\<exists>row \<in> set (ln_Schedule loan'). in_No row = in_No nxt \<and> in_Status row = StatusPaid)) \<and>
    ln_Status loan' = (if ln_OutstandingPrincipalCents loan' \<le> 0 then LoanRepaid else LoanActive)"
proof -
  obtain st r0 nxt amt d t s1 where st: "map_of (lp_loans (lb_proj s)) i = Some st" "ln_Status (loanView s st r0) = LoanActive"
      "GetLoan i s = (Inr (loanView s st r0), s)" "map_of (pj_accounts (lg_proj s)) (lr_ReceivableAccountID (ls_record st)) = Some r0"
    and x: "firstScheduled (ln_Schedule (loanView s st r0)) = Some nxt" "row_typed nxt"
    and amt: "amt = orDefault (in_PaymentCents nxt) amount" "in64 amt"
    and d: "map_of (pj_accounts (lg_proj s)) (lr_DepositAccountID (ls_record st)) = Some d" "amt \<le> naturalBalance (lg_proj s) d"
    and post: "PostAndFinalize (repaymentTx i (loanView s st r0) nxt amt) s = (Inr t, s1)"
    and close: "closing i (loanView s1 st r0) s1 = (Inr loan', s')"
    by (rule Repay_InrE [OF s n run])
  have l: "loan = loanView s st r0" "r0 = r" using st(3,4) loan acc(1) by auto
  let ?tx = "repaymentTx i loan nxt amt" and ?ip = "min amt (in_InterestCents nxt)"
  note post = post [folded l(1)]
  have ty: "tx_typed ?tx" by (rule typed_repaymentTx [OF amt(2) x(2)])
  note p = loan_posts(1,2) [OF s ty post]
  have s1: "loan_inv s1" "now s1 = now s" using p(1) by (simp_all add: booked_def)
  have v: "validate (lg_proj s) ?tx = Inr ()" and ok: "timeOK (now s)"
    using PostAndFinalize_app(1,2) [OF loan_inv_ledger(1) [OF s] ty] post
    by (cases "validate (lg_proj s) ?tx"; cases "timeOK (now s)"; auto)+
  note ip = repayment_split [OF v amt(2) x(2)]
  have pp: "wrap64 (amt - ?ip) = amt - ?ip" by (rule repayment_parts) (use amt ip in auto)
  obtain st' where l': "loan' = loanView s' st' r" and b: "booked [] s1 s'" and proj: "lg_proj s' = lg_proj s1"
    and same: "ls_record st' = ls_record st"
    and status: "ln_Status loan' = (if naturalBalance (lg_proj s1) r \<le> 0 then LoanRepaid else LoanActive)"
    by (rule closing_outcome [OF s1(1) _ _ _ _ _ close [unfolded l(2)]])
      (use ok s1 p st acc in \<open>simp_all add: booked_def l\<close>)
  have bs: "booked (repaymentEntries loan amt (amt - ?ip) ?ip) s s'"
    using booked_trans [OF p(1) b] pp by simp
  have "naturalBalance (lg_proj s') r = wrap64 (naturalBalance (lg_proj s) r + (0 - (amt - ?ip)))"
    using balance_of_journal [of s s' "repaymentEntries loan amt (amt - ?ip) ?ip" r] bs s acc ids
      accounts_id [OF loan_inv_ledger(1) [OF s] acc(1)]
    by (auto simp: booked_def repaymentEntries_def mkEntry_def mkAmount_def)
  then have "naturalBalance (lg_proj s') r = wrap64 (naturalBalance (lg_proj s) r - (amt - ?ip))"
    by (simp only: diff_0 add_uminus_conv_diff)
  moreover have "\<exists>row \<in> set (ln_Schedule loan'). in_No row = in_No nxt \<and> in_Status row = StatusPaid" if "0 < amt - ?ip"
    unfolding l' by (rule repayment_marks_paid [OF s l(1) [unfolded l(2)] x(1) [folded l(1)] x(2) post s1(1) ty _ proj same]) (use that pp in simp)
  ultimately show ?thesis
    using x(1) st(2) amt(1) d ip bs status proj
    by - (rule exI [of _ nxt], rule exI [of _ ?ip], rule exI [of _ "amt - ?ip"], simp add: l l' booked_def)
qed

end
