(* ===== verification/Bank_Steps.thy ===== *)
theory Bank_Steps
  imports Acct_Props Loan_Props
begin

text \<open>
  The bank as a whole: the operations of the ledger, of customer accounts and of the loan book as
  steps on the shared state, with the clock and restarts of the process, and what holds in every
  state they reach.
\<close>

section \<open>Customer accounts leave the loan book alone\<close>

lemma side_newPurchaseID [pres]: "preserves (side v) newPurchaseID"
  by (auto simp: preserves_def op_simps)

lemma side_Deposit [pres]: "preserves (side v) (Deposit i amt)"
  unfolding Deposit_def by (intro pres)

lemma side_Seed [pres]: "preserves (side v) Seed"
proof -
  have "preserves (side v) (openLeg i owner cur)" for i owner cur unfolding openLeg_def by (intro pres)
  then have "preserves (side v) (openCustomerAccount i owner)" for i owner
    unfolding openCustomerAccount_def by (intro pres)
  moreover have "preserves (side v) (depositIfEmpty i amt)" for i amt unfolding depositIfEmpty_def by (intro pres)
  ultimately show ?thesis unfolding Seed_eq by (intro pres)
qed

lemma side_Purchase [pres]: "preserves (side v) (Purchase req)"
proof -
  have "preserves (side v) (purchaseLeg req m pid mr d leg)" for m pid mr d leg
    unfolding purchaseLeg_def Let_def by (intro pres)
  then have "preserves (side v) (settlePurchase req m pid d)" for m pid d
    unfolding settlePurchase_def Let_def by (intro pres)
  then show ?thesis unfolding Purchase_def Let_def by (intro pres)
qed

lemma side_Bulk [pres]: "preserves (side v) (BulkRandomPurchases newRand req)"
proof -
  have "preserves (side v) (bulkLoop rng req n k)" for rng n k
    by (induction n arbitrary: k) (auto simp: Let_def intro!: pres)
  then show ?thesis unfolding BulkRandomPurchases_def by (intro pres)
qed

lemma side_Convert [pres]: "preserves (side v) (Convert req)"
  unfolding Convert_def Settle_def Finalize_def Let_def by (intro pres) simp_all

lemma side_others [pres]:
  "preserves (side v) (Settle i)" "preserves (side v) (Finalize i)" "preserves (side v) (SeedCapital n)"
  "preserves (side v) EnsureSystemAccounts"
proof -
  show "preserves (side v) (Settle i)" "preserves (side v) (Finalize i)"
    unfolding Settle_def Finalize_def by (intro pres; simp)+
  show "preserves (side v) (SeedCapital n)" unfolding SeedCapital_def by (intro pres)
  have "preserves (side v) (ensureAccount spec)" for spec
    by (cases spec) (auto simp: ensureAccount_def intro!: pres)
  then show "preserves (side v) EnsureSystemAccounts" unfolding EnsureSystemAccounts_def by (intro pres)
qed

section \<open>No operation of the services changes the rules\<close>

definition live :: "(string \<times> Rule) list \<times> (string \<times> Evaluator) list \<Rightarrow> 'z loanbook_scheme \<Rightarrow> bool" where
  "live v s \<longleftrightarrow> (en_cache s, en_evaluators s) = v"

lemma live_side:
  assumes "\<And>v. preserves (side v) m"
  shows "preserves (live v) m"
proof (rule preservesI)
  fix s :: "'a loanbook_scheme"
  assume "live v s"
  then show "live v (snd (m s))"
    using preservesD [OF assms, of "loanSide s" s] by (simp add: side_def live_def loanSide_def)
qed

lemma live_calls [pres]:
  "preserves (live v) (PostAndFinalize tx)" "preserves (live v) (OpenAccount a)" "preserves (live v) (Balance i)"
  "preserves (live v) (ListTransactions f)" "preserves (live v) (Evaluate r ty i input)" "preserves (live v) newID"
  "preserves (live v) Now"
  by (intro live_side pres)+

lemma live_loan_state [pres]:
  "preserves (live v) refresh_loan" "preserves (live v) (emitLoan ty i t pl)" "preserves (live v) (addApplicant a)"
  by (auto simp: preserves_def op_simps refresh_loan_app addApplicant_def live_def split: prod.split)

lemma live_loan_reads [pres]:
  "preserves (live v) (buildLoan st)" "preserves (live v) (GetLoan i)" "preserves (live v) ListLoans"
proof -
  show b: "preserves (live v) (buildLoan st)" for st unfolding buildLoan_def by (intro pres)
  show "preserves (live v) (GetLoan i)" unfolding GetLoan_def by (intro pres b)
  have "preserves (live v) (listedLoan i)" for i unfolding listedLoan_def by (intro pres b)
  then show "preserves (live v) ListLoans" unfolding ListLoans_def by (intro pres)
qed

lemma live_Underwrite [pres]: "preserves (live v) (Underwrite req)"
  unfolding Underwrite_def Let_def getApplicant_def by (intro pres)

lemma live_loan_ops [pres]:
  "preserves (live v) (Originate req)" "preserves (live v) (Repay i n)" "preserves (live v) (missPaymentInternal i)"
  "preserves (live v) (Default i reason)" "preserves (live v) (MissPayment i)"
proof -
  show "preserves (live v) (Originate req)" unfolding Originate_def Let_def by (intro pres)
  have "preserves (live v) (appendRepaidEvent i)" unfolding appendRepaidEvent_def by (intro pres)
  then show "preserves (live v) (Repay i n)" unfolding Repay_def Let_def by (intro pres)
  show m: "preserves (live v) (missPaymentInternal i)"
    unfolding missPaymentInternal_def recordMissed_def Let_def by (intro pres)
  show "preserves (live v) (Default i reason)" unfolding Default_def Let_def by (intro pres)
  show "preserves (live v) (MissPayment i)" unfolding MissPayment_def by (intro pres m)
qed

lemma live_Tick [pres]: "preserves (live v) Tick"
proof -
  have t: "preserves (live v) (tickInstallments grace t i xs report)" for grace t i xs report
    by (induction xs arbitrary: report) (auto simp: Let_def intro!: pres)
  have "preserves (live v) (tickLoans grace t loans report)" for grace t loans report
    by (induction loans arbitrary: report) (auto intro!: pres t)
  then show ?thesis unfolding Tick_def by (intro pres)
qed

lemma live_SeedLoans [pres]: "preserves (live v) SeedLoans"
  unfolding SeedLoans_def by (intro pres)

section \<open>The bank as a state machine\<close>

text \<open>
  \<open>main.go\<close> registers the evaluator of each rule type before it loads the rules; the rules are not
  changed by the steps below (publishing a version checks neither its type nor what the services
  need of it, so that a live edit is outside of these properties).
\<close>

definition bank_inv :: "'z loanbook_scheme \<Rightarrow> bool" where
  "bank_inv s \<longleftrightarrow> loan_inv s \<and> waterfall_wired s"

definition bank_init :: "'z loanbook_scheme \<Rightarrow> bool" where
  "bank_init s \<longleftrightarrow> ledger_init s \<and> lb_proj s = newLoanProjection \<and> lb_applicants s = [] \<and> waterfall_wired s \<and>
     decidedBy (en_cache s) (en_evaluators s) ''risk_scoring'' EvaluateRiskScore \<and>
     decidedBy (en_cache s) (en_evaluators s) ''loan_underwriting'' EvaluateUnderwriting \<and>
     decidedBy (en_cache s) (en_evaluators s) ''loan_servicing'' EvaluateServicing"

text \<open>A restart forgets the projections and the applicants, which are only kept in memory.\<close>

definition forget :: "'z loanbook_scheme \<Rightarrow> 'z loanbook_scheme" where
  "forget s = s\<lparr>lg_proj := newProjection, lb_proj := newLoanProjection, lb_applicants := []\<rparr>"

inductive bank_step :: "'z loanbook_scheme \<Rightarrow> 'z loanbook_scheme \<Rightarrow> bool" where
  open_account: "bank_step s (snd (OpenAccount a s))"
| ensure: "bank_step s (snd (EnsureSystemAccounts s))"
| seed_capital: "in64 n \<Longrightarrow> bank_step s (snd (SeedCapital n s))"
| post: "tx_typed tx \<Longrightarrow> bank_step s (snd (Post tx s))"
| settle: "bank_step s (snd (Settle i s))"
| finalize: "bank_step s (snd (Finalize i s))"
| post_finalize: "tx_typed tx \<Longrightarrow> bank_step s (snd (PostAndFinalize tx s))"
| convert: "in64 (am_Minor (fr_From fx)) \<Longrightarrow> bank_step s (snd (Convert fx s))"
| set_clock: "bank_step s (snd (SetTo t s))"
| deposit: "in64 (am_Minor amt) \<Longrightarrow> bank_step s (snd (Deposit i amt s))"
| purchase: "in64 (pq_AmountCents pq) \<Longrightarrow> bank_step s (snd (Purchase pq s))"
| bulk: "in64 (bq_MinCents bq) \<Longrightarrow> bank_step s (snd (BulkRandomPurchases newRand bq s))"
| seed_customer: "bank_step s (snd (Seed s))"
| applicant: "applicant_typed ap \<Longrightarrow> bank_step s (snd (addApplicant ap s))"
| underwrite: "bank_step s (snd (Underwrite uq s))"
| originate: "in64 (oq_PrincipalCents oq) \<Longrightarrow> in64 (oq_TermMonths oq) \<Longrightarrow> bank_step s (snd (Originate oq s))"
| repay: "in64 n \<Longrightarrow> bank_step s (snd (Repay i n s))"
| miss: "bank_step s (snd (MissPayment i s))"
| default: "bank_step s (snd (Default i reason s))"
| servicing: "bank_step s (snd (Tick s))"
| seed_loans: "bank_step s (snd (SeedLoans s))"
| restart: "bank_step s (snd (refresh_loan (snd (refresh_ledger (forget s)))))"

inductive bank_reachable :: "'z loanbook_scheme \<Rightarrow> bool" where
  init: "bank_init s \<Longrightarrow> bank_reachable s"
| step: "bank_reachable s \<Longrightarrow> bank_step s s' \<Longrightarrow> bank_reachable s'"

inductive_cases bank_stepE: "bank_step s s'"

lemma bank_inv_init: "bank_init s \<Longrightarrow> bank_inv s"
  using ledger_inv_init [of s]
  by (simp add: bank_init_def bank_inv_def loan_inv_def loan_ok_def loanSide_def ledger_init_def own_def replay_def)

lemma waterfall_live: "waterfall_wired s = wiredView (undefined, undefined, en_cache s, en_evaluators s, undefined)"
  by (simp add: waterfall_wired_def wiredView_def getEvaluator_def)

lemma bank_inv_of_loan:
  assumes "preserves loan_inv m" and "\<And>v. preserves (live v) m"
  shows "preserves bank_inv m"
proof (rule preservesI)
  fix s :: "'a loanbook_scheme"
  assume s: "bank_inv s"
  have "live (en_cache s, en_evaluators s) (snd (m s))" by (rule preservesD [OF assms(2)]) (simp add: live_def)
  then have "waterfall_wired (snd (m s)) = waterfall_wired s" by (simp add: waterfall_live live_def)
  with s preservesD [OF assms(1), of s] show "bank_inv (snd (m s))" by (simp add: bank_inv_def)
qed

lemma bank_inv_of_ledger:
  assumes "preserves ledger_inv m" and "\<And>v. preserves (side v) m"
  shows "preserves bank_inv m"
  by (intro bank_inv_of_loan preserves_loan_inv live_side assms)

text \<open>The client operations keep the books when the waterfall is wired.\<close>

lemma bank_inv_of_client:
  fixes m :: "('z loanbook_scheme, 'a) oper"
  assumes "\<And>v. wiredView v \<Longrightarrow> preserves (sound v) m" and "\<And>v. preserves (side v) m"
  shows "preserves bank_inv m"
proof (rule preservesI)
  fix s :: "'z loanbook_scheme"
  assume s: "bank_inv s"
  have w: "wiredView (clientView s)" using s by (simp add: wiredView_iff bank_inv_def)
  have "sound (clientView s) (snd (m s))"
    by (rule preservesD [OF assms(1) [OF w]]) (use s in \<open>simp add: bank_inv_def sound_def\<close>)
  then have "ledger_inv (snd (m s))" "waterfall_wired (snd (m s))"
    using w by (auto simp: sound_def wiredView_iff [symmetric])
  moreover have "side (loanSide s) (snd (m s))" by (rule preservesD [OF assms(2)]) (simp only: side_def)
  ultimately show "bank_inv (snd (m s))" using s by (simp add: bank_inv_def loan_inv_def side_def)
qed

lemma ledger_inv_sound:
  assumes "\<And>v. preserves (sound v) m"
  shows "preserves ledger_inv m"
proof (rule preservesI)
  fix s :: "'a ledger_scheme"
  assume "ledger_inv s"
  then show "ledger_inv (snd (m s))"
    using preservesD [OF assms, of "clientView s" s] by (simp add: sound_def)
qed

lemma ledger_inv_Deposit [pres]: "in64 (am_Minor amt) \<Longrightarrow> preserves ledger_inv (Deposit i amt)"
  by (intro ledger_inv_sound pres)

lemma ledger_inv_Seed [pres]: "preserves ledger_inv Seed"
proof -
  have "preserves ledger_inv (openLeg i owner cur)" for i owner cur unfolding openLeg_def by (intro pres)
  then have "preserves ledger_inv (openCustomerAccount i owner)" for i owner
    unfolding openCustomerAccount_def by (intro pres)
  moreover have "preserves ledger_inv (depositIfEmpty i (mkAmount c n))" if "in64 n" for i c n
    by (intro ledger_inv_sound pres) (simp add: mkAmount_def that)
  moreover have "in64 150000" "in64 800000000" by (simp_all add: in64_def min64_def max64_def)
  ultimately show ?thesis unfolding Seed_eq by (intro preserves_bindE) blast+
qed

lemma side_SetTo [pres]: "preserves (side v) (SetTo t)"
  unfolding SetTo_def
  by (intro preserves_bindE preserves_getE preserves_guardE preserves_returnE)
    (auto simp: preserves_def op_simps side_def loanSide_def)

lemma restarted:
  assumes "loan_inv s"
  shows "snd (refresh_loan (snd (refresh_ledger (forget s)))) = s\<lparr>lb_applicants := []\<rparr>"
proof -
  let ?s = "s\<lparr>lb_proj := newLoanProjection, lb_applicants := []\<rparr>"
  have inv: "ledger_inv ?s" using assms ledger_inv_cong [of ?s s] by (simp add: loan_inv_ledger)
  have "forget s = ?s\<lparr>lg_proj := newProjection\<rparr>" by (simp add: forget_def)
  then have "snd (refresh_ledger (forget s)) = ?s" by (simp only: ledger_inv_restart [OF inv] snd_conv)
  moreover have "refresh_loan ?s = (Inr (), ?s\<lparr>lb_proj := replay apply_loan loanEventTypes (st_events ?s) newLoanProjection\<rparr>)"
    by (rule refresh_loan_catches_up [of _ "[]" "st_events ?s"])
      (use assms loan_inv_synced [OF assms] in \<open>simp_all add: loan_synced_def log_wf_def\<close>)
  moreover have "lb_proj s = replay apply_loan loanEventTypes (st_events s) newLoanProjection"
    using loan_inv_synced [OF assms] by (simp add: loan_synced_def)
  ultimately show ?thesis by simp
qed

lemma loan_inv_without_applicants:
  assumes "loan_inv s"
  shows "loan_inv (s\<lparr>lb_applicants := []\<rparr>)"
  using assms ledger_inv_cong [of "s\<lparr>lb_applicants := []\<rparr>" s] by (simp add: loan_inv_def loan_ok_def loanSide_def)

lemma bank_inv_ledger_ops:
  "preserves bank_inv (OpenAccount a)" "preserves bank_inv EnsureSystemAccounts"
  "in64 n \<Longrightarrow> preserves bank_inv (SeedCapital n)" "tx_typed tx \<Longrightarrow> preserves bank_inv (Post tx)"
  "preserves bank_inv (Settle i)" "preserves bank_inv (Finalize i)"
  "tx_typed tx \<Longrightarrow> preserves bank_inv (PostAndFinalize tx)"
  "in64 (am_Minor (fr_From fx)) \<Longrightarrow> preserves bank_inv (Convert fx)" "preserves bank_inv (SetTo t)"
  "in64 (am_Minor amt) \<Longrightarrow> preserves bank_inv (Deposit i amt)" "preserves bank_inv Seed"
  by (intro bank_inv_of_ledger pres; assumption)+

lemma bank_inv_loan_ops:
  "applicant_typed ap \<Longrightarrow> preserves bank_inv (addApplicant ap)" "preserves bank_inv (Underwrite uq)"
  "in64 (oq_PrincipalCents oq) \<Longrightarrow> in64 (oq_TermMonths oq) \<Longrightarrow> preserves bank_inv (Originate oq)"
  "in64 n \<Longrightarrow> preserves bank_inv (Repay i n)" "preserves bank_inv (MissPayment i)"
  "preserves bank_inv (Default i reason)" "preserves bank_inv Tick" "preserves bank_inv SeedLoans"
  by (intro bank_inv_of_loan loan_inv_addApplicant loan_inv_Originate loan_inv_Repay loan_inv_Tick loan_inv_MissPayment
      loan_inv_SeedLoans pres; assumption)+

lemma bank_inv_client_ops:
  "in64 (pq_AmountCents pq) \<Longrightarrow> preserves bank_inv (Purchase pq)"
  "in64 (bq_MinCents bq) \<Longrightarrow> preserves bank_inv (BulkRandomPurchases newRand bq)"
  by (intro bank_inv_of_client sound_Purchase sound_BulkRandomPurchases side_Purchase side_Bulk; assumption)+

lemma bank_inv_step: "bank_step s s' \<Longrightarrow> bank_inv s \<Longrightarrow> bank_inv s'"
proof (induction rule: bank_step.induct)
  case (restart s)
  then show ?case
    by (simp add: bank_inv_def restarted loan_inv_without_applicants) (simp add: waterfall_wired_def getEvaluator_def)
qed (simp_all add: preservesD bank_inv_ledger_ops bank_inv_loan_ops bank_inv_client_ops)

lemma bank_reachable_inv: "bank_reachable s \<Longrightarrow> bank_inv s"
  by (induction rule: bank_reachable.induct) (auto intro: bank_inv_init bank_inv_step)

end
