(* ===== verification/Sim_Scenario.thy ===== *)
theory Sim_Scenario
  imports Go_Timestamp Bank_Steps
begin

text \<open>
  \<open>simulate/service.go\<close> and \<open>simulate/scenario.go\<close>: moving the clock forward with the servicing of the
  loans that this makes due, forcing a default, and running scenarios. The service has no state of
  its own beside the instant it was started at.
\<close>

section \<open>The service\<close>

record simulation = loanbook +
  si_start :: instant

definition New_simulation :: "'z simulation_scheme \<Rightarrow> 'z simulation_scheme" where
  "New_simulation s = s\<lparr>si_start := now s\<rparr>"

record ClockView =
  cv_Now :: instant
  cv_Start :: instant

definition Clock :: "'z simulation_scheme \<Rightarrow> ClockView" where
  "Clock s = \<lparr>cv_Now = now s, cv_Start = si_start s\<rparr>"

definition DefaultTriggerReason :: string where "DefaultTriggerReason = ''manual_demo_trigger''"
definition maxTickIterations :: nat where "maxTickIterations = 12"
definition firstLoanPlaceholder :: string where "firstLoanPlaceholder = ''$first_loan''"

section \<open>Advancing time\<close>

record AdvanceTimeRequest =
  at_Days :: int64
  at_To :: string

record AdvanceTimeResult =
  ar_Previous :: instant
  ar_Now :: instant
  ar_DaysAdvanced :: float64
  ar_Tick :: TickReport

definition validateAdvanceTimeRequest :: "AdvanceTimeRequest \<Rightarrow> unit res" where
  "validateAdvanceTimeRequest req =
     (if at_Days req \<le> 0 \<and> at_To req = ''''
      then Inl (ESim (SimValidation [''either days (> 0) or to (RFC3339 timestamp) is required'']))
      else if 0 < at_Days req \<and> at_To req \<noteq> ''''
      then Inl (ESim (SimValidation [''specify only one of days or to, not both'']))
      else Inr ())"

fun tickLoop :: "nat \<Rightarrow> TickReport \<Rightarrow> ('z loanbook_scheme, TickReport) oper" where
  "tickLoop 0 sofar = returnE sofar"
| "tickLoop (Suc n) sofar =
     bindE Tick (\<lambda>report.
     if tr_MissedPayments report = [] \<and> tr_Defaults report = [] then returnE sofar
     else tickLoop n \<lparr>tr_MissedPayments = tr_MissedPayments sofar @ tr_MissedPayments report,
                      tr_Defaults = tr_Defaults sofar @ tr_Defaults report\<rparr>)"

definition tickUntilStable :: "('z loanbook_scheme, TickReport) oper" where
  "tickUntilStable = tickLoop maxTickIterations \<lparr>tr_MissedPayments = [], tr_Defaults = []\<rparr>"

text \<open>The clock part of \<open>AdvanceTime\<close>; the texts of the time package's errors are left out.\<close>

definition moveClock :: "AdvanceTimeRequest \<Rightarrow> ('z loanbook_scheme, unit) oper" where
  "moveClock req =
     (if 0 < at_Days req
      then bindE (ctxE ''simulate'' (AdvanceDays (at_Days req))) (\<lambda>_. returnE ())
      else bindE (liftE (ofOption (ESim (SimValidation [''to''])) (ParseRFC3339 (at_To req)))) (\<lambda>target.
           bindE (attemptE (SetTo target)) (\<lambda>r.
           case r of
             Inl e \<Rightarrow> throwE (ESim (SimValidation [''clock'']))
           | Inr _ \<Rightarrow> returnE ())))"

definition AdvanceTime :: "AdvanceTimeRequest \<Rightarrow> ('z loanbook_scheme, AdvanceTimeResult) oper" where
  "AdvanceTime req =
     bindE (liftE (validateAdvanceTimeRequest req)) (\<lambda>_.
     bindE Now (\<lambda>previous.
     bindE (moveClock req) (\<lambda>_.
     bindE tickUntilStable (\<lambda>report.
     bindE Now (\<lambda>t.
     returnE \<lparr>ar_Previous = previous, ar_Now = t,
       ar_DaysAdvanced = flDiv (floatOfInt (subTime t previous)) (floatOfInt nanosPerDay), ar_Tick = report\<rparr>)))))"

section \<open>Forcing a default\<close>

definition TriggerDefault :: "string \<Rightarrow> string \<Rightarrow> ('z loanbook_scheme, Loan) oper" where
  "TriggerDefault loanID reason =
     bindE (guardE (loanID \<noteq> '''') (ESim (SimValidation [''loan_id is required'']))) (\<lambda>_.
     Default loanID (if reason = '''' then DefaultTriggerReason else reason))"

definition resolveLoanID :: "string \<Rightarrow> ('z loanbook_scheme, string) oper" where
  "resolveLoanID i =
     (if i \<noteq> firstLoanPlaceholder then returnE i
      else bindE ListLoans (\<lambda>loans.
           case find (\<lambda>l. ln_Status l = LoanActive) loans of
             Some l \<Rightarrow> returnE (ln_ID l)
           | None \<Rightarrow> throwE (ESim NoActiveLoan)))"

section \<open>Scenarios\<close>

definition StepAdvanceTime :: string where "StepAdvanceTime = ''advance_time''"
definition StepRepay :: string where "StepRepay = ''repay''"
definition StepMissPayment :: string where "StepMissPayment = ''miss_payment''"
definition StepRandomPurchases :: string where "StepRandomPurchases = ''random_purchases''"
definition StepOriginate :: string where "StepOriginate = ''originate''"
definition StepDeposit :: string where "StepDeposit = ''deposit''"
definition StepTriggerDefault :: string where "StepTriggerDefault = ''trigger_default''"

lemmas step_types = StepAdvanceTime_def StepRepay_def StepMissPayment_def StepRandomPurchases_def StepOriginate_def
  StepDeposit_def StepTriggerDefault_def

record Step =
  sp_Type :: string
  sp_Days :: int64
  sp_LoanID :: string
  sp_Count :: int64
  sp_AmountCents :: int64
  sp_AccountID :: string
  sp_MinCents :: int64
  sp_MaxCents :: int64
  sp_Seed :: int64
  sp_ApplicantID :: string
  sp_PrincipalCents :: int64
  sp_TermMonths :: int64
  sp_Currency :: string
  sp_Amount :: string
  sp_Reason :: string

record Scenario =
  sc_Name :: string
  sc_Steps :: "Step list"

text \<open>What a step returns: Go's \<open>any\<close>, one constructor for each type it can hold.\<close>

datatype stepOutput =
    OutAdvance AdvanceTimeResult | OutLoan Loan | OutReceipts "Receipt list" | OutTransaction Transaction

record StepResult =
  sr_Index :: int64
  sr_Type :: string
  sr_OK :: bool
  sr_Output :: "stepOutput option"
  sr_Error :: "err option"

record ScenarioSummary =
  ss_Steps :: int64
  ss_Succeeded :: int64
  ss_Failed :: int64
  ss_ClockBefore :: instant
  ss_ClockAfter :: instant

record ScenarioResult =
  sn_Name :: string
  sn_StartedAt :: instant
  sn_FinishedAt :: instant
  sn_Results :: "StepResult list"
  sn_Summary :: ScenarioSummary

text \<open>\<open>complain label b msg\<close> is \<open>if b { errs = append(errs, label + msg) }\<close>.\<close>

definition complain :: "string \<Rightarrow> bool \<Rightarrow> string \<Rightarrow> string list" where
  "complain label b msg = (if b then [label @ msg] else [])"

text \<open>The message for an unknown type repeats the type, quoted, after the label; that is left out here.\<close>

definition validateStep :: "nat \<Rightarrow> Step \<Rightarrow> string list" where
  "validateStep i st =
     (let label = ''step '' @ natStr i @ '' ('' @ sp_Type st @ '')'';
          t = sp_Type st
      in if t = StepAdvanceTime then complain label (sp_Days st \<le> 0) '': days must be a positive integer''
         else if t = StepRepay then
           complain label (sp_LoanID st = '''') '': loan_id is required'' @
           complain label (sp_Count st < 0) '': count must not be negative'' @
           complain label (sp_AmountCents st < 0) '': amount_cents must not be negative''
         else if t = StepMissPayment then complain label (sp_LoanID st = '''') '': loan_id is required''
         else if t = StepRandomPurchases then
           complain label (sp_AccountID st = '''') '': account_id is required'' @
           complain label (sp_Count st \<le> 0) '': count must be positive'' @
           complain label (sp_MinCents st \<le> 0) '': min_cents must be positive'' @
           complain label (sp_MaxCents st \<le> 0 \<or> sp_MaxCents st < sp_MinCents st) '': max_cents must be positive and >= min_cents''
         else if t = StepOriginate then complain label (sp_ApplicantID st = '''') '': applicant_id is required''
         else if t = StepDeposit then
           complain label (sp_AccountID st = '''') '': account_id is required'' @
           complain label (sp_Currency st = '''') '': currency is required'' @
           complain label (sp_Amount st = '''') '': amount is required''
         else if t = StepTriggerDefault then complain label (sp_LoanID st = '''') '': loan_id is required''
         else if t = '''' then [label @ '': type is required'']
         else [label @ '': unknown step type''])"

definition scenarioProblems :: "Scenario \<Rightarrow> string list" where
  "scenarioProblems sc =
     (if sc_Steps sc = [] then [''steps must contain at least one step''] else []) @
     concat (map (\<lambda>(i, st). validateStep i st) (enumerate 0 (sc_Steps sc)))"

definition validateScenario :: "Scenario \<Rightarrow> unit res" where
  "validateScenario sc =
     (if scenarioProblems sc \<noteq> [] then Inl (ESim (SimValidation (scenarioProblems sc))) else Inr ())"

text \<open>The rest of the repayments of a step, after the first.\<close>

fun repayMore :: "string \<Rightarrow> int64 \<Rightarrow> nat \<Rightarrow> Loan \<Rightarrow> ('z loanbook_scheme, Loan) oper" where
  "repayMore i amountCents 0 prev = returnE prev"
| "repayMore i amountCents (Suc n) prev = bindE (Repay i amountCents) (repayMore i amountCents n)"

definition repayTimes :: "string \<Rightarrow> int64 \<Rightarrow> int64 \<Rightarrow> ('z loanbook_scheme, Loan) oper" where
  "repayTimes i amountCents n = bindE (Repay i amountCents) (repayMore i amountCents (nat n - 1))"

definition bulkRequestOf :: "Step \<Rightarrow> BulkRequest" where
  "bulkRequestOf st =
     \<lparr>bq_AccountID = sp_AccountID st, bq_Count = sp_Count st, bq_MinCents = sp_MinCents st,
      bq_MaxCents = sp_MaxCents st, bq_Seed = sp_Seed st\<rparr>"

definition originateRequestOf :: "Step \<Rightarrow> OriginateRequest" where
  "originateRequestOf st =
     \<lparr>oq_ApplicantID = sp_ApplicantID st, oq_PrincipalCents = sp_PrincipalCents st, oq_TermMonths = sp_TermMonths st\<rparr>"

type_synonym randSource = "int64 \<Rightarrow> nat \<Rightarrow> int \<Rightarrow> int"

definition runStep :: "randSource \<Rightarrow> Step \<Rightarrow> ('z loanbook_scheme, stepOutput) oper" where
  "runStep newRand st =
     (let t = sp_Type st
      in if t = StepAdvanceTime then
           bindE (AdvanceTime \<lparr>at_Days = sp_Days st, at_To = ''''\<rparr>) (\<lambda>r. returnE (OutAdvance r))
         else if t = StepRepay then
           bindE (resolveLoanID (sp_LoanID st)) (\<lambda>loanID.
           bindE (repayTimes loanID (sp_AmountCents st) (if sp_Count st \<le> 0 then 1 else sp_Count st)) (\<lambda>l.
           returnE (OutLoan l)))
         else if t = StepMissPayment then
           bindE (resolveLoanID (sp_LoanID st)) (\<lambda>loanID. bindE (MissPayment loanID) (\<lambda>l. returnE (OutLoan l)))
         else if t = StepRandomPurchases then
           bindE (BulkRandomPurchases newRand (bulkRequestOf st)) (\<lambda>(receipts, e).
           case e of None \<Rightarrow> returnE (OutReceipts receipts) | Some err \<Rightarrow> throwE err)
         else if t = StepOriginate then
           bindE (Originate (originateRequestOf st)) (\<lambda>l. returnE (OutLoan l))
         else if t = StepDeposit then
           bindE (liftE (ParseAmount (sp_Currency st) (sp_Amount st))) (\<lambda>amt.
           bindE (Deposit (sp_AccountID st) amt) (\<lambda>tx. returnE (OutTransaction tx)))
         else if t = StepTriggerDefault then
           bindE (resolveLoanID (sp_LoanID st)) (\<lambda>loanID.
           bindE (TriggerDefault loanID (sp_Reason st)) (\<lambda>l. returnE (OutLoan l)))
         else throwE (ESim (UnknownStepType t)))"

definition stepResult :: "nat \<Rightarrow> Step \<Rightarrow> stepOutput res \<Rightarrow> StepResult" where
  "stepResult i st r =
     (case r of
        Inl e \<Rightarrow> \<lparr>sr_Index = int i, sr_Type = sp_Type st, sr_OK = False, sr_Output = None, sr_Error = Some e\<rparr>
      | Inr out \<Rightarrow> \<lparr>sr_Index = int i, sr_Type = sp_Type st, sr_OK = True, sr_Output = Some out, sr_Error = None\<rparr>)"

text \<open>The loop over the steps with the counts of those that succeeded and failed so far.\<close>

fun runSteps :: "randSource \<Rightarrow> nat \<Rightarrow> Step list \<Rightarrow> int \<Rightarrow> int \<Rightarrow> ('z loanbook_scheme, StepResult list \<times> int \<times> int) oper" where
  "runSteps newRand i [] succeeded failed = returnE ([], succeeded, failed)"
| "runSteps newRand i (st # rest) succeeded failed =
     bindE (attemptE (runStep newRand st)) (\<lambda>r.
     bindE (case r of
              Inl _ \<Rightarrow> runSteps newRand (i + 1) rest succeeded (failed + 1)
            | Inr _ \<Rightarrow> runSteps newRand (i + 1) rest (succeeded + 1) failed) (\<lambda>(results, ok, bad).
     returnE (stepResult i st r # results, ok, bad)))"

definition RunScenario :: "randSource \<Rightarrow> Scenario \<Rightarrow> ('z loanbook_scheme, ScenarioResult) oper" where
  "RunScenario newRand sc =
     bindE (liftE (validateScenario sc)) (\<lambda>_.
     bindE Now (\<lambda>startedAt.
     bindE (runSteps newRand 0 (sc_Steps sc) 0 0) (\<lambda>(results, succeeded, failed).
     bindE Now (\<lambda>finishedAt.
     returnE \<lparr>sn_Name = sc_Name sc, sn_StartedAt = startedAt, sn_FinishedAt = finishedAt, sn_Results = results,
       sn_Summary = \<lparr>ss_Steps = int (length (sc_Steps sc)), ss_Succeeded = succeeded, ss_Failed = failed,
         ss_ClockBefore = startedAt, ss_ClockAfter = finishedAt\<rparr>\<rparr>))))"

section \<open>Presets\<close>

record Preset =
  ps_Name :: string
  ps_Description :: string
  ps_Scenario :: Scenario

definition step0 :: Step where
  "step0 =
     \<lparr>sp_Type = '''', sp_Days = 0, sp_LoanID = '''', sp_Count = 0, sp_AmountCents = 0, sp_AccountID = '''',
      sp_MinCents = 0, sp_MaxCents = 0, sp_Seed = 0, sp_ApplicantID = '''', sp_PrincipalCents = 0,
      sp_TermMonths = 0, sp_Currency = '''', sp_Amount = '''', sp_Reason = ''''\<rparr>"

definition advanceStep :: "int64 \<Rightarrow> Step" where
  "advanceStep days = step0\<lparr>sp_Type := StepAdvanceTime, sp_Days := days\<rparr>"

definition missStep :: Step where
  "missStep = step0\<lparr>sp_Type := StepMissPayment, sp_LoanID := firstLoanPlaceholder\<rparr>"

definition Presets :: "Preset list" where
  "Presets =
     [\<lparr>ps_Name = ''month-of-activity'',
       ps_Description = ''Advance a month, make the seeded loan'' @ [CHR 0x27] @ ''s next payment, and run a light month of card activity.'',
       ps_Scenario = \<lparr>sc_Name = ''month-of-activity'', sc_Steps =
         [advanceStep 31,
          step0\<lparr>sp_Type := StepRepay, sp_LoanID := firstLoanPlaceholder, sp_Count := 1\<rparr>,
          step0\<lparr>sp_Type := StepRandomPurchases, sp_AccountID := DemoAccountID, sp_Count := 8,
                sp_MinCents := 500, sp_MaxCents := 9000\<rparr>]\<rparr>\<rparr>,
      \<lparr>ps_Name = ''stress-defaults'',
       ps_Description = ''Originate a new loan, then miss three consecutive installments so the loan_servicing rule triggers an automatic default.'',
       ps_Scenario = \<lparr>sc_Name = ''stress-defaults'', sc_Steps =
         [step0\<lparr>sp_Type := StepOriginate, sp_ApplicantID := ''demo-applicant-1'', sp_PrincipalCents := 800000,
                sp_TermMonths := 36\<rparr>,
          advanceStep 40, missStep, advanceStep 31, missStep, advanceStep 31, missStep]\<rparr>\<rparr>,
      \<lparr>ps_Name = ''stablecoin-drain'',
       ps_Description = ''Run enough large purchases against demo-account-1 to exhaust its USD balance so the spend_waterfall rule starts funding from USDC.'',
       ps_Scenario = \<lparr>sc_Name = ''stablecoin-drain'', sc_Steps =
         [step0\<lparr>sp_Type := StepRandomPurchases, sp_AccountID := DemoAccountID, sp_Count := 10,
                sp_MinCents := 10000, sp_MaxCents := 40000, sp_Seed := 99\<rparr>]\<rparr>\<rparr>]"

end
