(* ===== verification/Dash_Evaluators.thy ===== *)
theory Dash_Evaluators
  imports Go_Decimal Loan_Forecast
begin

text \<open>
  \<open>dashboard/numeric.go\<close> and \<open>dashboard/evaluators.go\<close>: exact percentages of amounts, and the three
  evaluators behind the dashboard (status of the ratios, risk weights, liquidity stress).
\<close>

section \<open>Numbers\<close>

text \<open>
  \<open>toRat\<close> reads a \<open>float64\<close> through its shortest decimal, so that a number written with a few
  decimals in a rule means that decimal. The values a rule or an input holds are those of \<open>gval\<close>.
\<close>

fun toRat :: "gval \<Rightarrow> rat res" where
  "toRat (GFloat (Fin r)) = Inr (shortestDec r)"
| "toRat (GFloat _) = Inl (EDash NotRational)"
| "toRat (GInt n) = Inr (of_int n)"
| "toRat (GInt64 n) = Inr (of_int n)"
| "toRat (GStr t) = ofOption (EDash (BadNumericString t)) (SetString (TrimSpace t))"
| "toRat GNil = Inl (EDash MissingNumeric)"
| "toRat _ = Inl (EDash NotConvertible)"

definition requireRat :: "gmap \<Rightarrow> string \<Rightarrow> rat res" where
  "requireRat m key =
     bindR (ofOption (EDash (DashMissing key)) (map_of m key)) (\<lambda>v. ctxR (''dashboard: field '' @ key) (toRat v))"

definition requireString :: "gmap \<Rightarrow> string \<Rightarrow> string res" where
  "requireString m key =
     bindR (ofOption (EDash (DashMissing key)) (map_of m key)) (\<lambda>v. ofOption (EDash (DashNotString key)) (asStr v))"

text \<open>Half away from zero; the quotient is taken to 64 bits as it is, then negated.\<close>

definition roundHalfUp :: "rat \<Rightarrow> int64" where
  "roundHalfUp r =
     (let n = \<bar>fst (quotient_of r)\<bar>;
          d = \<bar>snd (quotient_of r)\<bar>;
          q = (if d \<le> 2 * (n mod d) then n div d + 1 else n div d);
          v = wrap64 q
      in if r < 0 then wrap64 (- v) else v)"

definition pctOf :: "int64 \<Rightarrow> rat \<Rightarrow> int64" where
  "pctOf amountMinor pct = roundHalfUp (of_int amountMinor * pct / 100)"

definition ratioPct :: "int64 \<Rightarrow> int64 \<Rightarrow> rat" where
  "ratioPct numMinor denMinor = of_int numMinor / of_int denMinor * 100"

text \<open>\<open>ParseFloat\<close> of the decimal text; a value out of range is an error there and 0 here.\<close>

definition ratToFloatDP :: "rat \<Rightarrow> nat \<Rightarrow> float64" where
  "ratToFloatDP r dp = (case fl64 (decimalPlaces dp r) of Fin y \<Rightarrow> Fin y | _ \<Rightarrow> Fin 0)"

section \<open>Evaluators\<close>

text \<open>The rows of the table \<open>checks\<close>: input key, target key, output key, whether it is a minimum.\<close>

definition thresholdChecks :: "(string \<times> string \<times> string \<times> bool) list" where
  "thresholdChecks =
     [(''lcr_pct'', ''lcr_minimum_pct'', ''lcr'', True),
      (''nsfr_pct'', ''nsfr_minimum_pct'', ''nsfr'', True),
      (''capital_adequacy_pct'', ''capital_adequacy_minimum_pct'', ''capital_adequacy'', True),
      (''loan_to_deposit_pct'', ''loan_to_deposit_maximum_pct'', ''loan_to_deposit'', False)]"

definition thresholdStatus :: "bool \<Rightarrow> rat \<Rightarrow> rat \<Rightarrow> string" where
  "thresholdStatus minimum val target =
     (if minimum then (if target \<le> val then ''ok'' else ''below_target'')
      else (if val \<le> target then ''ok'' else ''above_maximum''))"

definition thresholdCheck :: "gmap \<Rightarrow> gmap \<Rightarrow> string \<times> string \<times> string \<times> bool \<Rightarrow> (string \<times> gval) res" where
  "thresholdCheck targets input c =
     (case c of (inputKey, targetKey, outputKey, minimum) \<Rightarrow>
        bindR (requireRat input inputKey) (\<lambda>val.
        bindR (ctxR (''dashboard: dashboard_thresholds targets.'' @ targetKey) (requireRat targets targetKey)) (\<lambda>target.
        Inr (outputKey, GStr (thresholdStatus minimum val target)))))"

definition EvaluateThresholds :: Evaluator where
  "EvaluateThresholds content input =
     bindR (ofOption (EDash MissingTargets) (asMap (gget content ''targets''))) (\<lambda>targets.
     mapR (thresholdCheck targets input) thresholdChecks)"

definition riskWeight :: "gmap \<Rightarrow> string \<Rightarrow> string \<Rightarrow> rat res" where
  "riskWeight content tier status =
     (if status = ''defaulted'' then ctxR ''dashboard: risk_weights defaulted_weight_pct'' (requireRat content ''defaulted_weight_pct'')
      else case map_of (case asMap (gget content ''weights_by_tier_pct'') of Some m \<Rightarrow> m | None \<Rightarrow> []) tier of
        Some v \<Rightarrow> ctxR (''dashboard: risk_weights weights_by_tier_pct.'' @ tier) (toRat v)
      | None \<Rightarrow> ctxR ''dashboard: risk_weights default_weight_pct'' (requireRat content ''default_weight_pct''))"

definition EvaluateRiskWeights :: Evaluator where
  "EvaluateRiskWeights content input =
     bindR (requireString input ''tier'') (\<lambda>tier.
     bindR (requireString input ''status'') (\<lambda>status.
     bindR (requireRat input ''ead_cents'') (\<lambda>ead.
     bindR (riskWeight content tier status) (\<lambda>weight.
     Inr [(''risk_weight_pct'', GFloat (ratToFloatDP weight 4)),
          (''rwa_cents'', GInt64 (roundHalfUp (ead * weight / 100)))]))))"

definition EvaluateLiquidityStress :: Evaluator where
  "EvaluateLiquidityStress content input =
     bindR (requireRat input ''hqla_cents'') (\<lambda>hqla.
     bindR (requireRat input ''deposits_cents'') (\<lambda>deposits.
     bindR (ctxR ''dashboard: liquidity_stress deposit_runoff_pct'' (requireRat content ''deposit_runoff_pct'')) (\<lambda>runoff.
     (let netOutflowsCents = roundHalfUp (deposits * runoff / 100)
      in if netOutflowsCents = 0
         then Inr [(''net_outflows_cents'', GInt64 netOutflowsCents), (''lcr_pct'', GFloat (Fin 0)),
                   (''note'', GStr ''no_outflows'')]
         else Inr [(''net_outflows_cents'', GInt64 netOutflowsCents),
                   (''lcr_pct'', GFloat (ratToFloatDP (hqla / of_int netOutflowsCents * 100) 2))]))))"

end
