(* ===== verification/Dash_Service.thy ===== *)
theory Dash_Service
  imports Dash_Evaluators
begin

text \<open>
  \<open>dashboard/metrics.go\<close> and \<open>dashboard/service.go\<close>: the ledger book, the flows of a period, the
  four ratios with their statuses, and the summary of all three. The service has no state of its
  own: it reads the ledger, the loan book and the clock, and has the rules engine decide.
\<close>

section \<open>Figures\<close>

record AccountBalance =
  ab_AccountID :: string
  ab_Type :: string
  ab_Currency :: string
  ab_Minor :: int64
  ab_Display :: string

record TreasuryFXExposure =
  fe_Currency :: string
  fe_Minor :: int64
  fe_UsdEquivalentCents :: int64

record LedgerTotals =
  lt_TotalFiatCents :: int64
  lt_TotalUsdcMicro :: int64
  lt_TotalUsdcUsdEquivalentCents :: int64

record LedgerBookView =
  bk_AsOf :: instant
  bk_Accounts :: "AccountBalance list"
  bk_ByType :: "(string \<times> (string \<times> int64) list) list"
  bk_Totals :: LedgerTotals
  bk_TreasuryFX :: "TreasuryFXExposure list"

record FlowBreakdown =
  fb_Kind :: string
  fb_UsdEquivalentCents :: int64
  fb_Count :: int64

record DailyFlow =
  df_Date :: string
  df_InflowsCents :: int64
  df_OutflowsCents :: int64

record FlowsView =
  fl_From :: instant
  fl_To :: instant
  fl_InflowsCents :: int64
  fl_OutflowsCents :: int64
  fl_NetCents :: int64
  fl_ByKind :: "FlowBreakdown list"
  fl_Daily :: "DailyFlow list"

record Metric =
  me_ValuePct :: float64
  me_NumeratorCents :: int64
  me_DenominatorCents :: int64
  me_Status :: string
  me_TargetPct :: float64
  me_Disclaimer :: string
  me_ModeledOn :: string
  me_Components :: gmap
  me_RuleApplicationID :: string

record RatiosView =
  ra_AsOf :: instant
  ra_LoanToDeposit :: Metric
  ra_LCR :: Metric
  ra_NSFR :: Metric
  ra_CapitalAdequacy :: Metric
  ra_ThresholdRuleID :: string
  ra_ThresholdVersion :: int64

record SummaryView =
  su_AsOf :: instant
  su_LedgerBook :: LedgerBookView
  su_Flows :: FlowsView
  su_Ratios :: RatiosView

text \<open>The dash of the disclaimer is three bytes.\<close>

definition disclaimer :: string where
  "disclaimer = ''Illustrative / PoC '' @ [CHR 0xE2, CHR 0x80, CHR 0x94] @ '' not a certified regulatory figure''"

definition modeledOnLiquidity :: string where "modeledOnLiquidity = ''APRA APS 210 (Liquidity)''"
definition modeledOnCapital :: string where "modeledOnCapital = ''APRA APS 110 (Capital Adequacy)''"
definition modeledOnInternal :: string where "modeledOnInternal = ''internal ratio''"

section \<open>The ledger book\<close>

type_synonym byType = "(string \<times> (string \<times> int64) list) list"

text \<open>\<open>byType[t][cur]\<close>, zero when either key is missing.\<close>

definition heldIn :: "byType \<Rightarrow> string \<Rightarrow> string \<Rightarrow> int64" where
  "heldIn bt t cur = getOr 0 (getOr [] bt t) cur"

definition sumAcrossTypes :: "byType \<Rightarrow> string \<Rightarrow> string list \<Rightarrow> int64" where
  "sumAcrossTypes bt currency types = fold (\<lambda>t acc. wrap64 (acc + heldIn bt t currency)) types 0"

definition toUSD :: "'z ledger_scheme \<Rightarrow> string \<Rightarrow> int64 \<Rightarrow> int64 res" where
  "toUSD s currency minor =
     (if currency = ''USD'' then Inr minor
      else if minor = 0 then Inr 0
      else bindR (ctxR (''dashboard: quoting '' @ currency @ ''->USD'') (Quote s currency ''USD'' minor))
             (\<lambda>q. Inr (am_Minor (fq_To q))))"

text \<open>
  The loops over \<open>byType[t]\<close>: Go visits the currencies in an unspecified order, which changes
  neither the sum nor, with the two currencies the bank has, the error.
\<close>

fun usdLoop :: "'z ledger_scheme \<Rightarrow> (string \<Rightarrow> int64 \<Rightarrow> int64) \<Rightarrow> (string \<times> int64) list \<Rightarrow> int64 \<Rightarrow> int64 res" where
  "usdLoop s net [] acc = Inr acc"
| "usdLoop s net ((cur, minor) # rest) acc =
     bindR (toUSD s cur (net cur minor)) (\<lambda>usd. usdLoop s net rest (wrap64 (acc + usd)))"

definition usdEquivalentBalance :: "'z ledger_scheme \<Rightarrow> byType \<Rightarrow> string \<Rightarrow> int64 res" where
  "usdEquivalentBalance s bt t = usdLoop s (\<lambda>cur minor. minor) (getOr [] bt t) 0"

definition accountRow :: "(string \<times> Amount) list \<Rightarrow> Account \<Rightarrow> AccountBalance" where
  "accountRow balances a =
     (let bal = getOr (mkAmount '''' 0) balances (ac_ID a)
      in \<lparr>ab_AccountID = ac_ID a, ab_Type = ac_Type a, ab_Currency = ac_Currency a,
          ab_Minor = am_Minor bal, ab_Display = Display bal\<rparr>)"

definition fxExposure :: "'z ledger_scheme \<Rightarrow> byType \<Rightarrow> string \<Rightarrow> TreasuryFXExposure res" where
  "fxExposure s bt cur =
     (let minor = heldIn bt TreasuryFX cur
      in bindR (toUSD s cur minor) (\<lambda>usd.
         Inr \<lparr>fe_Currency = cur, fe_Minor = minor, fe_UsdEquivalentCents = usd\<rparr>))"

definition bankTypes :: "string list" where
  "bankTypes = [CustomerDeposit, TreasuryCash, TreasuryFX]"

definition LedgerBook :: "('z ledger_scheme, LedgerBookView) oper" where
  "LedgerBook =
     bindE (ctxE ''dashboard: listing accounts'' ListAccounts) (\<lambda>accounts.
     bindE (ctxE ''dashboard: loading balances'' Balances) (\<lambda>balances.
     bindE (ctxE ''dashboard: loading balances by type'' BalancesByType) (\<lambda>bt.
     bindE Now (\<lambda>t.
     (let rows = sort_key ab_AccountID (map (accountRow balances) accounts);
          usdcMicro = sumAcrossTypes bt ''USDC'' bankTypes
      in bindE (getE (\<lambda>s. toUSD s ''USDC'' usdcMicro)) (\<lambda>r.
         bindE (liftE r) (\<lambda>usdcUsdEquiv.
         bindE (getE (\<lambda>s. mapR (fxExposure s bt) [''USD'', ''USDC''])) (\<lambda>r'.
         bindE (liftE r') (\<lambda>exposures.
         returnE \<lparr>bk_AsOf = t, bk_Accounts = rows, bk_ByType = bt,
           bk_Totals = \<lparr>lt_TotalFiatCents = sumAcrossTypes bt ''USD'' bankTypes,
             lt_TotalUsdcMicro = usdcMicro, lt_TotalUsdcUsdEquivalentCents = usdcUsdEquiv\<rparr>,
           bk_TreasuryFX = exposures\<rparr>)))))))))"

section \<open>Flows\<close>

definition inflowKinds :: "string list" where "inflowKinds = [''deposit'', ''loan.repayment'']"
definition outflowKinds :: "string list" where
  "outflowKinds = [''withdrawal'', ''loan.disbursement'', ''purchase'']"

definition txPrincipal :: "Transaction \<Rightarrow> int64" where
  "txPrincipal tx =
     fold (\<lambda>e acc. if et_Direction e = Debit then wrap64 (acc + am_Minor (et_Amount e)) else acc) (tx_Entries tx) 0"

text \<open>\<open>t.UTC().Format("2006-01-02")\<close>.\<close>

definition formatDay :: "instant \<Rightarrow> string" where
  "formatDay t =
     (case civilFromDays (t div nanosPerDay) of (y, m, d) \<Rightarrow> padLeft 4 y @ ''-'' @ padLeft 2 m @ ''-'' @ padLeft 2 d)"

text \<open>What the loop of \<open>Flows\<close> accumulates: the totals and the two indexes by kind and by day.\<close>

record flowAcc =
  fa_In :: int64
  fa_Out :: int64
  fa_Kinds :: "(string \<times> FlowBreakdown) list"
  fa_Days :: "(string \<times> DailyFlow) list"

definition addFlow :: "Transaction \<Rightarrow> int64 \<Rightarrow> flowAcc \<Rightarrow> flowAcc" where
  "addFlow tx usdCents acc =
     (let isIn = (tx_Kind tx \<in> set inflowKinds);
          k = tx_Kind tx;
          day = formatDay (tx_OccurredAt tx);
          bd = getOr \<lparr>fb_Kind = k, fb_UsdEquivalentCents = 0, fb_Count = 0\<rparr> (fa_Kinds acc) k;
          d = getOr \<lparr>df_Date = day, df_InflowsCents = 0, df_OutflowsCents = 0\<rparr> (fa_Days acc) day;
          bd' = bd\<lparr>fb_UsdEquivalentCents := wrap64 (fb_UsdEquivalentCents bd + usdCents),
                   fb_Count := wrap64 (fb_Count bd + 1)\<rparr>;
          d' = (if isIn then d\<lparr>df_InflowsCents := wrap64 (df_InflowsCents d + usdCents)\<rparr>
                else d\<lparr>df_OutflowsCents := wrap64 (df_OutflowsCents d + usdCents)\<rparr>)
      in \<lparr>fa_In = (if isIn then wrap64 (fa_In acc + usdCents) else fa_In acc),
          fa_Out = (if isIn then fa_Out acc else wrap64 (fa_Out acc + usdCents)),
          fa_Kinds = AList.update k bd' (fa_Kinds acc), fa_Days = AList.update day d' (fa_Days acc)\<rparr>)"

fun flowLoop :: "'z ledger_scheme \<Rightarrow> instant \<Rightarrow> Transaction list \<Rightarrow> flowAcc \<Rightarrow> flowAcc res" where
  "flowLoop s to [] acc = Inr acc"
| "flowLoop s to (tx # txs) acc =
     (if \<not> tx_OccurredAt tx < to then flowLoop s to txs acc
      else if tx_Kind tx \<notin> set inflowKinds \<and> tx_Kind tx \<notin> set outflowKinds then flowLoop s to txs acc
      else bindR (toUSD s (tx_Currency tx) (txPrincipal tx)) (\<lambda>usdCents. flowLoop s to txs (addFlow tx usdCents acc)))"

definition Flows :: "instant \<Rightarrow> instant \<Rightarrow> ('z ledger_scheme, FlowsView) oper" where
  "Flows frm to =
     bindE (ctxE ''dashboard: listing transactions''
       (ListTransactions \<lparr>tf_AccountID = '''', tf_Kind = '''', tf_From = frm, tf_To = zeroTime, tf_Status = ''''\<rparr>)) (\<lambda>txs.
     bindE (getE (\<lambda>s. flowLoop s to txs \<lparr>fa_In = 0, fa_Out = 0, fa_Kinds = [], fa_Days = []\<rparr>)) (\<lambda>r.
     bindE (liftE r) (\<lambda>acc.
     returnE \<lparr>fl_From = frm, fl_To = to, fl_InflowsCents = fa_In acc, fl_OutflowsCents = fa_Out acc,
       fl_NetCents = wrap64 (fa_In acc - fa_Out acc),
       fl_ByKind = map snd (sort_key fst (fa_Kinds acc)), fl_Daily = map snd (sort_key fst (fa_Days acc))\<rparr>)))"

section \<open>Ratios\<close>

definition snapshotID :: "instant \<Rightarrow> string" where
  "snapshotID t = ''snapshot-'' @ FormatInt (t div 1000000000)"

definition computeRatio :: "int64 \<Rightarrow> int64 \<Rightarrow> float64 \<times> bool" where
  "computeRatio numCents denCents =
     (if denCents = 0 then (Fin 0, True) else (ratToFloatDP (ratioPct numCents denCents) 2, False))"

text \<open>\<open>m, _ := v.(map[string]any)\<close>: the nil map when it is not one.\<close>

definition mapOr :: "gval \<Rightarrow> gmap" where
  "mapOr v = (case asMap v of Some m \<Rightarrow> m | None \<Rightarrow> [])"

definition factorPct :: "gmap \<Rightarrow> string \<Rightarrow> rat" where
  "factorPct m key =
     (case map_of m key of
        None \<Rightarrow> 0
      | Some v \<Rightarrow> (case toRat v of Inl _ \<Rightarrow> 0 | Inr r \<Rightarrow> r))"

fun int64FromAny :: "gval \<Rightarrow> int64" where
  "int64FromAny (GInt64 n) = n"
| "int64FromAny (GInt n) = n"
| "int64FromAny (GFloat f) = float_to_int64 f"
| "int64FromAny _ = 0"

fun float64FromAny :: "gval \<Rightarrow> float64" where
  "float64FromAny (GFloat f) = f"
| "float64FromAny (GInt64 n) = floatOfInt n"
| "float64FromAny (GInt n) = floatOfInt n"
| "float64FromAny _ = Fin 0"

definition hqlaCents :: "'z ledger_scheme \<Rightarrow> byType \<Rightarrow> gmap \<Rightarrow> int64 res" where
  "hqlaCents s bt haircuts =
     usdLoop s (\<lambda>cur minor. wrap64 (minor - pctOf minor (factorPct haircuts cur))) (getOr [] bt TreasuryCash) 0"

text \<open>The amounts the ratios are made of, in cents.\<close>

record figures =
  fg_deposits :: int64
  fg_loans :: int64
  fg_treasuryCash :: int64
  fg_treasuryFX :: int64
  fg_equity :: int64
  fg_interestIncome :: int64
  fg_feeIncome :: int64
  fg_loanLossExpense :: int64

definition figuresOf :: "'z ledger_scheme \<Rightarrow> byType \<Rightarrow> figures res" where
  "figuresOf s bt =
     bindR (usdEquivalentBalance s bt CustomerDeposit) (\<lambda>deposits.
     bindR (usdEquivalentBalance s bt LoanReceivable) (\<lambda>loans.
     bindR (usdEquivalentBalance s bt TreasuryCash) (\<lambda>cash.
     bindR (usdEquivalentBalance s bt TreasuryFX) (\<lambda>fx.
     Inr \<lparr>fg_deposits = deposits, fg_loans = loans, fg_treasuryCash = cash, fg_treasuryFX = fx,
          fg_equity = heldIn bt EquityCapital ''USD'', fg_interestIncome = heldIn bt InterestIncome ''USD'',
          fg_feeIncome = heldIn bt FeeIncome ''USD'', fg_loanLossExpense = heldIn bt LoanLossExpense ''USD''\<rparr>))))"

definition asfCents :: "figures \<Rightarrow> gmap \<Rightarrow> int64" where
  "asfCents f factors =
     wrap64 (pctOf (fg_deposits f) (factorPct factors ''customer_deposit'') +
             pctOf (fg_equity f) (factorPct factors ''equity_capital''))"

definition rsfCents :: "figures \<Rightarrow> gmap \<Rightarrow> int64" where
  "rsfCents f factors =
     wrap64 (wrap64 (pctOf (fg_loans f) (factorPct factors ''loan_receivable'') +
                     pctOf (fg_treasuryCash f) (factorPct factors ''treasury_cash'')) +
             pctOf (fg_treasuryFX f) (factorPct factors ''treasury_fx''))"

definition capitalCents :: "figures \<Rightarrow> int64" where
  "capitalCents f =
     wrap64 (wrap64 (wrap64 (fg_equity f + fg_interestIncome f) + fg_feeIncome f) - fg_loanLossExpense f)"

fun rwaLoop :: "LoanExposure list \<Rightarrow> int64 \<Rightarrow> ('z loanbook_scheme, int64) oper" where
  "rwaLoop [] acc = returnE acc"
| "rwaLoop (ex # rest) acc =
     (if le_OutstandingPrincipalCents ex \<le> 0 then rwaLoop rest acc
      else bindE (ctxE (''dashboard: evaluating risk_weights for loan '' @ le_LoanID ex)
             (Evaluate ''risk_weights'' ''loan'' (le_LoanID ex)
                [(''tier'', GStr (le_Tier ex)), (''status'', GStr (le_Status ex)),
                 (''ead_cents'', GInt64 (le_OutstandingPrincipalCents ex))])) (\<lambda>d.
           rwaLoop rest (wrap64 (acc + int64FromAny (gget (de_Output d) ''rwa_cents'')))))"

definition statusFor :: "Decision \<Rightarrow> string \<Rightarrow> bool \<Rightarrow> string" where
  "statusFor d key zeroDenominator = (if zeroDenominator then ''n/a'' else strOr (gget (de_Output d) key))"

definition noteIf :: "bool \<Rightarrow> gmap" where
  "noteIf b = (if b then [(''note'', GStr ''zero_denominator'')] else [])"

definition ltdMetric :: "figures \<Rightarrow> gmap \<Rightarrow> Decision \<Rightarrow> Metric" where
  "ltdMetric f targets d =
     (let r = computeRatio (fg_loans f) (fg_deposits f)
      in \<lparr>me_ValuePct = fst r, me_NumeratorCents = fg_loans f, me_DenominatorCents = fg_deposits f,
          me_Status = statusFor d ''loan_to_deposit'' (snd r),
          me_TargetPct = float64FromAny (gget targets ''loan_to_deposit_maximum_pct''),
          me_Disclaimer = disclaimer, me_ModeledOn = modeledOnInternal,
          me_Components = [(''loans_cents'', GInt64 (fg_loans f)), (''deposits_cents'', GInt64 (fg_deposits f))] @ noteIf (snd r),
          me_RuleApplicationID = de_ApplicationID d\<rparr>)"

definition lcrMetric :: "figures \<Rightarrow> int64 \<Rightarrow> gmap \<Rightarrow> Decision \<Rightarrow> Decision \<Rightarrow> Metric" where
  "lcrMetric f hqla targets lcrD d =
     (let net = int64FromAny (gget (de_Output lcrD) ''net_outflows_cents'')
      in \<lparr>me_ValuePct = float64FromAny (gget (de_Output lcrD) ''lcr_pct''), me_NumeratorCents = hqla,
          me_DenominatorCents = net, me_Status = statusFor d ''lcr'' (net = 0),
          me_TargetPct = float64FromAny (gget targets ''lcr_minimum_pct''),
          me_Disclaimer = disclaimer, me_ModeledOn = modeledOnLiquidity,
          me_Components = [(''hqla_cents'', GInt64 hqla), (''net_outflows_cents'', GInt64 net),
            (''deposits_cents'', GInt64 (fg_deposits f))] @
            (case map_of (de_Output lcrD) ''note'' of Some note \<Rightarrow> [(''note'', note)] | None \<Rightarrow> noteIf (net = 0)),
          me_RuleApplicationID = de_ApplicationID lcrD\<rparr>)"

definition nsfrMetric :: "figures \<Rightarrow> int64 \<Rightarrow> int64 \<Rightarrow> gmap \<Rightarrow> Decision \<Rightarrow> Metric" where
  "nsfrMetric f asf rsf targets d =
     (let r = computeRatio asf rsf
      in \<lparr>me_ValuePct = fst r, me_NumeratorCents = asf, me_DenominatorCents = rsf,
          me_Status = statusFor d ''nsfr'' (snd r), me_TargetPct = float64FromAny (gget targets ''nsfr_minimum_pct''),
          me_Disclaimer = disclaimer, me_ModeledOn = modeledOnLiquidity,
          me_Components = [(''asf_cents'', GInt64 asf), (''rsf_cents'', GInt64 rsf), (''deposits_cents'', GInt64 (fg_deposits f)),
            (''equity_cents'', GInt64 (fg_equity f)), (''loans_cents'', GInt64 (fg_loans f)),
            (''treasury_cash_cents'', GInt64 (fg_treasuryCash f)), (''treasury_fx_cents'', GInt64 (fg_treasuryFX f))] @ noteIf (snd r),
          me_RuleApplicationID = de_ApplicationID d\<rparr>)"

definition carMetric :: "figures \<Rightarrow> int64 \<Rightarrow> gmap \<Rightarrow> Decision \<Rightarrow> Metric" where
  "carMetric f rwa targets d =
     (let r = computeRatio (capitalCents f) rwa
      in \<lparr>me_ValuePct = fst r, me_NumeratorCents = capitalCents f, me_DenominatorCents = rwa,
          me_Status = statusFor d ''capital_adequacy'' (snd r),
          me_TargetPct = float64FromAny (gget targets ''capital_adequacy_minimum_pct''),
          me_Disclaimer = disclaimer, me_ModeledOn = modeledOnCapital,
          me_Components = [(''capital_cents'', GInt64 (capitalCents f)), (''rwa_cents'', GInt64 rwa),
            (''equity_cents'', GInt64 (fg_equity f)), (''interest_income_cents'', GInt64 (fg_interestIncome f)),
            (''fee_income_cents'', GInt64 (fg_feeIncome f)), (''loan_loss_expense_cents'', GInt64 (fg_loanLossExpense f))] @
            noteIf (snd r),
          me_RuleApplicationID = de_ApplicationID d\<rparr>)"

definition thresholdInput :: "figures \<Rightarrow> Decision \<Rightarrow> int64 \<Rightarrow> int64 \<Rightarrow> int64 \<Rightarrow> gmap" where
  "thresholdInput f lcrD asf rsf rwa =
     [(''lcr_pct'', GFloat (float64FromAny (gget (de_Output lcrD) ''lcr_pct''))),
      (''nsfr_pct'', GFloat (fst (computeRatio asf rsf))),
      (''capital_adequacy_pct'', GFloat (fst (computeRatio (capitalCents f) rwa))),
      (''loan_to_deposit_pct'', GFloat (fst (computeRatio (fg_loans f) (fg_deposits f))))]"

definition Ratios :: "('z loanbook_scheme, RatiosView) oper" where
  "Ratios =
     bindE Now (\<lambda>t.
     bindE (ctxE ''dashboard: loading balances by type'' BalancesByType) (\<lambda>bt.
     bindE (getE (\<lambda>s. figuresOf s bt)) (\<lambda>r0.
     bindE (liftE r0) (\<lambda>f.
     bindE (getE (\<lambda>s. ctxR ''dashboard: loading dashboard_thresholds'' (GetRule s ''dashboard_thresholds''))) (\<lambda>r1.
     bindE (liftE r1) (\<lambda>thresholdsRule.
     bindE (getE (\<lambda>s. ctxR ''dashboard: loading liquidity_stress'' (GetRule s ''liquidity_stress''))) (\<lambda>r2.
     bindE (liftE r2) (\<lambda>liqRule.
     bindE (getE (\<lambda>s. hqlaCents s bt (mapOr (gget (ru_Content liqRule) ''hqla_haircut_pct'')))) (\<lambda>r3.
     bindE (liftE r3) (\<lambda>hqla.
     bindE (ctxE ''dashboard: evaluating liquidity_stress'' (Evaluate ''liquidity_stress'' ''dashboard'' (snapshotID t)
        [(''hqla_cents'', GInt64 hqla), (''deposits_cents'', GInt64 (fg_deposits f))])) (\<lambda>lcrD.
     (let targets = mapOr (gget (ru_Content thresholdsRule) ''targets'');
          nsfr = mapOr (gget (ru_Content liqRule) ''nsfr'');
          asf = asfCents f (mapOr (gget nsfr ''asf_factors_pct''));
          rsf = rsfCents f (mapOr (gget nsfr ''rsf_factors_pct''))
      in bindE (ctxE ''dashboard: portfolio snapshot'' PortfolioSnapshot) (\<lambda>exposures.
         bindE (rwaLoop exposures 0) (\<lambda>rwa.
         bindE (ctxE ''dashboard: evaluating dashboard_thresholds'' (Evaluate ''dashboard_thresholds'' ''dashboard''
            (snapshotID t) (thresholdInput f lcrD asf rsf rwa))) (\<lambda>d.
         returnE \<lparr>ra_AsOf = t, ra_LoanToDeposit = ltdMetric f targets d, ra_LCR = lcrMetric f hqla targets lcrD d,
           ra_NSFR = nsfrMetric f asf rsf targets d, ra_CapitalAdequacy = carMetric f rwa targets d,
           ra_ThresholdRuleID = de_RuleID d, ra_ThresholdVersion = de_Version d\<rparr>)))))))))))))))"

definition DashboardSummary :: "('z loanbook_scheme, SummaryView) oper" where
  "DashboardSummary =
     bindE LedgerBook (\<lambda>book.
     bindE Now (\<lambda>t.
     bindE (Flows (addDays t (- 30)) t) (\<lambda>flows.
     bindE Ratios (\<lambda>ratios.
     returnE \<lparr>su_AsOf = t, su_LedgerBook = book, su_Flows = flows, su_Ratios = ratios\<rparr>))))"

end
