(* ===== verification/Http_Bank.thy ===== *)
theory Http_Bank
  imports Http_Core Sim_Scenario Dash_Service
begin

text \<open>
  The handlers of \<open>ledger/http.go\<close>, \<open>account/http.go\<close>, \<open>loan/http.go\<close>, \<open>simulate/http.go\<close> and
  \<open>dashboard/http.go\<close>: for each package its table of routes, the structs its requests are decoded
  into, the status its errors are mapped to and one definition per handler.
\<close>

text \<open>What the handlers write, one constructor per type.\<close>

datatype bankValue =
    VAccounts "Account list" | VAccount Account | VAmount Amount | VTransactions "Transaction list"
  | VTransaction Transaction | VBalances "(string \<times> Amount) list" | VQuote FXQuote
  | VCurrencies "(string \<times> Currency) list"
  | VReceipt Receipt | VReceipts "Receipt list" | VViews "View list" | VView View
  | VUnderwriting UnderwriteResult | VLoan Loan | VLoans "Loan list" | VApplicants "Applicant list"
  | VSchedule "Installment list" | VWhatIf WhatIfResult | VBankForecast BankForecast
  | VCustomerForecast CustomerForecast
  | VAdvance AdvanceTimeResult | VScenario ScenarioResult | VClock ClockView | VPresets "Preset list"
  | VSummary SummaryView | VLedgerBook LedgerBookView | VFlows FlowsView | VRatios RatiosView

section \<open>Ledger\<close>

datatype ledgerEndpoint =
    LedgerListAccounts | LedgerGetAccount | LedgerGetBalance | LedgerListTransactions | LedgerGetTransaction
  | LedgerSettle | LedgerFinalize | LedgerBalances | LedgerFXQuote | LedgerCurrencies

definition ledgerRoutes :: "(string \<times> ledgerEndpoint) list" where
  "ledgerRoutes =
     [(''GET /ledger/accounts'', LedgerListAccounts),
      (''GET /ledger/accounts/{id}'', LedgerGetAccount),
      (''GET /ledger/accounts/{id}/balance'', LedgerGetBalance),
      (''GET /ledger/transactions'', LedgerListTransactions),
      (''GET /ledger/transactions/{id}'', LedgerGetTransaction),
      (''POST /ledger/transactions/{id}/settle'', LedgerSettle),
      (''POST /ledger/transactions/{id}/finalize'', LedgerFinalize),
      (''GET /ledger/balances'', LedgerBalances),
      (''GET /ledger/fx/quote'', LedgerFXQuote),
      (''GET /ledger/currencies'', LedgerCurrencies)]"

definition ledger_handleListAccounts :: "('z ledger_scheme, bankValue) handle" where
  "ledger_handleListAccounts r = respond ListAccounts internalError (okWith VAccounts)"

definition ledger_handleGetAccount :: "('z ledger_scheme, bankValue) handle" where
  "ledger_handleGetAccount r =
     respond (GetAccount (PathValue r ''id'')) (notFoundOr ''account not found'') (okWith VAccount)"

definition ledger_handleGetBalance :: "('z ledger_scheme, bankValue) handle" where
  "ledger_handleGetBalance r =
     respond (Balance (PathValue r ''id'')) (notFoundOr ''account not found'') (okWith VAmount)"

definition ledger_handleListTransactions :: "('z ledger_scheme, bankValue) handle" where
  "ledger_handleListTransactions r =
     respond (ListTransactions (txFilterBy (QueryGet r ''account_id'') (QueryGet r ''kind'')))
       internalError (okWith VTransactions)"

definition ledger_handleGetTransaction :: "('z ledger_scheme, bankValue) handle" where
  "ledger_handleGetTransaction r =
     respond (GetTransaction (PathValue r ''id'')) (notFoundOr ''transaction not found'') (okWith VTransaction)"

definition writeTxError :: "err \<Rightarrow> bankValue response" where
  "writeTxError e =
     (if errors_Is e ErrNotFound then WriteError StatusNotFound (Literal ''transaction not found'') NoDetails
      else WriteError StatusConflict (TextOf e) NoDetails)"

definition ledger_handleSettle :: "('z ledger_scheme, bankValue) handle" where
  "ledger_handleSettle r = respond (Settle (PathValue r ''id'')) writeTxError (okWith VTransaction)"

definition ledger_handleFinalize :: "('z ledger_scheme, bankValue) handle" where
  "ledger_handleFinalize r = respond (Finalize (PathValue r ''id'')) writeTxError (okWith VTransaction)"

definition ledger_handleBalances :: "('z ledger_scheme, bankValue) handle" where
  "ledger_handleBalances r = respond Balances internalError (okWith VBalances)"

definition ledger_handleFXQuote :: "('z ledger_scheme, bankValue) handle" where
  "ledger_handleFXQuote r =
     (case ParseInt (QueryGet r ''amount_minor'') of
        None \<Rightarrow> answer (WriteError StatusBadRequest (Literal ''invalid amount_minor'') NoDetails)
      | Some amount \<Rightarrow>
          respond (bindE (getE (\<lambda>s. Quote s (QueryGet r ''from'') (QueryGet r ''to'') amount)) liftE)
            (\<lambda>e. WriteError StatusBadRequest (TextOf e) NoDetails) (okWith VQuote))"

text \<open>The map of the currencies, as a table.\<close>

definition currencyTable :: "(string \<times> Currency) list" where
  "currencyTable = [(''USD'', \<lparr>Code = ''USD'', Decimals = 2\<rparr>), (''USDC'', \<lparr>Code = ''USDC'', Decimals = 6\<rparr>)]"

definition ledger_handleCurrencies :: "('z ledger_scheme, bankValue) handle" where
  "ledger_handleCurrencies r = answer (okWith VCurrencies currencyTable)"

definition serveLedger :: "ledgerEndpoint \<Rightarrow> ('z ledger_scheme, bankValue) handle" where
  "serveLedger e =
     (case e of
        LedgerListAccounts \<Rightarrow> ledger_handleListAccounts
      | LedgerGetAccount \<Rightarrow> ledger_handleGetAccount
      | LedgerGetBalance \<Rightarrow> ledger_handleGetBalance
      | LedgerListTransactions \<Rightarrow> ledger_handleListTransactions
      | LedgerGetTransaction \<Rightarrow> ledger_handleGetTransaction
      | LedgerSettle \<Rightarrow> ledger_handleSettle
      | LedgerFinalize \<Rightarrow> ledger_handleFinalize
      | LedgerBalances \<Rightarrow> ledger_handleBalances
      | LedgerFXQuote \<Rightarrow> ledger_handleFXQuote
      | LedgerCurrencies \<Rightarrow> ledger_handleCurrencies)"

section \<open>Customer accounts\<close>

datatype accountEndpoint =
    AccountPurchase | AccountBulk | AccountList | AccountGet | AccountDeposit | AccountPurchases

definition accountRoutes :: "(string \<times> accountEndpoint) list" where
  "accountRoutes =
     [(''POST /simulate/purchase'', AccountPurchase),
      (''POST /simulate/purchases/bulk'', AccountBulk),
      (''GET /accounts'', AccountList),
      (''GET /accounts/{id}'', AccountGet),
      (''POST /accounts/{id}/deposit'', AccountDeposit),
      (''GET /accounts/{id}/purchases'', AccountPurchases)]"

definition isAccValidation :: "err \<Rightarrow> bool" where
  "isAccValidation e =
     (errorAs (\<lambda>e. case e of EAccount (AccValidation m) \<Rightarrow> Some m | _ \<Rightarrow> None) e \<noteq> None)"

text \<open>What the three handlers that change an account make of an error.\<close>

definition writeAccountError :: "err \<Rightarrow> bankValue response" where
  "writeAccountError e =
     (if isAccValidation e then WriteError StatusBadRequest (TextOf e) NoDetails
      else notFoundOr ''account not found'' e)"

definition invalidBody :: "bankValue response" where
  "invalidBody = WriteError StatusBadRequest (Literal ''invalid request body'') NoDetails"

definition purchaseFields :: "PurchaseRequest fields" where
  "purchaseFields =
     [jsonStr ''account_id'' (\<lambda>s q. q\<lparr>pq_AccountID := s\<rparr>),
      jsonInt ''amount_cents'' (\<lambda>n q. q\<lparr>pq_AmountCents := n\<rparr>),
      jsonStr ''merchant'' (\<lambda>s q. q\<lparr>pq_Merchant := s\<rparr>)]"

definition purchase0 :: PurchaseRequest where
  "purchase0 = \<lparr>pq_AccountID = '''', pq_AmountCents = 0, pq_Merchant = ''''\<rparr>"

definition writePurchaseError :: "err \<Rightarrow> Receipt option \<Rightarrow> bankValue response" where
  "writePurchaseError e receipt =
     (if errors_Is e (EAccount ErrDeclined)
      then WriteError StatusConflict (Literal ''purchase declined'')
             (case receipt of None \<Rightarrow> NoDetails | Some c \<Rightarrow> DetailValue (VReceipt c))
      else writeAccountError e)"

definition handlePurchase :: "('z ledger_scheme, bankValue) handle" where
  "handlePurchase r =
     withBody (Decode purchaseFields purchase0 r) invalidBody (\<lambda>req.
     respond (Purchase req) (\<lambda>e. writePurchaseError e None)
       (\<lambda>(receipt, e). case e of None \<Rightarrow> okWith VReceipt receipt | Some err \<Rightarrow> writePurchaseError err (Some receipt)))"

definition bulkFields :: "BulkRequest fields" where
  "bulkFields =
     [jsonStr ''account_id'' (\<lambda>s q. q\<lparr>bq_AccountID := s\<rparr>),
      jsonInt ''count'' (\<lambda>n q. q\<lparr>bq_Count := n\<rparr>),
      jsonInt ''min_cents'' (\<lambda>n q. q\<lparr>bq_MinCents := n\<rparr>),
      jsonInt ''max_cents'' (\<lambda>n q. q\<lparr>bq_MaxCents := n\<rparr>),
      jsonInt ''seed'' (\<lambda>n q. q\<lparr>bq_Seed := n\<rparr>)]"

definition bulk0 :: BulkRequest where
  "bulk0 = \<lparr>bq_AccountID = '''', bq_Count = 0, bq_MinCents = 0, bq_MaxCents = 0, bq_Seed = 0\<rparr>"

definition handleBulkPurchases :: "randSource \<Rightarrow> ('z ledger_scheme, bankValue) handle" where
  "handleBulkPurchases newRand r =
     withBody (Decode bulkFields bulk0 r) invalidBody (\<lambda>req.
     respond (BulkRandomPurchases newRand req) writeAccountError
       (\<lambda>(receipts, e). case e of None \<Rightarrow> okWith VReceipts receipts | Some err \<Rightarrow> writeAccountError err))"

definition account_handleListAccounts :: "('z ledger_scheme, bankValue) handle" where
  "account_handleListAccounts r = respond ListCustomers internalError (okWith VViews)"

definition account_handleGetAccount :: "('z ledger_scheme, bankValue) handle" where
  "account_handleGetAccount r =
     respond (GetView (PathValue r ''id'')) (notFoundOr ''account not found'') (okWith VView)"

record depositRequest =
  dq_Currency :: string
  dq_Amount :: string

definition depositFields :: "depositRequest fields" where
  "depositFields =
     [jsonStr ''currency'' (\<lambda>s q. q\<lparr>dq_Currency := s\<rparr>), jsonStr ''amount'' (\<lambda>s q. q\<lparr>dq_Amount := s\<rparr>)]"

definition deposit0 :: depositRequest where "deposit0 = \<lparr>dq_Currency = '''', dq_Amount = ''''\<rparr>"

definition handleDeposit :: "('z ledger_scheme, bankValue) handle" where
  "handleDeposit r =
     withBody (Decode depositFields deposit0 r) invalidBody (\<lambda>req.
     case ParseAmount (dq_Currency req) (dq_Amount req) of
       Inl e \<Rightarrow> answer (WriteError StatusBadRequest (TextOf e) NoDetails)
     | Inr amt \<Rightarrow> respond (Deposit (PathValue r ''id'') amt) writeAccountError (okWith VTransaction))"

definition handleListPurchases :: "('z ledger_scheme, bankValue) handle" where
  "handleListPurchases r = respond (ListPurchases (PathValue r ''id'')) internalError (okWith VReceipts)"

definition serveAccount :: "randSource \<Rightarrow> accountEndpoint \<Rightarrow> ('z ledger_scheme, bankValue) handle" where
  "serveAccount newRand e =
     (case e of
        AccountPurchase \<Rightarrow> handlePurchase
      | AccountBulk \<Rightarrow> handleBulkPurchases newRand
      | AccountList \<Rightarrow> account_handleListAccounts
      | AccountGet \<Rightarrow> account_handleGetAccount
      | AccountDeposit \<Rightarrow> handleDeposit
      | AccountPurchases \<Rightarrow> handleListPurchases)"

section \<open>Loans\<close>

datatype loanEndpoint =
    LoanUnderwrite | LoanOriginate | LoanApplicants | LoanList | LoanBankForecast | LoanGet | LoanScheduleOf
  | LoanCustomerForecast | LoanWhatIf | LoanRepay | LoanMissPayment | LoanDefault

definition loanRoutes :: "(string \<times> loanEndpoint) list" where
  "loanRoutes =
     [(''POST /loan/underwrite'', LoanUnderwrite),
      (''POST /loan/originate'', LoanOriginate),
      (''GET /loan/applicants'', LoanApplicants),
      (''GET /loans'', LoanList),
      (''GET /loans/forecast/bank'', LoanBankForecast),
      (''GET /loans/{id}'', LoanGet),
      (''GET /loans/{id}/schedule'', LoanScheduleOf),
      (''GET /loans/{id}/forecast'', LoanCustomerForecast),
      (''POST /loans/{id}/what-if'', LoanWhatIf),
      (''POST /loans/{id}/repay'', LoanRepay),
      (''POST /loans/{id}/miss-payment'', LoanMissPayment),
      (''POST /loans/{id}/default'', LoanDefault)]"

definition isNotApproved :: "err \<Rightarrow> bool" where
  "isNotApproved e = (errorAs (\<lambda>e. case e of ELoan (ErrNotApproved rs) \<Rightarrow> Some rs | _ \<Rightarrow> None) e \<noteq> None)"

definition isInsufficientFunds :: "err \<Rightarrow> bool" where
  "isInsufficientFunds e =
     (errorAs (\<lambda>e. case e of ELoan (ErrInsufficientFunds i have need) \<Rightarrow> Some i | _ \<Rightarrow> None) e \<noteq> None)"

definition isMissing :: "err \<Rightarrow> bool" where
  "isMissing e \<longleftrightarrow> errors_Is e (ELoan ErrApplicantNotFound) \<or> errors_Is e ErrNotFound"

definition loan_writeServiceError :: "err \<Rightarrow> bankValue response" where
  "loan_writeServiceError e =
     (if isMissing e then WriteError StatusNotFound (TextOf e) NoDetails
      else if isNotApproved e \<or> isInsufficientFunds e then WriteError StatusConflict (TextOf e) NoDetails
      else internalError e)"

text \<open>The details of a refused body repeat the text of the JSON library's error, which is left out.\<close>

definition refusedBody :: "bankValue response" where
  "refusedBody = WriteError StatusBadRequest (Literal ''invalid request body'') (DetailText (Literal ''json''))"

definition missingApplicant :: "bankValue response" where
  "missingApplicant = WriteError StatusBadRequest (Literal ''applicant_id is required'') NoDetails"

definition underwriteFields :: "UnderwriteRequest fields" where
  "underwriteFields =
     [jsonStr ''applicant_id'' (\<lambda>s q. q\<lparr>uq_ApplicantID := s\<rparr>),
      jsonInt ''requested_principal_cents'' (\<lambda>n q. q\<lparr>uq_RequestedPrincipalCents := n\<rparr>),
      jsonInt ''term_months'' (\<lambda>n q. q\<lparr>uq_TermMonths := n\<rparr>)]"

definition underwrite0 :: UnderwriteRequest where
  "underwrite0 = \<lparr>uq_ApplicantID = '''', uq_RequestedPrincipalCents = 0, uq_TermMonths = 0\<rparr>"

definition handleUnderwrite :: "('z loanbook_scheme, bankValue) handle" where
  "handleUnderwrite r =
     withBody (decodeBody underwriteFields underwrite0 r) refusedBody (\<lambda>req.
     if uq_ApplicantID req = '''' then answer missingApplicant
     else respond (Underwrite req) loan_writeServiceError (okWith VUnderwriting))"

definition originateFields :: "OriginateRequest fields" where
  "originateFields =
     [jsonStr ''applicant_id'' (\<lambda>s q. q\<lparr>oq_ApplicantID := s\<rparr>),
      jsonInt ''principal_cents'' (\<lambda>n q. q\<lparr>oq_PrincipalCents := n\<rparr>),
      jsonInt ''term_months'' (\<lambda>n q. q\<lparr>oq_TermMonths := n\<rparr>)]"

definition originate0 :: OriginateRequest where
  "originate0 = \<lparr>oq_ApplicantID = '''', oq_PrincipalCents = 0, oq_TermMonths = 0\<rparr>"

definition handleOriginate :: "('z loanbook_scheme, bankValue) handle" where
  "handleOriginate r =
     withBody (decodeBody originateFields originate0 r) refusedBody (\<lambda>req.
     if oq_ApplicantID req = '''' then answer missingApplicant
     else respond (Originate req) loan_writeServiceError (okWith VLoan))"

definition handleApplicants :: "('z loanbook_scheme, bankValue) handle" where
  "handleApplicants r = respond Applicants internalError (okWith VApplicants)"

definition handleListLoans :: "('z loanbook_scheme, bankValue) handle" where
  "handleListLoans r = respond ListLoans internalError (okWith VLoans)"

definition handleGetLoan :: "('z loanbook_scheme, bankValue) handle" where
  "handleGetLoan r = respond (GetLoan (PathValue r ''id'')) loan_writeServiceError (okWith VLoan)"

definition handleSchedule :: "('z loanbook_scheme, bankValue) handle" where
  "handleSchedule r = respond (LoanSchedule (PathValue r ''id'')) loan_writeServiceError (okWith VSchedule)"

definition whatIfFields :: "WhatIfRequest fields" where
  "whatIfFields =
     [jsonInt ''extra_monthly_cents'' (\<lambda>n q. q\<lparr>wr_ExtraMonthlyCents := n\<rparr>),
      jsonInt ''lump_sum_cents'' (\<lambda>n q. q\<lparr>wr_LumpSumCents := n\<rparr>),
      jsonInt ''lump_sum_at_installment'' (\<lambda>n q. q\<lparr>wr_LumpSumAtInstallment := n\<rparr>)]"

definition whatIf0 :: WhatIfRequest where
  "whatIf0 = \<lparr>wr_ExtraMonthlyCents = 0, wr_LumpSumCents = 0, wr_LumpSumAtInstallment = 0\<rparr>"

definition handleWhatIf :: "('z loanbook_scheme, bankValue) handle" where
  "handleWhatIf r =
     withBody (decodeBody whatIfFields whatIf0 r) refusedBody (\<lambda>req.
     respond (WhatIf (PathValue r ''id'') req) loan_writeServiceError (okWith VWhatIf))"

text \<open>The structs of the bodies of a repayment and of a default have one field.\<close>

definition repayFields :: "int64 fields" where
  "repayFields = [jsonInt ''amount_cents'' (\<lambda>n _. n)]"

definition handleRepay :: "('z loanbook_scheme, bankValue) handle" where
  "handleRepay r =
     withBody (decodeBody repayFields 0 r) refusedBody (\<lambda>amountCents.
     respond (Repay (PathValue r ''id'') amountCents) loan_writeServiceError (okWith VLoan))"

definition handleMissPayment :: "('z loanbook_scheme, bankValue) handle" where
  "handleMissPayment r = respond (MissPayment (PathValue r ''id'')) loan_writeServiceError (okWith VLoan)"

definition defaultFields :: "string fields" where
  "defaultFields = [jsonStr ''reason'' (\<lambda>s _. s)]"

definition handleDefault :: "('z loanbook_scheme, bankValue) handle" where
  "handleDefault r =
     withBody (decodeBody defaultFields '''' r) refusedBody (\<lambda>reason.
     respond (Default (PathValue r ''id'') reason) loan_writeServiceError (okWith VLoan))"

definition handleBankForecast :: "('z loanbook_scheme, bankValue) handle" where
  "handleBankForecast r = respond GetBankForecast internalError (okWith VBankForecast)"

definition handleCustomerForecast :: "('z loanbook_scheme, bankValue) handle" where
  "handleCustomerForecast r =
     respond (GetCustomerForecast (PathValue r ''id'')) loan_writeServiceError (okWith VCustomerForecast)"

definition serveLoan :: "loanEndpoint \<Rightarrow> ('z loanbook_scheme, bankValue) handle" where
  "serveLoan e =
     (case e of
        LoanUnderwrite \<Rightarrow> handleUnderwrite
      | LoanOriginate \<Rightarrow> handleOriginate
      | LoanApplicants \<Rightarrow> handleApplicants
      | LoanList \<Rightarrow> handleListLoans
      | LoanBankForecast \<Rightarrow> handleBankForecast
      | LoanGet \<Rightarrow> handleGetLoan
      | LoanScheduleOf \<Rightarrow> handleSchedule
      | LoanCustomerForecast \<Rightarrow> handleCustomerForecast
      | LoanWhatIf \<Rightarrow> handleWhatIf
      | LoanRepay \<Rightarrow> handleRepay
      | LoanMissPayment \<Rightarrow> handleMissPayment
      | LoanDefault \<Rightarrow> handleDefault)"

section \<open>Simulation\<close>

datatype simEndpoint = SimAdvanceTime | SimTriggerDefault | SimRunScenario | SimClock | SimPresets

definition simRoutes :: "(string \<times> simEndpoint) list" where
  "simRoutes =
     [(''POST /simulate/advance-time'', SimAdvanceTime),
      (''POST /simulate/trigger-default'', SimTriggerDefault),
      (''POST /simulate/run-scenario'', SimRunScenario),
      (''GET /simulate/clock'', SimClock),
      (''GET /simulate/presets'', SimPresets)]"

definition simProblems :: "err \<Rightarrow> string list option" where
  "simProblems e = errorAs (\<lambda>e. case e of ESim (SimValidation ps) \<Rightarrow> Some ps | _ \<Rightarrow> None) e"

definition sim_writeServiceError :: "err \<Rightarrow> bankValue response" where
  "sim_writeServiceError e =
     (case simProblems e of
        Some problems \<Rightarrow> WriteError StatusBadRequest (TextOf e) (DetailStrings problems)
      | None \<Rightarrow>
          if isAccValidation e then WriteError StatusBadRequest (TextOf e) NoDetails
          else if isMissing e then WriteError StatusNotFound (TextOf e) NoDetails
          else if isNotApproved e \<or> isInsufficientFunds e \<or> errors_Is e (EAccount ErrDeclined)
          then WriteError StatusConflict (TextOf e) NoDetails
          else internalError e)"

definition advanceFields :: "AdvanceTimeRequest fields" where
  "advanceFields =
     [jsonInt ''days'' (\<lambda>n q. q\<lparr>at_Days := n\<rparr>), jsonStr ''to'' (\<lambda>s q. q\<lparr>at_To := s\<rparr>)]"

definition advance0 :: AdvanceTimeRequest where "advance0 = \<lparr>at_Days = 0, at_To = ''''\<rparr>"

definition handleAdvanceTime :: "('z loanbook_scheme, bankValue) handle" where
  "handleAdvanceTime r =
     withBody (Decode advanceFields advance0 r) refusedBody (\<lambda>req.
     respond (AdvanceTime req) sim_writeServiceError (okWith VAdvance))"

definition triggerFields :: "(string \<times> string) fields" where
  "triggerFields = [jsonStr ''loan_id'' (\<lambda>s q. (s, snd q)), jsonStr ''reason'' (\<lambda>s q. (fst q, s))]"

definition handleTriggerDefault :: "('z loanbook_scheme, bankValue) handle" where
  "handleTriggerDefault r =
     withBody (Decode triggerFields ('''', '''') r) refusedBody (\<lambda>(loanID, reason).
     respond (bindE (resolveLoanID loanID) (\<lambda>i. TriggerDefault i reason)) sim_writeServiceError (okWith VLoan))"

definition stepFields :: "Step fields" where
  "stepFields =
     [jsonStr ''type'' (\<lambda>s q. q\<lparr>sp_Type := s\<rparr>),
      jsonInt ''days'' (\<lambda>n q. q\<lparr>sp_Days := n\<rparr>),
      jsonStr ''loan_id'' (\<lambda>s q. q\<lparr>sp_LoanID := s\<rparr>),
      jsonInt ''count'' (\<lambda>n q. q\<lparr>sp_Count := n\<rparr>),
      jsonInt ''amount_cents'' (\<lambda>n q. q\<lparr>sp_AmountCents := n\<rparr>),
      jsonStr ''account_id'' (\<lambda>s q. q\<lparr>sp_AccountID := s\<rparr>),
      jsonInt ''min_cents'' (\<lambda>n q. q\<lparr>sp_MinCents := n\<rparr>),
      jsonInt ''max_cents'' (\<lambda>n q. q\<lparr>sp_MaxCents := n\<rparr>),
      jsonInt ''seed'' (\<lambda>n q. q\<lparr>sp_Seed := n\<rparr>),
      jsonStr ''applicant_id'' (\<lambda>s q. q\<lparr>sp_ApplicantID := s\<rparr>),
      jsonInt ''principal_cents'' (\<lambda>n q. q\<lparr>sp_PrincipalCents := n\<rparr>),
      jsonInt ''term_months'' (\<lambda>n q. q\<lparr>sp_TermMonths := n\<rparr>),
      jsonStr ''currency'' (\<lambda>s q. q\<lparr>sp_Currency := s\<rparr>),
      jsonStr ''amount'' (\<lambda>s q. q\<lparr>sp_Amount := s\<rparr>),
      jsonStr ''reason'' (\<lambda>s q. q\<lparr>sp_Reason := s\<rparr>)]"

definition scenarioFields :: "Scenario fields" where
  "scenarioFields =
     [jsonStr ''name'' (\<lambda>s q. q\<lparr>sc_Name := s\<rparr>),
      jsonList ''steps'' True stepFields step0 sc_Steps (\<lambda>es q. q\<lparr>sc_Steps := es\<rparr>)]"

definition scenario0 :: Scenario where "scenario0 = \<lparr>sc_Name = '''', sc_Steps = []\<rparr>"

definition handleRunScenario :: "randSource \<Rightarrow> ('z loanbook_scheme, bankValue) handle" where
  "handleRunScenario newRand r =
     withBody (Decode scenarioFields scenario0 r) refusedBody (\<lambda>sc.
     respond (RunScenario newRand sc) sim_writeServiceError (okWith VScenario))"

definition handleClock :: "('z simulation_scheme, bankValue) handle" where
  "handleClock r = respond (getE Clock) internalError (okWith VClock)"

definition handlePresets :: "('z loanbook_scheme, bankValue) handle" where
  "handlePresets r = answer (okWith VPresets Presets)"

definition serveSim :: "randSource \<Rightarrow> simEndpoint \<Rightarrow> ('z simulation_scheme, bankValue) handle" where
  "serveSim newRand e =
     (case e of
        SimAdvanceTime \<Rightarrow> handleAdvanceTime
      | SimTriggerDefault \<Rightarrow> handleTriggerDefault
      | SimRunScenario \<Rightarrow> handleRunScenario newRand
      | SimClock \<Rightarrow> handleClock
      | SimPresets \<Rightarrow> handlePresets)"

section \<open>Dashboard\<close>

datatype dashEndpoint = DashSummary | DashLedgerBook | DashFlows | DashRatios

definition dashRoutes :: "(string \<times> dashEndpoint) list" where
  "dashRoutes =
     [(''GET /dashboard/summary'', DashSummary),
      (''GET /dashboard/ledger-book'', DashLedgerBook),
      (''GET /dashboard/flows'', DashFlows),
      (''GET /dashboard/ratios'', DashRatios)]"

definition dashError :: "string \<Rightarrow> err \<Rightarrow> bankValue response" where
  "dashError msg e = WriteError StatusInternalServerError (Literal msg) (DetailText (TextOf e))"

definition handleSummary :: "('z loanbook_scheme, bankValue) handle" where
  "handleSummary r = respond DashboardSummary (dashError ''dashboard: building summary failed'') (okWith VSummary)"

definition handleLedgerBook :: "('z loanbook_scheme, bankValue) handle" where
  "handleLedgerBook r =
     respond LedgerBook (dashError ''dashboard: building ledger book failed'') (okWith VLedgerBook)"

definition handleRatios :: "('z loanbook_scheme, bankValue) handle" where
  "handleRatios r = respond Ratios (dashError ''dashboard: computing ratios failed'') (okWith VRatios)"

text \<open>
  \<open>t.AddDate(0, 0, -days)\<close> for any \<open>int\<close>: the seconds since year 1 wrap around, which a window of more
  than some hundred billion years makes them do.
\<close>

definition secondsToYear1 :: int where "secondsToYear1 = 62135596800"

definition backDays :: "instant \<Rightarrow> int64 \<Rightarrow> instant" where
  "backDays t days =
     (wrap64 (t div 1000000000 + secondsToYear1 - days * 86400) - secondsToYear1) * 1000000000 + t mod 1000000000"

text \<open>A parameter that is not there is the zero time.\<close>

definition timeParam :: "string \<Rightarrow> instant option" where
  "timeParam v = (if v = '''' then Some zeroTime else ParseRFC3339 v)"

definition badParam :: "string \<Rightarrow> bankValue details \<Rightarrow> bankValue response" where
  "badParam msg d = WriteError StatusBadRequest (Literal msg) d"

definition flowsWindow :: "Request \<Rightarrow> instant \<Rightarrow> bankValue response + instant \<times> instant" where
  "flowsWindow r present =
     (case timeParam (QueryGet r ''from'') of
        None \<Rightarrow> Inl (badParam ''dashboard: invalid from'' (DetailText (Literal ''time'')))
      | Some frm \<Rightarrow>
          (case timeParam (QueryGet r ''to'') of
             None \<Rightarrow> Inl (badParam ''dashboard: invalid to'' (DetailText (Literal ''time'')))
           | Some to0 \<Rightarrow>
               (let to = (if to0 = zeroTime then present else to0); v = QueryGet r ''window_days''
                in if frm \<noteq> zeroTime then Inr (frm, to)
                   else if v = '''' then Inr (backDays to 30, to)
                   else case ParseInt v of
                     None \<Rightarrow> Inl (badParam ''dashboard: invalid window_days'' (DetailText (Literal v)))
                   | Some days \<Rightarrow>
                       if days \<le> 0 then Inl (badParam ''dashboard: invalid window_days'' (DetailText (Literal v)))
                       else Inr (backDays to days, to))))"

definition handleFlows :: "('z loanbook_scheme, bankValue) handle" where
  "handleFlows r s =
     (case flowsWindow r (now s) of
        Inl resp \<Rightarrow> (resp, s)
      | Inr (frm, to) \<Rightarrow> respond (Flows frm to) (dashError ''dashboard: computing flows failed'') (okWith VFlows) s)"

definition serveDash :: "dashEndpoint \<Rightarrow> ('z loanbook_scheme, bankValue) handle" where
  "serveDash e =
     (case e of
        DashSummary \<Rightarrow> handleSummary
      | DashLedgerBook \<Rightarrow> handleLedgerBook
      | DashFlows \<Rightarrow> handleFlows
      | DashRatios \<Rightarrow> handleRatios)"

end
