(* ===== verification/Http_Demo.thy ===== *)
theory Http_Demo
  imports Http_Rules Demo_Service
begin

text \<open>
  The handlers of \<open>demo/http.go\<close>: listing the scenarios with what has run of them, starting, running a
  step, resetting and reloading.
\<close>

section \<open>Views\<close>

record StepBrief =
  sb_ID :: string
  sb_Label :: string
  sb_Action :: string
  sb_Narration :: string

record ScenarioBrief =
  sf_ScenarioID :: string
  sf_Description :: string
  sf_Steps :: "StepBrief list"
  sf_Started :: bool
  sf_RanSteps :: "string list"

record StepView =
  sw_Step :: DemoStep
  sw_Ran :: bool
  sw_RanAt :: "instant option"
  sw_LastOK :: "bool option"
  sw_LastResult :: "stepOutcome option"
  sw_LastError :: "err option"

record ScenarioDetail =
  sl_ScenarioID :: string
  sl_Description :: string
  sl_Steps :: "StepView list"
  sl_Started :: bool
  sl_StartedAt :: "instant option"

datatype demoValue =
    VBriefs "ScenarioBrief list" | VDetail ScenarioDetail | VStepRun StepRunResponse
  | VRestored "RestoredRule list" | VReloaded "DemoScenario list" | VDemoExamples int

text \<open>The run state of a scenario, if it was started.\<close>

definition runState :: "'z demo_scheme \<Rightarrow> string \<Rightarrow> scenarioState option" where
  "runState s i = map_option (\<lambda>addr. dm_heap s ! addr) (map_of (dm_states s) i)"

definition stepBrief :: "DemoStep \<Rightarrow> StepBrief" where
  "stepBrief step =
     \<lparr>sb_ID = dst_ID step, sb_Label = dst_Label step, sb_Action = dst_Action step, sb_Narration = dst_Narration step\<rparr>"

definition brief :: "'z demo_scheme \<Rightarrow> DemoScenario \<Rightarrow> ScenarioBrief" where
  "brief s sc =
     (let st = runState s (dsc_ScenarioID sc)
      in \<lparr>sf_ScenarioID = dsc_ScenarioID sc, sf_Description = dsc_Description sc,
          sf_Steps = map stepBrief (dsc_Steps sc), sf_Started = (st \<noteq> None),
          sf_RanSteps =
            (case st of
               None \<Rightarrow> []
             | Some x \<Rightarrow> filter (hasRun x) (map dst_ID (dsc_Steps sc)))\<rparr>)"

definition stepView :: "scenarioState option \<Rightarrow> DemoStep \<Rightarrow> StepView" where
  "stepView st step =
     (case Option.bind st (\<lambda>x. map_of (sx_runs x) (dst_ID step)) of
        None \<Rightarrow>
          \<lparr>sw_Step = step, sw_Ran = False, sw_RanAt = None, sw_LastOK = None, sw_LastResult = None,
           sw_LastError = None\<rparr>
      | Some rec \<Rightarrow>
          \<lparr>sw_Step = step, sw_Ran = rn_Ran rec, sw_RanAt = Some (rn_RanAt rec), sw_LastOK = Some (rn_OK rec),
           sw_LastResult = rn_Result rec, sw_LastError = rn_Err rec\<rparr>)"

definition detail :: "'z demo_scheme \<Rightarrow> DemoScenario \<Rightarrow> ScenarioDetail" where
  "detail s sc =
     (let st = runState s (dsc_ScenarioID sc)
      in \<lparr>sl_ScenarioID = dsc_ScenarioID sc, sl_Description = dsc_Description sc,
          sl_Steps = map (stepView st) (dsc_Steps sc), sl_Started = (st \<noteq> None),
          sl_StartedAt = map_option sx_startedAt st\<rparr>)"

section \<open>Routes and errors\<close>

datatype demoEndpoint = DemoList | DemoGet | DemoStart | DemoRunStep | DemoReset | DemoReload

definition demoRoutes :: "(string \<times> demoEndpoint) list" where
  "demoRoutes =
     [(''GET /demo/scenarios'', DemoList),
      (''GET /demo/scenarios/{id}'', DemoGet),
      (''POST /demo/scenarios/{id}/start'', DemoStart),
      (''POST /demo/scenarios/{id}/steps/{step_id}/run'', DemoRunStep),
      (''POST /demo/scenarios/{id}/reset'', DemoReset),
      (''POST /demo/scenarios/{id}/reload'', DemoReload)]"

definition demoError :: "int64 \<Rightarrow> string \<Rightarrow> err \<Rightarrow> demoValue response" where
  "demoError status msg e = WriteError status (Literal msg) (DetailText (TextOf e))"

definition isDemoMissing :: "err \<Rightarrow> bool" where
  "isDemoMissing e =
     (errorAs (\<lambda>e. case e of EDemo (ErrScenarioNotFound i) \<Rightarrow> Some i | EDemo (ErrStepNotFound i) \<Rightarrow> Some i | _ \<Rightarrow> None) e
        \<noteq> None)"

definition isStepOrder :: "err \<Rightarrow> bool" where
  "isStepOrder e =
     (errorAs (\<lambda>e. case e of EDemo (ErrPreviousStepNotRun p i) \<Rightarrow> Some i | _ \<Rightarrow> None) e \<noteq> None)"

text \<open>Of the results that the error for failed examples carries, their number is kept.\<close>

definition writeDemoError :: "err \<Rightarrow> demoValue response" where
  "writeDemoError e =
     (if isDemoMissing e then demoError StatusNotFound ''not_found'' e
      else if isStepOrder e then demoError StatusConflict ''previous_step_not_run'' e
      else case failedExamples e of
        Some n \<Rightarrow> WriteError StatusConflict (Literal ''examples_failed'') (DetailValue (VDemoExamples n))
      | None \<Rightarrow>
          (case validationProblems e of
             Some problems \<Rightarrow>
               WriteError StatusUnprocessableEntity (Literal ''validation_failed'') (DetailStrings problems)
           | None \<Rightarrow> demoError StatusInternalServerError ''internal_error'' e))"

section \<open>Handlers\<close>

definition demo_handleList :: "('z demo_scheme, demoValue) handle" where
  "demo_handleList r s =
     (case LoadError s of
        Some e \<Rightarrow> (demoError StatusUnprocessableEntity ''load_failed'' e, s)
      | None \<Rightarrow> (WriteJSON StatusOK (VBriefs (map (brief s) (Scenarios s))), s))"

definition showScenario :: "string \<Rightarrow> 'z demo_scheme \<Rightarrow> demoValue response \<times> 'z demo_scheme" where
  "showScenario i s =
     (case scenarioByID s i of
        Inl e \<Rightarrow> (writeDemoError e, s)
      | Inr sc \<Rightarrow> (WriteJSON StatusOK (VDetail (detail s sc)), s))"

definition demo_handleGet :: "('z demo_scheme, demoValue) handle" where
  "demo_handleGet r = showScenario (PathValue r ''id'')"

definition demo_handleStart :: "('z demo_scheme, demoValue) handle" where
  "demo_handleStart r s =
     (case Start (PathValue r ''id'') s of
        (Inl e, s') \<Rightarrow> (writeDemoError e, s')
      | (Inr _, s') \<Rightarrow> showScenario (PathValue r ''id'') s')"

definition forceField :: "bool fields" where
  "forceField = [jsonBool ''force'' (\<lambda>b _. b)]"

text \<open>The body is optional; \<open>json.Unmarshal\<close> ignores unknown fields and refuses trailing text.\<close>

definition decodeForce :: "Request \<Rightarrow> bool option" where
  "decodeForce r =
     (case hq_Body r of
        BodyNone \<Rightarrow> Some False
      | BodyBlank \<Rightarrow> Some False
      | BodyJSON j \<Rightarrow> storeStruct False forceField j False
      | _ \<Rightarrow> None)"

definition demoInvalid :: "demoValue response" where
  "demoInvalid = WriteError StatusBadRequest (Literal ''invalid_request'') (DetailText (Literal ''json''))"

definition handleRunStep :: "'x yamlLib \<Rightarrow> 'z demo_scheme handler \<Rightarrow> ('z demo_scheme, demoValue) handle" where
  "handleRunStep yaml serve r =
     withBody (decodeForce r) demoInvalid (\<lambda>force.
     respond (RunStep yaml serve (PathValue r ''id'') (PathValue r ''step_id'') force)
       writeDemoError (okWith VStepRun))"

definition handleReset :: "('z demo_scheme, demoValue) handle" where
  "handleReset r =
     respond
       (bindE (getE (\<lambda>s. scenarioByID s (PathValue r ''id''))) (\<lambda>found.
        bindE (liftE found) (\<lambda>sc.
        bindE (ensureStarted sc) (\<lambda>addr.
        resetScenario sc addr))))
       writeDemoError (okWith VRestored)"

definition handleReload :: "('z demo_scheme, demoValue) handle" where
  "handleReload r =
     respond (bindE Reload (\<lambda>_. getE Scenarios))
       (\<lambda>e. demoError StatusUnprocessableEntity ''load_failed'' e) (okWith VReloaded)"

definition serveDemo ::
  "'x yamlLib \<Rightarrow> 'z demo_scheme handler \<Rightarrow> demoEndpoint \<Rightarrow> ('z demo_scheme, demoValue) handle" where
  "serveDemo yaml serve e =
     (case e of
        DemoList \<Rightarrow> demo_handleList
      | DemoGet \<Rightarrow> demo_handleGet
      | DemoStart \<Rightarrow> demo_handleStart
      | DemoRunStep \<Rightarrow> handleRunStep yaml serve
      | DemoReset \<Rightarrow> handleReset
      | DemoReload \<Rightarrow> handleReload)"

end
