(* ===== verification/App_Main.thy ===== *)
theory App_Main
  imports Http_Mux Http_Bank Http_Demo
begin

text \<open>
  \<open>cmd/stablebank/main.go\<close>: the order in which the process is put together, the one router that every
  package registers its handlers with, and the dispatch of a request to the handler of the bank that
  serves it.
\<close>

section \<open>Starting the process\<close>

definition evaluators :: "(string \<times> Evaluator) list" where
  "evaluators =
     [(''fx_policy'', EvaluateFXPolicy),
      (''depeg_policy'', EvaluateDepegPolicy),
      (''spend_waterfall'', EvaluateWaterfall),
      (''risk_scoring'', EvaluateRiskScore),
      (''loan_underwriting'', EvaluateUnderwriting),
      (''loan_servicing'', EvaluateServicing),
      (''dashboard_thresholds'', EvaluateThresholds),
      (''risk_weights'', EvaluateRiskWeights),
      (''liquidity_stress'', EvaluateLiquidityStress)]"

text \<open>The environment is a parameter; a variable that is not set is empty.\<close>

definition getenv :: "(string \<Rightarrow> string) \<Rightarrow> string \<Rightarrow> string \<Rightarrow> string" where
  "getenv env k def = (if env k \<noteq> '''' then env k else def)"

definition startTime :: "(string \<Rightarrow> string) \<Rightarrow> instant res" where
  "startTime env =
     ofOption (EEncode ''bad SIM_START'') (ParseRFC3339 (getenv env ''SIM_START'' ''2026-09-01T09:00:00Z''))"

text \<open>
  The store: the tables of a database that is there already, or an empty in-memory one. Then the
  services before anything has run: no rules, no evaluators, no rates, empty projections, no
  applicants. The schemas, the files and what is drawn from outside stay as they are.
\<close>

definition openStore :: "(string \<Rightarrow> string) \<Rightarrow> 'z memstore_scheme \<Rightarrow> 'z memstore_scheme" where
  "openStore env s =
     (if env ''DATABASE_URL'' \<noteq> '''' then s
      else s\<lparr>st_events := [], st_versions := [], st_apps := [], st_seq := 0\<rparr>)"

definition fresh :: "'z loanbook_scheme \<Rightarrow> 'z loanbook_scheme" where
  "fresh s = s\<lparr>en_registry := [], en_registryByID := [], en_cache := [], en_evaluators := [],
     lg_rates := None, lg_proj := newProjection, lb_proj := newLoanProjection, lb_applicants := []\<rparr>"

definition setClock :: "sim_clock \<Rightarrow> 'z sim_clock_scheme \<Rightarrow> 'z sim_clock_scheme" where
  "setClock c s = s\<lparr>now := now c, listeners := listeners c, notified := notified c\<rparr>"

definition seedCapitalCents :: int64 where "seedCapitalCents = 25000000"

text \<open>The rules first; an error of any part ends the process.\<close>

definition startRules :: "('z engine_scheme, unit) oper" where
  "startRules =
     bindE (foreachE evaluators (\<lambda>(ruleType, ev). RegisterEvaluator ruleType ev)) (\<lambda>_. LoadFromDisk)"

definition startBooks :: "('z loanbook_scheme, unit) oper" where
  "startBooks =
     bindE (modifyE (\<lambda>s. s\<lparr>lg_rates := Some (RuleRateProvider ''fx_policy'' True)\<rparr>)) (\<lambda>_.
     bindE EnsureSystemAccounts (\<lambda>_.
     bindE (SeedCapital seedCapitalCents) (\<lambda>_.
     bindE Seed (\<lambda>_. SeedLoans))))"

definition startProcess :: "(string \<Rightarrow> string) \<Rightarrow> ('z simulation_scheme, unit) oper" where
  "startProcess env =
     bindE (liftE (startTime env)) (\<lambda>start.
     bindE (modifyE (setClock (New_clock start))) (\<lambda>_.
     bindE (modifyE (openStore env)) (\<lambda>_.
     bindE (modifyE fresh) (\<lambda>_.
     bindE startRules (\<lambda>_.
     bindE startBooks (\<lambda>_.
     modifyE New_simulation))))))"

section \<open>The router\<close>

datatype endpoint =
    Healthz | RulesAPI rulesEndpoint | LedgerAPI ledgerEndpoint | AccountAPI accountEndpoint
  | LoanAPI loanEndpoint | DashAPI dashEndpoint | SimAPI simEndpoint | DemoAPI demoEndpoint | WebAssets

definition under :: "('e \<Rightarrow> endpoint) \<Rightarrow> (string \<times> 'e) list \<Rightarrow> (string \<times> endpoint) list" where
  "under api routes = map (\<lambda>(pat, e). (pat, api e)) routes"

definition appRoutes :: "(string \<times> endpoint) list" where
  "appRoutes =
     (''GET /healthz'', Healthz) #
     under RulesAPI rulesRoutes @ under LedgerAPI ledgerRoutes @ under AccountAPI accountRoutes @
     under LoanAPI loanRoutes @ under DashAPI dashRoutes @ under SimAPI simRoutes @
     under DemoAPI demoRoutes @ [(''/'', WebAssets)]"

definition appMux :: "endpoint routes" where
  "appMux = the (register [] appRoutes)"

section \<open>Serving\<close>

text \<open>The endpoints of the bank itself, on the state the services share.\<close>

datatype bankEndpoint =
    BankLedger ledgerEndpoint | BankAccount accountEndpoint | BankLoan loanEndpoint
  | BankDash dashEndpoint | BankSim simEndpoint

definition bankEndpointOf :: "endpoint \<Rightarrow> bankEndpoint option" where
  "bankEndpointOf e =
     (case e of
        LedgerAPI l \<Rightarrow> Some (BankLedger l)
      | AccountAPI a \<Rightarrow> Some (BankAccount a)
      | LoanAPI l \<Rightarrow> Some (BankLoan l)
      | DashAPI d \<Rightarrow> Some (BankDash d)
      | SimAPI x \<Rightarrow> Some (BankSim x)
      | _ \<Rightarrow> None)"

definition serveBank :: "randSource \<Rightarrow> bankEndpoint \<Rightarrow> ('z simulation_scheme, bankValue) handle" where
  "serveBank newRand e =
     (case e of
        BankLedger l \<Rightarrow> serveLedger l
      | BankAccount a \<Rightarrow> serveAccount newRand a
      | BankLoan l \<Rightarrow> serveLoan l
      | BankDash d \<Rightarrow> serveDash d
      | BankSim x \<Rightarrow> serveSim newRand x)"

text \<open>
  A request on the wire: its method, its path and the rest. \<open>bankMux\<close> answers the ones that the router
  sends to the bank and leaves the others to the rest of the process.
\<close>

record wire =
  wq_Method :: string
  wq_Path :: string
  wq_Query :: "(string \<times> string) list"
  wq_Body :: reqBody

definition routed :: "wire \<Rightarrow> (endpoint \<times> Request) option" where
  "routed w =
     map_option (\<lambda>(e, b). (e, \<lparr>hq_Path = b, hq_Query = wq_Query w, hq_Body = wq_Body w\<rparr>))
       (dispatch appMux (wq_Method w) (pathSegments (wq_Path w)))"

definition bankMux :: "randSource \<Rightarrow> wire \<Rightarrow> 'z simulation_scheme \<Rightarrow> bankValue response option \<times> 'z simulation_scheme" where
  "bankMux newRand w s =
     (case routed w of
        None \<Rightarrow> (None, s)
      | Some (e, r) \<Rightarrow>
          (case bankEndpointOf e of
             None \<Rightarrow> (None, s)
           | Some b \<Rightarrow> (case serveBank newRand b r s of (resp, s') \<Rightarrow> (Some resp, s'))))"

fun serveAll :: "randSource \<Rightarrow> wire list \<Rightarrow> 'z simulation_scheme \<Rightarrow> bankValue response option list \<times> 'z simulation_scheme" where
  "serveAll newRand [] s = ([], s)"
| "serveAll newRand (w # ws) s =
     (case bankMux newRand w s of
        (resp, s') \<Rightarrow> (case serveAll newRand ws s' of (resps, s'') \<Rightarrow> (resp # resps, s'')))"

end
