(* ===== verification/Bank_Props.thy ===== *)
theory Bank_Props
  imports Bank_Steps
begin

text \<open>
  A sample bank with one applicant and one loan, the witnesses of the properties of the loan book
  at it, and what holds in every reachable state of the bank.
\<close>

section \<open>A sample bank\<close>

definition num :: "rat \<Rightarrow> gval" where "num r = GFloat (Fin r)"

lemma fl64_numeral: "numeral n < (2 ^ 53 :: int) \<Longrightarrow> fl64 (numeral n) = Fin (numeral n)"
  using fl64_small [of "numeral n"] by simp

lemma fl64_01: "fl64 0 = Fin 0" "fl64 1 = Fin 1"
  using fl64_small [of 1] by (simp_all add: fl64_def)

lemmas evaluation = num_def numFieldF_def requireNum_def requireStr_def requireMap_def requireSlice_def ofOption_def
  floatOfInt_def fl64_numeral fl64_01 bandCovers_def clampFloat_def flLeq_def flEq_def float_to_int64_def truncRat_def Let_def
  in64_def min64_def max64_def

definition sampleScoring :: gmap where
  "sampleScoring =
     [(''rule_type'', GStr ''risk_scoring''), (''base_score'', num 600),
      (''factors'', GList [GMap [(''name'', GStr ''credit''), (''input'', GStr ''credit_score''),
         (''bands'', GList [GMap [(''max'', num 649), (''points'', num 0)], GMap [(''min'', num 650), (''points'', num 100)]])]]),
      (''clamp'', GMap [(''min'', num 300), (''max'', num 850)]),
      (''tiers'', GList [GMap [(''tier'', GStr ''B''), (''min_score'', num 0), (''pd_bps'', num 400)],
                        GMap [(''tier'', GStr ''A''), (''min_score'', num 700), (''pd_bps'', num 100)]]),
      (''lgd_bps'', num 4500)]"

definition sampleLending :: gmap where
  "sampleLending =
     [(''rule_type'', GStr ''loan_underwriting''),
      (''eligibility'', GMap [(''min_credit_score'', num 600), (''min_monthly_income_cents'', num 100000),
         (''max_debt_to_income_pct'', num 100), (''min_account_age_days'', num 30), (''min_risk_score'', num 500)]),
      (''allowed_term_months'', GList [num 1, num 12]),
      (''pricing_tiers'', GList [GMap [(''tier'', GStr ''A''), (''min_risk_score'', num 700),
         (''annual_rate_bps'', num 1200), (''max_principal_cents'', num 200000)]])]"

definition sampleApplicant :: Applicant where
  "sampleApplicant = mkApplicant ''ann'' ''Ann'' 700 101000 0 0 365"

text \<open>One month's loan of a thousand dollars at twelve per cent a year.\<close>

definition sampleBook0 :: loanbook where
  "sampleBook0 = ledger.extend
     (sampleBank0\<lparr>now := 0,
        en_cache := [(''risk_scoring'', ruleFromContent '''' sampleScoring),
          (''loan_underwriting'', ruleFromContent '''' sampleLending)],
        en_evaluators := [(''risk_scoring'', EvaluateRiskScore), (''loan_underwriting'', EvaluateUnderwriting)]\<rparr>)
     (loanbook.fields newLoanProjection [])"

definition sampleDollars :: "string \<Rightarrow> string \<Rightarrow> Account" where
  "sampleDollars ty i = (sampleAccount i ''USD'')\<lparr>ac_Type := ty\<rparr>"

definition sampleBook1 :: loanbook where
  "sampleBook1 =
     snd (OpenAccount (sampleDollars LoanLossExpense ''loan-loss-expense-usd'')
       (snd (OpenAccount (sampleDollars InterestIncome ''interest-income-usd'')
         (snd (OpenAccount (sampleDollars CustomerDeposit ''demo-account-1-usd'') sampleBook0)))))"

definition sampleBook :: loanbook where
  "sampleBook = snd (addApplicant sampleApplicant sampleBook1)"

definition sampleLoanRequest :: OriginateRequest where
  "sampleLoanRequest = \<lparr>oq_ApplicantID = ''ann'', oq_PrincipalCents = 100000, oq_TermMonths = 1\<rparr>"

definition sampleLoan :: loanbook where
  "sampleLoan = snd (Originate sampleLoanRequest sampleBook)"

lemma sampleBook0_init: "bank_init sampleBook0"
  by (simp add: bank_init_def ledger_init_def sampleBook0_def ledger.defs loanbook.defs sampleBank0_def decidedBy_def
      waterfall_wired_def spendWaterfallRuleID_def)
    (simp add: ruleFromContent_def strField_def sampleScoring_def sampleLending_def)

lemma sampleBook_reachable: "bank_reachable sampleBook" "bank_reachable sampleLoan"
proof -
  have a: "applicant_typed sampleApplicant"
    by (simp add: sampleApplicant_def mkApplicant_def applicant_typed_def in64_def min64_def max64_def)
  show b: "bank_reachable sampleBook"
    unfolding sampleBook_def sampleBook1_def
    by (intro bank_reachable.step [OF _ bank_step.applicant [OF a]] bank_reachable.step [OF _ bank_step.open_account]
        bank_reachable.init sampleBook0_init)
  show "bank_reachable sampleLoan"
    unfolding sampleLoan_def
    by (rule bank_reachable.step [OF b bank_step.originate])
      (simp_all add: sampleLoanRequest_def in64_def min64_def max64_def)
qed

lemma opened_state:
  assumes s: "loan_inv s" and ok: "timeOK (now s)" and a: "ac_ID a \<noteq> ''''" "ac_Currency a = ''USD''"
    and new: "map_of (pj_accounts (lg_proj s)) (ac_ID a) = None"
  shows "loan_inv (snd (OpenAccount a s))" and "now (snd (OpenAccount a s)) = now s"
    and "rand (snd (OpenAccount a s)) = rand s" and "loanSide (snd (OpenAccount a s)) = loanSide s"
    and "journal (st_events (snd (OpenAccount a s))) = journal (st_events s)"
    and "pj_txs (lg_proj (snd (OpenAccount a s))) = pj_txs (lg_proj s)"
    and "map_of (pj_accounts (lg_proj (snd (OpenAccount a s)))) = (map_of (pj_accounts (lg_proj s)))(ac_ID a \<mapsto> a\<lparr>ac_OpenedAt := now s\<rparr>)"
proof -
  obtain s' where s': "OpenAccount a s = (Inr (a\<lparr>ac_OpenedAt := now s\<rparr>), s')" "loan_inv s'"
    "journal (st_events s') = journal (st_events s)" "now s' = now s" "loanSide s' = loanSide s"
    "pj_txs (lg_proj s') = pj_txs (lg_proj s)"
    "\<And>i. map_of (pj_accounts (lg_proj s')) i =
      (if i = ac_ID a then Some (a\<lparr>ac_OpenedAt := now s\<rparr>) else map_of (pj_accounts (lg_proj s)) i)"
    by (rule loan_opens [OF s ok a(1) _ new]) (simp_all add: a)
  show "loan_inv (snd (OpenAccount a s))" "now (snd (OpenAccount a s)) = now s" "loanSide (snd (OpenAccount a s)) = loanSide s"
    "journal (st_events (snd (OpenAccount a s))) = journal (st_events s)"
    "pj_txs (lg_proj (snd (OpenAccount a s))) = pj_txs (lg_proj s)"
    "map_of (pj_accounts (lg_proj (snd (OpenAccount a s)))) = (map_of (pj_accounts (lg_proj s)))(ac_ID a \<mapsto> a\<lparr>ac_OpenedAt := now s\<rparr>)"
    using s' by (auto simp: fun_eq_iff)
  show "rand (snd (OpenAccount a s)) = rand s"
    using OpenAccount_frame [OF loan_inv_ledger(1) [OF s] refl] by simp
qed

lemma sampleBook0_fields:
  "now sampleBook0 = 0" "rand sampleBook0 = (\<lambda>n. ''id'' @ natStr n)" "loan_inv sampleBook0"
  "pj_accounts (lg_proj sampleBook0) = []" "journal (st_events sampleBook0) = []" "lb_applicants sampleBook0 = []"
  "pj_txs (lg_proj sampleBook0) = []" "lb_proj sampleBook0 = newLoanProjection"
  "en_cache sampleBook0 = [(''risk_scoring'', ruleFromContent '''' sampleScoring),
     (''loan_underwriting'', ruleFromContent '''' sampleLending)]"
  "en_evaluators sampleBook0 = [(''risk_scoring'', EvaluateRiskScore), (''loan_underwriting'', EvaluateUnderwriting)]"
proof -
  show "loan_inv sampleBook0" using bank_inv_init [OF sampleBook0_init] by (simp add: bank_inv_def)
qed (simp_all add: sampleBook0_def ledger.defs loanbook.defs sampleBank0_def newProjection_def)

lemma timeOK_0: "timeOK 0" by code_simp

lemma sampleDollars_fields [simp]:
  "ac_ID (sampleDollars ty i) = i" "ac_Currency (sampleDollars ty i) = ''USD''" "ac_Type (sampleDollars ty i) = ty"
  by (simp_all add: sampleDollars_def sampleAccount_def)

lemma sampleBook_fields:
  "now sampleBook = 0" "rand sampleBook = (\<lambda>n. ''id'' @ natStr n)" "loan_inv sampleBook"
  "map_of (pj_accounts (lg_proj sampleBook)) = [''demo-account-1-usd'' \<mapsto> (sampleDollars CustomerDeposit ''demo-account-1-usd'')\<lparr>ac_OpenedAt := 0\<rparr>,
     ''interest-income-usd'' \<mapsto> (sampleDollars InterestIncome ''interest-income-usd'')\<lparr>ac_OpenedAt := 0\<rparr>,
     ''loan-loss-expense-usd'' \<mapsto> (sampleDollars LoanLossExpense ''loan-loss-expense-usd'')\<lparr>ac_OpenedAt := 0\<rparr>]"
  "journal (st_events sampleBook) = []" "lb_applicants sampleBook = [(''ann'', sampleApplicant)]"
  "en_cache sampleBook = en_cache sampleBook0" "en_evaluators sampleBook = en_evaluators sampleBook0"
  "pj_txs (lg_proj sampleBook) = []" "lb_proj sampleBook = newLoanProjection"
proof -
  note o = opened_state sampleBook0_fields timeOK_0
  show inv: "loan_inv sampleBook"
    using bank_reachable_inv [OF sampleBook_reachable(1)] by (simp add: bank_inv_def)
  have "now sampleBook1 = 0 \<and> rand sampleBook1 = (\<lambda>n. ''id'' @ natStr n) \<and> loanSide sampleBook1 = loanSide sampleBook0 \<and>
    journal (st_events sampleBook1) = [] \<and> pj_txs (lg_proj sampleBook1) = [] \<and>
    map_of (pj_accounts (lg_proj sampleBook1)) = [''demo-account-1-usd'' \<mapsto> (sampleDollars CustomerDeposit ''demo-account-1-usd'')\<lparr>ac_OpenedAt := 0\<rparr>,
     ''interest-income-usd'' \<mapsto> (sampleDollars InterestIncome ''interest-income-usd'')\<lparr>ac_OpenedAt := 0\<rparr>,
     ''loan-loss-expense-usd'' \<mapsto> (sampleDollars LoanLossExpense ''loan-loss-expense-usd'')\<lparr>ac_OpenedAt := 0\<rparr>]"
    by (simp add: sampleBook1_def o)
  then show "now sampleBook = 0" "rand sampleBook = (\<lambda>n. ''id'' @ natStr n)"
    "map_of (pj_accounts (lg_proj sampleBook)) = [''demo-account-1-usd'' \<mapsto> (sampleDollars CustomerDeposit ''demo-account-1-usd'')\<lparr>ac_OpenedAt := 0\<rparr>,
     ''interest-income-usd'' \<mapsto> (sampleDollars InterestIncome ''interest-income-usd'')\<lparr>ac_OpenedAt := 0\<rparr>,
     ''loan-loss-expense-usd'' \<mapsto> (sampleDollars LoanLossExpense ''loan-loss-expense-usd'')\<lparr>ac_OpenedAt := 0\<rparr>]"
    "journal (st_events sampleBook) = []" "lb_applicants sampleBook = [(''ann'', sampleApplicant)]"
    "en_cache sampleBook = en_cache sampleBook0" "en_evaluators sampleBook = en_evaluators sampleBook0"
    "pj_txs (lg_proj sampleBook) = []" "lb_proj sampleBook = newLoanProjection"
    by (simp_all add: sampleBook_def addApplicant_def op_simps loanSide_def sampleBook0_fields)
      (simp_all add: sampleApplicant_def mkApplicant_def)
qed

lemma sampleRisk:
  "EvaluateRiskScore sampleScoring (riskInput sampleApplicant) =
     Inr [(''risk_score'', GInt64 700), (''tier'', GStr ''A''), (''pd_bps'', GInt64 100), (''lgd_bps'', GInt64 4500),
       (''factor_points'', GMap [(''credit'', GInt64 100)])]"
  by (simp add: EvaluateRiskScore_def sampleScoring_def sampleApplicant_def mkApplicant_def riskInput_def factorPoints_def
     sortedTiers_def tierEntry_def evaluation)

lemma sampleApproval:
  "EvaluateUnderwriting sampleLending (eligibilityInput sampleApplicant 700 100000 1 101000) =
   Inr [(''approved'', GBool True), (''reasons'', GStrs []), (''tier'', GStr ''A''), (''annual_rate_bps'', GInt64 1200)]"
  by (simp add: EvaluateUnderwriting_def sampleLending_def sampleApplicant_def mkApplicant_def eligibilityInput_def readInput_def
     readEligibility_def eligibilityReasons_def unless_def dtiPct_def termAllowed_def underwritingOutcome_def
     sortedTiers_def tierEntry_def evaluation)

lemma samplePricing:
  "pricingTier sampleLending 700 = Inr \<lparr>pv_AnnualRateBps = 1200, pv_Tier = ''A'', pv_MaxPrincipalCents = 200000\<rparr>"
  by (simp add: pricingTier_def sampleLending_def sortedTiers_def tierEntry_def evaluation)

lemma samplePayment: "MonthlyPayment 100000 1200 1 = 101000"
  "Schedule 100000 1200 1 0 = [mkInstallment 0 1 101000 100000 1000 0]" "timeOK (addMonths 0 1)"
  by code_simp+

lemma sampleUnderwrite:
  "\<exists>u s1. Underwrite \<lparr>uq_ApplicantID = ''ann'', uq_RequestedPrincipalCents = 100000, uq_TermMonths = 1\<rparr> sampleBook = (Inr u, s1) \<and>
     ur_Decision u = ''approved'' \<and> ur_Applicant u = sampleApplicant \<and> pv_AnnualRateBps (ur_Pricing u) = 1200"
proof -
  let ?out1 = "[(''risk_score'', GInt64 700), (''tier'', GStr ''A''), (''pd_bps'', GInt64 100), (''lgd_bps'', GInt64 4500),
       (''factor_points'', GMap [(''credit'', GInt64 100)])]"
    and ?out2 = "[(''approved'', GBool True), (''reasons'', GStrs []), (''tier'', GStr ''A''), (''annual_rate_bps'', GInt64 1200)]"
    and ?r1 = "ruleFromContent '''' sampleScoring" and ?r2 = "ruleFromContent '''' sampleLending"
  have r: "ru_Content ?r1 = sampleScoring" "ru_Content ?r2 = sampleLending" "ru_RuleType ?r1 = ''risk_scoring''"
    "ru_RuleType ?r2 = ''loan_underwriting''"
    by (simp_all add: ruleFromContent_def strField_def sampleScoring_def sampleLending_def)
  have sampleId: "ap_ID sampleApplicant = ''ann''" by (simp add: sampleApplicant_def mkApplicant_def)
  have marshalled: "\<exists>j. marshalMap (riskInput a) = Some j" "\<exists>j. marshalMap (eligibilityInput a p q n m) = Some j" for a p q n m
    by (simp_all add: riskInput_def eligibilityInput_def)
  obtain d1 s1 where 1: "Evaluate ''risk_scoring'' ''applicant'' ''ann'' (riskInput sampleApplicant) sampleBook = (Inr d1, s1)"
    "de_Output d1 = ?out1"
    using Evaluate_runs [of sampleBook "''risk_scoring''" ?r1 EvaluateRiskScore "riskInput sampleApplicant" ?out1 "''applicant''" "''ann''"]
    by (auto simp: sampleBook_fields sampleBook0_fields getEvaluator_def r sampleRisk marshalled)
  note f = Evaluate_frame [OF 1(1)]
  obtain d2 s2 where 2: "Evaluate ''loan_underwriting'' ''applicant'' ''ann'' (eligibilityInput sampleApplicant 700 100000 1 101000) s1 = (Inr d2, s2)"
    "de_Output d2 = ?out2"
    using Evaluate_runs [of s1 "''loan_underwriting''" ?r2 EvaluateUnderwriting "eligibilityInput sampleApplicant 700 100000 1 101000" ?out2
        "''applicant''" "''ann''"] f
    by (auto simp: sampleBook_fields sampleBook0_fields getEvaluator_def r sampleApproval marshalled)
  show ?thesis
    using 1 2 f
    by (simp add: Underwrite_def op_simps getApplicant_def ofOption_def sampleBook_fields sampleBook0_fields GetRule_def r
        samplePricing samplePayment orDefault_def Let_def underwriteResult_def repriced_def int64Or_def sampleId)
qed

text \<open>The loan on the book after it is paid out.\<close>

lemma sampleLoan_facts:
  obtains i loan r d x y where "GetLoan i sampleLoan = (Inr loan, sampleLoan)" and "ln_Status loan = LoanActive"
    and "ln_OutstandingPrincipalCents loan = 100000" and "ln_Schedule loan = [mkInstallment 0 1 101000 100000 1000 0]"
    and "ln_ReceivableAccountID loan = receivableID i" and "ln_DepositAccountID loan = ''demo-account-1-usd''"
    and "map_of (pj_accounts (lg_proj sampleLoan)) (receivableID i) = Some r" and "ac_Currency r = ''USD''"
    and "ac_Type r = LoanReceivable"
    and "map_of (pj_accounts (lg_proj sampleLoan)) ''demo-account-1-usd'' = Some d" and "ac_Currency d = ''USD''"
    and "naturalBalance (lg_proj sampleLoan) d = 100000" and "now sampleLoan = 0"
    and "map_of (pj_accounts (lg_proj sampleLoan)) ''interest-income-usd'' = Some x" and "ac_Currency x = ''USD''"
    and "map_of (pj_accounts (lg_proj sampleLoan)) ''loan-loss-expense-usd'' = Some y" and "ac_Currency y = ''USD''"
    and "lp_order (lb_proj sampleLoan) = [i]" and "repaid sampleLoan = {}" and "ln_MissedPayments loan = 0"
proof -
  obtain u s1 where und: "Underwrite \<lparr>uq_ApplicantID = ''ann'', uq_RequestedPrincipalCents = 100000, uq_TermMonths = 1\<rparr> sampleBook = (Inr u, s1)"
    and u: "ur_Decision u = ''approved''" "ur_Applicant u = sampleApplicant" "pv_AnnualRateBps (ur_Pricing u) = 1200"
    using sampleUnderwrite by blast
  let ?i = "rand sampleBook (drawn s1)" and ?dep = "''demo-account-1-usd''"
  have dep: "ap_DepositAccountID sampleApplicant = ?dep" by (simp add: sampleApplicant_def mkApplicant_def)
  let ?r = "loanRecordOf ?i u 100000 1 0"
  note f = sampleBook_fields
  have fresh: "map_of (pj_accounts (lg_proj sampleBook)) (receivableID ?i) = None" by (simp add: f receivableID_def)
  obtain a s' where run: "Originate sampleLoanRequest sampleBook = (Inr (loanView s' (freshLoan ?r) a), s')" and s': "loan_inv s'"
    and now: "now s' = now sampleBook"
    and jn: "journal (st_events s') = journal (st_events sampleBook) @
      [mkEntry (receivableID ?i) Debit (mkAmount ''USD'' 100000), mkEntry ?dep Credit (mkAmount ''USD'' 100000)]"
    and get: "GetLoan ?i s' = (Inr (loanView s' (freshLoan ?r) a), s')"
    and a: "map_of (pj_accounts (lg_proj s')) (receivableID ?i) = Some a" "ac_Type a = LoanReceivable" "ac_Currency a = ''USD''"
    and rest: "\<And>j. j \<noteq> receivableID ?i \<Longrightarrow> map_of (pj_accounts (lg_proj s')) j = map_of (pj_accounts (lg_proj sampleBook)) j"
    and bal: "naturalBalance (lg_proj s') a = 100000"
    and sched: "ln_Schedule (loanView s' (freshLoan ?r) a) = [mkInstallment 0 1 101000 100000 1000 0]"
    and order: "lp_order (lb_proj s') = lp_order (lb_proj sampleBook) @ [?i]" and paid: "repaid s' \<subseteq> repaid sampleBook"
    by (rule originated [OF f(3), of sampleLoanRequest 100000 1 u s1 ?i ?dep
          "(sampleDollars CustomerDeposit ?dep)\<lparr>ac_OpenedAt := 0\<rparr>" "[mkInstallment 0 1 101000 100000 1000 0]" ?r])
      (use und u fresh dep in \<open>simp_all add: f timeOK_0 sampleLoanRequest_def orDefault_def samplePayment in64_def min64_def max64_def
         mkInstallment_def\<close>)
  have s: "s' = sampleLoan" by (simp add: sampleLoan_def run)
  let ?d = "(sampleDollars CustomerDeposit ?dep)\<lparr>ac_OpenedAt := 0\<rparr>"
  have d: "map_of (pj_accounts (lg_proj s')) ?dep = Some ?d"
    "map_of (pj_accounts (lg_proj s')) ''interest-income-usd'' = Some ((sampleDollars InterestIncome ''interest-income-usd'')\<lparr>ac_OpenedAt := 0\<rparr>)"
    "map_of (pj_accounts (lg_proj s')) ''loan-loss-expense-usd'' = Some ((sampleDollars LoanLossExpense ''loan-loss-expense-usd'')\<lparr>ac_OpenedAt := 0\<rparr>)"
    using rest [of ?dep] rest [of "''interest-income-usd''"] rest [of "''loan-loss-expense-usd''"]
    by (simp_all add: f receivableID_def)
  have fields: "lr_ReceivableAccountID ?r = receivableID ?i" "lr_DepositAccountID ?r = ?dep"
    using dep u(2) by (simp_all add: loanRecordOf_def)
  have "naturalBalance (lg_proj s') ?d = 100000"
    using naturalBalance_spec [OF loan_inv_ledger(2) [OF s'], of ?d] jn
    by (simp add: f specBalance_def mkEntry_def mkAmount_def receivableID_def NormalBalance_def Let_def wrap64_def
      CustomerDeposit_def LoanReceivable_def TreasuryCash_def TreasuryFX_def LoanLossExpense_def Debit_def Credit_def)
  moreover have "lp_order (lb_proj s') = [?i]" "repaid s' = {}" "ln_MissedPayments (loanView s' (freshLoan ?r) a) = 0"
    using order paid by (simp_all add: f newLoanProjection_def repaid_def loanView_def loanOf_def Let_def)
  ultimately show thesis
    by (intro that [of ?i "loanView s' (freshLoan ?r) a" a ?d "(sampleDollars InterestIncome ''interest-income-usd'')\<lparr>ac_OpenedAt := 0\<rparr>" "(sampleDollars LoanLossExpense ''loan-loss-expense-usd'')\<lparr>ac_OpenedAt := 0\<rparr>"])
      (use get a bal sched d fields now f(1) in \<open>simp_all add: s [symmetric]\<close>)
qed

lemma sampleLoan_inv: "loan_inv sampleLoan"
  using bank_reachable_inv [OF sampleBook_reachable(2)] by (simp add: bank_inv_def)

section \<open>Witnesses for the loan book\<close>

theorem default_writes_off_witness:
  "\<exists>i loan' s'. Default i ''late'' sampleLoan = (Inr loan', s') \<and> ln_Status loan' = LoanDefaulted \<and>
     ln_OutstandingPrincipalCents loan' = 0"
proof -
  obtain i loan r y where f: "GetLoan i sampleLoan = (Inr loan, sampleLoan)" "ln_Status loan = LoanActive"
    "ln_ReceivableAccountID loan = receivableID i" "map_of (pj_accounts (lg_proj sampleLoan)) (receivableID i) = Some r"
    "ac_Currency r = ''USD''" "ac_Type r = LoanReceivable" "now sampleLoan = 0"
    "map_of (pj_accounts (lg_proj sampleLoan)) ''loan-loss-expense-usd'' = Some y" "ac_Currency y = ''USD''"
    by (rule sampleLoan_facts)
  have "receivableID i \<noteq> ''loan-loss-expense-usd''"
    by (simp add: receivableID_def)
  then show ?thesis
    using default_writes_off [OF sampleLoan_inv _ f(1,2), of r y "''late''"] f by (auto simp: timeOK_0)
qed

theorem originate_disburses_witness:
  "\<exists>loan s'. Originate sampleLoanRequest sampleBook = (Inr loan, s') \<and> ln_Status loan = LoanActive \<and>
     ln_OutstandingPrincipalCents loan = 100000"
proof -
  obtain u s1 where und: "Underwrite \<lparr>uq_ApplicantID = ''ann'', uq_RequestedPrincipalCents = 100000, uq_TermMonths = 1\<rparr> sampleBook = (Inr u, s1)"
    and u: "ur_Decision u = ''approved''" "ur_Applicant u = sampleApplicant" "pv_AnnualRateBps (ur_Pricing u) = 1200"
    using sampleUnderwrite by blast
  have dep: "ap_DepositAccountID sampleApplicant = ''demo-account-1-usd''" by (simp add: sampleApplicant_def mkApplicant_def)
  let ?d = "(sampleDollars CustomerDeposit ''demo-account-1-usd'')\<lparr>ac_OpenedAt := 0\<rparr>"
  have req: "oq_ApplicantID sampleLoanRequest = ''ann''" "in64 (oq_PrincipalCents sampleLoanRequest)" "in64 (oq_TermMonths sampleLoanRequest)"
    "100000 = orDefault DefaultPrincipalCents (oq_PrincipalCents sampleLoanRequest)"
    "1 = orDefault DefaultTermMonths (oq_TermMonths sampleLoanRequest)"
    by (simp_all add: sampleLoanRequest_def orDefault_def in64_def min64_def max64_def)
  have "map_of (pj_accounts (lg_proj sampleBook)) (receivableID (rand sampleBook (drawn s1))) = None"
    "map_of (pj_accounts (lg_proj sampleBook)) (ap_DepositAccountID (ur_Applicant u)) = Some ?d" "ac_Currency ?d = ''USD''"
    by (simp_all add: sampleBook_fields receivableID_def u dep)
  moreover have sched: "[mkInstallment 0 1 101000 100000 1000 0] = Schedule 100000 (pv_AnnualRateBps (ur_Pricing u)) 1 (now sampleBook)"
    and due: "list_all (\<lambda>x. timeOK (in_DueDate x)) [mkInstallment 0 1 101000 100000 1000 0]" and ok: "timeOK (now sampleBook)"
    by (simp_all add: sampleBook_fields u samplePayment mkInstallment_def timeOK_0)
  ultimately have cond: "ur_Decision u = ''approved'' \<and>
      map_of (pj_accounts (lg_proj sampleBook)) (receivableID (rand sampleBook (drawn s1))) = None \<and>
      (\<exists>d. map_of (pj_accounts (lg_proj sampleBook)) (ap_DepositAccountID (ur_Applicant u)) = Some d \<and> ac_Currency d = ''USD'') \<and>
      list_all (\<lambda>x. timeOK (in_DueDate x)) [mkInstallment 0 1 101000 100000 1000 0]"
    using u(1) by blast
  show ?thesis
    using mp [OF conjunct2 [OF originate_disburses [OF sampleBook_fields(3) ok req(2-5) und [folded req(1)] sched]] cond] by blast
qed

theorem repay_outcome_witness:
  "\<exists>i loan' s'. Repay i 50000 sampleLoan = (Inr loan', s') \<and> ln_OutstandingPrincipalCents loan' = 51000"
proof -
  obtain i loan r d x where f: "GetLoan i sampleLoan = (Inr loan, sampleLoan)" "ln_Status loan = LoanActive"
    "ln_OutstandingPrincipalCents loan = 100000" "ln_Schedule loan = [mkInstallment 0 1 101000 100000 1000 0]"
    "ln_ReceivableAccountID loan = receivableID i" "ln_DepositAccountID loan = ''demo-account-1-usd''"
    "map_of (pj_accounts (lg_proj sampleLoan)) (receivableID i) = Some r" "ac_Currency r = ''USD''" "ac_Type r = LoanReceivable"
    "map_of (pj_accounts (lg_proj sampleLoan)) ''demo-account-1-usd'' = Some d" "ac_Currency d = ''USD''"
    "naturalBalance (lg_proj sampleLoan) d = 100000" "now sampleLoan = 0"
    "map_of (pj_accounts (lg_proj sampleLoan)) ''interest-income-usd'' = Some x" "ac_Currency x = ''USD''"
    by (rule sampleLoan_facts)
  let ?row = "mkInstallment 0 1 101000 100000 1000 0"
  have row: "firstScheduled (ln_Schedule loan) = Some ?row" by (simp add: f firstScheduled_def mkInstallment_def)
  have "validate (lg_proj sampleLoan) (repaymentTx i loan ?row 50000) = Inr ()"
    unfolding validate_iff entry_ok_def
    by (simp add: f repaymentEntries_def mkEntry_def mkAmount_def mkInstallment_def wrap64_def)
  then obtain loan' s' where run: "Repay i 50000 sampleLoan = (Inr loan', s')"
    using Repay_runs [OF sampleLoan_inv _ _ f(1,2) row, of 50000 50000 d] f
    by (auto simp: timeOK_0 orDefault_def in64_def min64_def max64_def)
  have "distinct [receivableID i, ''demo-account-1-usd'', ''interest-income-usd'']" by (simp add: receivableID_def)
  then have "ln_OutstandingPrincipalCents loan' = 51000"
    using repay_outcome [OF sampleLoan_inv _ run f(1), of r] row f
    by (auto simp: orDefault_def in64_def min64_def max64_def mkInstallment_def wrap64_def)
  with run show ?thesis by blast
qed

section \<open>Properties of the bank\<close>

text \<open>C25: Whatever the ledger, the customers and the loan book do, in whatever order and with whatever
  restarts in between, the books of the bank balance in every currency (as 64-bit sums), every
  account stands at what the journal says, and the loan book is the replay of its events in the log
  it shares with the ledger.\<close>

theorem bank_is_consistent:
  assumes "bank_reachable s"
  shows "wrap64 (sumCur c (pj_accounts (lg_proj s)) (debitOf (lg_proj s))) =
      wrap64 (sumCur c (pj_accounts (lg_proj s)) (creditOf (lg_proj s))) \<and>
    debitOf (lg_proj s) a = wrap64 (sumFor Debit a (journal (st_events s))) \<and>
    creditOf (lg_proj s) a = wrap64 (sumFor Credit a (journal (st_events s))) \<and>
    lb_proj s = replay apply_loan loanEventTypes (st_events s) newLoanProjection"
proof -
  have l: "loan_inv s" using bank_reachable_inv [OF assms] by (simp add: bank_inv_def)
  then have inv: "ledger_inv s" by simp
  then have "trial_balance (lg_proj s)" by (simp add: ledger_inv_def proj_inv_def)
  then show ?thesis
    using synced_totals [OF ledger_inv_synced [OF inv]] loan_inv_synced [OF l]
    by (simp add: trial_balance_def loan_synced_def)
qed

theorem bank_is_consistent_witness:
  "wrap64 (sumCur ''USD'' (pj_accounts (lg_proj sampleLoan)) (debitOf (lg_proj sampleLoan))) =
   wrap64 (sumCur ''USD'' (pj_accounts (lg_proj sampleLoan)) (creditOf (lg_proj sampleLoan)))"
  using bank_is_consistent [OF sampleBook_reachable(2)] by blast

text \<open>C26: A process that comes back with the projections of any two prefixes of the log, one for the
  ledger and one for the loan book, has after one refresh of each exactly the state of the process
  that kept running.\<close>

theorem bank_catches_up:
  assumes "bank_reachable s"
  shows "bindE refresh_ledger (\<lambda>_. refresh_loan)
      (s\<lparr>lg_proj := replay apply_ledger ledgerEventTypes (take k (st_events s)) newProjection,
         lb_proj := replay apply_loan loanEventTypes (take l (st_events s)) newLoanProjection\<rparr>) = (Inr (), s)"
proof -
  have inv: "loan_inv s" using bank_reachable_inv [OF assms] by (simp add: bank_inv_def)
  then have sy: "ledger_synced s" "loan_synced s" by (simp_all add: loan_inv_synced)
  let ?t = "s\<lparr>lb_proj := replay apply_loan loanEventTypes (take l (st_events s)) newLoanProjection\<rparr>"
  let ?u = "s\<lparr>lg_proj := replay apply_ledger ledgerEventTypes (take k (st_events s)) newProjection,
         lb_proj := replay apply_loan loanEventTypes (take l (st_events s)) newLoanProjection\<rparr>"
  have "refresh_ledger ?u = (Inr (), ?u\<lparr>lg_proj := replay apply_ledger ledgerEventTypes (st_events ?u) newProjection\<rparr>)"
    by (rule refresh_catches_up [of _ "take k (st_events s)" "drop k (st_events s)"])
      (use sy in \<open>simp_all add: ledger_synced_def log_wf_def\<close>)
  then have "refresh_ledger ?u = (Inr (), ?t)" using sy by (simp add: ledger_synced_def)
  moreover have "refresh_loan ?t = (Inr (), ?t\<lparr>lb_proj := replay apply_loan loanEventTypes (st_events ?t) newLoanProjection\<rparr>)"
    by (rule refresh_loan_catches_up [of _ "take l (st_events s)" "drop l (st_events s)"])
      (use sy in \<open>simp_all add: loan_synced_def log_wf_def\<close>)
  ultimately show ?thesis using sy by (simp add: op_simps loan_synced_def)
qed

theorem bank_catches_up_witness:
  "bindE refresh_ledger (\<lambda>_. refresh_loan) (sampleLoan\<lparr>lg_proj := newProjection, lb_proj := newLoanProjection\<rparr>) = (Inr (), sampleLoan)"
  using bank_catches_up [OF sampleBook_reachable(2), of 0 0] by simp

end
