(* ===== verification/Dash_Props.thy ===== *)
theory Dash_Props
  imports Dash_Service Bank_Props
begin

text \<open>
  What the dashboard promises: it only reads, its flows reconcile with their breakdowns, and its
  percentages are the exact ones rounded to the places they are shown with.
\<close>

section \<open>Reading leaves the bank alone\<close>

text \<open>
  \<open>calm v vs apps s\<close>: the state is sound, what the services read is \<open>v\<close>, the stored versions are
  \<open>vs\<close>, and the applications of rules recorded so far start with \<open>apps\<close>.
\<close>

definition calm :: "Event list \<times> int \<times> projection \<times> loanProjection \<times> instant \<times>
    (nat \<Rightarrow> string) \<times> (string \<times> Applicant) list \<times> (string \<times> Rule) list \<times> (string \<times> Evaluator) list \<Rightarrow>
    (string \<times> RuleVersion list) list \<Rightarrow> RuleApplication list \<Rightarrow> 'z loanbook_scheme \<Rightarrow> bool" where
  "calm v vs apps s \<longleftrightarrow>
     loan_inv s \<and> quietView s = v \<and> st_versions s = vs \<and> (\<exists>more. st_apps s = apps @ more)"

lemma Evaluate_apps:
  "st_versions (snd (Evaluate r ty i input s)) = st_versions s \<and>
   (\<exists>more. st_apps (snd (Evaluate r ty i input s)) = st_apps s @ more)"
  by (auto simp: Evaluate_def GetRule_def getEvaluator_def ofOption_def ctxR_def ctxE_def bindE_def
      InsertRuleApplication_def op_simps Let_def split: option.splits sum.splits prod.splits if_splits)

lemma calm_Evaluate [pres]: "preserves (calm v vs apps) (Evaluate r ty i input)"
proof (rule preservesI)
  fix s :: "'z loanbook_scheme"
  assume s: "calm v vs apps s"
  then have "quiet v (snd (Evaluate r ty i input s))"
    by (intro preservesD [OF quiet_Evaluate]) (simp add: calm_def quiet_def)
  then have q: "quietView (snd (Evaluate r ty i input s)) = quietView s" using s by (simp add: quiet_def calm_def)
  moreover have "loan_inv (snd (Evaluate r ty i input s))"
    by (rule loan_inv_quiet [OF q]) (use s in \<open>simp add: calm_def\<close>)
  ultimately show "calm v vs apps (snd (Evaluate r ty i input s))"
    using s Evaluate_apps [of r ty i input s] by (auto simp: calm_def)
qed

lemma calm_reads [pres]:
  "preserves (calm v vs apps) ListAccounts" "preserves (calm v vs apps) Balances" "preserves (calm v vs apps) BalancesByType"
  "preserves (calm v vs apps) (ListTransactions f)" "preserves (calm v vs apps) (Balance i)" "preserves (calm v vs apps) Now"
  by (auto simp: preserves_def calm_def ListAccounts_def Balances_def BalancesByType_def ListTransactions_def
      op_simps Now_def)

lemma calm_refresh_loan [pres]: "preserves (calm v vs apps) refresh_loan"
  by (auto simp: preserves_def calm_def loan_inv_synced)

lemma calm_PortfolioSnapshot [pres]: "preserves (calm v vs apps) PortfolioSnapshot"
proof -
  have "preserves (calm v vs apps) (buildLoan st)" for st unfolding buildLoan_def by (intro pres)
  then have "preserves (calm v vs apps) (listedLoan i)" for i unfolding listedLoan_def by (intro pres)
  then show ?thesis unfolding PortfolioSnapshot_def ListLoans_def by (intro pres)
qed

lemma calm_rwaLoop [pres]: "preserves (calm v vs apps) (rwaLoop exposures acc)"
  by (induction exposures arbitrary: acc) (auto intro!: pres)

lemma calm_dashboard [pres]:
  "preserves (calm v vs apps) LedgerBook" "preserves (calm v vs apps) (Flows frm to)" "preserves (calm v vs apps) Ratios"
  unfolding LedgerBook_def Flows_def Ratios_def Let_def by (intro pres)+

lemma calm_Summary: "preserves (calm v vs apps) DashboardSummary"
  unfolding DashboardSummary_def by (intro pres)

text \<open>The dashboard only reads. Whether it succeeds or fails, the summary (ledger book, flows and
  ratios) leaves the event log, both projections, the clock, the applicants, the rules in the cache
  and every stored rule version as they were; all it writes are applications of rules, after the
  ones recorded before.\<close>

theorem dashboard_only_reads:
  assumes "bank_reachable s" and "DashboardSummary s = (res, s')"
  shows "st_events s' = st_events s \<and> lg_proj s' = lg_proj s \<and> lb_proj s' = lb_proj s \<and> now s' = now s \<and>
    lb_applicants s' = lb_applicants s \<and> en_cache s' = en_cache s \<and> st_versions s' = st_versions s \<and>
    (\<exists>more. st_apps s' = st_apps s @ more)"
proof -
  have "loan_inv s" using bank_reachable_inv [OF assms(1)] by (simp add: bank_inv_def)
  then have "calm (quietView s) (st_versions s) (st_apps s) s'"
    by (intro preserves_result [OF calm_Summary _ assms(2)]) (simp add: calm_def)
  then show ?thesis by (simp add: calm_def quietView_def)
qed

theorem dashboard_only_reads_witness:
  "st_events (snd (DashboardSummary sampleLoan)) = st_events sampleLoan"
  using dashboard_only_reads [OF sampleBook_reachable(2) surjective_pairing] by blast

section \<open>Flows reconcile\<close>

lemma sum_update:
  fixes f :: "'v \<Rightarrow> int"
  assumes "distinct (map fst xs)" and "f d = 0"
  shows "sum_list (map (\<lambda>x. f (snd x)) (AList.update k v xs)) = sum_list (map (\<lambda>x. f (snd x)) xs) - f (getOr d xs k) + f v"
  using assms(1)
proof (induction xs)
  case Nil
  then show ?case using assms(2) by (simp add: getOr_def)
next
  case (Cons x xs)
  then show ?case using assms(2) by (cases x) (auto simp: getOr_def split: option.split)
qed

text \<open>The flows of one kind of transaction, and the days, as integers.\<close>

definition kindSum :: "string list \<Rightarrow> (string \<times> FlowBreakdown) list \<Rightarrow> int" where
  "kindSum ks rows = sum_list (map (\<lambda>x. if fb_Kind (snd x) \<in> set ks then fb_UsdEquivalentCents (snd x) else 0) rows)"

definition daySum :: "(DailyFlow \<Rightarrow> int) \<Rightarrow> (string \<times> DailyFlow) list \<Rightarrow> int" where
  "daySum f rows = sum_list (map (\<lambda>x. f (snd x)) rows)"

definition countSum :: "(string \<times> FlowBreakdown) list \<Rightarrow> int" where
  "countSum rows = sum_list (map (\<lambda>x. fb_Count (snd x)) rows)"

definition reconciled :: "int \<Rightarrow> flowAcc \<Rightarrow> bool" where
  "reconciled n acc \<longleftrightarrow> distinct (map fst (fa_Kinds acc)) \<and> distinct (map fst (fa_Days acc)) \<and>
     list_all (\<lambda>(k, b). fb_Kind b = k \<and> (k \<in> set inflowKinds \<or> k \<in> set outflowKinds)) (fa_Kinds acc) \<and>
     list_all (\<lambda>(k, d). df_Date d = k) (fa_Days acc) \<and>
     fa_In acc = wrap64 (kindSum inflowKinds (fa_Kinds acc)) \<and> fa_Out acc = wrap64 (kindSum outflowKinds (fa_Kinds acc)) \<and>
     fa_In acc = wrap64 (daySum df_InflowsCents (fa_Days acc)) \<and> fa_Out acc = wrap64 (daySum df_OutflowsCents (fa_Days acc)) \<and>
     wrap64 n = wrap64 (countSum (fa_Kinds acc))"

lemma kinds_disjoint: "k \<in> set inflowKinds \<Longrightarrow> k \<notin> set outflowKinds"
  by (auto simp: inflowKinds_def outflowKinds_def)

lemma list_all_update: "list_all P xs \<Longrightarrow> P (k, v) \<Longrightarrow> list_all P (AList.update k v xs)"
  by (induction xs) auto

lemma getOr_key:
  "list_all (\<lambda>(k, b). g b = k) xs \<Longrightarrow> g d = k \<Longrightarrow> g (getOr d xs k) = k"
  by (induction xs) (auto simp: getOr_def split: option.splits if_splits)

lemma wrap64_step: "wrap64 a = wrap64 b \<Longrightarrow> wrap64 (a + c) = wrap64 (b + c)"
  by (metis wrap64_add_left)

lemma wrap64_replace: "wrap64 (a - b + wrap64 (b + c)) = wrap64 (a + c)"
proof -
  have "wrap64 (a - b + wrap64 (b + c)) = wrap64 (a - b + (b + c))" by (simp only: wrap64_add_right)
  also have "a - b + (b + c) = a + c" by simp
  finally show ?thesis .
qed

lemma getOr_In: "P d \<Longrightarrow> (\<And>v. (k, v) \<in> set xs \<Longrightarrow> P v) \<Longrightarrow> P (getOr d xs k)"
  by (auto simp: getOr_def split: option.split dest: map_of_SomeD)

lemma kindSum_add:
  assumes "distinct (map fst rows)"
    and "bd = getOr \<lparr>fb_Kind = k, fb_UsdEquivalentCents = 0, fb_Count = 0\<rparr> rows k" and "fb_Kind bd = k"
  shows "wrap64 (kindSum ks (AList.update k (bd\<lparr>fb_UsdEquivalentCents := wrap64 (fb_UsdEquivalentCents bd + usd), fb_Count := n\<rparr>) rows)) =
    wrap64 (kindSum ks rows + (if k \<in> set ks then usd else 0))"
  unfolding kindSum_def
  by (subst sum_update [OF assms(1), of _ "\<lparr>fb_Kind = k, fb_UsdEquivalentCents = 0, fb_Count = 0\<rparr>"])
     (simp_all add: assms(3) wrap64_replace flip: assms(2))

lemma countSum_add:
  assumes "distinct (map fst rows)"
    and "bd = getOr \<lparr>fb_Kind = k, fb_UsdEquivalentCents = 0, fb_Count = 0\<rparr> rows k"
  shows "wrap64 (countSum (AList.update k (bd\<lparr>fb_UsdEquivalentCents := m, fb_Count := wrap64 (fb_Count bd + 1)\<rparr>) rows)) =
    wrap64 (countSum rows + 1)"
  unfolding countSum_def
  by (subst sum_update [OF assms(1), of _ "\<lparr>fb_Kind = k, fb_UsdEquivalentCents = 0, fb_Count = 0\<rparr>"])
     (simp_all add: wrap64_replace flip: assms(2))

lemma daySum_add:
  assumes "distinct (map fst rows)" and "f \<lparr>df_Date = k, df_InflowsCents = 0, df_OutflowsCents = 0\<rparr> = 0"
    and "wrap64 (f d') = wrap64 (f (getOr \<lparr>df_Date = k, df_InflowsCents = 0, df_OutflowsCents = 0\<rparr> rows k) + c)"
  shows "wrap64 (daySum f (AList.update k d' rows)) = wrap64 (daySum f rows + c)"
proof -
  let ?b = "f (getOr \<lparr>df_Date = k, df_InflowsCents = 0, df_OutflowsCents = 0\<rparr> rows k)"
  have "wrap64 (daySum f (AList.update k d' rows)) = wrap64 (daySum f rows - ?b + f d')"
    using sum_update [where f = f and d = "\<lparr>df_Date = k, df_InflowsCents = 0, df_OutflowsCents = 0\<rparr>", OF assms(1,2), of k d']
    unfolding daySum_def by simp
  also have "\<dots> = wrap64 (daySum f rows - ?b + wrap64 (f d'))" by (simp only: wrap64_add_right)
  also have "\<dots> = wrap64 (daySum f rows + c)" unfolding assms(3) by (rule wrap64_replace)
  finally show ?thesis .
qed

lemma reconciled_add:
  assumes r: "reconciled n acc" and k: "tx_Kind tx \<in> set inflowKinds \<or> tx_Kind tx \<in> set outflowKinds"
  shows "reconciled (n + 1) (addFlow tx usd acc)"
proof -
  let ?k = "tx_Kind tx" and ?day = "formatDay (tx_OccurredAt tx)"
  let ?bd = "getOr \<lparr>fb_Kind = ?k, fb_UsdEquivalentCents = 0, fb_Count = 0\<rparr> (fa_Kinds acc) ?k"
    and ?d = "getOr \<lparr>df_Date = ?day, df_InflowsCents = 0, df_OutflowsCents = 0\<rparr> (fa_Days acc) ?day"
  have dist: "distinct (map fst (fa_Kinds acc))" "distinct (map fst (fa_Days acc))" using r by (simp_all add: reconciled_def)
  have kind: "fb_Kind ?bd = ?k"
    by (rule getOr_In) (use r in \<open>auto simp: reconciled_def list_all_iff\<close>)
  have day: "df_Date ?d = ?day"
    by (rule getOr_In) (use r in \<open>auto simp: reconciled_def list_all_iff\<close>)
  have cases: "?k \<in> set inflowKinds \<and> ?k \<notin> set outflowKinds \<or> ?k \<notin> set inflowKinds \<and> ?k \<in> set outflowKinds"
    using k kinds_disjoint by blast
  let ?dIn = "?d\<lparr>df_InflowsCents := wrap64 (df_InflowsCents ?d + usd)\<rparr>"
    and ?dOut = "?d\<lparr>df_OutflowsCents := wrap64 (df_OutflowsCents ?d + usd)\<rparr>"
  let ?days = "\<lambda>d'. AList.update ?day d' (fa_Days acc)"
  have inDay: "wrap64 (daySum df_InflowsCents (?days ?dIn)) = wrap64 (daySum df_InflowsCents (fa_Days acc) + usd)"
      "wrap64 (daySum df_OutflowsCents (?days ?dIn)) = wrap64 (daySum df_OutflowsCents (fa_Days acc) + 0)"
    by (rule daySum_add [OF dist(2)]; simp)+
  have outDay: "wrap64 (daySum df_InflowsCents (?days ?dOut)) = wrap64 (daySum df_InflowsCents (fa_Days acc) + 0)"
      "wrap64 (daySum df_OutflowsCents (?days ?dOut)) = wrap64 (daySum df_OutflowsCents (fa_Days acc) + usd)"
    by (rule daySum_add [OF dist(2)]; simp)+
  let ?bd' = "?bd\<lparr>fb_UsdEquivalentCents := wrap64 (fb_UsdEquivalentCents ?bd + usd), fb_Count := wrap64 (fb_Count ?bd + 1)\<rparr>"
  have fields: "fa_Kinds (addFlow tx usd acc) = AList.update ?k ?bd' (fa_Kinds acc)"
      "fa_Days (addFlow tx usd acc) = ?days (if ?k \<in> set inflowKinds then ?dIn else ?dOut)"
      "fa_In (addFlow tx usd acc) = (if ?k \<in> set inflowKinds then wrap64 (fa_In acc + usd) else fa_In acc)"
      "fa_Out (addFlow tx usd acc) = (if ?k \<in> set inflowKinds then fa_Out acc else wrap64 (fa_Out acc + usd))"
    by (simp_all add: addFlow_def Let_def)
  have shape: "distinct (map fst (fa_Kinds (addFlow tx usd acc)))" "distinct (map fst (fa_Days (addFlow tx usd acc)))"
      "list_all (\<lambda>(k, b). fb_Kind b = k \<and> (k \<in> set inflowKinds \<or> k \<in> set outflowKinds)) (fa_Kinds (addFlow tx usd acc))"
      "list_all (\<lambda>(k, d). df_Date d = k) (fa_Days (addFlow tx usd acc))"
    unfolding fields using r k kind day by (auto simp only: reconciled_def distinct_update intro!: list_all_update) simp_all
  have counts: "wrap64 (n + 1) = wrap64 (countSum (fa_Kinds (addFlow tx usd acc)))"
    unfolding fields countSum_add [OF dist(1) refl] using r by (intro wrap64_step) (simp add: reconciled_def)
  have old: "fa_In acc = wrap64 (kindSum inflowKinds (fa_Kinds acc))" "fa_Out acc = wrap64 (kindSum outflowKinds (fa_Kinds acc))"
      "fa_In acc = wrap64 (daySum df_InflowsCents (fa_Days acc))" "fa_Out acc = wrap64 (daySum df_OutflowsCents (fa_Days acc))"
    using r unfolding reconciled_def by (blast, blast, blast, blast)
  have kindsIn: "fa_In (addFlow tx usd acc) = wrap64 (kindSum inflowKinds (fa_Kinds (addFlow tx usd acc)))"
    and kindsOut: "fa_Out (addFlow tx usd acc) = wrap64 (kindSum outflowKinds (fa_Kinds (addFlow tx usd acc)))"
    unfolding fields kindSum_add [OF dist(1) refl kind] using cases by (auto simp only: old(1,2) wrap64_add_left add_0_right if_True if_False)
  have daysIn: "fa_In (addFlow tx usd acc) = wrap64 (daySum df_InflowsCents (fa_Days (addFlow tx usd acc)))"
    and daysOut: "fa_Out (addFlow tx usd acc) = wrap64 (daySum df_OutflowsCents (fa_Days (addFlow tx usd acc)))"
    unfolding fields using cases by (auto simp only: old(3,4) inDay outDay wrap64_add_left add_0_right if_True if_False)
  show ?thesis
    unfolding reconciled_def by (intro conjI shape kindsIn kindsOut daysIn daysOut counts)
qed

text \<open>What the loop counts, and what a transaction is worth in dollars.\<close>

definition flowOf :: "string list \<Rightarrow> instant \<Rightarrow> Transaction \<Rightarrow> bool" where
  "flowOf ks to tx \<longleftrightarrow> tx_OccurredAt tx < to \<and> tx_Kind tx \<in> set ks"

definition dollarsOf :: "'z ledger_scheme \<Rightarrow> Transaction \<Rightarrow> int64" where
  "dollarsOf s tx = (case toUSD s (tx_Currency tx) (txPrincipal tx) of Inl _ \<Rightarrow> 0 | Inr u \<Rightarrow> u)"

definition flowTotal :: "'z ledger_scheme \<Rightarrow> string list \<Rightarrow> instant \<Rightarrow> Transaction list \<Rightarrow> int" where
  "flowTotal s ks to txs = sum_list (map (dollarsOf s) (filter (flowOf ks to) txs))"

lemma flowLoop_reconciled:
  assumes "flowLoop s to txs acc = Inr acc'" and "reconciled n acc"
    and "fa_In acc = wrap64 a" and "fa_Out acc = wrap64 b"
  shows "reconciled (n + int (length (filter (flowOf (inflowKinds @ outflowKinds) to) txs))) acc' \<and>
    fa_In acc' = wrap64 (a + flowTotal s inflowKinds to txs) \<and> fa_Out acc' = wrap64 (b + flowTotal s outflowKinds to txs)"
  using assms
proof (induction txs arbitrary: acc n a b)
  case Nil
  then show ?case by (simp add: flowTotal_def)
next
  case (Cons tx txs)
  show ?case
  proof (cases "flowOf (inflowKinds @ outflowKinds) to tx")
    case False
    then have "flowLoop s to txs acc = Inr acc'" using Cons.prems(1) by (auto simp: flowOf_def split: if_splits)
    from Cons.IH [OF this Cons.prems(2-)] False show ?thesis
      by (auto simp: flowTotal_def flowOf_def)
  next
    case True
    then have k: "tx_Kind tx \<in> set inflowKinds \<or> tx_Kind tx \<in> set outflowKinds" and t: "tx_OccurredAt tx < to"
      by (auto simp: flowOf_def)
    obtain u where u: "toUSD s (tx_Currency tx) (txPrincipal tx) = Inr u" and rest: "flowLoop s to txs (addFlow tx u acc) = Inr acc'"
      using Cons.prems(1) k t by (auto simp: bindR_eq_Inr split: if_splits)
    have d: "dollarsOf s tx = u" by (simp add: dollarsOf_def u)
    have fields: "fa_In (addFlow tx u acc) = (if tx_Kind tx \<in> set inflowKinds then wrap64 (a + u) else wrap64 a)"
      "fa_Out (addFlow tx u acc) = (if tx_Kind tx \<in> set inflowKinds then wrap64 b else wrap64 (b + u))"
      by (simp_all add: addFlow_def Let_def Cons.prems(3,4) wrap64_add_left)
    note IH = Cons.IH [OF rest reconciled_add [OF Cons.prems(2) k]]
    show ?thesis
    proof (cases "tx_Kind tx \<in> set inflowKinds")
      case yes: True
      then have "tx_Kind tx \<notin> set outflowKinds" by (rule kinds_disjoint)
      with yes IH [of "a + u" b] t True show ?thesis by (simp add: fields flowTotal_def flowOf_def d add_ac)
    next
      case no: False
      then have "tx_Kind tx \<in> set outflowKinds" using k by blast
      with no IH [of a "b + u"] t True show ?thesis by (simp add: fields flowTotal_def flowOf_def d add_ac)
    qed
  qed
qed

lemma sum_perm:
  fixes f :: "'a \<Rightarrow> int"
  assumes "mset ys = mset xs"
  shows "sum_list (map f xs) = sum_list (map f ys)"
proof -
  have "sum_mset (mset (map f xs)) = sum_mset (mset (map f ys))" using assms by simp
  then show ?thesis by (simp only: sum_mset_sum_list)
qed

lemma sum_filter: "sum_list (map (\<lambda>x. if P (g x) then f (g x) else 0) ys) = (sum_list (map f (filter P (map g ys))) :: int)"
  by (induction ys) simp_all

lemma row_sums:
  assumes "mset ys = mset xs"
  shows "kindSum ks xs = sum_list (map fb_UsdEquivalentCents (filter (\<lambda>b. fb_Kind b \<in> set ks) (map snd ys)))"
    and "countSum xs = sum_list (map fb_Count (map snd ys))"
    and "daySum f ds = sum_list (map f (map snd (sort_key fst ds)))"
  unfolding kindSum_def countSum_def daySum_def sum_filter [symmetric] map_map comp_def
  by (rule sum_perm, simp add: assms)+

lemma sorted_keys:
  fixes xs :: "(string \<times> 'v) list"
  assumes d: "distinct (map fst xs)" and k: "list_all (\<lambda>(k, v). g v = k) xs"
  shows "sorted_wrt (<) (map g (map snd (sort_key fst xs)))"
proof -
  have "\<forall>x\<in>set (sort_key fst xs). g (snd x) = fst x" using k by (auto simp: list_all_iff)
  then have e: "map g (map snd (sort_key fst xs)) = map fst (sort_key fst xs)" unfolding map_map comp_def by simp
  have "mset (map fst (sort_key fst xs)) = mset (map fst xs)" by simp
  then have "distinct (map fst (sort_key fst xs))" using d mset_eq_imp_distinct_iff by blast
  then show ?thesis unfolding e strict_sorted_iff by (simp only: sorted_sort_key)
qed

text \<open>The filter of \<open>Flows\<close>.\<close>

definition sinceFilter :: "instant \<Rightarrow> TxFilter" where
  "sinceFilter frm = \<lparr>tf_AccountID = '''', tf_Kind = '''', tf_From = frm, tf_To = zeroTime, tf_Status = ''''\<rparr>"

text \<open>C28: The flows of a period reconcile. The inflows are the dollar values of the listed transactions
  of an inflow kind that occurred before the end of the period, the outflows those of an outflow
  kind, and the net flow is their difference; the breakdown by kind and the daily breakdown each add
  up to the same totals (as 64-bit sums), with one row for each kind and each day, in order, and the
  counts of the rows add up to the number of transactions counted.\<close>

theorem flows_reconcile:
  assumes "Flows frm to s = (Inr v, s')" and "ListTransactions (sinceFilter frm) s = (Inr txs, s1)"
  shows "s' = s1 \<and> fl_NetCents v = wrap64 (fl_InflowsCents v - fl_OutflowsCents v) \<and>
    fl_InflowsCents v = wrap64 (flowTotal s1 inflowKinds to txs) \<and>
    fl_OutflowsCents v = wrap64 (flowTotal s1 outflowKinds to txs) \<and>
    fl_InflowsCents v = wrap64 (sum_list (map fb_UsdEquivalentCents (filter (\<lambda>b. fb_Kind b \<in> set inflowKinds) (fl_ByKind v)))) \<and>
    fl_OutflowsCents v = wrap64 (sum_list (map fb_UsdEquivalentCents (filter (\<lambda>b. fb_Kind b \<in> set outflowKinds) (fl_ByKind v)))) \<and>
    fl_InflowsCents v = wrap64 (sum_list (map df_InflowsCents (fl_Daily v))) \<and>
    fl_OutflowsCents v = wrap64 (sum_list (map df_OutflowsCents (fl_Daily v))) \<and>
    sorted_wrt (<) (map fb_Kind (fl_ByKind v)) \<and> sorted_wrt (<) (map df_Date (fl_Daily v)) \<and>
    wrap64 (sum_list (map fb_Count (fl_ByKind v))) = wrap64 (int (length (filter (flowOf (inflowKinds @ outflowKinds) to) txs)))"
proof -
  let ?acc0 = "\<lparr>fa_In = 0, fa_Out = 0, fa_Kinds = [], fa_Days = []\<rparr>"
  have run: "ctxE ''dashboard: listing transactions'' (ListTransactions (sinceFilter frm)) s = (Inr txs, s1)"
    using assms(2) by (simp add: ctxE_eq_Inr)
  obtain acc where loop: "flowLoop s1 to txs ?acc0 = Inr acc"
    and v: "s' = s1" "v = \<lparr>fl_From = frm, fl_To = to, fl_InflowsCents = fa_In acc, fl_OutflowsCents = fa_Out acc,
      fl_NetCents = wrap64 (fa_In acc - fa_Out acc),
      fl_ByKind = map snd (sort_key fst (fa_Kinds acc)), fl_Daily = map snd (sort_key fst (fa_Days acc))\<rparr>"
    using assms(1) unfolding Flows_def sinceFilter_def [symmetric] by (auto simp: bindE_eq_Inr run op_simps)
  have "reconciled 0 ?acc0" by (simp add: reconciled_def kindSum_def daySum_def countSum_def)
  from flowLoop_reconciled [OF loop this, of 0 0]
  have r: "reconciled (int (length (filter (flowOf (inflowKinds @ outflowKinds) to) txs))) acc"
    and t: "fa_In acc = wrap64 (flowTotal s1 inflowKinds to txs)" "fa_Out acc = wrap64 (flowTotal s1 outflowKinds to txs)"
    by simp_all
  have k: "list_all (\<lambda>(k, b). fb_Kind b = k) (fa_Kinds acc)"
    using r by (auto simp: reconciled_def list_all_iff)
  note keys = sorted_keys [OF _ k] sorted_keys [of "fa_Days acc" df_Date]
  note sums = row_sums [OF mset_sort [of fst "fa_Kinds acc"]] row_sums(3) [where ds = "fa_Days acc", OF refl]
  have kinds: "fa_In acc = wrap64 (kindSum inflowKinds (fa_Kinds acc))" "fa_Out acc = wrap64 (kindSum outflowKinds (fa_Kinds acc))"
    and days: "fa_In acc = wrap64 (daySum df_InflowsCents (fa_Days acc))" "fa_Out acc = wrap64 (daySum df_OutflowsCents (fa_Days acc))"
    and counts: "wrap64 (int (length (filter (flowOf (inflowKinds @ outflowKinds) to) txs))) = wrap64 (countSum (fa_Kinds acc))"
    and dist: "distinct (map fst (fa_Kinds acc))" "distinct (map fst (fa_Days acc))" "list_all (\<lambda>(k, d). df_Date d = k) (fa_Days acc)"
    using r unfolding reconciled_def by (blast, blast, blast, blast, blast, blast, blast, blast)
  have "sorted_wrt (<) (map fb_Kind (fl_ByKind v)) \<and> sorted_wrt (<) (map df_Date (fl_Daily v))"
    using keys dist by (simp only: v FlowsView.select_convs)
  then show ?thesis
    using kinds days counts t unfolding sums by (simp only: v FlowsView.select_convs simp_thms)
qed

text \<open>A deposit of five dollars and a payout of three, seen on the day after.\<close>

definition sampleFlow :: "string \<Rightarrow> string \<Rightarrow> instant \<Rightarrow> int64 \<Rightarrow> Transaction" where
  "sampleFlow i kind t cents =
     \<lparr>tx_ID = i, tx_Kind = kind, tx_Description = '''', tx_Currency = ''USD'',
      tx_Entries = [mkEntry ''cash'' Debit (mkAmount ''USD'' cents), mkEntry ''ann'' Credit (mkAmount ''USD'' cents)],
      tx_Status = StatusFinal, tx_LinkedTxID = '''', tx_Metadata = [], tx_OccurredAt = t\<rparr>"

definition sampleFlows :: loanbook where
  "sampleFlows = sampleBook0\<lparr>lg_proj := newProjection\<lparr>pj_txs :=
     [(''a'', sampleFlow ''a'' ''deposit'' 0 500), (''b'', sampleFlow ''b'' ''loan.disbursement'' 1 300)]\<rparr>\<rparr>"

lemma sampleFlow_fields:
  "tx_Kind (sampleFlow i k t c) = k" "tx_OccurredAt (sampleFlow i k t c) = t" "tx_Currency (sampleFlow i k t c) = ''USD''"
  "in64 c \<Longrightarrow> txPrincipal (sampleFlow i k t c) = c" "formatDay 0 = ''1970-01-01''" "formatDay 1 = ''1970-01-01''"
  by (simp_all add: sampleFlow_def txPrincipal_def mkEntry_def mkAmount_def) code_simp+

theorem flows_reconcile_witness:
  "\<exists>v. Flows 0 2 sampleFlows = (Inr v, sampleFlows) \<and> fl_NetCents v = 200 \<and>
     fl_InflowsCents v = wrap64 (sum_list (map df_InflowsCents (fl_Daily v)))"
proof -
  have r: "refresh_ledger sampleFlows = (Inr (), sampleFlows)"
    by (simp add: refresh_app sampleFlows_def) (simp add: sampleBook0_def ledger.defs loanbook.defs sampleBank0_def applyAll_def returnE_def)
  have l: "ListTransactions (sinceFilter 0) sampleFlows =
      (Inr [sampleFlow ''a'' ''deposit'' 0 500, sampleFlow ''b'' ''loan.disbursement'' 1 300], sampleFlows)"
    by (simp add: ListTransactions_def op_simps r)
       (simp add: sampleFlows_def sampleFlow_def matchesTx_def sinceFilter_def zeroTime_def)
  have f: "Flows 0 2 sampleFlows = (Inr \<lparr>fl_From = 0, fl_To = 2, fl_InflowsCents = 500, fl_OutflowsCents = 300, fl_NetCents = 200,
      fl_ByKind = [\<lparr>fb_Kind = ''deposit'', fb_UsdEquivalentCents = 500, fb_Count = 1\<rparr>,
        \<lparr>fb_Kind = ''loan.disbursement'', fb_UsdEquivalentCents = 300, fb_Count = 1\<rparr>],
      fl_Daily = [\<lparr>df_Date = formatDay 0, df_InflowsCents = 500, df_OutflowsCents = 300\<rparr>]\<rparr>, sampleFlows)"
    unfolding Flows_def sinceFilter_def [symmetric]
    by (simp add: op_simps l ctxE_def sampleFlow_fields inflowKinds_def outflowKinds_def toUSD_def)
       (simp add: addFlow_def sampleFlow_fields inflowKinds_def getOr_def wrap64_def Let_def in64_def min64_def max64_def)
  show ?thesis using flows_reconcile [OF f l] f by simp
qed

section \<open>Percentages\<close>

lemma roundHalfUp_away: "roundHalfUp r = wrap64 (roundAway r)"
proof (cases "r < 0")
  case True
  have q: "fst (quotient_of (- r)) = - fst (quotient_of r)" "snd (quotient_of (- r)) = snd (quotient_of r)"
    by (simp_all add: rat_uminus_code split: prod.split)
  have "(if \<bar>snd (quotient_of r)\<bar> \<le> 2 * (\<bar>fst (quotient_of r)\<bar> mod \<bar>snd (quotient_of r)\<bar>)
      then \<bar>fst (quotient_of r)\<bar> div \<bar>snd (quotient_of r)\<bar> + 1
      else \<bar>fst (quotient_of r)\<bar> div \<bar>snd (quotient_of r)\<bar>) = halfUp (- r)"
    using quotient_floor(2) [of "- r"] True unfolding q abs_minus_cancel by simp
  moreover have "wrap64 (- wrap64 n) = wrap64 (- n)" for n using wrap64_diff_right [of 0 n] by simp
  ultimately show ?thesis using True by (simp only: roundHalfUp_def Let_def roundAway_def halfUp_def if_True)
next
  case False
  then show ?thesis
    using quotient_floor(2) [of r, OF leI [OF False]] False
    by (simp only: roundHalfUp_def Let_def roundAway_def halfUp_def if_False)
qed

lemma roundAway_mono: "r \<le> q \<Longrightarrow> roundAway r \<le> roundAway q"
  unfolding roundAway_def by (simp split: if_splits) linarith+

lemma roundAway_of_int [simp]: "roundAway (of_int n) = n"
  unfolding roundAway_def by (simp split: if_splits) linarith+

lemma pct_between:
  assumes "in64 a" and "0 \<le> p" and "p \<le> 100"
  shows "in64 (roundAway (of_int a * p / 100))"
proof -
  have "of_int (min a 0) \<le> of_int a * p / 100" "of_int a * p / 100 \<le> of_int (max a 0)"
    using mult_left_mono [OF assms(3), of "of_int a"] mult_left_mono_neg [OF assms(3), of "of_int a"] assms(2)
    by (auto simp: min_def max_def mult_nonneg_nonneg mult_nonpos_nonneg)
  then have "min a 0 \<le> roundAway (of_int a * p / 100)" "roundAway (of_int a * p / 100) \<le> max a 0"
    using roundAway_mono roundAway_of_int by metis+
  then show ?thesis using assms(1) by (auto simp: in64_def min64_def max64_def min_def max_def split: if_splits)
qed

text \<open>The percentages of the dashboard are the exact ones, rounded. A share of an amount between
  none and all of it is within half a cent of the exact share, and rounds halves away from zero; a
  ratio with a denominator is the double nearest to a decimal with two places that is within half a
  hundredth of the exact percentage; without a denominator it is zero and marked as such.\<close>

theorem percentages_are_rounded:
  assumes "in64 a" and "0 \<le> p" and "p \<le> 100"
  shows "pctOf a p = roundAway (of_int a * p / 100) \<and> \<bar>of_int (pctOf a p) - of_int a * p / 100\<bar> \<le> 1 / 2 \<and>
    (d = 0 \<longrightarrow> computeRatio n d = (Fin 0, True)) \<and>
    (d \<noteq> 0 \<longrightarrow> (\<exists>y. \<bar>y - 100 * of_int n / of_int d\<bar> \<le> 1 / 200 \<and> (\<exists>m. y = of_int m / 100) \<and>
       (\<forall>z. fl64 y = Fin z \<longrightarrow> computeRatio n d = (Fin z, False))))"
proof -
  have p: "pctOf a p = roundAway (of_int a * p / 100)"
    by (simp add: pctOf_def roundHalfUp_away pct_between [OF assms])
  let ?x = "ratioPct n d"
  have "\<bar>decimalPlaces 2 ?x - ?x\<bar> \<le> 1 / 200" using decimalPlaces_bounds [of 2 ?x] by simp
  then have "\<bar>decimalPlaces 2 ?x - 100 * of_int n / of_int d\<bar> \<le> 1 / 200" by (simp add: ratioPct_def mult.commute)
  moreover have "decimalPlaces 2 ?x = of_int (roundAway (?x * 10 ^ 2)) / 100" by (simp add: decimalPlaces_def)
  moreover have "computeRatio n d = (Fin z, False)" if "d \<noteq> 0" "fl64 (decimalPlaces 2 ?x) = Fin z" for z
    using that by (simp add: computeRatio_def ratToFloatDP_def)
  ultimately have "d \<noteq> 0 \<longrightarrow> (\<exists>y. \<bar>y - 100 * of_int n / of_int d\<bar> \<le> 1 / 200 \<and> (\<exists>m. y = of_int m / 100) \<and>
       (\<forall>z. fl64 y = Fin z \<longrightarrow> computeRatio n d = (Fin z, False)))"
    by blast
  moreover have "\<bar>of_int (pctOf a p) - of_int a * p / 100\<bar> \<le> 1 / 2"
    using roundAway_bounds [of "of_int a * p / 100"] unfolding p by linarith
  ultimately show ?thesis using p by (simp add: computeRatio_def)
qed

theorem percentages_are_rounded_witness: "pctOf (- 1001) 50 = - 501"
  using percentages_are_rounded [of "- 1001" 50 0 0] by (simp add: in64_def min64_def max64_def roundAway_def)

end

