(* ===== verification/Sim_Props.thy ===== *)
theory Sim_Props
  imports Sim_Scenario Bank_Props
begin

text \<open>
  What the simulation promises: a scenario runs its steps in order or not at all, it does nothing to
  the bank that the bank's own operations could not, and the time only moves forward.
\<close>

section \<open>Scenarios run in order\<close>

text \<open>The states between the steps, the first and the last included.\<close>

fun runStates :: "randSource \<Rightarrow> Step list \<Rightarrow> 'z loanbook_scheme \<Rightarrow> 'z loanbook_scheme list" where
  "runStates newRand [] s = [s]"
| "runStates newRand (st # rest) s = s # runStates newRand rest (snd (runStep newRand st s))"

text \<open>The results that the steps have, each from the state the steps before it left behind.\<close>

fun expectedResults :: "randSource \<Rightarrow> nat \<Rightarrow> Step list \<Rightarrow> 'z loanbook_scheme \<Rightarrow> StepResult list" where
  "expectedResults newRand i [] s = []"
| "expectedResults newRand i (st # rest) s =
     stepResult i st (fst (runStep newRand st s)) #
     expectedResults newRand (i + 1) rest (snd (runStep newRand st s))"

lemma length_expectedResults [simp]: "length (expectedResults newRand i steps s) = length steps"
  by (induction steps arbitrary: i s) simp_all

lemma runStates_nonempty [simp]: "runStates newRand steps s \<noteq> []"
  by (cases steps) simp_all

lemma stepResult_fields [simp]:
  "sr_Index (stepResult i st r) = int i" "sr_Type (stepResult i st r) = sp_Type st"
  "sr_OK (stepResult i st r) \<longleftrightarrow> (\<exists>out. r = Inr out)"
  by (auto simp: stepResult_def split: sum.split)

lemma expectedResults_labels:
  "map sr_Type (expectedResults newRand i steps s) = map sp_Type steps"
  "map sr_Index (expectedResults newRand i steps s) = map int [i..<i + length steps]"
  by (induction steps arbitrary: i s) (simp_all add: upt_rec del: upt_Suc)

lemma runSteps_app:
  "runSteps newRand i steps ok bad s =
     (Inr (expectedResults newRand i steps s,
           ok + int (length (filter sr_OK (expectedResults newRand i steps s))),
           bad + int (length (filter (\<lambda>r. \<not> sr_OK r) (expectedResults newRand i steps s)))),
      List.last (runStates newRand steps s))"
proof (induction steps arbitrary: i ok bad s)
  case Nil
  then show ?case by (simp add: op_simps)
next
  case (Cons st rest)
  show ?case
    by (cases "runStep newRand st s"; cases "fst (runStep newRand st s)")
      (simp_all add: op_simps attemptE_def bindE_def Cons.IH)
qed

text \<open>C29: A scenario with a malformed step is refused as a whole, with everything that is wrong with it,
  and changes nothing. Otherwise its steps run in order, each from the state the steps before it left
  behind, also after a step failed: there is one result for every step, with its number and type,
  which is what that step returned there; the summary counts every step once, as succeeded or
  failed, and shows the clock before the first step and after the last.\<close>

theorem scenario_runs_in_order:
  "RunScenario newRand sc s =
     (if scenarioProblems sc \<noteq> [] then (Inl (ESim (SimValidation (scenarioProblems sc))), s)
      else (let s' = List.last (runStates newRand (sc_Steps sc) s);
                results = expectedResults newRand 0 (sc_Steps sc) s
            in (Inr \<lparr>sn_Name = sc_Name sc, sn_StartedAt = now s, sn_FinishedAt = now s', sn_Results = results,
                  sn_Summary = \<lparr>ss_Steps = int (length (sc_Steps sc)),
                    ss_Succeeded = int (length (filter sr_OK results)),
                    ss_Failed = int (length (sc_Steps sc)) - int (length (filter sr_OK results)),
                    ss_ClockBefore = now s, ss_ClockAfter = now s'\<rparr>\<rparr>, s'))) \<and>
   map sr_Type (expectedResults newRand 0 (sc_Steps sc) s) = map sp_Type (sc_Steps sc) \<and>
   map sr_Index (expectedResults newRand 0 (sc_Steps sc) s) = map int [0..<length (sc_Steps sc)]"
proof -
  let ?res = "expectedResults newRand 0 (sc_Steps sc) s"
  have "length (filter sr_OK ?res) + length (filter (\<lambda>r. \<not> sr_OK r) ?res) = length (sc_Steps sc)"
    using sum_length_filter_compl [of sr_OK ?res] by simp
  then have "int (length (filter (\<lambda>r. \<not> sr_OK r) ?res)) = int (length (sc_Steps sc)) - int (length (filter sr_OK ?res))"
    by linarith
  then show ?thesis
    by (simp add: RunScenario_def validateScenario_def op_simps Now_def runSteps_app expectedResults_labels Let_def)
qed

section \<open>Steps keep to the reachable states\<close>

lemma reachable_steps [pres]:
  "preserves bank_reachable (SetTo t)" "in64 (am_Minor amt) \<Longrightarrow> preserves bank_reachable (Deposit i amt)"
  "in64 (bq_MinCents bq) \<Longrightarrow> preserves bank_reachable (BulkRandomPurchases newRand bq)"
  "in64 (oq_PrincipalCents oq) \<Longrightarrow> in64 (oq_TermMonths oq) \<Longrightarrow> preserves bank_reachable (Originate oq)"
  "in64 n \<Longrightarrow> preserves bank_reachable (Repay i n)" "preserves bank_reachable (MissPayment i)"
  "preserves bank_reachable (Default i reason)" "preserves bank_reachable Tick"
  by (auto simp: preserves_def intro: bank_reachable.step bank_step.intros)

lemma bindE_snd: "snd (m s) = s \<Longrightarrow> (\<And>x. snd (f x s) = s) \<Longrightarrow> snd (bindE m f s) = s"
  by (auto simp: bindE_def split: prod.splits sum.splits)

lemma ListLoans_unchanged:
  assumes "loan_inv s"
  shows "snd (ListLoans s) = s"
proof -
  have sync: "ledger_synced s" "loan_synced s" using loan_inv_synced [OF assms] loan_inv_ledger [OF assms] by simp_all
  have "snd (listedLoan i s) = s" for i
    using sync by (auto simp: listedLoan_def op_simps ofOption_def split: option.split)
  then have "snd (mapE listedLoan order s) = s" for order
    by (induction order) (auto simp: op_simps intro!: bindE_snd)
  then show ?thesis using sync by (simp add: ListLoans_def op_simps)
qed

lemma reachable_reads [pres]:
  "preserves bank_reachable (ListLoans :: ('z loanbook_scheme, Loan list) oper)" "preserves bank_reachable Now"
proof -
  have "snd (ListLoans s) = s" if "bank_reachable s" for s :: "'z loanbook_scheme"
    by (rule ListLoans_unchanged) (use bank_reachable_inv [OF that] in \<open>simp add: bank_inv_def\<close>)
  then show "preserves bank_reachable (ListLoans :: ('z loanbook_scheme, Loan list) oper)" by (simp add: preserves_def)
qed (simp add: preserves_def Now_def op_simps)

lemma reachable_AdvanceTime [pres]: "preserves bank_reachable (AdvanceTime req)"
proof -
  have "preserves bank_reachable (tickLoop n r)" for n r
    by (induction n arbitrary: r) (auto intro!: pres)
  moreover have "preserves bank_reachable (moveClock req)"
    unfolding moveClock_def AdvanceDays_def Advance_def by (intro pres)
  ultimately show ?thesis unfolding AdvanceTime_def tickUntilStable_def by (intro pres)
qed

lemma reachable_resolve [pres]: "preserves bank_reachable (resolveLoanID i)"
  unfolding resolveLoanID_def by (intro pres)

lemma parsed_typed: "parseBody decimal s neg decimals = Inr n \<Longrightarrow> in64 n"
  unfolding parseBody_def Let_def by (auto split: if_splits option.splits dest: ParseInt_in64)

lemma ParseAmount_typed: "ParseAmount c t = Inr amt \<Longrightarrow> in64 (am_Minor amt)"
  by (auto simp: ParseAmount_def parseDecimalToMinor_def Let_def bindR_eq_Inr mkAmount_def dest: parsed_typed
      split: option.splits if_splits)

lemma reachable_repayTimes [pres]:
  assumes "in64 n"
  shows "preserves bank_reachable (repayTimes i n k)"
proof -
  have "preserves bank_reachable (repayMore i n k l)" for k l
    using assms by (induction k arbitrary: l) (auto intro!: pres)
  then show ?thesis unfolding repayTimes_def by (intro pres assms)
qed

lemma reachable_deposit [pres]:
  "preserves bank_reachable (bindE (liftE (ParseAmount c t)) (\<lambda>amt. bindE (Deposit i amt) f))"
  if "\<And>tx. preserves bank_reachable (f tx)"
  by (intro preserves_lift pres that ParseAmount_typed)

definition step_typed :: "Step \<Rightarrow> bool" where
  "step_typed st \<longleftrightarrow> in64 (sp_AmountCents st) \<and> in64 (sp_MinCents st) \<and> in64 (sp_PrincipalCents st) \<and> in64 (sp_TermMonths st)"

lemma reachable_runStep [pres]:
  assumes "step_typed st"
  shows "preserves bank_reachable (runStep newRand st)"
  unfolding runStep_def Let_def TriggerDefault_def
  by (intro preserves_if reachable_deposit; (intro pres)?)
    (use assms in \<open>simp_all add: step_typed_def bulkRequestOf_def originateRequestOf_def\<close>)

lemma reachable_runSteps [pres]:
  assumes "list_all step_typed steps"
  shows "preserves bank_reachable (runSteps newRand i steps ok bad)"
  using assms by (induction steps arbitrary: i ok bad) (auto intro!: pres reachable_runStep split: sum.split)

section \<open>The time only moves forward\<close>

text \<open>Nothing but \<open>SetTo\<close> changes the time.\<close>

definition timed :: "(instant \<Rightarrow> bool) \<Rightarrow> 'z sim_clock_scheme \<Rightarrow> bool" where
  "timed P s \<longleftrightarrow> P (now s)"

lemma timed_frame [simp]:
  "timed P (s\<lparr>lg_proj := p\<rparr>) = timed P s" "timed P (s\<lparr>drawn := n\<rparr>) = timed P s" "timed P (s\<lparr>lb_proj := q\<rparr>) = timed P s"
  by (simp_all add: timed_def)

lemma timed_basic [pres]:
  "preserves (timed P) refresh_ledger" "preserves (timed P) (applyAppended_ledger es)" "preserves (timed P) newID"
  "preserves (timed P) Now" "preserves (timed P) refresh_loan" "preserves (timed P) (emitLoan ty i u pl)"
  "preserves (timed P) (Append [newEvent ty i u pl])" "preserves (timed P) newPurchaseID"
  "preserves (timed P) (InsertRuleApplication a)"
  by (auto simp: preserves_def refresh_app refresh_loan_app applyAppended_ledger_def op_simps Now_def Let_def timed_def
      InsertRuleApplication_def bindE_def split: prod.split)

lemma timed_SetTo [pres]: "preserves (timed ((\<le>) t)) (SetTo u)"
  by (auto simp: preserves_def timed_def SetTo_app)

lemma timed_ledger [pres]:
  "preserves (timed P) (Post tx)" "preserves (timed P) (PostAndFinalize tx)" "preserves (timed P) (OpenAccount a)"
  "preserves (timed P) (Balance i)" "preserves (timed P) (ListTransactions f)" "preserves (timed P) (GetAccount i)"
  "preserves (timed P) ListAccounts" "preserves (timed P) (Evaluate r ty i input)"
proof -
  have a: "preserves (timed P) (appendTxEvent ty tx)" for ty tx unfolding appendTxEvent_def by (intro pres)
  have tr: "preserves (timed P) (transition i frm to ty)" for i frm to ty
    unfolding transition_def Let_def by (intro pres a)
  show post: "preserves (timed P) (Post tx)" for tx unfolding Post_def Let_def by (intro pres a)
  show "preserves (timed P) (PostAndFinalize tx)"
    unfolding PostAndFinalize_def Settle_def Finalize_def by (intro pres post tr)
  show "preserves (timed P) (OpenAccount a)" unfolding OpenAccount_def Let_def by (intro pres)
  show "preserves (timed P) (Balance i)" unfolding Balance_def by (intro pres)
  show "preserves (timed P) (ListTransactions f)" unfolding ListTransactions_def by (intro pres)
  show "preserves (timed P) (GetAccount i)" unfolding GetAccount_def by (intro pres)
  show "preserves (timed P) ListAccounts" unfolding ListAccounts_def by (intro pres)
  show "preserves (timed P) (Evaluate r ty i input)" unfolding Evaluate_def by (intro pres)
qed

lemma timed_settlePurchase [pres]:
  "preserves (timed P) (purchaseLeg req m pid mr d leg)" "preserves (timed P) (settlePurchase req m pid d)"
proof -
  show l: "preserves (timed P) (purchaseLeg req m pid mr d leg)" for mr leg :: _
    unfolding purchaseLeg_def Let_def by (intro pres)
  show "preserves (timed P) (settlePurchase req m pid d)" unfolding settlePurchase_def Let_def by (intro pres l)
qed

lemma timed_client [pres]:
  "preserves (timed P) (Deposit i amt)" "preserves (timed P) (Purchase req)"
  "preserves (timed P) (BulkRandomPurchases newRand bq)"
proof -
  show "preserves (timed P) (Deposit i amt)" unfolding Deposit_def by (intro pres)
  show p: "preserves (timed P) (Purchase req)" for req unfolding Purchase_def Let_def by (intro pres)
  have "preserves (timed P) (bulkLoop rng req n k)" for rng req n k
    by (induction n arbitrary: k) (auto simp: Let_def intro!: pres p)
  then show "preserves (timed P) (BulkRandomPurchases newRand bq)" unfolding BulkRandomPurchases_def by (intro pres)
qed

lemma timed_loan_reads [pres]:
  "preserves (timed P) (buildLoan st)" "preserves (timed P) (GetLoan i)" "preserves (timed P) ListLoans"
proof -
  show b: "preserves (timed P) (buildLoan st)" for st unfolding buildLoan_def by (intro pres)
  show "preserves (timed P) (GetLoan i)" unfolding GetLoan_def by (intro pres b)
  have "preserves (timed P) (listedLoan i)" for i unfolding listedLoan_def by (intro pres b)
  then show "preserves (timed P) ListLoans" unfolding ListLoans_def by (intro pres)
qed

lemma timed_Underwrite [pres]: "preserves (timed P) (Underwrite req)"
  unfolding Underwrite_def Let_def getApplicant_def by (intro pres)

lemma timed_loan_ops [pres]:
  "preserves (timed P) (Originate req)" "preserves (timed P) (Repay i n)" "preserves (timed P) (missPaymentInternal i)"
  "preserves (timed P) (Default i reason)" "preserves (timed P) (MissPayment i)"
proof -
  show "preserves (timed P) (Originate req)" unfolding Originate_def Let_def by (intro pres)
  have "preserves (timed P) (appendRepaidEvent i)" unfolding appendRepaidEvent_def by (intro pres)
  then show "preserves (timed P) (Repay i n)" unfolding Repay_def Let_def by (intro pres)
  show m: "preserves (timed P) (missPaymentInternal i)"
    unfolding missPaymentInternal_def recordMissed_def Let_def by (intro pres)
  show "preserves (timed P) (Default i reason)" unfolding Default_def Let_def by (intro pres)
  show "preserves (timed P) (MissPayment i)" unfolding MissPayment_def by (intro pres m)
qed

lemma timed_Tick [pres]: "preserves (timed P) Tick"
proof -
  have t: "preserves (timed P) (tickInstallments grace t i xs report)" for grace t i xs report
    by (induction xs arbitrary: report) (auto simp: Let_def intro!: pres)
  have "preserves (timed P) (tickLoans grace t loans report)" for grace t loans report
    by (induction loans arbitrary: report) (auto intro!: pres t)
  then show ?thesis unfolding Tick_def by (intro pres)
qed

lemma timed_AdvanceTime [pres]: "preserves (timed ((\<le>) t)) (AdvanceTime req)"
proof -
  have "preserves (timed ((\<le>) t)) (tickLoop n r)" for n r
    by (induction n arbitrary: r) (auto intro!: pres)
  moreover have "preserves (timed ((\<le>) t)) (moveClock req)"
    unfolding moveClock_def AdvanceDays_def Advance_def by (intro pres)
  ultimately show ?thesis unfolding AdvanceTime_def tickUntilStable_def by (intro pres)
qed

lemma timed_runStep [pres]: "preserves (timed ((\<le>) t)) (runStep newRand st)"
proof -
  have "preserves (timed ((\<le>) t)) (repayMore i n k l)" for i n k l by (induction k arbitrary: l) (auto intro!: pres)
  then have "preserves (timed ((\<le>) t)) (repayTimes i n k)" for i n k unfolding repayTimes_def by (intro pres)
  then show ?thesis unfolding runStep_def resolveLoanID_def TriggerDefault_def Let_def by (intro pres)
qed

lemma timed_runSteps [pres]: "preserves (timed ((\<le>) t)) (runSteps newRand i steps ok bad)"
  by (induction steps arbitrary: i ok bad) (auto intro!: pres split: sum.split)

lemma timed_tickUntilStable [pres]: "preserves (timed P) tickUntilStable"
proof -
  have "preserves (timed P) (tickLoop n r)" for n r by (induction n arbitrary: r) (auto intro!: pres)
  then show ?thesis unfolding tickUntilStable_def .
qed

lemma moveClock_outcome:
  assumes "moveClock req s = (Inr (), s')" and "validateAdvanceTimeRequest req = Inr ()"
  shows "now s < now s' \<and>
    (if at_To req = '''' then (at_Days req \<le> 106751 \<longrightarrow> now s' = now s + at_Days req * nanosPerDay)
     else ParseRFC3339 (at_To req) = Some (now s'))"
  using assms
  by (auto simp: moveClock_def validateAdvanceTimeRequest_def bindE_eq_Inr ctxE_eq_Inr AdvanceDays_app Advance_app SetTo_app
      days_in64 ofOption_def op_simps attemptE_def split: if_splits option.splits)

text \<open>Advancing time moves the clock forward or fails. A request that names neither or both of days and
  target is refused and changes nothing; an accepted one reports the time before and after, the later
  strictly after the earlier: the target named, or (up to 106751 days) exactly the days asked for.
  The servicing of the loans that follows does not change the time, and even a failing request never
  moves it back.\<close>

theorem advance_time_forward:
  assumes "AdvanceTime req s = (r, s')"
  shows "now s \<le> now s' \<and>
    (case validateAdvanceTimeRequest req of
       Inl e \<Rightarrow> r = Inl e \<and> s' = s
     | Inr _ \<Rightarrow>
         (case r of
            Inl _ \<Rightarrow> True
          | Inr a \<Rightarrow> ar_Previous a = now s \<and> ar_Now a = now s' \<and> now s < now s' \<and>
              (if at_To req = '''' then (at_Days req \<le> 106751 \<longrightarrow> now s' = now s + at_Days req * nanosPerDay)
               else ParseRFC3339 (at_To req) = Some (now s'))))"
proof -
  have t: "timed ((\<le>) (now s)) s'"
    by (rule preserves_result [OF timed_AdvanceTime _ assms]) (simp add: timed_def)
  show ?thesis
  proof (cases "validateAdvanceTimeRequest req")
    case (Inl e)
    then show ?thesis using assms by (simp add: AdvanceTime_def op_simps)
  next
    case v: (Inr u)
    show ?thesis
    proof (cases r)
      case (Inr a)
      with assms v obtain s1 report where m: "moveClock req s = (Inr (), s1)" and k: "tickUntilStable s1 = (Inr report, s')"
        and a: "ar_Previous a = now s" "ar_Now a = now s'"
        by (auto simp: AdvanceTime_def op_simps bindE_eq_Inr Now_def)
      have "timed (\<lambda>x. x = now s1) s'"
        by (rule preserves_result [OF timed_tickUntilStable _ k]) (simp add: timed_def)
      then show ?thesis
        using moveClock_outcome [OF m] v a by (simp add: Inr timed_def)
    qed (use t v in \<open>simp add: timed_def\<close>)
  qed
qed

text \<open>A bank without loans that knows its grace period.\<close>

definition sampleServicing :: gmap where
  "sampleServicing = [(''rule_type'', GStr ''loan_servicing''), (''grace_period_days'', num 5)]"

definition quietBook :: loanbook where
  "quietBook = sampleBook0\<lparr>en_cache := [(''loan_servicing'', ruleFromContent '''' sampleServicing)]\<rparr>"

lemma quietBook_fields:
  "now quietBook = 0" "listeners quietBook = []" "notified quietBook = []"
  "ListLoans (quietBook\<lparr>now := t\<rparr>) = (Inr [], quietBook\<lparr>now := t\<rparr>)"
  "GetRule (quietBook\<lparr>now := t\<rparr>) ''loan_servicing'' = Inr (ruleFromContent '''' sampleServicing)"
proof -
  have q: "st_events (quietBook\<lparr>now := t\<rparr>) = []" "lb_proj (quietBook\<lparr>now := t\<rparr>) = newLoanProjection"
    by (simp_all add: quietBook_def sampleBook0_def ledger.defs loanbook.defs sampleBank0_def)
  then have "refresh_loan (quietBook\<lparr>now := t\<rparr>) = (Inr (), quietBook\<lparr>now := t, lb_proj := newLoanProjection\<rparr>)"
    by (simp add: refresh_loan_app applyAll_def returnE_def)
  moreover have "quietBook\<lparr>now := t, lb_proj := newLoanProjection\<rparr> = quietBook\<lparr>now := t\<rparr>"
    by (simp add: quietBook_def sampleBook0_def ledger.defs loanbook.defs sampleBank0_def)
  ultimately show "ListLoans (quietBook\<lparr>now := t\<rparr>) = (Inr [], quietBook\<lparr>now := t\<rparr>)"
    using q by (simp add: ListLoans_def op_simps newLoanProjection_def)
qed (simp_all add: quietBook_def sampleBook0_def ledger.defs loanbook.defs sampleBank0_def GetRule_def ofOption_def)

lemma quietBook_Tick:
  "Tick (quietBook\<lparr>now := t\<rparr>) = (Inr \<lparr>tr_MissedPayments = [], tr_Defaults = []\<rparr>, quietBook\<lparr>now := t\<rparr>)"
  by (simp add: Tick_def op_simps quietBook_fields Now_def ruleFromContent_def sampleServicing_def requireNum_def
      numFieldF_def num_def ofOption_def)

theorem advance_time_forward_witness:
  "\<exists>a s'. AdvanceTime \<lparr>at_Days = 1, at_To = ''''\<rparr> quietBook = (Inr a, s') \<and> now s' = nanosPerDay"
proof -
  have "AdvanceDays 1 quietBook = (Inr nanosPerDay, quietBook\<lparr>now := nanosPerDay\<rparr>)"
    by (simp add: AdvanceDays_app Advance_app quietBook_fields nanosPerDay_def wrap64_def)
  then obtain a where a: "AdvanceTime \<lparr>at_Days = 1, at_To = ''''\<rparr> quietBook = (Inr a, quietBook\<lparr>now := nanosPerDay\<rparr>)"
    by (simp add: AdvanceTime_def validateAdvanceTimeRequest_def op_simps moveClock_def ctxE_def Now_def tickUntilStable_def
        maxTickIterations_def quietBook_Tick numeral_eq_Suc)
  then show ?thesis using advance_time_forward [OF a] by (simp add: validateAdvanceTimeRequest_def quietBook_fields)
qed

section \<open>A scenario is a run of the bank\<close>

text \<open>A scenario can bring the bank into no state that the bank's own operations could not have
  brought it to, whatever its steps are and whichever of them fail: after it the books balance in
  every currency, the loan book is the replay of its events, and the clock has not gone back.\<close>

theorem scenario_stays_reachable:
  fixes s :: "'z loanbook_scheme"
  assumes "bank_reachable s" and "list_all step_typed (sc_Steps sc)"
  shows "bank_reachable (snd (RunScenario newRand sc s)) \<and>
    (let p = lg_proj (snd (RunScenario newRand sc s))
     in wrap64 (sumCur c (pj_accounts p) (debitOf p)) = wrap64 (sumCur c (pj_accounts p) (creditOf p))) \<and>
    lb_proj (snd (RunScenario newRand sc s)) =
      replay apply_loan loanEventTypes (st_events (snd (RunScenario newRand sc s))) newLoanProjection \<and>
    now s \<le> now (snd (RunScenario newRand sc s))"
proof -
  have "preserves bank_reachable (RunScenario newRand sc :: ('z loanbook_scheme, _) oper)"
    unfolding RunScenario_def by (intro pres assms(2))
  then have r: "bank_reachable (snd (RunScenario newRand sc s))" using assms(1) by (rule preservesD)
  then have l: "loan_inv (snd (RunScenario newRand sc s))" using bank_reachable_inv [OF r] by (simp add: bank_inv_def)
  then have inv: "ledger_inv (snd (RunScenario newRand sc s))" by simp
  then have "trial_balance (lg_proj (snd (RunScenario newRand sc s)))" by (simp add: ledger_inv_def proj_inv_def)
  moreover have "preserves (timed ((\<le>) (now s))) (RunScenario newRand sc :: ('z loanbook_scheme, _) oper)"
    unfolding RunScenario_def by (intro pres)
  then have "timed ((\<le>) (now s)) (snd (RunScenario newRand sc s))" by (rule preservesD) (simp add: timed_def)
  ultimately show ?thesis
    using r loan_inv_synced [OF l] by (simp add: trial_balance_def loan_synced_def timed_def Let_def)
qed

theorem scenario_stays_reachable_witness:
  "bank_reachable (snd (RunScenario (\<lambda>_ _ _. 0) (ps_Scenario (Presets ! 1)) sampleLoan))"
proof -
  have "list_all step_typed (sc_Steps (ps_Scenario (Presets ! 1)))"
    by (simp add: Presets_def advanceStep_def missStep_def step0_def step_typed_def in64_def min64_def max64_def)
  from scenario_stays_reachable [OF sampleBook_reachable(2) this] show ?thesis by blast
qed


end
