(* ===== verification/App_Props.thy ===== *)
theory App_Props
  imports App_Main Dash_Props Sim_Props
begin

text \<open>
  What holds of the process as a whole: the router knows one handler for every request, requests that
  read change nothing but the record of applied rules, and from the start of the process on every
  sequence of requests to the bank keeps the books.
\<close>

section \<open>The router\<close>

lemma appMux_registered: "register [] appRoutes = Some appMux"
proof -
  have "register [] appRoutes \<noteq> None" by code_simp
  then show ?thesis by (auto simp: appMux_def)
qed

lemma appMux_sound: "conflictFree appMux" "wellFormed appMux"
  "appMux = map (\<lambda>(p, h). (parsePattern p, h)) appRoutes"
  using register_conflictFree [OF _ _ appMux_registered] by (simp_all add: conflictFree_def wellFormed_def)

lemma option_eqI: "(\<And>x. a = Some x \<longleftrightarrow> b = Some x) \<Longrightarrow> a = b"
  by (metis not_None_eq)

lemma dispatch_reorder:
  assumes "conflictFree mux" and "wellFormed mux" and "mset mux' = mset mux"
  shows "dispatch mux' m path = dispatch mux m path"
proof -
  have s: "set mux' = set mux" using assms(3) by (metis set_mset_mset)
  have "distinct mux'" using assms(1,3) by (metis conflictFree_def mset_eq_imp_distinct_iff)
  then have c: "conflictFree mux'" "wellFormed mux'" using assms(1,2) s by (simp_all add: conflictFree_def wellFormed_def)
  have "dispatch mux' m path = Some x \<longleftrightarrow> dispatch mux m path = Some x" for x
    by (cases x) (simp add: dispatch_spec [OF c] dispatch_spec [OF assms(1,2)] s)
  then show ?thesis by (rule option_eqI)
qed

lemma assets_match: "path \<noteq> [] \<Longrightarrow> (\<lparr>pt_Method = '''', pt_Segs = [Subtree]\<rparr>, WebAssets) \<in> set appMux \<and>
  patternMatches \<lparr>pt_Method = '''', pt_Segs = [Subtree]\<rparr> m path"
proof -
  have "parsePattern ''/'' = \<lparr>pt_Method = '''', pt_Segs = [Subtree]\<rparr>" by code_simp
  then have "(\<lparr>pt_Method = '''', pt_Segs = [Subtree]\<rparr>, WebAssets) \<in> set appMux"
    unfolding appMux_sound(3) appRoutes_def by (auto simp: image_iff)
  then show "path \<noteq> [] \<Longrightarrow> ?thesis" by (cases path) (simp_all add: patternMatches_def methodMatches_def)
qed

text \<open>C36: The packages can register all their routes on the one router without a panic, and every
  request is served by exactly one of them: the pattern that matches it and that every other matching
  pattern covers, with the values of its wildcards taken from the path. Which handler that is does not
  depend on the order in which the packages register their routes.\<close>

theorem routing_is_unambiguous:
  assumes "path \<noteq> []"
  shows "register [] appRoutes = Some appMux \<and>
    (\<exists>pat e b. dispatch appMux m path = Some (e, b) \<and> (pat, e) \<in> set appMux \<and>
       patternMatches pat m path \<and> matchSegs (pt_Segs pat) path = Some b \<and>
       (\<forall>q f. (q, f) \<in> set appMux \<longrightarrow> patternMatches q m path \<longrightarrow> covers q pat)) \<and>
    (\<forall>mux. mset mux = mset appMux \<longrightarrow> dispatch mux m path = dispatch appMux m path)"
proof -
  obtain e b where d: "dispatch appMux m path = Some (e, b)"
    using dispatch_total [OF appMux_sound(1,2)] assets_match [OF assms, of m] by fastforce
  then obtain pat where "(pat, e) \<in> set appMux" "patternMatches pat m path" "matchSegs (pt_Segs pat) path = Some b"
    "\<forall>q \<in> set appMux. patternMatches (fst q) m path \<longrightarrow> covers (fst q) pat"
    unfolding dispatch_spec [OF appMux_sound(1,2)] by blast
  then have "\<exists>pat e b. dispatch appMux m path = Some (e, b) \<and> (pat, e) \<in> set appMux \<and>
      patternMatches pat m path \<and> matchSegs (pt_Segs pat) path = Some b \<and>
      (\<forall>q f. (q, f) \<in> set appMux \<longrightarrow> patternMatches q m path \<longrightarrow> covers q pat)"
    using d by (intro exI [of _ pat] exI [of _ e] exI [of _ b]) auto
  then show ?thesis
    using appMux_registered dispatch_reorder [OF appMux_sound(1,2)] by blast
qed

theorem routing_is_unambiguous_witness:
  "dispatch (rev appMux) ''GET'' [''rules'', ''applications''] = Some (RulesAPI RulesApplicationsAll, [])"
proof -
  let ?p = "parsePattern ''GET /rules/applications''" and ?path = "[''rules'', ''applications'']"
  have m: "patternMatches ?p ''GET'' ?path" "matchSegs (pt_Segs ?p) ?path = Some []" by code_simp+
  have "list_all (\<lambda>(q, _). patternMatches q ''GET'' ?path \<longrightarrow> covers q ?p) (map (\<lambda>(p, h). (parsePattern p, h)) appRoutes)"
    by code_simp
  then have c: "\<forall>q \<in> set appMux. patternMatches (fst q) ''GET'' ?path \<longrightarrow> covers (fst q) ?p"
    unfolding appMux_sound(3) [symmetric] by (auto simp: list_all_iff)
  have "(''GET /rules/applications'', RulesAPI RulesApplicationsAll) \<in> set appRoutes"
    by (simp add: appRoutes_def under_def rulesRoutes_def)
  then have "(?p, RulesAPI RulesApplicationsAll) \<in> set appMux"
    unfolding appMux_sound(3) by (auto intro!: image_eqI)
  then have "dispatch appMux ''GET'' ?path = Some (RulesAPI RulesApplicationsAll, [])"
    unfolding dispatch_spec [OF appMux_sound(1,2)] using m c by blast
  moreover have "dispatch (rev appMux) ''GET'' ?path = dispatch appMux ''GET'' ?path"
    by (rule routing_is_unambiguous [THEN conjunct2, THEN conjunct2, rule_format]) simp_all
  ultimately show ?thesis by (rule trans [rotated])
qed

section \<open>Handlers and what they keep\<close>

definition serves :: "('s \<Rightarrow> bool) \<Rightarrow> ('s, 'v) handle \<Rightarrow> bool" where
  "serves P h \<longleftrightarrow> (\<forall>r s. P s \<longrightarrow> P (snd (h r s)))"

lemma servesI: "(\<And>r s. P s \<Longrightarrow> P (snd (h r s))) \<Longrightarrow> serves P h"
  by (simp add: serves_def)

lemma servesD: "serves P h \<Longrightarrow> P s \<Longrightarrow> P (snd (h r s))"
  by (simp add: serves_def)

lemma serves_respond:
  assumes "\<And>r. h r = respond (m r) (f r) (g r)" and "\<And>r. preserves P (m r)"
  shows "serves P h"
  using preservesD [OF assms(2)] by (auto simp: serves_def assms(1))

lemma serves_body:
  assumes "\<And>r. h r = withBody (d r) (e r) (k r)" and "\<And>r q s. d r = Some q \<Longrightarrow> P s \<Longrightarrow> P (snd (k r q s))"
  shows "serves P h"
proof (rule servesI)
  fix r s
  assume "P s"
  then show "P (snd (h r s))" using assms(2) by (cases "d r") (simp_all add: assms(1))
qed

section \<open>Requests that read\<close>

lemma calm_ledger_reads [pres]:
  "preserves (calm v vs apps) (GetAccount i)" "preserves (calm v vs apps) (GetTransaction i)"
  by (auto simp: preserves_def calm_def GetAccount_def GetTransaction_def op_simps)

lemma calm_views [pres]: "preserves (calm v vs apps) (GetView i)"
  unfolding GetView_def unlessNotFound_def viewUSD_def viewUSDC_def Let_def by (intro pres)

lemma calm_customers [pres]: "preserves (calm v vs apps) ListCustomers" "preserves (calm v vs apps) (ListPurchases i)"
  unfolding ListCustomers_def ListPurchases_def Let_def by (intro pres)+

lemma calm_loans [pres]:
  "preserves (calm v vs apps) ListLoans" "preserves (calm v vs apps) (GetLoan i)" "preserves (calm v vs apps) Applicants"
  "preserves (calm v vs apps) (LoanSchedule i)" "preserves (calm v vs apps) (WhatIf i req)"
  "preserves (calm v vs apps) GetBankForecast" "preserves (calm v vs apps) (GetCustomerForecast i)"
proof -
  have b: "preserves (calm v vs apps) (buildLoan st)" for st unfolding buildLoan_def by (intro pres)
  then have "preserves (calm v vs apps) (listedLoan i)" for i unfolding listedLoan_def by (intro pres)
  then show "preserves (calm v vs apps) ListLoans" unfolding ListLoans_def by (intro pres)
  show g: "preserves (calm v vs apps) (GetLoan i)" for i unfolding GetLoan_def by (intro pres b)
  show "preserves (calm v vs apps) Applicants" unfolding Applicants_def by (intro pres)
  show "preserves (calm v vs apps) (LoanSchedule i)" unfolding LoanSchedule_def by (intro pres g)
  show w: "preserves (calm v vs apps) (WhatIf i req)" for req unfolding WhatIf_def by (intro pres g)
  show "preserves (calm v vs apps) GetBankForecast" unfolding GetBankForecast_def by (intro pres)
  show "preserves (calm v vs apps) (GetCustomerForecast i)"
    unfolding GetCustomerForecast_def getApplicant_def Let_def by (intro pres g w)
qed

lemma calm_dashboard_summary [pres]: "preserves (calm v vs apps) DashboardSummary"
  by (rule calm_Summary)

lemma calm_run: "preserves (calm v vs apps) m \<Longrightarrow> calm v vs apps s \<Longrightarrow> calm v vs apps (snd (m s))"
  by (rule preservesD)

text \<open>The endpoints whose handlers read.\<close>

fun readsOnly :: "bankEndpoint \<Rightarrow> bool" where
  "readsOnly (BankLedger e) = (e \<noteq> LedgerSettle \<and> e \<noteq> LedgerFinalize)"
| "readsOnly (BankAccount e) = (e = AccountList \<or> e = AccountGet \<or> e = AccountPurchases)"
| "readsOnly (BankLoan e) =
     (e \<noteq> LoanUnderwrite \<and> e \<noteq> LoanOriginate \<and> e \<noteq> LoanRepay \<and> e \<noteq> LoanMissPayment \<and> e \<noteq> LoanDefault)"
| "readsOnly (BankDash e) = True"
| "readsOnly (BankSim e) = (e = SimClock \<or> e = SimPresets)"

lemmas ledger_handlers = ledger_handleListAccounts_def ledger_handleGetAccount_def ledger_handleGetBalance_def
  ledger_handleListTransactions_def ledger_handleGetTransaction_def ledger_handleSettle_def
  ledger_handleFinalize_def ledger_handleBalances_def ledger_handleFXQuote_def ledger_handleCurrencies_def

lemmas account_handlers = handlePurchase_def handleBulkPurchases_def account_handleListAccounts_def
  account_handleGetAccount_def handleDeposit_def handleListPurchases_def

lemmas loan_handlers = handleUnderwrite_def handleOriginate_def handleApplicants_def handleListLoans_def
  handleGetLoan_def handleSchedule_def handleWhatIf_def handleRepay_def handleMissPayment_def
  handleDefault_def handleBankForecast_def handleCustomerForecast_def

lemmas sim_handlers = handleAdvanceTime_def handleTriggerDefault_def handleRunScenario_def handleClock_def
  handlePresets_def

lemma calm_serveLedger:
  assumes "readsOnly (BankLedger e)" and "calm v vs apps s"
  shows "calm v vs apps (snd (serveLedger e r s))"
  using assms
  by (cases e) (auto simp: serveLedger_def ledger_handlers split: option.split intro!: calm_run pres)

lemma calm_serveAccount:
  assumes "readsOnly (BankAccount e)" and "calm v vs apps s"
  shows "calm v vs apps (snd (serveAccount newRand e r s))"
  using assms by (cases e) (auto simp: serveAccount_def account_handlers intro!: calm_run pres)

lemma calm_serveLoan:
  assumes "readsOnly (BankLoan e)" and "calm v vs apps s"
  shows "calm v vs apps (snd (serveLoan e r s))"
  using assms
  by (cases e; cases "decodeBody whatIfFields whatIf0 r")
    (auto simp: serveLoan_def loan_handlers intro!: calm_run pres)

lemma calm_serveDash:
  assumes "calm v vs apps s"
  shows "calm v vs apps (snd (serveDash e r s))"
  using assms
  by (cases e)
    (auto simp: serveDash_def handleSummary_def handleLedgerBook_def handleFlows_def handleRatios_def
      split: sum.split prod.split intro!: calm_run pres)

lemma calm_serveSim:
  assumes "readsOnly (BankSim e)" and "calm v vs apps s"
  shows "calm v vs apps (snd (serveSim newRand e r s))"
  using assms by (cases e) (auto simp: serveSim_def sim_handlers intro!: calm_run pres)

lemma calm_serveBank:
  assumes "readsOnly b" and "calm v vs apps s"
  shows "calm v vs apps (snd (serveBank newRand b r s))"
  using assms
  by (cases b) (simp_all add: serveBank_def calm_serveLedger calm_serveAccount calm_serveLoan calm_serveDash calm_serveSim
    del: readsOnly.simps)

lemma get_reads:
  assumes "dispatch appMux ''GET'' path = Some (e, m)" and "bankEndpointOf e = Some b"
  shows "readsOnly b"
proof -
  have "list_all (\<lambda>(p, e). methodMatches (pt_Method p) ''GET'' \<longrightarrow>
      (case bankEndpointOf e of None \<Rightarrow> True | Some b \<Rightarrow> readsOnly b)) (map (\<lambda>(p, h). (parsePattern p, h)) appRoutes)"
    by code_simp
  then have "\<forall>x \<in> set appMux. methodMatches (pt_Method (fst x)) ''GET'' \<longrightarrow>
      (case bankEndpointOf (snd x) of None \<Rightarrow> True | Some b \<Rightarrow> readsOnly b)"
    unfolding appMux_sound(3) [symmetric] by (auto simp: list_all_iff)
  moreover obtain p where "(p, e) \<in> set appMux" "patternMatches p ''GET'' path"
    using assms(1) unfolding dispatch_spec [OF appMux_sound(1,2)] by blast
  ultimately show ?thesis using assms(2) by (fastforce simp: patternMatches_def)
qed

section \<open>Every request keeps the invariant of the bank\<close>

lemma bank_inv_of_calm:
  assumes "\<And>v vs apps. calm v vs apps s \<Longrightarrow> calm v vs apps s'" and "bank_inv s"
  shows "bank_inv s'"
proof -
  have "calm (quietView s) (st_versions s) (st_apps s) s'"
    by (rule assms(1)) (use assms(2) in \<open>simp add: calm_def bank_inv_def\<close>)
  then show ?thesis
    using assms(2) by (simp add: calm_def bank_inv_def quietView_def waterfall_wired_def getEvaluator_def)
qed

lemma bank_inv_run: "preserves bank_inv m \<Longrightarrow> bank_inv s \<Longrightarrow> bank_inv (snd (m s))"
  by (rule preservesD)

lemma bank_inv_lists [pres]: "preserves bank_inv ListLoans" "preserves bank_inv Now"
  by (rule preservesI, erule bank_inv_of_calm [rotated], intro calm_run pres, assumption)+

lemmas bank_inv_ops [pres] = bank_inv_ledger_ops bank_inv_loan_ops bank_inv_client_ops

lemma bank_inv_AdvanceTime [pres]: "preserves bank_inv (AdvanceTime req)"
proof -
  have "preserves bank_inv (tickLoop n r)" for n r
    by (induction n arbitrary: r) (auto intro!: pres)
  moreover have "preserves bank_inv (moveClock req)"
    unfolding moveClock_def AdvanceDays_def Advance_def by (intro pres)
  ultimately show ?thesis unfolding AdvanceTime_def tickUntilStable_def by (intro pres)
qed

lemma bank_inv_resolve [pres]: "preserves bank_inv (resolveLoanID i)"
  unfolding resolveLoanID_def by (intro pres)

lemma bank_inv_repayTimes [pres]:
  assumes "in64 n"
  shows "preserves bank_inv (repayTimes i n k)"
proof -
  have "preserves bank_inv (repayMore i n k l)" for k l
    using assms by (induction k arbitrary: l) (auto intro!: pres)
  then show ?thesis unfolding repayTimes_def by (intro pres assms)
qed

lemma bank_inv_deposit [pres]:
  "preserves bank_inv (bindE (liftE (ParseAmount c t)) (\<lambda>amt. bindE (Deposit i amt) f))"
  if "\<And>tx. preserves bank_inv (f tx)"
  by (intro preserves_lift pres that ParseAmount_typed)

lemma bank_inv_runStep [pres]:
  assumes "step_typed st"
  shows "preserves bank_inv (runStep newRand st)"
  unfolding runStep_def Let_def TriggerDefault_def
  by (intro preserves_if bank_inv_deposit; (intro pres)?)
    (use assms in \<open>simp_all add: step_typed_def bulkRequestOf_def originateRequestOf_def\<close>)

lemma bank_inv_RunScenario [pres]:
  assumes "list_all step_typed (sc_Steps sc)"
  shows "preserves bank_inv (RunScenario newRand sc)"
proof -
  have "preserves bank_inv (runSteps newRand i steps ok bad)" if "list_all step_typed steps" for i steps ok bad
    using that by (induction steps arbitrary: i ok bad) (auto intro!: pres bank_inv_runStep split: sum.split)
  then show ?thesis unfolding RunScenario_def using assms by (intro pres)
qed

text \<open>A request that was decoded has integers that fit in 64 bits.\<close>

lemma purchase_decoded: "Decode purchaseFields purchase0 r = Some q \<Longrightarrow> in64 (pq_AmountCents q)"
  by (erule Decode_keeps [rotated 2]) (auto simp: purchaseFields_def purchase0_def intro!: keeps_rules)

lemma bulk_decoded: "Decode bulkFields bulk0 r = Some q \<Longrightarrow> in64 (bq_MinCents q)"
  by (erule Decode_keeps [rotated 2]) (auto simp: bulkFields_def bulk0_def intro!: keeps_rules)

lemma originate_decoded:
  "decodeBody originateFields originate0 r = Some q \<Longrightarrow> in64 (oq_PrincipalCents q) \<and> in64 (oq_TermMonths q)"
  by (erule decodeBody_keeps [rotated 2]) (auto simp: originateFields_def originate0_def intro!: keeps_rules)

lemma repay_decoded: "decodeBody repayFields 0 r = Some n \<Longrightarrow> in64 n"
  by (erule decodeBody_keeps [rotated 2]) (auto simp: repayFields_def intro!: keeps_rules)

lemma scenario_decoded: "Decode scenarioFields scenario0 r = Some sc \<Longrightarrow> list_all step_typed (sc_Steps sc)"
proof (erule Decode_keeps [rotated 2])
  have "fieldsKeep step_typed stepFields" unfolding stepFields_def
    by (intro keeps_rules) (simp_all add: step_typed_def)
  moreover have "step_typed step0" by (simp add: step_typed_def step0_def)
  ultimately show "fieldsKeep (\<lambda>sc. list_all step_typed (sc_Steps sc)) scenarioFields"
    unfolding scenarioFields_def by (intro keeps_rules) auto
qed (simp add: scenario0_def)

lemma withBody_keeps:
  assumes "P s" and "\<And>q. d = Some q \<Longrightarrow> P (snd (k q s))"
  shows "P (snd (withBody d refuse k s))"
  using assms by (cases d) simp_all

lemma bank_inv_writers:
  assumes "bank_inv s"
  shows "bank_inv (snd (ledger_handleSettle r s))" "bank_inv (snd (ledger_handleFinalize r s))"
    "bank_inv (snd (handlePurchase r s))" "bank_inv (snd (handleBulkPurchases newRand r s))"
    "bank_inv (snd (handleDeposit r s))" "bank_inv (snd (handleUnderwrite r s))" "bank_inv (snd (handleOriginate r s))"
    "bank_inv (snd (handleRepay r s))" "bank_inv (snd (handleMissPayment r s))" "bank_inv (snd (handleDefault r s))"
    "bank_inv (snd (handleAdvanceTime r s))" "bank_inv (snd (handleTriggerDefault r s))"
    "bank_inv (snd (handleRunScenario newRand r s))"
proof -
  note run = bank_inv_run [OF _ assms]
  show "bank_inv (snd (ledger_handleSettle r s))" "bank_inv (snd (ledger_handleFinalize r s))"
    unfolding ledger_handlers respond_snd by (intro run pres)+
  show "bank_inv (snd (handlePurchase r s))"
    unfolding handlePurchase_def by (rule withBody_keeps [where P = bank_inv, OF assms]) (simp, intro run pres purchase_decoded)
  show "bank_inv (snd (handleBulkPurchases newRand r s))"
    unfolding handleBulkPurchases_def
    by (rule withBody_keeps [where P = bank_inv, OF assms]) (simp, intro run pres bulk_decoded)
  show "bank_inv (snd (handleDeposit r s))"
    unfolding handleDeposit_def
    by (rule withBody_keeps [where P = bank_inv, OF assms])
      (auto simp: assms split: sum.split intro!: run bank_inv_ops(10) ParseAmount_typed)
  show "bank_inv (snd (handleUnderwrite r s))"
    unfolding handleUnderwrite_def
    by (rule withBody_keeps [where P = bank_inv, OF assms]) (simp add: assms, intro impI run pres)
  show "bank_inv (snd (handleOriginate r s))"
    unfolding handleOriginate_def
    by (rule withBody_keeps [where P = bank_inv, OF assms])
      (simp add: assms, use originate_decoded in \<open>blast intro: run pres\<close>)
  show "bank_inv (snd (handleRepay r s))"
    unfolding handleRepay_def
    by (rule withBody_keeps [where P = bank_inv, OF assms]) (simp, intro run pres repay_decoded)
  show "bank_inv (snd (handleMissPayment r s))" unfolding handleMissPayment_def respond_snd by (intro run pres)
  show "bank_inv (snd (handleDefault r s))"
    unfolding handleDefault_def by (rule withBody_keeps [where P = bank_inv, OF assms]) (simp, intro run pres)
  show "bank_inv (snd (handleAdvanceTime r s))"
    unfolding handleAdvanceTime_def by (rule withBody_keeps [where P = bank_inv, OF assms]) (simp, intro run pres)
  show "bank_inv (snd (handleTriggerDefault r s))"
    unfolding handleTriggerDefault_def TriggerDefault_def
    by (rule withBody_keeps [where P = bank_inv, OF assms]) (simp add: split_beta, intro conjI impI run pres)
  show "bank_inv (snd (handleRunScenario newRand r s))"
    unfolding handleRunScenario_def
    by (rule withBody_keeps [where P = bank_inv, OF assms]) (simp, intro run pres scenario_decoded)
qed

lemma bank_inv_serveBank:
  assumes "bank_inv s"
  shows "bank_inv (snd (serveBank newRand b r s))"
proof (cases "readsOnly b")
  case True
  then show ?thesis by (intro bank_inv_of_calm [OF calm_serveBank assms])
next
  case False
  note w = bank_inv_writers [OF assms]
  show ?thesis
  proof (cases b)
    case (BankLedger e)
    then show ?thesis using False w by (cases e) (simp_all add: serveBank_def serveLedger_def)
  next
    case (BankAccount e)
    then show ?thesis using False w by (cases e) (simp_all add: serveBank_def serveAccount_def)
  next
    case (BankLoan e)
    then show ?thesis using False w by (cases e) (simp_all add: serveBank_def serveLoan_def)
  next
    case (BankSim e)
    then show ?thesis using False w by (cases e) (simp_all add: serveBank_def serveSim_def)
  qed (use False in simp)
qed

lemma bank_inv_bankMux: "bank_inv s \<Longrightarrow> bank_inv (snd (bankMux newRand w s))"
  using bank_inv_serveBank [of s newRand] by (auto simp: bankMux_def split: option.split prod.split) (metis snd_conv)

section \<open>The start of the process\<close>

text \<open>
  The registry names for every rule the type that its identifier says, as the one of the repository
  does. Then every rule that is served has that type, when the store was empty.
\<close>

definition plainRegistry :: "'z engine_scheme \<Rightarrow> bool" where
  "plainRegistry s \<longleftrightarrow> (\<forall>entries. en_registryFile s = Inr entries \<longrightarrow>
     (\<forall>e \<in> set entries. re_RuleID e \<noteq> '''' \<and> re_RuleType e = re_RuleID e))"

definition typedRules :: "'z engine_scheme \<Rightarrow> bool" where
  "typedRules s \<longleftrightarrow> plainRegistry s \<and>
     (\<forall>i v rule. v \<in> set (vers s i) \<longrightarrow> Validate s (rv_Content v) = Inr rule \<longrightarrow> ru_RuleType rule = i) \<and>
     (\<forall>i rule. map_of (en_cache s) i = Some rule \<longrightarrow> ru_RuleType rule = i)"

text \<open>What loading the rules leaves alone.\<close>

definition behind :: "'z loanbook_scheme \<Rightarrow> 'z loanbook_scheme \<Rightarrow> bool" where
  "behind s t \<longleftrightarrow> st_events t = st_events s \<and> st_seq t = st_seq s \<and> lg_proj t = lg_proj s \<and> lb_proj t = lb_proj s \<and>
     lb_applicants t = lb_applicants s \<and> en_evaluators t = en_evaluators s"

lemma openVersion_in: "openVersion best vs = Some v \<Longrightarrow> v \<in> set vs \<or> best = Some v"
  by (induction vs arbitrary: best) (auto split: if_splits)

lemma ListRuleVersions_vers: "i \<noteq> '''' \<Longrightarrow> ListRuleVersions i s = (Inr (vers s i), s)"
  by (simp add: ListRuleVersions_def vers_def op_simps)

lemma closeOpen_content: "rv_Content (closeOpen t v) = rv_Content v"
  by (simp add: closeOpen_def)

lemma typedRules_insert:
  assumes "typedRules s" and "Validate s (rv_Content v) = Inr rule" and "ru_RuleType rule = rv_RuleID v"
  shows "typedRules (snd (InsertRuleVersion v s))"
  using assms
  by (auto simp: typedRules_def plainRegistry_def InsertRuleVersion_def op_simps Let_def vers_def closeOpen_content
      split: if_splits)

lemma typedRules_cache:
  assumes "typedRules s" and "v \<in> set (vers s i)" and "Validate s (rv_Content v) = Inr rule"
  shows "typedRules (s\<lparr>en_cache := AList.update i (rule\<lparr>ru_EffectiveFrom := t\<rparr>) (en_cache s)\<rparr>)"
  using assms by (auto simp: typedRules_def plainRegistry_def vers_def)

lemma typedRules_loadEntry:
  assumes "re_RuleID e \<noteq> ''''" and "re_RuleType e = re_RuleID e"
  shows "preserves typedRules (loadEntry e)"
proof (rule preservesI)
  fix s :: "'a engine_scheme"
  assume s: "typedRules s"
  have ins: "typedRules t"
    if "InsertRuleVersion (newRuleVersion s (re_RuleID e) 1 (re_RuleType e) raw ''system'' why) s = (x, t)"
      "Validate s raw = Inr rule" "ru_RuleType rule = re_RuleType e" for raw rule why x t
    using typedRules_insert [OF s, of "newRuleVersion s (re_RuleID e) 1 (re_RuleType e) raw ''system'' why" rule] that assms
    by (simp add: newRuleVersion_def)
  show "typedRules (snd (loadEntry e s))"
    using s assms(1)
    by (auto simp: loadEntry_def op_simps ListRuleVersions_vers ctxE_def bindE_def
        split: sum.splits prod.splits if_splits intro: ins)
qed

lemma typedRules_warmEntry:
  assumes "re_RuleID e \<noteq> ''''"
  shows "preserves typedRules (warmEntry e)"
proof (rule preservesI)
  fix s :: "'a engine_scheme"
  assume s: "typedRules s"
  show "typedRules (snd (warmEntry e s))"
  proof (cases "openVersion None (vers s (re_RuleID e))")
    case None
    then show ?thesis using s assms by (simp add: warmEntry_def op_simps ListRuleVersions_vers)
  next
    case (Some v)
    then have v: "v \<in> set (vers s (re_RuleID e))" using openVersion_in by fastforce
    show ?thesis
      using s assms Some typedRules_cache [OF s v]
      by (cases "Validate s (rv_Content v)") (simp_all add: warmEntry_def op_simps ListRuleVersions_vers ctxR_def)
  qed
qed

lemma typedRules_LoadFromDisk: "preserves typedRules LoadFromDisk"
proof (rule preservesI)
  fix s :: "'a engine_scheme"
  assume s: "typedRules s"
  show "typedRules (snd (LoadFromDisk s))"
  proof (cases "en_schemaErr s")
    case None
    show ?thesis
    proof (cases "en_registryFile s")
      case (Inr entries)
      then have plain: "\<And>e. e \<in> set entries \<Longrightarrow> re_RuleID e \<noteq> '''' \<and> re_RuleType e = re_RuleID e"
        using s by (simp add: typedRules_def plainRegistry_def)
      let ?t = "s\<lparr>en_registry := entries, en_registryByID := fold (\<lambda>e m. AList.update (re_RuleID e) e m) entries []\<rparr>"
      have t: "typedRules ?t" using s by (auto simp: typedRules_def plainRegistry_def vers_def)
      have "preserves typedRules (bindE (mapE loadEntry entries) (\<lambda>pss.
          bindE (guardE (concat pss = []) (ERules (LoadProblems (concat pss)))) (\<lambda>_. foreachE entries warmEntry)))"
        by (intro preserves_bindE preserves_mapE_on preserves_foreachE_on preserves_guardE typedRules_loadEntry
            typedRules_warmEntry; use plain in blast)
      from preservesD [OF this t] show ?thesis
        using None Inr s by (simp add: LoadFromDisk_def op_simps)
    qed (use s None in \<open>simp add: LoadFromDisk_def op_simps\<close>)
  qed (use s in \<open>simp add: LoadFromDisk_def op_simps\<close>)
qed

lemma behind_LoadFromDisk: "preserves (behind s) LoadFromDisk"
proof -
  have l: "preserves (behind s) (loadEntry e)" for e
    by (auto simp: preserves_def behind_def loadEntry_def op_simps ListRuleVersions_def InsertRuleVersion_def ctxE_def
        bindE_def Let_def split: sum.splits prod.splits if_splits)
  moreover have "preserves (behind s) (warmEntry e)" for e
    by (auto simp: preserves_def behind_def warmEntry_def op_simps ListRuleVersions_def bindE_def
        split: sum.splits option.splits)
  ultimately show ?thesis unfolding LoadFromDisk_def
    by (intro pres preserves_modifyE) (simp add: behind_def)
qed

text \<open>A process that can serve: started, or after a request to the bank.\<close>

inductive process_reachable :: "'z simulation_scheme \<Rightarrow> bool" where
  started: "plainRegistry s \<Longrightarrow> env ''DATABASE_URL'' = '''' \<Longrightarrow> startTime env = Inr t \<Longrightarrow>
     process_reachable (snd (startProcess env s))"
| served: "process_reachable s \<Longrightarrow> process_reachable (snd (bankMux newRand w s))"

lemma registered_evaluators:
  "foreachE xs (\<lambda>(ruleType, ev). RegisterEvaluator ruleType ev) s =
     (Inr (), s\<lparr>en_evaluators := fold (\<lambda>(ty, ev) m. AList.update ty ev m) xs (en_evaluators s)\<rparr>)"
  by (induction xs arbitrary: s) (auto simp: op_simps RegisterEvaluator_def split: prod.splits)

lemma startRules_init:
  fixes s :: "'z loanbook_scheme"
  assumes "plainRegistry s" and "st_events s = []" and "st_seq s = 0" and "st_versions s = []"
  shows "bank_init (snd (startRules (fresh s)))"
proof -
  define u where "u = (fresh s)\<lparr>en_evaluators := evaluators\<rparr>"
  have "foreachE evaluators (\<lambda>(ruleType, ev). RegisterEvaluator ruleType ev) (fresh s) = (Inr (), u)"
    by (simp add: registered_evaluators u_def) (simp add: fresh_def evaluators_def)
  then have run: "snd (startRules (fresh s)) = snd (LoadFromDisk u)"
    by (simp add: startRules_def op_simps)
  have "typedRules u" using assms by (simp add: typedRules_def plainRegistry_def vers_def u_def fresh_def)
  then have t: "typedRules (snd (LoadFromDisk u))" by (rule preservesD [OF typedRules_LoadFromDisk])
  have b: "behind u (snd (LoadFromDisk u))"
    by (rule preservesD [OF behind_LoadFromDisk]) (simp add: behind_def)
  let ?t = "snd (LoadFromDisk u)"
  have ev: "en_evaluators ?t = evaluators" using b by (simp add: behind_def u_def)
  have typed: "ru_RuleType rule = i" if "map_of (en_cache ?t) i = Some rule" for i rule
    using t that by (auto simp: typedRules_def)
  have "decidedBy (en_cache ?t) (en_evaluators ?t) ''risk_scoring'' EvaluateRiskScore"
    "decidedBy (en_cache ?t) (en_evaluators ?t) ''loan_underwriting'' EvaluateUnderwriting"
    "decidedBy (en_cache ?t) (en_evaluators ?t) ''loan_servicing'' EvaluateServicing"
    "waterfall_wired ?t"
    by (auto simp: decidedBy_def waterfall_wired_def getEvaluator_def ev spendWaterfallRuleID_def dest!: typed)
      (simp_all add: evaluators_def)
  moreover have "ledger_init ?t" "lb_proj ?t = newLoanProjection" "lb_applicants ?t = []"
    using b assms by (simp_all add: behind_def ledger_init_def u_def fresh_def)
  ultimately show ?thesis by (simp add: run bank_init_def)
qed

lemma reachable_starts [pres]:
  "preserves bank_reachable EnsureSystemAccounts" "in64 n \<Longrightarrow> preserves bank_reachable (SeedCapital n)"
  "preserves bank_reachable Seed" "preserves bank_reachable SeedLoans"
  by (auto simp: preserves_def intro: bank_reachable.step bank_step.intros)

lemma startBooks_reachable:
  assumes "bank_init s"
  shows "bank_reachable (snd (startBooks s))"
proof -
  let ?s = "s\<lparr>lg_rates := Some (RuleRateProvider ''fx_policy'' True)\<rparr>"
  have "bank_init ?s"
    using assms by (simp add: bank_init_def ledger_init_def waterfall_wired_def getEvaluator_def)
  then have r: "bank_reachable ?s" by (rule bank_reachable.init)
  have "in64 seedCapitalCents" by (simp add: seedCapitalCents_def in64_def min64_def max64_def)
  then have "bank_reachable (snd (bindE EnsureSystemAccounts (\<lambda>_. bindE (SeedCapital seedCapitalCents) (\<lambda>_.
      bindE Seed (\<lambda>_. SeedLoans))) ?s))"
    by (intro preservesD [where P = bank_reachable, OF _ r] pres)
  then show ?thesis by (simp add: startBooks_def op_simps)
qed

lemma bank_inv_New_simulation: "bank_inv s \<Longrightarrow> bank_inv (New_simulation s)"
  by (rule bank_inv_of_calm) (auto simp: calm_def New_simulation_def quietView_def intro: loan_inv_quiet)

lemma bank_inv_startProcess:
  assumes "plainRegistry s" and "env ''DATABASE_URL'' = ''''" and "startTime env = Inr t"
  shows "bank_inv (snd (startProcess env s))"
proof -
  let ?s = "openStore env (setClock (New_clock t) s)"
  have s: "plainRegistry ?s" "st_events ?s = []" "st_seq ?s = 0" "st_versions ?s = []"
    using assms(1,2) by (simp_all add: plainRegistry_def openStore_def setClock_def)
  obtain r u where u: "startRules (fresh ?s) = (r, u)" by (cases "startRules (fresh ?s)")
  have init: "bank_init u" using startRules_init [OF s] u by simp
  obtain q w where w: "startBooks u = (q, w)" by (cases "startBooks u")
  have "bank_inv u" "bank_inv w"
    using bank_inv_init [OF init] bank_reachable_inv [OF startBooks_reachable [OF init]] w by simp_all
  then show ?thesis
    using u w bank_inv_New_simulation [of w]
    by (cases r; cases q) (simp_all add: startProcess_def assms(3) op_simps)
qed

lemma process_reachable_inv: "process_reachable s \<Longrightarrow> bank_inv s"
  by (induction rule: process_reachable.induct) (auto intro: bank_inv_startProcess bank_inv_bankMux)

section \<open>The process keeps the books\<close>

text \<open>C33: End to end: a process that starts on an empty store with a registry that names each rule after
  its type, and then serves any sequence of requests to the bank over its HTTP interface, whatever
  their paths and bodies are, is at every point between them in a state where the books balance in
  every currency, every account total is what the journal of the event log adds up to, and the loan
  book is the replay of its events.\<close>

theorem process_keeps_books:
  assumes "process_reachable s"
  shows "wrap64 (sumCur c (pj_accounts (lg_proj s)) (debitOf (lg_proj s))) =
      wrap64 (sumCur c (pj_accounts (lg_proj s)) (creditOf (lg_proj s))) \<and>
    debitOf (lg_proj s) a = wrap64 (sumFor Debit a (journal (st_events s))) \<and>
    creditOf (lg_proj s) a = wrap64 (sumFor Credit a (journal (st_events s))) \<and>
    lb_proj s = replay apply_loan loanEventTypes (st_events s) newLoanProjection"
proof -
  have l: "loan_inv s" using process_reachable_inv [OF assms] by (simp add: bank_inv_def)
  then have inv: "ledger_inv s" by simp
  then have "trial_balance (lg_proj s)" by (simp add: ledger_inv_def proj_inv_def)
  then show ?thesis
    using synced_totals [OF ledger_inv_synced [OF inv]] loan_inv_synced [OF l]
    by (simp add: trial_balance_def loan_synced_def)
qed

text \<open>A process whose registry has one rule, and a purchase that is asked of it.\<close>

definition sampleDisk :: simulation where
  "sampleDisk = loanbook.extend
     (quietBook\<lparr>en_registryFile := Inr [\<lparr>re_RuleID = ''fx_policy'', re_RuleType = ''fx_policy'',
        re_Path = ''fx.yaml'', re_Domain = '''', re_Owner = ''''\<rparr>]\<rparr>) (simulation.fields 0)"

definition samplePost :: wire where
  "samplePost =
     \<lparr>wq_Method = ''POST'', wq_Path = ''/simulate/purchase'', wq_Query = [],
      wq_Body = BodyJSON (JObj [(''account_id'', JStr DemoAccountID), (''amount_cents'', JNum 4200)])\<rparr>"

definition sampleProcess :: simulation where
  "sampleProcess = snd (bankMux (\<lambda>_ _ _. 0) samplePost (snd (startProcess (\<lambda>_. '''') sampleDisk)))"

lemma sampleProcess_reachable: "process_reachable sampleProcess"
proof -
  have "isl (startTime (\<lambda>_. '''')) = False" by code_simp
  then obtain t where "startTime (\<lambda>_. '''') = Inr t" by (cases "startTime (\<lambda>_. '''')") auto
  moreover have "plainRegistry sampleDisk" by (simp add: plainRegistry_def sampleDisk_def loanbook.defs)
  ultimately show ?thesis
    unfolding sampleProcess_def by (intro process_reachable.served process_reachable.started) simp_all
qed

theorem process_keeps_books_witness:
  "wrap64 (sumCur ''USD'' (pj_accounts (lg_proj sampleProcess)) (debitOf (lg_proj sampleProcess))) =
   wrap64 (sumCur ''USD'' (pj_accounts (lg_proj sampleProcess)) (creditOf (lg_proj sampleProcess)))"
  using process_keeps_books [OF sampleProcess_reachable] by blast

text \<open>C35: Reading requests read. Whatever a \<open>GET\<close> request to the bank asks for and whether it succeeds, it
  leaves the event log, both projections, the clock, the applicants, the rules in the cache and every
  stored rule version as they were; all it can write are applications of rules, after the ones
  recorded before (the ratios of the dashboard evaluate rules).\<close>

theorem get_requests_read:
  assumes "process_reachable s" and "wq_Method w = ''GET''" and "bankMux newRand w s = (resp, s')"
  shows "st_events s' = st_events s \<and> lg_proj s' = lg_proj s \<and> lb_proj s' = lb_proj s \<and> now s' = now s \<and>
    lb_applicants s' = lb_applicants s \<and> en_cache s' = en_cache s \<and> st_versions s' = st_versions s \<and>
    (\<exists>more. st_apps s' = st_apps s @ more)"
proof -
  have c: "calm (quietView s) (st_versions s) (st_apps s) s"
    using process_reachable_inv [OF assms(1)] by (simp add: calm_def bank_inv_def)
  have "calm (quietView s) (st_versions s) (st_apps s) s'"
  proof (cases "routed w")
    case None
    then show ?thesis using assms(3) c by (simp add: bankMux_def)
  next
    case (Some er)
    then obtain e r m where er: "er = (e, r)" "dispatch appMux ''GET'' (pathSegments (wq_Path w)) = Some (e, m)"
      using assms(2) by (auto simp: routed_def)
    show ?thesis
    proof (cases "bankEndpointOf e")
      case None
      then show ?thesis using assms(3) c Some er(1) by (simp add: bankMux_def)
    next
      case (Some b)
      then show ?thesis
        using assms(3) \<open>routed w = Some er\<close> er(1) calm_serveBank [OF get_reads [OF er(2) Some] c, of newRand r]
        by (auto simp: bankMux_def split: prod.splits)
    qed
  qed
  then show ?thesis by (simp add: calm_def quietView_def)
qed

theorem get_requests_read_witness:
  "st_events (snd (bankMux (\<lambda>_ _ _. 0) (samplePost\<lparr>wq_Method := ''GET'', wq_Path := ''/dashboard/summary''\<rparr>) sampleProcess))
     = st_events sampleProcess"
proof -
  let ?w = "samplePost\<lparr>wq_Method := ''GET'', wq_Path := ''/dashboard/summary''\<rparr>"
  have "wq_Method ?w = ''GET''" by simp
  from get_requests_read [OF sampleProcess_reachable this surjective_pairing] show ?thesis by blast
qed

end
