(* ===== verification/Pg_Store.thy ===== *)
theory Pg_Store
  imports Store_Mem
begin

text \<open>
  \<open>internal/store/pgstore\<close>: the store on a PostgreSQL database. The tables are those of
  \<open>migrations/*.sql\<close>; every SQL statement of the package is a function on them, named after what it does.
  What the server and the connection do is outside: \<open>pg_net\<close> tells for each request whether it is served,
  refused, or served with the reply lost; \<open>pg_time\<close> and \<open>pg_jsonb\<close> are what a timestamp and a JSON document
  become in a column, \<open>pg_collate\<close> is the sort key of a text, \<open>pg_accepts\<close> tells which schema statements the server
  takes. Nothing is assumed of them here. A table that does not exist is a request that is refused.
\<close>

section \<open>The database\<close>

datatype fault = Served | Refused | ReplyLost

record tables =
  tb_events :: "Event list"
  tb_versions :: "RuleVersion list"
  tb_apps :: "RuleApplication list"
  tb_migrations :: "string list option"
  tb_ddl :: "string list"

text \<open>
  \<open>pg_saved\<close> is what a rollback of the open transaction goes back to. The sequence behind \<open>events.seq\<close>
  is not part of it: numbers drawn by a transaction that is rolled back are lost.
\<close>

record pgstore = entropy +
  pg_tables :: tables
  pg_saved :: "tables option"
  pg_seq :: int
  pg_calls :: nat
  pg_net :: "nat \<Rightarrow> fault"
  pg_time :: "instant \<Rightarrow> instant"
  pg_jsonb :: "json \<Rightarrow> json"
  pg_collate :: "string \<Rightarrow> string"
  pg_accepts :: "string list \<Rightarrow> string \<Rightarrow> bool"

text \<open>A request to the server. The statement \<open>m\<close> fails for reasons of its own or is undone with the connection.\<close>

definition request :: "('z pgstore_scheme, 'a) oper \<Rightarrow> ('z pgstore_scheme, 'a) oper" where
  "request m s =
     (let s' = s\<lparr>pg_calls := pg_calls s + 1\<rparr>
      in case pg_net s (pg_calls s) of
           Served \<Rightarrow> m s'
         | Refused \<Rightarrow> (Inl (EStore Unavailable), s')
         | ReplyLost \<Rightarrow> (Inl (EStore Unavailable), snd (m s')))"

definition onTables :: "(tables \<Rightarrow> tables) \<Rightarrow> 'z pgstore_scheme \<Rightarrow> 'z pgstore_scheme" where
  "onTables f s = s\<lparr>pg_tables := f (pg_tables s)\<rparr>"

definition Begin :: "('z pgstore_scheme, unit) oper" where
  "Begin = bindE (request (returnE ())) (\<lambda>_. modifyE (\<lambda>s. s\<lparr>pg_saved := Some (pg_tables s)\<rparr>))"

definition Commit :: "('z pgstore_scheme, unit) oper" where
  "Commit = request (modifyE (\<lambda>s. s\<lparr>pg_saved := None\<rparr>))"

text \<open>\<open>tx.Rollback\<close>, which does nothing once the transaction is committed. A server that does not hear of it
  ends the transaction with the connection.\<close>

definition Rollback :: "('z pgstore_scheme, unit) oper" where
  "Rollback = modifyE (\<lambda>s. case pg_saved s of None \<Rightarrow> s | Some t \<Rightarrow> s\<lparr>pg_tables := t, pg_saved := None\<rparr>)"

text \<open>\<open>defer d\<close>: \<open>d\<close> runs when \<open>m\<close> has returned, whatever it returned.\<close>

definition deferE :: "('s, unit) oper \<Rightarrow> ('s, 'a) oper \<Rightarrow> ('s, 'a) oper" where
  "deferE d m s = (case m s of (r, s') \<Rightarrow> (r, snd (d s')))"

text \<open>A transaction: begun, rolled back unless it gets to its commit, and committed at the end.\<close>

definition transaction :: "string \<Rightarrow> string \<Rightarrow> ('z pgstore_scheme, 'a) oper \<Rightarrow> ('z pgstore_scheme, 'a) oper" where
  "transaction begins commits m =
     bindE (ctxE begins Begin) (\<lambda>_.
     deferE Rollback (bindE m (\<lambda>x. bindE (ctxE commits Commit) (\<lambda>_. returnE x))))"

text \<open>Opening, closing and emptying the store. \<open>pool\<close> is what making the connection pool gives.\<close>

definition Open_store :: "unit res \<Rightarrow> ('z pgstore_scheme, unit) oper" where
  "Open_store pool =
     bindE (liftE (ctxR ''pgstore: create pool'' pool)) (\<lambda>_. ctxE ''pgstore: ping'' (request (returnE ())))"

definition Close_store :: "('z pgstore_scheme, unit) oper" where
  "Close_store = returnE ()"

definition Truncate :: "('z pgstore_scheme, unit) oper" where
  "Truncate = ctxE ''pgstore: truncate'' (request (modifyE (onTables
     (\<lambda>t. t\<lparr>tb_apps := [], tb_versions := [], tb_events := []\<rparr>))))"

section \<open>Migrations\<close>

text \<open>A migration file: its name, whether it is a directory, and what reading it gives.\<close>

record migrationFile =
  mf_Name :: string
  mf_IsDir :: bool
  mf_Content :: "string res"

definition splitStatements :: "string \<Rightarrow> string list" where
  "splitStatements sqlText = filter (\<lambda>p. p \<noteq> '''') (map TrimSpace (splitOn (CHR '';'') sqlText))"

definition sqlEnsureMigrations :: "('z pgstore_scheme, unit) oper" where
  "sqlEnsureMigrations = modifyE (onTables
     (\<lambda>t. case tb_migrations t of None \<Rightarrow> t\<lparr>tb_migrations := Some []\<rparr> | Some _ \<Rightarrow> t))"

definition migrated :: "'z pgstore_scheme \<Rightarrow> string list" where
  "migrated s = (case tb_migrations (pg_tables s) of None \<Rightarrow> [] | Some ns \<Rightarrow> ns)"

definition sqlApplied :: "string \<Rightarrow> ('z pgstore_scheme, bool) oper" where
  "sqlApplied name = getE (\<lambda>s. name \<in> set (migrated s))"

definition sqlDDL :: "string \<Rightarrow> ('z pgstore_scheme, unit) oper" where
  "sqlDDL stmt =
     bindE (getE (\<lambda>s. pg_accepts s (tb_ddl (pg_tables s)) stmt)) (\<lambda>ok.
     bindE (guardE ok (EStore DDLRefused)) (\<lambda>_.
     modifyE (onTables (\<lambda>t. t\<lparr>tb_ddl := tb_ddl t @ [stmt]\<rparr>))))"

definition sqlRecord :: "string \<Rightarrow> ('z pgstore_scheme, unit) oper" where
  "sqlRecord name =
     bindE (getE (\<lambda>s. name \<in> set (migrated s))) (\<lambda>dup.
     bindE (guardE (\<not> dup) (EStore UniqueViolation)) (\<lambda>_.
     modifyE (\<lambda>s. onTables (\<lambda>t. t\<lparr>tb_migrations := Some (migrated s @ [name])\<rparr>) s)))"

definition applyMigration :: "string \<Rightarrow> string \<Rightarrow> ('z pgstore_scheme, unit) oper" where
  "applyMigration name sqlText =
     transaction ''pgstore: begin migration'' ''pgstore: commit migration''
       (bindE (foreachE (splitStatements sqlText) (\<lambda>stmt. ctxE ''pgstore: apply migration'' (request (sqlDDL stmt)))) (\<lambda>_.
        ctxE ''pgstore: record migration'' (request (sqlRecord name))))"

definition isMigration :: "migrationFile \<Rightarrow> bool" where
  "isMigration e \<longleftrightarrow> \<not> (mf_IsDir e \<or> \<not> HasSuffix (mf_Name e) ''.sql'')"

definition readFile :: "migrationFile list \<Rightarrow> string \<Rightarrow> string res" where
  "readFile entries name =
     (case find (\<lambda>e. mf_Name e = name) entries of
        None \<Rightarrow> Inl (EStore (ReadFile name))
      | Some e \<Rightarrow> mf_Content e)"

definition migrateOne :: "migrationFile list \<Rightarrow> string \<Rightarrow> ('z pgstore_scheme, unit) oper" where
  "migrateOne entries name =
     bindE (ctxE ''pgstore: check migration'' (request (sqlApplied name))) (\<lambda>applied.
     if applied then returnE ()
     else bindE (liftE (ctxR ''pgstore: read migration'' (readFile entries name))) (\<lambda>raw. applyMigration name raw))"

definition Migrate :: "migrationFile list res \<Rightarrow> ('z pgstore_scheme, unit) oper" where
  "Migrate migrationsFS =
     bindE (ctxE ''pgstore: ensure schema_migrations'' (request sqlEnsureMigrations)) (\<lambda>_.
     bindE (liftE (ctxR ''pgstore: read migrations dir'' migrationsFS)) (\<lambda>entries.
     (let names = sort (map mf_Name (filter isMigration entries))
      in foreachE names (migrateOne entries))))"

section \<open>Events\<close>

text \<open>
  \<open>INSERT INTO events ... RETURNING seq, recorded_at\<close>: the number is drawn before the row is checked
  against the others, and stays drawn when it is refused.
\<close>

definition eventRow :: "'z pgstore_scheme \<Rightarrow> int \<Rightarrow> Event \<Rightarrow> Event" where
  "eventRow s n e = e\<lparr>ev_Seq := n, ev_OccurredAt := pg_time s (ev_OccurredAt e),
     ev_RecordedAt := pg_time s (ev_RecordedAt e), ev_Payload := pg_jsonb s (ev_Payload e)\<rparr>"

definition sqlInsertEvent :: "Event \<Rightarrow> ('z pgstore_scheme, int \<times> instant) oper" where
  "sqlInsertEvent e =
     bindE (modifyE (\<lambda>s. s\<lparr>pg_seq := pg_seq s + 1\<rparr>)) (\<lambda>_.
     bindE (getE (\<lambda>s. list_ex (\<lambda>x. ev_ID x = ev_ID e) (tb_events (pg_tables s)))) (\<lambda>dup.
     bindE (guardE (\<not> dup) (EStore UniqueViolation)) (\<lambda>_.
     bindE (getE (\<lambda>s. eventRow s (pg_seq s) e)) (\<lambda>row.
     bindE (modifyE (onTables (\<lambda>t. t\<lparr>tb_events := tb_events t @ [row]\<rparr>))) (\<lambda>_.
     returnE (ev_Seq row, ev_RecordedAt row))))))"

definition insertEvent :: "Event \<Rightarrow> ('z pgstore_scheme, Event) oper" where
  "insertEvent e =
     bindE (if ev_ID e = '''' then newID else returnE (ev_ID e)) (\<lambda>i.
     bindE (getE wall) (\<lambda>w.
     (let e' = e\<lparr>ev_ID := i, ev_RecordedAt := (if ev_RecordedAt e = zeroTime then w else ev_RecordedAt e)\<rparr>
      in bindE (ctxE ''pgstore: insert event'' (request (sqlInsertEvent e'))) (\<lambda>(n, t).
         returnE (e'\<lparr>ev_Seq := n, ev_RecordedAt := t\<rparr>)))))"

definition pg_Append :: "Event list \<Rightarrow> ('z pgstore_scheme, Event list) oper" where
  "pg_Append events =
     (if events = [] then returnE []
      else transaction ''pgstore: begin append'' ''pgstore: commit append'' (mapE insertEvent events))"

definition sqlSelectEvents :: "EventFilter \<Rightarrow> ('z pgstore_scheme, Event list) oper" where
  "sqlSelectEvents f =
     getE (\<lambda>s. let rows = sort_key ev_Seq (filter (\<lambda>e. ef_AfterSeq f < ev_Seq e \<and>
            (ef_AggregateID f \<noteq> '''' \<longrightarrow> ev_AggregateID e = ef_AggregateID f) \<and>
            (0 < length (ef_Types f) \<longrightarrow> ev_Type e \<in> set (ef_Types f))) (tb_events (pg_tables s)))
          in if 0 < ef_Limit f then take (nat (ef_Limit f)) rows else rows)"

definition pg_List :: "EventFilter \<Rightarrow> ('z pgstore_scheme, Event list) oper" where
  "pg_List f = ctxE ''pgstore: list events'' (request (sqlSelectEvents f))"

section \<open>Rule versions\<close>

text \<open>The columns \<open>version\<close> are 32-bit integers; the driver refuses other numbers.\<close>

definition in32 :: "int \<Rightarrow> bool" where
  "in32 n \<longleftrightarrow> - (2 ^ 31) \<le> n \<and> n < 2 ^ 31"

definition versionRow :: "'z pgstore_scheme \<Rightarrow> RuleVersion \<Rightarrow> RuleVersion" where
  "versionRow s v = v\<lparr>rv_EffectiveFrom := pg_time s (rv_EffectiveFrom v),
     rv_EffectiveTo := map_option (pg_time s) (rv_EffectiveTo v), rv_CreatedAt := pg_time s (rv_CreatedAt v)\<rparr>"

definition closeRow :: "instant \<Rightarrow> string \<Rightarrow> RuleVersion \<Rightarrow> RuleVersion" where
  "closeRow t ruleID v =
     (if rv_RuleID v = ruleID \<and> rv_EffectiveTo v = None then v\<lparr>rv_EffectiveTo := Some t\<rparr> else v)"

definition sqlCloseVersion :: "instant \<Rightarrow> string \<Rightarrow> ('z pgstore_scheme, unit) oper" where
  "sqlCloseVersion t ruleID =
     modifyE (\<lambda>s. onTables (\<lambda>tb. tb\<lparr>tb_versions := map (closeRow (pg_time s t) ruleID) (tb_versions tb)\<rparr>) s)"

definition sqlInsertVersion :: "RuleVersion \<Rightarrow> ('z pgstore_scheme, unit) oper" where
  "sqlInsertVersion v =
     bindE (guardE (in32 (rv_Version v)) (EStore OutOfRange)) (\<lambda>_.
     bindE (getE (\<lambda>s. list_ex (\<lambda>x. rv_RuleID x = rv_RuleID v \<and> rv_Version x = rv_Version v) (tb_versions (pg_tables s)))) (\<lambda>dup.
     bindE (guardE (\<not> dup) (EStore UniqueViolation)) (\<lambda>_.
     modifyE (\<lambda>s. onTables (\<lambda>t. t\<lparr>tb_versions := tb_versions t @ [versionRow s v]\<rparr>) s))))"

definition conflictOr :: "err \<Rightarrow> err" where
  "conflictOr e = (if e = EStore UniqueViolation then ErrConflict else Ctx ''pgstore: insert rule version'' e)"

definition mapErrE :: "(err \<Rightarrow> err) \<Rightarrow> ('s, 'a) oper \<Rightarrow> ('s, 'a) oper" where
  "mapErrE f m s = (case m s of (Inl e, s') \<Rightarrow> (Inl (f e), s') | (Inr x, s') \<Rightarrow> (Inr x, s'))"

definition pg_InsertRuleVersion :: "RuleVersion \<Rightarrow> ('z pgstore_scheme, unit) oper" where
  "pg_InsertRuleVersion v =
     bindE (getE wall) (\<lambda>w.
     (let v' = v\<lparr>rv_CreatedAt := (if rv_CreatedAt v = zeroTime then w else rv_CreatedAt v)\<rparr>
      in transaction ''pgstore: begin insert rule version'' ''pgstore: commit insert rule version''
           (bindE (ctxE ''pgstore: close previous rule version''
              (request (sqlCloseVersion (rv_EffectiveFrom v') (rv_RuleID v')))) (\<lambda>_.
            mapErrE conflictOr (request (sqlInsertVersion v'))))))"

definition versionOrder :: "'z pgstore_scheme \<Rightarrow> RuleVersion \<Rightarrow> string \<times> string \<times> int" where
  "versionOrder s v = (pg_collate s (rv_RuleID v), rv_RuleID v, rv_Version v)"

definition sqlSelectVersions :: "string \<Rightarrow> ('z pgstore_scheme, RuleVersion list) oper" where
  "sqlSelectVersions ruleID = getE (\<lambda>s. sort_key (versionOrder s)
     (filter (\<lambda>v. ruleID = '''' \<or> rv_RuleID v = ruleID) (tb_versions (pg_tables s))))"

definition pg_ListRuleVersions :: "string \<Rightarrow> ('z pgstore_scheme, RuleVersion list) oper" where
  "pg_ListRuleVersions ruleID = ctxE ''pgstore: list rule versions'' (request (sqlSelectVersions ruleID))"

definition sqlSelectVersion :: "string \<Rightarrow> int \<Rightarrow> ('z pgstore_scheme, RuleVersion) oper" where
  "sqlSelectVersion ruleID version =
     bindE (guardE (in32 version) (EStore OutOfRange)) (\<lambda>_.
     bindE (getE (\<lambda>s. find (\<lambda>v. rv_RuleID v = ruleID \<and> rv_Version v = version) (tb_versions (pg_tables s))))
       (\<lambda>r. liftE (ofOption (EStore NoRows) r)))"

definition notFoundIfNoRows :: "err \<Rightarrow> err" where
  "notFoundIfNoRows e = (if e = EStore NoRows then ErrNotFound else Ctx ''pgstore: get rule version'' e)"

definition pg_GetRuleVersion :: "string \<Rightarrow> int \<Rightarrow> ('z pgstore_scheme, RuleVersion) oper" where
  "pg_GetRuleVersion ruleID version = mapErrE notFoundIfNoRows (request (sqlSelectVersion ruleID version))"

section \<open>Rule applications\<close>

definition appRow :: "'z pgstore_scheme \<Rightarrow> RuleApplication \<Rightarrow> RuleApplication" where
  "appRow s a = a\<lparr>ra_Inputs := pg_jsonb s (ra_Inputs a), ra_Outcome := pg_jsonb s (ra_Outcome a),
     ra_AppliedAt := pg_time s (ra_AppliedAt a), ra_RecordedAt := pg_time s (ra_RecordedAt a)\<rparr>"

definition sqlInsertApp :: "RuleApplication \<Rightarrow> ('z pgstore_scheme, unit) oper" where
  "sqlInsertApp a =
     bindE (guardE (in32 (ra_Version a)) (EStore OutOfRange)) (\<lambda>_.
     bindE (getE (\<lambda>s. list_ex (\<lambda>x. ra_ID x = ra_ID a) (tb_apps (pg_tables s)))) (\<lambda>dup.
     bindE (guardE (\<not> dup) (EStore UniqueViolation)) (\<lambda>_.
     modifyE (\<lambda>s. onTables (\<lambda>t. t\<lparr>tb_apps := tb_apps t @ [appRow s a]\<rparr>) s))))"

definition pg_InsertRuleApplication :: "RuleApplication \<Rightarrow> ('z pgstore_scheme, RuleApplication) oper" where
  "pg_InsertRuleApplication a =
     bindE (if ra_ID a = '''' then newID else returnE (ra_ID a)) (\<lambda>i.
     bindE (getE wall) (\<lambda>w.
     (let a' = a\<lparr>ra_ID := i, ra_RecordedAt := (if ra_RecordedAt a = zeroTime then w else ra_RecordedAt a)\<rparr>
      in bindE (ctxE ''pgstore: insert rule application'' (request (sqlInsertApp a'))) (\<lambda>_. returnE a'))))"

definition appOrder :: "'z pgstore_scheme \<Rightarrow> RuleApplication \<Rightarrow> instant \<times> string \<times> string" where
  "appOrder s a = (ra_RecordedAt a, pg_collate s (ra_ID a), ra_ID a)"

definition sqlSelectApps :: "string \<Rightarrow> string \<Rightarrow> int \<Rightarrow> ('z pgstore_scheme, RuleApplication list) oper" where
  "sqlSelectApps ruleID entityID limit = getE (\<lambda>s. take (nat limit) (rev (sort_key (appOrder s)
     (filter (\<lambda>a. (ruleID = '''' \<or> ra_RuleID a = ruleID) \<and> (entityID = '''' \<or> ra_EntityID a = entityID))
       (tb_apps (pg_tables s))))))"

definition pg_ListRuleApplications :: "string \<Rightarrow> string \<Rightarrow> int \<Rightarrow> ('z pgstore_scheme, RuleApplication list) oper" where
  "pg_ListRuleApplications ruleID entityID limit =
     (let limit' = (if limit \<le> 0 then 100 else limit)
      in ctxE ''pgstore: list rule applications'' (request (sqlSelectApps ruleID entityID limit')))"

end
