(* ===== verification/Store_Suite.thy ===== *)
theory Store_Suite
  imports Pg_Store
begin

text \<open>
  \<open>internal/store/storetest\<close>: the conformance suite that pins down what a store is, as operations on any
  implementation of the interface \<open>store.Store\<close>. A test fails with an error; where the source notes a failure
  and goes on (\<open>t.Errorf\<close>), the operation stops, which fails the test as well.
\<close>

section \<open>The interface\<close>

record 's Store =
  so_Append :: "Event list \<Rightarrow> ('s, Event list) oper"
  so_List :: "EventFilter \<Rightarrow> ('s, Event list) oper"
  so_InsertRuleVersion :: "RuleVersion \<Rightarrow> ('s, unit) oper"
  so_ListRuleVersions :: "string \<Rightarrow> ('s, RuleVersion list) oper"
  so_GetRuleVersion :: "string \<Rightarrow> int \<Rightarrow> ('s, RuleVersion) oper"
  so_InsertRuleApplication :: "RuleApplication \<Rightarrow> ('s, RuleApplication) oper"
  so_ListRuleApplications :: "string \<Rightarrow> string \<Rightarrow> int \<Rightarrow> ('s, RuleApplication list) oper"

definition memStore :: "'z memstore_scheme Store" where
  "memStore = \<lparr>so_Append = Append, so_List = ListEvents, so_InsertRuleVersion = InsertRuleVersion,
     so_ListRuleVersions = ListRuleVersions, so_GetRuleVersion = GetRuleVersion,
     so_InsertRuleApplication = InsertRuleApplication, so_ListRuleApplications = ListRuleApplications\<rparr>"

definition pgStore :: "'z pgstore_scheme Store" where
  "pgStore = \<lparr>so_Append = pg_Append, so_List = pg_List, so_InsertRuleVersion = pg_InsertRuleVersion,
     so_ListRuleVersions = pg_ListRuleVersions, so_GetRuleVersion = pg_GetRuleVersion,
     so_InsertRuleApplication = pg_InsertRuleApplication, so_ListRuleApplications = pg_ListRuleApplications\<rparr>"

section \<open>Checks\<close>

definition require :: "bool \<Rightarrow> string \<Rightarrow> ('s, unit) oper" where
  "require b what = guardE b (EStore (TestFailed what))"

text \<open>An operation that has to fail with the given error.\<close>

definition expectErr :: "err \<Rightarrow> ('s, 'a) oper \<Rightarrow> ('s, unit) oper" where
  "expectErr e m = bindE (attemptE m) (\<lambda>r. case r of
     Inl e' \<Rightarrow> require (errors_Is e' e) ''error'' | Inr _ \<Rightarrow> require False ''error'')"

definition baseTime :: instant where "baseTime = 1767225600 * 1000000000"

definition suiteMinute :: int where "suiteMinute = 60 * nanosPerSecond"

definition suiteHour :: int where "suiteHour = 3600 * nanosPerSecond"

section \<open>Events\<close>

definition suiteEvent :: "string \<Rightarrow> string \<Rightarrow> instant \<Rightarrow> json \<Rightarrow> Event" where
  "suiteEvent ty agg t payload = \<lparr>ev_ID = '''', ev_Seq = 0, ev_Type = ty, ev_AggregateID = agg,
     ev_OccurredAt = t, ev_RecordedAt = zeroTime, ev_Payload = payload\<rparr>"

definition eventsIn :: "Event list" where
  "eventsIn =
     [suiteEvent ''ledger.tx.posted'' ''acct-1'' baseTime (JObj [(''n'', JNum 1)]),
      suiteEvent ''ledger.tx.settled'' ''acct-1'' (baseTime + suiteMinute) (JObj [(''n'', JNum 2)]),
      suiteEvent ''loan.originated'' ''loan-1'' (baseTime + 2 * suiteMinute) (JObj [(''n'', JNum 3)])]"

definition explicitEvent :: Event where
  "explicitEvent = (suiteEvent ''loan.repaid'' ''loan-1'' baseTime (JObj []))
     \<lparr>ev_ID := ''evt-explicit'', ev_RecordedAt := baseTime + suiteHour\<rparr>"

definition anyEvent :: EventFilter where
  "anyEvent = \<lparr>ef_Types = [], ef_AggregateID = '''', ef_AfterSeq = 0, ef_Limit = 0\<rparr>"

definition assigned :: "Event \<Rightarrow> bool" where
  "assigned e \<longleftrightarrow> ev_Seq e \<noteq> 0 \<and> ev_ID e \<noteq> '''' \<and> ev_RecordedAt e \<noteq> zeroTime"

definition testEvents :: "'s Store \<Rightarrow> ('s, unit) oper" where
  "testEvents st =
     bindE (so_Append st eventsIn) (\<lambda>out.
     bindE (require (length out = 3) ''events back'') (\<lambda>_.
     bindE (require (list_all assigned out) ''assigned'') (\<lambda>_.
     bindE (require (ev_Seq (out ! 0) < ev_Seq (out ! 1) \<and> ev_Seq (out ! 1) < ev_Seq (out ! 2)) ''increasing Seq'') (\<lambda>_.
     bindE (so_Append st [explicitEvent]) (\<lambda>outExplicit.
     bindE (require (ev_ID (outExplicit ! 0) = ''evt-explicit'') ''explicit ID'') (\<lambda>_.
     bindE (require (ev_RecordedAt (outExplicit ! 0) = baseTime + suiteHour) ''explicit RecordedAt'') (\<lambda>_.
     bindE (require (\<not> ev_Seq (outExplicit ! 0) \<le> ev_Seq (out ! 2)) ''later Seq'') (\<lambda>_.
     bindE (so_List st anyEvent) (\<lambda>all.
     bindE (require (length all = 4) ''List all'') (\<lambda>_.
     bindE (require (sorted_wrt (<) (map ev_Seq all)) ''List ascending'') (\<lambda>_.
     bindE (so_List st (anyEvent\<lparr>ef_AggregateID := ''acct-1''\<rparr>)) (\<lambda>byAgg.
     bindE (require (length byAgg = 2 \<and> list_all (\<lambda>e. ev_AggregateID e = ''acct-1'') byAgg) ''List by aggregate'') (\<lambda>_.
     bindE (so_List st (anyEvent\<lparr>ef_Types := [''loan.originated'', ''loan.repaid'']\<rparr>)) (\<lambda>byType.
     bindE (require (length byType = 2) ''List by types'') (\<lambda>_.
     bindE (so_List st (anyEvent\<lparr>ef_AfterSeq := ev_Seq (out ! 0)\<rparr>)) (\<lambda>afterSeq.
     bindE (require (length afterSeq = 3 \<and> list_all (\<lambda>e. \<not> ev_Seq e \<le> ev_Seq (out ! 0)) afterSeq) ''List after seq'') (\<lambda>_.
     bindE (so_List st (anyEvent\<lparr>ef_Limit := 2\<rparr>)) (\<lambda>limited.
     bindE (require (length limited = 2) ''List limit'') (\<lambda>_.
     bindE (require (ev_Seq (limited ! 0) = ev_Seq (all ! 0) \<and> ev_Seq (limited ! 1) = ev_Seq (all ! 1)) ''oldest first'') (\<lambda>_.
     bindE (so_List st (anyEvent\<lparr>ef_AggregateID := ''acct-1'', ef_Limit := 1\<rparr>)) (\<lambda>combined.
     require (length combined = 1 \<and> ev_AggregateID (combined ! 0) = ''acct-1'') ''List combined'')))))))))))))))))))))"

section \<open>Rule versions\<close>

definition suiteVersion :: "string \<Rightarrow> int \<Rightarrow> string \<Rightarrow> string \<Rightarrow> string \<Rightarrow> string \<Rightarrow> instant \<Rightarrow> RuleVersion" where
  "suiteVersion i n content hash author why t = \<lparr>rv_RuleID = i, rv_Version = n, rv_RuleType = i, rv_Content = content,
     rv_ContentHash = hash, rv_SourceCommit = '''', rv_Author = author, rv_ChangeNote = why, rv_EffectiveFrom = t,
     rv_EffectiveTo = None, rv_CreatedAt = zeroTime\<rparr>"

definition fxV1 :: RuleVersion where
  "fxV1 = suiteVersion ''fx_policy'' 1 ''v1-content'' ''hash1'' ''alice'' ''initial'' baseTime"

definition v2From :: instant where "v2From = baseTime + 24 * suiteHour"

definition fxV2 :: RuleVersion where
  "fxV2 = suiteVersion ''fx_policy'' 2 ''v2-content'' ''hash2'' ''bob'' ''update'' v2From"

definition otherV1 :: RuleVersion where
  "otherV1 = suiteVersion ''depeg_policy'' 1 ''d1'' ''dhash1'' '''' '''' baseTime"

definition testRuleVersions :: "'s Store \<Rightarrow> ('s, unit) oper" where
  "testRuleVersions st =
     bindE (so_InsertRuleVersion st fxV1) (\<lambda>_.
     bindE (so_GetRuleVersion st ''fx_policy'' 1) (\<lambda>got.
     bindE (require (rv_EffectiveTo got = None) ''v1 open'') (\<lambda>_.
     bindE (require (rv_Content got = ''v1-content'' \<and> rv_ContentHash got = ''hash1'' \<and> rv_Author got = ''alice'' \<and>
       rv_ChangeNote got = ''initial'') ''fields'') (\<lambda>_.
     bindE (require (rv_CreatedAt got \<noteq> zeroTime) ''CreatedAt'') (\<lambda>_.
     bindE (require (rv_EffectiveFrom got = baseTime) ''EffectiveFrom'') (\<lambda>_.
     bindE (expectErr ErrConflict (so_InsertRuleVersion st (fxV1\<lparr>rv_Content := ''different''\<rparr>))) (\<lambda>_.
     bindE (so_GetRuleVersion st ''fx_policy'' 1) (\<lambda>stillOpen.
     bindE (require (rv_EffectiveTo stillOpen = None) ''still open'') (\<lambda>_.
     bindE (require (rv_Content stillOpen = ''v1-content'') ''still the content'') (\<lambda>_.
     bindE (so_InsertRuleVersion st fxV2) (\<lambda>_.
     bindE (so_GetRuleVersion st ''fx_policy'' 1) (\<lambda>v1After.
     bindE (require (rv_EffectiveTo v1After = Some v2From) ''v1 closed'') (\<lambda>_.
     bindE (so_GetRuleVersion st ''fx_policy'' 2) (\<lambda>v2After.
     bindE (require (rv_EffectiveTo v2After = None) ''v2 open'') (\<lambda>_.
     bindE (so_InsertRuleVersion st otherV1) (\<lambda>_.
     bindE (expectErr ErrNotFound (so_GetRuleVersion st ''fx_policy'' 99)) (\<lambda>_.
     bindE (expectErr ErrNotFound (so_GetRuleVersion st ''no_such_rule'' 1)) (\<lambda>_.
     bindE (so_ListRuleVersions st ''fx_policy'') (\<lambda>fxVersions.
     bindE (require (length fxVersions = 2 \<and> rv_Version (fxVersions ! 0) = 1 \<and> rv_Version (fxVersions ! 1) = 2) ''ascending'') (\<lambda>_.
     bindE (so_ListRuleVersions st '''') (\<lambda>allVersions.
     bindE (require (length allVersions = 3) ''all versions'') (\<lambda>_.
     bindE (require (rv_RuleID (allVersions ! 0) = ''depeg_policy'' \<and> rv_RuleID (allVersions ! 1) = ''fx_policy'' \<and>
       rv_RuleID (allVersions ! 2) = ''fx_policy'') ''grouping'') (\<lambda>_.
     require (rv_Version (allVersions ! 1) = 1 \<and> rv_Version (allVersions ! 2) = 2) ''ascending in the group'')))))))))))))))))))))))"

section \<open>Rule applications\<close>

definition suiteApp :: "string \<Rightarrow> string \<Rightarrow> json \<Rightarrow> json \<Rightarrow> instant \<Rightarrow> instant \<Rightarrow> RuleApplication" where
  "suiteApp rule entity inputs outcome applied recorded = \<lparr>ra_ID = '''', ra_RuleID = rule, ra_Version = 1,
     ra_EntityType = ''loan'', ra_EntityID = entity, ra_Inputs = inputs, ra_Outcome = outcome,
     ra_AppliedAt = applied, ra_RecordedAt = recorded\<rparr>"

definition testAutoAssignment :: "'s Store \<Rightarrow> ('s, unit) oper" where
  "testAutoAssignment st =
     (let app = suiteApp ''loan_underwriting'' ''loan-9'' (JObj []) (JObj []) baseTime zeroTime
      in bindE (so_InsertRuleApplication st app) (\<lambda>auto.
         bindE (require (ra_ID auto \<noteq> '''') ''ID'') (\<lambda>_.
         bindE (require (ra_RecordedAt auto \<noteq> zeroTime) ''RecordedAt'') (\<lambda>_.
         bindE (so_InsertRuleApplication st (app\<lparr>ra_ID := ''app-explicit'', ra_RecordedAt := baseTime + suiteHour\<rparr>)) (\<lambda>got.
         bindE (require (ra_ID got = ''app-explicit'') ''explicit ID'') (\<lambda>_.
         require (ra_RecordedAt got = baseTime + suiteHour) ''explicit RecordedAt''))))))"

definition suiteSpecs :: "(string \<times> string) list" where
  "suiteSpecs = [(''loan_underwriting'', ''loan-1''), (''loan_underwriting'', ''loan-2''), (''risk_scoring'', ''loan-1''),
     (''loan_underwriting'', ''loan-1''), (''risk_scoring'', ''loan-2'')]"

text \<open>The \<open>i\<close>th application of a series whose recording times start \<open>start\<close> seconds after the base time.\<close>

definition seriesApp :: "nat \<Rightarrow> nat \<Rightarrow> string \<times> string \<Rightarrow> RuleApplication" where
  "seriesApp start i sp = suiteApp (fst sp) (snd sp) (JObj [(''i'', JNum (of_nat i))]) (JObj [(''o'', JNum (of_nat i))])
     (baseTime + int i * suiteMinute) (baseTime + int (i + start) * nanosPerSecond)"

definition assertOrder :: "RuleApplication list \<Rightarrow> RuleApplication list \<Rightarrow> nat list \<Rightarrow> ('s, unit) oper" where
  "assertOrder apps got want =
     bindE (require (length got = length want) ''number of results'') (\<lambda>_.
     require (list_all2 (\<lambda>g w. ra_ID g = ra_ID (apps ! w)) got want) ''order of results'')"

definition testFilteringAndOrdering :: "'s Store \<Rightarrow> ('s, unit) oper" where
  "testFilteringAndOrdering st =
     bindE (mapE (\<lambda>(i, sp). so_InsertRuleApplication st (seriesApp 1 i sp)) (enumerate 0 suiteSpecs)) (\<lambda>apps.
     bindE (so_ListRuleApplications st '''' '''' 0) (\<lambda>all.
     bindE (assertOrder apps all [4, 3, 2, 1, 0]) (\<lambda>_.
     bindE (so_ListRuleApplications st ''loan_underwriting'' '''' 0) (\<lambda>byRule.
     bindE (assertOrder apps byRule [3, 1, 0]) (\<lambda>_.
     bindE (so_ListRuleApplications st '''' ''loan-1'' 0) (\<lambda>byEntity.
     bindE (assertOrder apps byEntity [3, 2, 0]) (\<lambda>_.
     bindE (so_ListRuleApplications st ''loan_underwriting'' ''loan-1'' 0) (\<lambda>byBoth.
     bindE (assertOrder apps byBoth [3, 0]) (\<lambda>_.
     bindE (so_ListRuleApplications st '''' '''' 2) (\<lambda>limited.
     bindE (assertOrder apps limited [4, 3]) (\<lambda>_.
     bindE (so_ListRuleApplications st ''no_such_rule'' '''' 0) (\<lambda>none.
     require (length none = 0) ''no match''))))))))))))"

definition testDefaultLimit :: "'s Store \<Rightarrow> ('s, unit) oper" where
  "testDefaultLimit st =
     bindE (mapE (\<lambda>i. so_InsertRuleApplication st (seriesApp 0 i (''loan_servicing'', ''loan-1''))) [0..<105]) (\<lambda>apps.
     bindE (so_ListRuleApplications st '''' '''' 0) (\<lambda>got.
     bindE (require (length got = 100) ''default limit'') (\<lambda>_.
     require (ra_ID (got ! 0) = ra_ID (apps ! 104)) ''newest first'')))"

section \<open>The suite\<close>

definition passes :: "('s, unit) oper \<Rightarrow> 's \<Rightarrow> bool" where
  "passes test s \<longleftrightarrow> fst (test s) = Inr ()"

text \<open>\<open>newStore k\<close> is the store that the \<open>k\<close>th test starts from.\<close>

definition Run_suite :: "'s Store \<Rightarrow> (nat \<Rightarrow> 's) \<Rightarrow> bool" where
  "Run_suite st newStore \<longleftrightarrow>
     passes (testEvents st) (newStore 0) \<and>
     passes (testRuleVersions st) (newStore 1) \<and>
     passes (testAutoAssignment st) (newStore 2) \<and>
     passes (testFilteringAndOrdering st) (newStore 3) \<and>
     passes (testDefaultLimit st) (newStore 4)"

end
