(* ===== verification/Pg_Inv.thy ===== *)
theory Pg_Inv
  imports Pg_Store
begin

text \<open>
  What every operation on the database keeps, whatever the server and the connection do: the constraints of the
  tables, the order of the event numbers and at most one open version per rule; and that a transaction leaves
  all of its changes or none.
\<close>

section \<open>The constraints\<close>

definition tables_wf :: "int \<Rightarrow> tables \<Rightarrow> bool" where
  "tables_wf n t \<longleftrightarrow>
     sorted_wrt (<) (map ev_Seq (tb_events t)) \<and> (\<forall>e \<in> set (tb_events t). ev_Seq e \<le> n) \<and>
     distinct (map ev_ID (tb_events t)) \<and>
     distinct (map (\<lambda>v. (rv_RuleID v, rv_Version v)) (tb_versions t)) \<and>
     (\<forall>i. length (filter (\<lambda>v. rv_RuleID v = i \<and> rv_EffectiveTo v = None) (tb_versions t)) \<le> 1) \<and>
     distinct (map ra_ID (tb_apps t))"

definition pg_wf :: "'z pgstore_scheme \<Rightarrow> bool" where
  "pg_wf s \<longleftrightarrow> tables_wf (pg_seq s) (pg_tables s) \<and> (\<forall>t. pg_saved s = Some t \<longrightarrow> tables_wf (pg_seq s) t)"

lemma tables_wf_mono: "tables_wf n t \<Longrightarrow> n \<le> m \<Longrightarrow> tables_wf m t"
  by (fastforce simp: tables_wf_def)

section \<open>Requests and transactions\<close>

lemma request_cases:
  "request m s = (r, s') \<Longrightarrow>
     m (s\<lparr>pg_calls := pg_calls s + 1\<rparr>) = (r, s') \<and> pg_net s (pg_calls s) = Served \<or>
     r = Inl (EStore Unavailable) \<and> s' = s\<lparr>pg_calls := pg_calls s + 1\<rparr> \<and> pg_net s (pg_calls s) = Refused \<or>
     r = Inl (EStore Unavailable) \<and> s' = snd (m (s\<lparr>pg_calls := pg_calls s + 1\<rparr>)) \<and> pg_net s (pg_calls s) = ReplyLost"
  by (auto simp: request_def Let_def split: fault.splits)

lemma preserves_request:
  "preserves P m \<Longrightarrow> (\<And>s. P s \<Longrightarrow> P (s\<lparr>pg_calls := pg_calls s + 1\<rparr>)) \<Longrightarrow> preserves P (request m)"
  by (auto simp: preserves_def request_def Let_def split: fault.split)

lemma preserves_deferE [pres]: "preserves P d \<Longrightarrow> preserves P m \<Longrightarrow> preserves P (deferE d m)"
  by (auto simp: preserves_def deferE_def split: prod.splits)

lemma preserves_mapErrE [pres]: "preserves P m \<Longrightarrow> preserves P (mapErrE f m)"
  by (auto simp: preserves_def mapErrE_def split: prod.splits sum.splits)

lemma preserves_wf_request [pres]: "preserves pg_wf m \<Longrightarrow> preserves pg_wf (request m)"
  by (erule preserves_request) (simp add: pg_wf_def)

lemma preserves_wf_newID [pres]: "preserves pg_wf newID"
  by (simp add: preserves_def op_simps pg_wf_def)

lemma preserves_wf_Begin [pres]: "preserves pg_wf Begin"
  unfolding Begin_def by (intro pres preserves_modifyE) (simp add: pg_wf_def)

lemma preserves_wf_Commit [pres]: "preserves pg_wf Commit"
  unfolding Commit_def by (intro pres preserves_modifyE) (simp add: pg_wf_def)

lemma preserves_wf_Rollback [pres]: "preserves pg_wf Rollback"
  unfolding Rollback_def by (intro pres preserves_modifyE) (simp add: pg_wf_def split: option.split)

text \<open>A change of the tables that keeps their constraints.\<close>

lemma preserves_wf_onTables:
  "(\<And>s. tables_wf (pg_seq s) (pg_tables s) \<Longrightarrow> tables_wf (pg_seq s) (f s (pg_tables s))) \<Longrightarrow>
     preserves pg_wf (modifyE (\<lambda>s. onTables (f s) s))"
  by (intro preserves_modifyE) (simp add: pg_wf_def onTables_def)

section \<open>The statements\<close>

lemma preserves_wf_DDL [pres]: "preserves pg_wf sqlEnsureMigrations" "preserves pg_wf (sqlDDL stmt)" "preserves pg_wf (sqlRecord name)"
  unfolding sqlEnsureMigrations_def sqlDDL_def sqlRecord_def
  by (intro pres preserves_wf_onTables; simp add: tables_wf_def split: option.split)+

lemma preserves_wf_InsertEvent [pres]: "preserves pg_wf (sqlInsertEvent e)"
proof (rule preservesI)
  fix s :: "'a pgstore_scheme"
  assume wf: "pg_wf s"
  show "pg_wf (snd (sqlInsertEvent e s))"
  proof (cases "list_ex (\<lambda>x. ev_ID x = ev_ID e) (tb_events (pg_tables s))")
    case True
    then show ?thesis using wf by (auto simp: sqlInsertEvent_def op_simps pg_wf_def intro: tables_wf_mono)
  next
    case False
    have "tables_wf (pg_seq s) (pg_tables s)" using wf by (simp add: pg_wf_def)
    then have "tables_wf (pg_seq s + 1) ((pg_tables s)\<lparr>tb_events := tb_events (pg_tables s) @ [eventRow s (pg_seq s + 1) e]\<rparr>)"
      using False by (fastforce simp: tables_wf_def eventRow_def sorted_wrt_append list_ex_iff)
    then show ?thesis
      using False wf by (auto simp: sqlInsertEvent_def op_simps pg_wf_def onTables_def eventRow_def intro: tables_wf_mono)
  qed
qed

text \<open>What a statement leaves alone.\<close>

definition pgFrame :: "'z pgstore_scheme \<Rightarrow> tables option \<times> (nat \<Rightarrow> fault) \<times> (instant \<Rightarrow> instant) \<times> (json \<Rightarrow> json) \<times>
    (string \<Rightarrow> string) \<times> instant \<times> (nat \<Rightarrow> string)" where
  "pgFrame s = (pg_saved s, pg_net s, pg_time s, pg_jsonb s, pg_collate s, wall s, rand s)"

lemma keeps_frameD:
  assumes "keeps pgFrame m" and "m s = (r, t)"
  shows "pg_saved t = pg_saved s" "pg_net t = pg_net s" "pg_time t = pg_time s" "pg_jsonb t = pg_jsonb s"
    "pg_collate t = pg_collate s" "wall t = wall s" "rand t = rand s"
proof -
  have "pgFrame (snd (m s)) = pgFrame s" using assms(1) by (simp add: keeps_def)
  then show "pg_saved t = pg_saved s" "pg_net t = pg_net s" "pg_time t = pg_time s" "pg_jsonb t = pg_jsonb s"
    "pg_collate t = pg_collate s" "wall t = wall s" "rand t = rand s"
    using assms(2) by (simp_all add: pgFrame_def)
qed

lemma keeps_frame_request [pres]: "keeps pgFrame m \<Longrightarrow> keeps pgFrame (request m)"
  by (simp add: keeps_def request_def Let_def pgFrame_def split: fault.split)

lemma keeps_frame_bindE [pres]: "keeps f m \<Longrightarrow> (\<And>x. keeps f (k x)) \<Longrightarrow> keeps f (bindE m k)"
  unfolding keeps_preserves by (blast intro: preserves_bindE)

lemma keeps_frame_rest [pres]:
  "keeps f m \<Longrightarrow> keeps f (ctxE c m)" "keeps f m \<Longrightarrow> keeps f (mapErrE g m)"
  "(\<And>x. keeps f (k x)) \<Longrightarrow> keeps f (mapE k xs)" "(\<And>x. keeps f (h x)) \<Longrightarrow> keeps f (foreachE ys h)"
  unfolding keeps_preserves by (blast intro: pres)+

lemma keeps_frame_base [pres]:
  "keeps f (returnE x)" "keeps f (getE g)" "keeps f (guardE b e)" "keeps f (liftE r)"
  by (simp_all add: keeps_def op_simps)

lemma keeps_frame_statements [pres]:
  "keeps pgFrame newID" "keeps pgFrame (sqlInsertEvent e)" "keeps pgFrame (sqlCloseVersion t i)"
  "keeps pgFrame (sqlInsertVersion v)" "keeps pgFrame (sqlDDL stmt)" "keeps pgFrame (sqlRecord name)"
  by (simp_all add: keeps_def op_simps pgFrame_def sqlInsertEvent_def sqlCloseVersion_def sqlInsertVersion_def sqlDDL_def
      sqlRecord_def onTables_def)

text \<open>A transaction changes nothing, or commits what its statements did. In the second case the caller may still
  get an error, when the answer to the commit is lost.\<close>

definition begun :: "'z pgstore_scheme \<Rightarrow> 'z pgstore_scheme" where
  "begun s = s\<lparr>pg_calls := pg_calls s + 1, pg_saved := Some (pg_tables s)\<rparr>"

definition committed :: "'z pgstore_scheme \<Rightarrow> 'z pgstore_scheme" where
  "committed s = s\<lparr>pg_calls := pg_calls s + 1, pg_saved := None\<rparr>"

lemma request_app:
  "pg_net s (pg_calls s) = Served \<Longrightarrow> request m s = m (s\<lparr>pg_calls := pg_calls s + 1\<rparr>)"
  "pg_net s (pg_calls s) = Refused \<Longrightarrow> request m s = (Inl (EStore Unavailable), s\<lparr>pg_calls := pg_calls s + 1\<rparr>)"
  "pg_net s (pg_calls s) = ReplyLost \<Longrightarrow>
     request m s = (Inl (EStore Unavailable), snd (m (s\<lparr>pg_calls := pg_calls s + 1\<rparr>)))"
  by (simp_all add: request_def)

lemma Begin_app:
  "Begin s = (if pg_net s (pg_calls s) = Served then (Inr (), begun s)
     else (Inl (EStore Unavailable), s\<lparr>pg_calls := pg_calls s + 1\<rparr>))"
  by (cases "pg_net s (pg_calls s)") (simp_all add: Begin_def request_app bindE_def op_simps begun_def)

lemma Commit_app:
  "Commit s = (case pg_net s (pg_calls s) of
     Served \<Rightarrow> (Inr (), committed s)
   | Refused \<Rightarrow> (Inl (EStore Unavailable), s\<lparr>pg_calls := pg_calls s + 1\<rparr>)
   | ReplyLost \<Rightarrow> (Inl (EStore Unavailable), committed s))"
  by (cases "pg_net s (pg_calls s)") (simp_all add: Commit_def request_app op_simps committed_def)

lemma transaction_app:
  "transaction c c' m s =
     (if pg_net s (pg_calls s) = Served
      then deferE Rollback (bindE m (\<lambda>x. bindE (ctxE c' Commit) (\<lambda>_. returnE x))) (begun s)
      else (Inl (Ctx c (EStore Unavailable)), s\<lparr>pg_calls := pg_calls s + 1\<rparr>))"
  by (simp add: transaction_def Begin_app ctxE_def bindE_def)

lemma transaction_cases:
  assumes run: "transaction c c' m s = (r, s')" and frame: "keeps pgFrame m"
  obtains (undone) e where "r = Inl e" and "pg_tables s' = pg_tables s" and "pg_saved s' = None \<or> pg_saved s' = pg_saved s"
  | (carried) x u where "m (begun s) = (Inr x, u)" and "s' = committed u" and "r = Inr x \<or> (\<exists>e. r = Inl e) \<and> pg_net u (pg_calls u) = ReplyLost"
proof (cases "pg_net s (pg_calls s) = Served")
  case False
  then have "r = Inl (Ctx c (EStore Unavailable))" "s' = s\<lparr>pg_calls := pg_calls s + 1\<rparr>"
    using run by (simp_all add: transaction_app)
  then show thesis by (intro undone) auto
next
  case True
  obtain q u where m: "m (begun s) = (q, u)" by (cases "m (begun s)")
  have "pg_saved u = pg_saved (begun s)"
    using keeps_frameD [OF frame m] by simp
  then have saved: "pg_saved u = Some (pg_tables s)" by (simp add: begun_def)
  have rs: "(r, s') = deferE Rollback (bindE m (\<lambda>x. bindE (ctxE c' Commit) (\<lambda>_. returnE x))) (begun s)"
    using run True by (simp add: transaction_app)
  show thesis
  proof (cases q)
    case (Inl e)
    then show thesis using rs m saved undone
      by (simp add: deferE_def op_simps Rollback_def)
  next
    case (Inr x)
    have rs': "(r, s') = deferE Rollback (bindE (ctxE c' Commit) (\<lambda>_. returnE x)) u"
      using rs m Inr by (simp add: deferE_def bindE_Inr)
    show thesis
    proof (cases "pg_net u (pg_calls u)")
      case Served
      then have "r = Inr x" "s' = committed u"
        using rs' by (simp_all add: deferE_def Commit_app ctxE_def bindE_def op_simps Rollback_def committed_def)
      then show thesis using m Inr by (intro carried) simp_all
    next
      case Refused
      then have "r = Inl (Ctx c' (EStore Unavailable))" "pg_tables s' = pg_tables s" "pg_saved s' = None"
        using rs' saved by (simp_all add: deferE_def Commit_app ctxE_def bindE_def op_simps Rollback_def)
      then show thesis by (intro undone) simp_all
    next
      case ReplyLost
      then have "r = Inl (Ctx c' (EStore Unavailable))" "s' = committed u"
        using rs' by (simp_all add: deferE_def Commit_app ctxE_def bindE_def op_simps Rollback_def committed_def)
      then show thesis using m Inr ReplyLost by (intro carried) simp_all
    qed
  qed
qed

section \<open>The operations keep the constraints\<close>

lemma preserves_wf_transaction [pres]: "preserves pg_wf m \<Longrightarrow> preserves pg_wf (transaction c c' m)"
  unfolding transaction_def by (intro pres)

lemma closeRow_simps [simp]:
  "rv_RuleID (closeRow t i v) = rv_RuleID v" "rv_Version (closeRow t i v) = rv_Version v"
  "rv_EffectiveTo (closeRow t i v) = None \<longleftrightarrow> rv_EffectiveTo v = None \<and> rv_RuleID v \<noteq> i"
  by (auto simp: closeRow_def)

definition noneOpen :: "string \<Rightarrow> 'z pgstore_scheme \<Rightarrow> bool" where
  "noneOpen i s \<longleftrightarrow> (\<forall>v \<in> set (tb_versions (pg_tables s)). rv_RuleID v = i \<longrightarrow> rv_EffectiveTo v \<noteq> None)"

lemma length_filter_le_imp:
  assumes "\<And>x. Q x \<Longrightarrow> P x" and "length (filter P xs) \<le> n"
  shows "length (filter Q xs) \<le> n"
proof -
  have "length (filter Q xs) \<le> length (filter P xs)" using assms(1) by (induction xs) (auto simp: le_SucI)
  then show ?thesis using assms(2) by simp
qed

lemma preserves_wf_CloseVersion [pres]: "preserves pg_wf (sqlCloseVersion t i)"
  unfolding sqlCloseVersion_def
proof (rule preserves_wf_onTables)
  fix s :: "'a pgstore_scheme"
  assume wf: "tables_wf (pg_seq s) (pg_tables s)"
  let ?close = "closeRow (pg_time s t) i"
  have "length (filter (\<lambda>v. rv_RuleID v = j \<and> rv_EffectiveTo v = None) (map ?close (tb_versions (pg_tables s)))) \<le> 1" for j
  proof -
    have "length (filter (\<lambda>v. rv_RuleID v = j \<and> rv_EffectiveTo v = None) (tb_versions (pg_tables s))) \<le> 1"
      using wf by (simp add: tables_wf_def)
    then show ?thesis by (simp add: filter_map comp_def) (erule length_filter_le_imp [rotated], simp)
  qed
  then show "tables_wf (pg_seq s) ((pg_tables s)\<lparr>tb_versions := map ?close (tb_versions (pg_tables s))\<rparr>)"
    using wf by (simp add: tables_wf_def comp_def del: filter_map)
qed

lemma noneOpen_CloseVersion: "noneOpen i (snd (sqlCloseVersion t i s))"
  by (auto simp: noneOpen_def sqlCloseVersion_def op_simps onTables_def simp del: not_None_eq)

lemma wf_InsertVersion:
  assumes "pg_wf s" and "noneOpen (rv_RuleID v) s"
  shows "pg_wf (snd (sqlInsertVersion v s))"
proof (cases "in32 (rv_Version v) \<and> \<not> list_ex (\<lambda>x. rv_RuleID x = rv_RuleID v \<and> rv_Version x = rv_Version v) (tb_versions (pg_tables s))")
  case False
  then show ?thesis using assms(1) by (auto simp: sqlInsertVersion_def op_simps)
next
  case True
  have "filter (\<lambda>x. rv_RuleID x = rv_RuleID v \<and> rv_EffectiveTo x = None) (tb_versions (pg_tables s)) = []"
    using assms(2) by (auto simp: noneOpen_def filter_empty_conv)
  moreover have "tables_wf (pg_seq s) (pg_tables s)" using assms(1) by (simp add: pg_wf_def)
  ultimately have "tables_wf (pg_seq s) ((pg_tables s)\<lparr>tb_versions := tb_versions (pg_tables s) @ [versionRow s v]\<rparr>)"
    using True by (auto simp: tables_wf_def versionRow_def list_ex_iff)
  then show ?thesis using True assms(1) by (simp add: sqlInsertVersion_def op_simps pg_wf_def onTables_def)
qed

lemma preserves_wf_publish:
  "preserves pg_wf (bindE (ctxE c (request (sqlCloseVersion t (rv_RuleID v)))) (\<lambda>_. mapErrE f (request (sqlInsertVersion v))))"
proof (rule preservesI)
  fix s :: "'a pgstore_scheme"
  assume s: "pg_wf s"
  let ?s = "s\<lparr>pg_calls := pg_calls s + 1\<rparr>"
  let ?u = "snd (sqlCloseVersion t (rv_RuleID v) ?s)"
  have s1: "pg_wf ?s" using s by (simp add: pg_wf_def)
  then have u: "pg_wf ?u" by (rule preservesD [OF preserves_wf_CloseVersion])
  have ins: "pg_wf (snd (request (sqlInsertVersion v) ?u))"
    using u wf_InsertVersion [of "?u\<lparr>pg_calls := pg_calls ?u + 1\<rparr>" v] noneOpen_CloseVersion [of "rv_RuleID v" t ?s]
    by (cases "pg_net ?u (pg_calls ?u)") (simp_all add: request_app pg_wf_def noneOpen_def)
  show "pg_wf (snd (bindE (ctxE c (request (sqlCloseVersion t (rv_RuleID v)))) (\<lambda>_. mapErrE f (request (sqlInsertVersion v))) s))"
  proof (cases "pg_net s (pg_calls s)")
    case Served
    have "ctxE c (request (sqlCloseVersion t (rv_RuleID v))) s = (Inr (), ?u)"
      using Served by (simp add: ctxE_def request_app sqlCloseVersion_def op_simps)
    then show ?thesis using ins by (auto simp: bindE_Inr mapErrE_def split: prod.splits sum.splits)
  qed (use s1 u in \<open>simp_all add: ctxE_def bindE_def request_app\<close>)
qed

lemma preserves_wf_publish_of [pres]:
  "rv_RuleID v = i \<Longrightarrow>
     preserves pg_wf (bindE (ctxE c (request (sqlCloseVersion t i))) (\<lambda>_. mapErrE f (request (sqlInsertVersion v))))"
  using preserves_wf_publish by blast

lemma preserves_wf_InsertApp [pres]: "preserves pg_wf (sqlInsertApp a)"
proof (rule preservesI)
  fix s :: "'a pgstore_scheme"
  assume "pg_wf s"
  then show "pg_wf (snd (sqlInsertApp a s))"
    by (auto simp: sqlInsertApp_def op_simps pg_wf_def onTables_def tables_wf_def appRow_def list_ex_iff)
qed

lemma preserves_wf_getE [pres]: "preserves pg_wf (sqlSelectEvents f)" "preserves pg_wf (sqlSelectVersions i)"
  "preserves pg_wf (sqlSelectVersion i n)" "preserves pg_wf (sqlSelectApps i j l)" "preserves pg_wf (sqlApplied name)"
  unfolding sqlSelectEvents_def sqlSelectVersions_def sqlSelectVersion_def sqlSelectApps_def sqlApplied_def
  by (intro pres)+

lemma preserves_wf_case [pres]: "(\<And>x y. preserves P (f x y)) \<Longrightarrow> preserves P ((\<lambda>(x, y). f x y) p)"
  by (cases p) simp

lemma preserves_wf_ops [pres]:
  "preserves pg_wf (pg_Append es)" "preserves pg_wf (pg_List f)" "preserves pg_wf (pg_InsertRuleVersion v)"
  "preserves pg_wf (pg_ListRuleVersions i)" "preserves pg_wf (pg_GetRuleVersion i n)"
  "preserves pg_wf (pg_InsertRuleApplication a)" "preserves pg_wf (pg_ListRuleApplications i j l)"
  "preserves pg_wf (Migrate fs)" "preserves pg_wf Truncate"
proof -
  have "preserves pg_wf (insertEvent e)" for e :: Event
    unfolding insertEvent_def Let_def by (intro pres)
  then show "preserves pg_wf (pg_Append es)" unfolding pg_Append_def by (intro pres)
  show "preserves pg_wf (pg_List f)" unfolding pg_List_def by (intro pres)
  show "preserves pg_wf (pg_InsertRuleVersion v)"
    unfolding pg_InsertRuleVersion_def Let_def
    by (intro preserves_bindE [OF preserves_getE] preserves_wf_transaction preserves_wf_publish_of) simp
  show "preserves pg_wf (pg_ListRuleVersions i)" unfolding pg_ListRuleVersions_def by (intro pres)
  show "preserves pg_wf (pg_GetRuleVersion i n)" unfolding pg_GetRuleVersion_def by (intro pres)
  show "preserves pg_wf (pg_InsertRuleApplication a)" unfolding pg_InsertRuleApplication_def Let_def by (intro pres)
  show "preserves pg_wf (pg_ListRuleApplications i j l)" unfolding pg_ListRuleApplications_def Let_def by (intro pres)
  show "preserves pg_wf (Migrate fs)" unfolding Migrate_def migrateOne_def applyMigration_def Let_def by (intro pres)
  show "preserves pg_wf Truncate" unfolding Truncate_def
    by (intro pres preserves_modifyE) (simp add: pg_wf_def onTables_def tables_wf_def)
qed

end
