(* ===== verification/Pg_Props.thy ===== *)
theory Pg_Props
  imports Pg_Inv
begin

text \<open>
  What the operations on the database do: appending is all or nothing, publishing closes and inserts in one
  transaction, every migration is applied once, and the store is a refinement of the in-memory one.
\<close>

section \<open>Appending\<close>

text \<open>The row of an event that \<open>Append\<close> has returned: the caller keeps the precise time and the document it sent.\<close>

definition storedRow :: "'z pgstore_scheme \<Rightarrow> Event \<Rightarrow> Event" where
  "storedRow s e = e\<lparr>ev_OccurredAt := pg_time s (ev_OccurredAt e), ev_Payload := pg_jsonb s (ev_Payload e)\<rparr>"

definition asked :: "'z pgstore_scheme \<Rightarrow> Event \<Rightarrow> Event" where
  "asked s e = e\<lparr>ev_ID := (if ev_ID e = '''' then rand s (drawn s) else ev_ID e),
     ev_RecordedAt := (if ev_RecordedAt e = zeroTime then wall s else ev_RecordedAt e)\<rparr>"

definition taken :: "'z pgstore_scheme \<Rightarrow> Event \<Rightarrow> Event" where
  "taken s e = (asked s e)\<lparr>ev_Seq := pg_seq s + 1, ev_RecordedAt := pg_time s (ev_RecordedAt (asked s e))\<rparr>"

lemma request_Inr: "request m s = (Inr x, t) \<Longrightarrow> m (s\<lparr>pg_calls := pg_calls s + 1\<rparr>) = (Inr x, t) \<and> pg_net s (pg_calls s) = Served"
  using request_cases by fastforce

definition drawnFor :: "string \<Rightarrow> 'z pgstore_scheme \<Rightarrow> 'z pgstore_scheme" where
  "drawnFor i s = s\<lparr>drawn := (if i = '''' then drawn s + 1 else drawn s)\<rparr>"

lemma drawnFor_simps [simp]:
  "pg_time (drawnFor i s) = pg_time s" "pg_jsonb (drawnFor i s) = pg_jsonb s" "pg_seq (drawnFor i s) = pg_seq s"
  "pg_tables (drawnFor i s) = pg_tables s" "pg_net (drawnFor i s) = pg_net s" "pg_calls (drawnFor i s) = pg_calls s"
  "wall (drawnFor i s) = wall s" "rand (drawnFor i s) = rand s"
  by (simp_all add: drawnFor_def)

lemma insertEvent_app:
  "insertEvent e s =
     bindE (ctxE ''pgstore: insert event'' (request (sqlInsertEvent (asked s e))))
       (\<lambda>(n, t). returnE ((asked s e)\<lparr>ev_Seq := n, ev_RecordedAt := t\<rparr>)) (drawnFor (ev_ID e) s)"
  by (cases "ev_ID e = ''''") (simp_all add: insertEvent_def op_simps Let_def asked_def drawnFor_def)

lemma insertEvent_Inr:
  assumes "insertEvent e s = (Inr x, t)"
  shows "x = taken s e \<and> \<not> list_ex (\<lambda>y. ev_ID y = ev_ID x) (tb_events (pg_tables s)) \<and>
    t = (drawnFor (ev_ID e) s)\<lparr>pg_calls := pg_calls s + 1, pg_seq := pg_seq s + 1,
      pg_tables := (pg_tables s)\<lparr>tb_events := tb_events (pg_tables s) @ [storedRow s x]\<rparr>\<rparr>"
proof -
  obtain p where p: "request (sqlInsertEvent (asked s e)) (drawnFor (ev_ID e) s) = (Inr p, t)"
    and x: "x = (asked s e)\<lparr>ev_Seq := fst p, ev_RecordedAt := snd p\<rparr>"
    using assms unfolding insertEvent_app bindE_eq_Inr ctxE_eq_Inr split_beta by (auto simp: op_simps)
  from request_Inr [OF p]
  have "sqlInsertEvent (asked s e) ((drawnFor (ev_ID e) s)\<lparr>pg_calls := pg_calls s + 1\<rparr>) = (Inr p, t)"
    by (simp add: drawnFor_def)
  then show ?thesis unfolding x
    by (auto simp: sqlInsertEvent_def op_simps taken_def eventRow_def storedRow_def onTables_def drawnFor_def split: if_splits)
qed

lemma keeps_split:
  "keeps f m \<Longrightarrow> keeps f m' \<Longrightarrow> keeps f (if b then m else m')" "(\<And>x y. keeps f (g x y)) \<Longrightarrow> keeps f (case p of (x, y) \<Rightarrow> g x y)"
  by (simp_all split: prod.split)

lemma storedRow_cong: "pg_time t = pg_time s \<Longrightarrow> pg_jsonb t = pg_jsonb s \<Longrightarrow> storedRow t = storedRow s"
  by (rule ext) (simp add: storedRow_def)

lemma mapE_insertEvent_Inr:
  "mapE insertEvent es s = (Inr out, t) \<Longrightarrow>
     pg_tables t = (pg_tables s)\<lparr>tb_events := tb_events (pg_tables s) @ map (storedRow s) out\<rparr> \<and>
     map ev_Type out = map ev_Type es \<and> map ev_Payload out = map ev_Payload es \<and>
     map ev_Seq out = map (\<lambda>k. pg_seq s + int k) [1..<Suc (length es)] \<and> pg_seq t = pg_seq s + int (length es)"
proof (induction es arbitrary: s out)
  case Nil
  then show ?case by (simp add: op_simps)
next
  case (Cons e es)
  then obtain x s1 more where x: "insertEvent e s = (Inr x, s1)" and rest: "mapE insertEvent es s1 = (Inr more, t)" and out: "out = x # more"
    by (auto simp: bindE_eq_Inr op_simps)
  note s1 = insertEvent_Inr [OF x]
  then have row: "storedRow s1 = storedRow s" by (intro storedRow_cong) simp_all
  have seq: "map (\<lambda>k. pg_seq s + 1 + int k) [1..<Suc n] = map (\<lambda>k. pg_seq s + int k) [2..<Suc (Suc n)]" for n
    by (simp add: numeral_2_eq_2 map_Suc_upt [symmetric] comp_def del: upt_Suc) 
  have "map (\<lambda>k. pg_seq s + int k) [1..<Suc (Suc n)] = (pg_seq s + 1) # map (\<lambda>k. pg_seq s + int k) [2..<Suc (Suc n)]" for n
    by (simp add: upt_conv_Cons numeral_2_eq_2 del: upt_Suc)
  then show ?case using Cons.IH [OF rest] s1 row seq [of "length es"] by (simp add: out taken_def asked_def)
qed

text \<open>C38: Appending is all or nothing, whatever the connection does. Either the tables are as they were, and the
  caller gets an error (or gave no events), or all the events are stored in order after the ones before, with the types and
  payloads given and ascending numbers. Then the caller gets them back, unless the answer to the commit is lost
  and it gets an error. In any case the event numbers ascend over the whole log and no identifier occurs twice.\<close>

theorem append_all_or_nothing:
  assumes wf: "pg_wf s" and run: "pg_Append es s = (r, s')" and es: "es \<noteq> []"
  shows "pg_wf s' \<and> sorted_wrt (<) (map ev_Seq (tb_events (pg_tables s'))) \<and> distinct (map ev_ID (tb_events (pg_tables s'))) \<and>
    (isl r \<and> pg_tables s' = pg_tables s \<or>
     (\<exists>out. pg_tables s' = (pg_tables s)\<lparr>tb_events := tb_events (pg_tables s) @ map (storedRow s) out\<rparr> \<and>
        map ev_Type out = map ev_Type es \<and> map ev_Payload out = map ev_Payload es \<and>
        map ev_Seq out = map (\<lambda>k. pg_seq s + int k) [1..<Suc (length es)] \<and>
        (r = Inr out \<or> isl r \<and> pg_net s' (pg_calls s' - 1) = ReplyLost)))"
proof -
  have wf': "pg_wf s'" by (rule preserves_result [OF preserves_wf_ops(1) wf run])
  have frame: "keeps pgFrame (mapE insertEvent es)"
    unfolding insertEvent_def Let_def by (intro pres keeps_split)
  have tx: "transaction ''pgstore: begin append'' ''pgstore: commit append'' (mapE insertEvent es) s = (r, s')"
    using run es by (simp add: pg_Append_def)
  have "isl r \<and> pg_tables s' = pg_tables s \<or>
     (\<exists>out. pg_tables s' = (pg_tables s)\<lparr>tb_events := tb_events (pg_tables s) @ map (storedRow s) out\<rparr> \<and>
        map ev_Type out = map ev_Type es \<and> map ev_Payload out = map ev_Payload es \<and>
        map ev_Seq out = map (\<lambda>k. pg_seq s + int k) [1..<Suc (length es)] \<and>
        (r = Inr out \<or> isl r \<and> pg_net s' (pg_calls s' - 1) = ReplyLost))"
  proof (cases rule: transaction_cases [OF tx frame, case_names undone carried])
    case (undone e)
    then show ?thesis by simp
  next
    case (carried out u)
    have "storedRow (begun s) = storedRow s" by (intro storedRow_cong) (simp_all add: begun_def)
    then show ?thesis
      using mapE_insertEvent_Inr [OF carried(1)] carried(2,3) by (auto simp: begun_def committed_def simp del: upt_Suc)
  qed
  moreover have "tables_wf (pg_seq s') (pg_tables s')" using wf' by (simp add: pg_wf_def)
  ultimately show ?thesis using wf' by (simp add: tables_wf_def)
qed

definition sampleEvents :: "Event list" where
  "sampleEvents = [\<lparr>ev_ID = ''x'', ev_Seq = 0, ev_Type = ''t'', ev_AggregateID = ''a'', ev_OccurredAt = 1, ev_RecordedAt = zeroTime,
     ev_Payload = JNull\<rparr>]"

text \<open>An empty database whose server does not answer the third request.\<close>

definition faultyDb :: pgstore where
  "faultyDb = \<lparr>now = 0, listeners = [], notified = [], rand = (\<lambda>n. ''id'' @ natStr n), drawn = 0, wall = 7000,
     pg_tables = \<lparr>tb_events = [], tb_versions = [], tb_apps = [], tb_migrations = None, tb_ddl = []\<rparr>,
     pg_saved = None, pg_seq = 0, pg_calls = 0, pg_net = (\<lambda>n. if n = 2 then ReplyLost else Served),
     pg_time = (\<lambda>t. t div 1000 * 1000), pg_jsonb = (\<lambda>j. j), pg_collate = (\<lambda>x. x), pg_accepts = (\<lambda>_ _. True)\<rparr>"

theorem append_all_or_nothing_witness:
  "distinct (map ev_ID (tb_events (pg_tables (snd (pg_Append sampleEvents faultyDb)))))"
proof -
  have "pg_wf faultyDb" by (simp add: pg_wf_def tables_wf_def faultyDb_def)
  then show ?thesis
    using append_all_or_nothing [of faultyDb sampleEvents, OF _ surjective_pairing] by (simp add: sampleEvents_def)
qed

section \<open>Publishing\<close>

lemma mapErrE_eq_Inr: "mapErrE f m s = (Inr x, t) \<longleftrightarrow> m s = (Inr x, t)"
  by (auto simp: mapErrE_def split: prod.split sum.split)

text \<open>Publishing is all or nothing too: no failure leaves the previous version closed without the new one.\<close>

lemma publish_all_or_nothing:
  assumes run: "pg_InsertRuleVersion v s = (r, s')"
  shows "isl r \<and> pg_tables s' = pg_tables s \<or>
    (\<exists>w. pg_tables s' = (pg_tables s)\<lparr>tb_versions :=
         map (closeRow (pg_time s (rv_EffectiveFrom v)) (rv_RuleID v)) (tb_versions (pg_tables s)) @
         [versionRow s (v\<lparr>rv_CreatedAt := w\<rparr>)]\<rparr> \<and>
       (r = Inr () \<or> isl r \<and> pg_net s' (pg_calls s' - 1) = ReplyLost))"
proof -
  define w where "w = (if rv_CreatedAt v = zeroTime then wall s else rv_CreatedAt v)"
  let ?v = "v\<lparr>rv_CreatedAt := w\<rparr>"
  let ?body = "bindE (ctxE ''pgstore: close previous rule version'' (request (sqlCloseVersion (rv_EffectiveFrom v) (rv_RuleID v))))
    (\<lambda>_. mapErrE conflictOr (request (sqlInsertVersion ?v)))"
  have tx: "transaction ''pgstore: begin insert rule version'' ''pgstore: commit insert rule version'' ?body s = (r, s')"
    using run by (simp add: pg_InsertRuleVersion_def op_simps Let_def w_def)
  have frame: "keeps pgFrame ?body" by (intro pres)
  show ?thesis
  proof (cases rule: transaction_cases [OF tx frame, case_names undone carried])
    case (undone e)
    then show ?thesis by simp
  next
    case (carried x u)
    from carried(1) obtain t where close: "request (sqlCloseVersion (rv_EffectiveFrom v) (rv_RuleID v)) (begun s) = (Inr (), t)"
      and ins: "request (sqlInsertVersion ?v) t = (Inr x, u)"
      by (auto simp: bindE_eq_Inr ctxE_eq_Inr mapErrE_eq_Inr)
    have "u = s\<lparr>pg_calls := pg_calls s + 3, pg_saved := Some (pg_tables s), pg_tables := (pg_tables s)\<lparr>tb_versions :=
         map (closeRow (pg_time s (rv_EffectiveFrom v)) (rv_RuleID v)) (tb_versions (pg_tables s)) @ [versionRow s ?v]\<rparr>\<rparr>"
      using request_Inr [OF close] request_Inr [OF ins]
      by (auto simp: sqlCloseVersion_def sqlInsertVersion_def op_simps onTables_def begun_def versionRow_def split: if_splits)
    then show ?thesis using carried(2,3) by (auto simp: committed_def add.commute)
  qed
qed

end
