(* ===== verification/Pg_Refine.thy ===== *)
theory Pg_Refine
  imports Pg_Props
begin

text \<open>
  The store on the database as a refinement of the in-memory store. The database keeps less than memory does: a column
  rounds times to microseconds and normalises JSON documents. \<open>related s m\<close> says that the tables of \<open>s\<close> hold what the
  columns keep of the state \<open>m\<close> of an in-memory store, and every operation carries related states to related ones
  and returns what the in-memory one returns, as far as the columns keep it. How the server rounds and normalises
  is left open.
\<close>

section \<open>What the columns keep\<close>

definition storedEvent :: "'z pgstore_scheme \<Rightarrow> Event \<Rightarrow> Event" where
  "storedEvent s e = e\<lparr>ev_OccurredAt := pg_time s (ev_OccurredAt e), ev_RecordedAt := pg_time s (ev_RecordedAt e),
     ev_Payload := pg_jsonb s (ev_Payload e)\<rparr>"

text \<open>What \<open>Append\<close> returns: the event of the caller with the time of recording as it was stored.\<close>

definition returnedEvent :: "'z pgstore_scheme \<Rightarrow> Event \<Rightarrow> Event" where
  "returnedEvent s e = e\<lparr>ev_RecordedAt := pg_time s (ev_RecordedAt e)\<rparr>"

lemma stored_fields [simp]:
  "ev_ID (storedEvent s e) = ev_ID e" "ev_Seq (storedEvent s e) = ev_Seq e" "ev_Type (storedEvent s e) = ev_Type e"
  "ev_AggregateID (storedEvent s e) = ev_AggregateID e"
  "rv_RuleID (versionRow s v) = rv_RuleID v" "rv_Version (versionRow s v) = rv_Version v"
  "ra_ID (appRow s a) = ra_ID a" "ra_RuleID (appRow s a) = ra_RuleID a" "ra_EntityID (appRow s a) = ra_EntityID a"
  "ra_Version (appRow s a) = ra_Version a"
  by (simp_all add: storedEvent_def versionRow_def appRow_def)

lemma stored_cong:
  assumes "pg_time t = pg_time s" and "pg_jsonb t = pg_jsonb s"
  shows "storedEvent t = storedEvent s" "returnedEvent t = returnedEvent s" "versionRow t = versionRow s" "appRow t = appRow s"
  by (rule ext; simp add: storedEvent_def returnedEvent_def versionRow_def appRow_def assms)+

section \<open>Related states\<close>

definition firsts :: "'a list \<Rightarrow> 'a list" where
  "firsts xs = rev (remdups (rev xs))"

definition versionsByRule :: "RuleVersion list \<Rightarrow> (string \<times> RuleVersion list) list" where
  "versionsByRule vs = map (\<lambda>i. (i, sort_key rv_Version (filter (\<lambda>v. rv_RuleID v = i) vs))) (firsts (map rv_RuleID vs))"

definition represents :: "'z pgstore_scheme \<Rightarrow> 'y memstore_scheme \<Rightarrow> bool" where
  "represents s m \<longleftrightarrow> rand m = rand s \<and> drawn m = drawn s \<and> wall m = wall s \<and> st_seq m = pg_seq s \<and>
     tb_events (pg_tables s) = map (storedEvent s) (st_events m) \<and>
     (\<exists>vs. tb_versions (pg_tables s) = map (versionRow s) vs \<and> st_versions m = versionsByRule vs) \<and>
     tb_apps (pg_tables s) = map (appRow s) (st_apps m)"

definition healthy :: "'z pgstore_scheme \<Rightarrow> bool" where
  "healthy s \<longleftrightarrow> (\<forall>n. pg_calls s \<le> n \<longrightarrow> pg_net s n = Served)"

lemma healthyD: "healthy s \<Longrightarrow> pg_net s (pg_calls s) = Served"
  by (simp add: healthy_def)

lemma healthy_request: "healthy s \<Longrightarrow> request m s = m (s\<lparr>pg_calls := pg_calls s + 1\<rparr>)"
  by (simp add: healthyD request_app)

lemma healthy_simps [simp]:
  "healthy s \<Longrightarrow> healthy (s\<lparr>pg_calls := Suc (pg_calls s)\<rparr>)" "healthy s \<Longrightarrow> healthy (begun s)"
  by (simp_all add: healthy_def begun_def)

definition related :: "'z pgstore_scheme \<Rightarrow> 'y memstore_scheme \<Rightarrow> bool" where
  "related s m \<longleftrightarrow> healthy s \<and> pg_wf s \<and> represents s m"

text \<open>The operation \<open>p\<close> on the database simulates \<open>q\<close> in memory: the same error or the same result as far as \<open>keep\<close>
  keeps it, and related states.\<close>

definition simulates :: "('a \<Rightarrow> 'a) \<Rightarrow> ('z pgstore_scheme, 'a) oper \<Rightarrow> ('y memstore_scheme, 'a) oper \<Rightarrow>
    'z pgstore_scheme \<Rightarrow> 'y memstore_scheme \<Rightarrow> bool" where
  "simulates keep p q s m \<longleftrightarrow>
     fst (p s) = map_sum (\<lambda>e. e) keep (fst (q m)) \<and> related (snd (p s)) (snd (q m))"

lemma represents_quiet [simp]:
  "represents (s\<lparr>pg_calls := n\<rparr>) m = represents s m" "represents (s\<lparr>pg_saved := x\<rparr>) m = represents s m"
  "represents (begun s) m = represents s m" "represents (committed s) m = represents s m"
  by (simp_all add: represents_def begun_def committed_def stored_cong [where t = "s\<lparr>pg_calls := k\<rparr>" and s = s for k]
      stored_cong [where t = "s\<lparr>pg_saved := k\<rparr>" and s = s for k]
      stored_cong [where t = "s\<lparr>pg_calls := k, pg_saved := l\<rparr>" and s = s for k l])

lemma healthy_later: "healthy s \<Longrightarrow> pg_net t = pg_net s \<Longrightarrow> pg_calls s \<le> pg_calls t \<Longrightarrow> healthy t"
  by (simp add: healthy_def)

lemma simulatesI:
  assumes "related s m" and "preserves pg_wf p" and "p s = (r, s')" and "q m = (r', m')"
    and "r = map_sum (\<lambda>e. e) keep r'" and "represents s' m'" and "pg_net s' = pg_net s" and "pg_calls s \<le> pg_calls s'"
  shows "simulates keep p q s m"
  using assms preserves_result [OF assms(2) _ assms(3)] healthy_later [of s s']
  by (simp add: simulates_def related_def)

text \<open>Reading statements.\<close>

lemma simulates_read:
  assumes "related s m" and "preserves pg_wf p" and "p = ctxE c (request (getE (\<lambda>s. f s)))"
    and "\<And>n. f (s\<lparr>pg_calls := n\<rparr>) = f s" and "q m = (Inr x, m)" and "f s = keep x"
  shows "simulates keep p q s m"
proof (rule simulatesI [where r = "Inr (f s)" and s' = "s\<lparr>pg_calls := pg_calls s + 1\<rparr>" and r' = "Inr x" and m' = m])
  show "p s = (Inr (f s), s\<lparr>pg_calls := pg_calls s + 1\<rparr>)"
    using assms(1,3,4) by (simp add: related_def healthy_request ctxE_def op_simps)
qed (use assms(1,2,5,6) in \<open>simp_all add: related_def\<close>)

section \<open>Events\<close>

primrec idsFor :: "Event list \<Rightarrow> 'z pgstore_scheme \<Rightarrow> string list" where
  "idsFor [] s = []"
| "idsFor (e # es) s = ev_ID (asked s e) # idsFor es (drawnFor (ev_ID e) s)"

definition freshIDs :: "Event list \<Rightarrow> 'z pgstore_scheme \<Rightarrow> bool" where
  "freshIDs es s \<longleftrightarrow> distinct (map ev_ID (tb_events (pg_tables s)) @ idsFor es s)"

lemma idsFor_cong: "rand t = rand s \<Longrightarrow> drawn t = drawn s \<Longrightarrow> idsFor es t = idsFor es s"
  by (induction es arbitrary: s t) (simp_all add: asked_def drawnFor_def)

lemma begun_simps [simp]:
  "pg_tables (begun s) = pg_tables s" "pg_time (begun s) = pg_time s" "pg_jsonb (begun s) = pg_jsonb s"
  "wall (begun s) = wall s" "rand (begun s) = rand s" "drawn (begun s) = drawn s"
  by (simp_all add: begun_def)

lemma not_list_ex: "x \<notin> f ` set ys \<Longrightarrow> \<not> list_ex (\<lambda>y. f y = x) ys"
  unfolding list_ex_iff by (metis imageI)

lemma insertEvent_fresh:
  assumes "healthy s" and "ev_ID (asked s e) \<notin> ev_ID ` set (tb_events (pg_tables s))"
  shows "insertEvent e s = (Inr (taken s e), (drawnFor (ev_ID e) s)\<lparr>pg_calls := pg_calls s + 1, pg_seq := pg_seq s + 1,
      pg_tables := (pg_tables s)\<lparr>tb_events := tb_events (pg_tables s) @ [storedRow s (taken s e)]\<rparr>\<rparr>)"
proof -
  have "pg_net (drawnFor (ev_ID e) s) (pg_calls (drawnFor (ev_ID e) s)) = Served" using assms(1) by (simp add: healthyD)
  moreover have "\<not> list_ex (\<lambda>y. ev_ID y = ev_ID (asked s e)) (tb_events (pg_tables s))"
    using assms(2) by (rule not_list_ex)
  ultimately show ?thesis
    by (simp add: insertEvent_app request_app ctxE_def bindE_def sqlInsertEvent_def op_simps eventRow_def taken_def
        storedRow_def onTables_def drawnFor_def)
qed

lemma appendOne_stored:
  assumes "represents s m"
  obtains m' where "appendOne e m = (Inr ((asked s e)\<lparr>ev_Seq := pg_seq s + 1\<rparr>), m')"
    and "represents ((drawnFor (ev_ID e) s)\<lparr>pg_calls := n, pg_seq := pg_seq s + 1,
      pg_tables := (pg_tables s)\<lparr>tb_events := tb_events (pg_tables s) @ [storedRow s (taken s e)]\<rparr>\<rparr>) m'"
proof -
  let ?e = "(asked s e)\<lparr>ev_Seq := pg_seq s + 1\<rparr>"
  let ?t = "(drawnFor (ev_ID e) s)\<lparr>pg_calls := n, pg_seq := pg_seq s + 1,
      pg_tables := (pg_tables s)\<lparr>tb_events := tb_events (pg_tables s) @ [storedRow s (taken s e)]\<rparr>\<rparr>"
  let ?m = "m\<lparr>drawn := drawn ?t, st_seq := pg_seq s + 1, st_events := st_events m @ [?e]\<rparr>"
  have "storedEvent ?t = storedEvent s" "versionRow ?t = versionRow s" "appRow ?t = appRow s"
    by (rule stored_cong; simp)+
  moreover have "storedRow s (taken s e) = storedEvent s ?e"
    by (simp add: storedRow_def taken_def storedEvent_def)
  ultimately have "represents ?t ?m" using assms by (auto simp: represents_def)
  moreover have "appendOne e m = (Inr ?e, ?m)"
    using assms by (simp add: appendOne_app Let_def represents_def asked_def drawnFor_def)
  ultimately show thesis using that by blast
qed

lemma Append_loop:
  "healthy s \<Longrightarrow> represents s m \<Longrightarrow> freshIDs es s \<Longrightarrow>
     \<exists>out t m'. mapE insertEvent es s = (Inr (map (returnedEvent s) out), t) \<and> Append es m = (Inr out, m') \<and> healthy t \<and>
       represents t m' \<and> pg_net t = pg_net s \<and> pg_calls s \<le> pg_calls t"
proof (induction es arbitrary: s m)
  case Nil
  then show ?case by (simp add: op_simps Append_def)
next
  case (Cons e es)
  define t where "t = (drawnFor (ev_ID e) s)\<lparr>pg_calls := pg_calls s + 1, pg_seq := pg_seq s + 1,
      pg_tables := (pg_tables s)\<lparr>tb_events := tb_events (pg_tables s) @ [storedRow s (taken s e)]\<rparr>\<rparr>"
  let ?e = "(asked s e)\<lparr>ev_Seq := pg_seq s + 1\<rparr>"
  obtain m1 where mem: "appendOne e m = (Inr ?e, m1)" "represents t m1"
    unfolding t_def by (rule appendOne_stored [OF Cons.prems(2)])
  have one: "insertEvent e s = (Inr (returnedEvent s ?e), t)"
    using insertEvent_fresh [OF Cons.prems(1)] Cons.prems(3)
    by (auto simp: t_def freshIDs_def taken_def returnedEvent_def)
  have "healthy t" "pg_net t = pg_net s" "pg_calls t = pg_calls s + 1"
    using Cons.prems(1) by (simp_all add: healthy_def t_def)
  moreover have "returnedEvent t = returnedEvent s" by (rule stored_cong) (simp_all add: t_def)
  ultimately have t: "healthy t" "pg_net t = pg_net s" "pg_calls t = pg_calls s + 1" "returnedEvent t = returnedEvent s"
    by blast+
  have "idsFor es t = idsFor es (drawnFor (ev_ID e) s)" by (rule idsFor_cong) (simp_all add: t_def)
  then have "freshIDs es t"
    using Cons.prems(3) by (auto simp: freshIDs_def t_def storedRow_def taken_def)
  from Cons.IH [OF t(1) mem(2) this] obtain out u m2 where
    "mapE insertEvent es t = (Inr (map (returnedEvent s) out), u)" "Append es m1 = (Inr out, m2)" "healthy u" "represents u m2"
    "pg_net u = pg_net t" "pg_calls t \<le> pg_calls u"
    by (auto simp: t(4))
  then show ?case using one mem(1) t(2,3)
    by (intro exI [of _ "?e # out"] exI [of _ u] exI [of _ m2]) (simp add: op_simps Append_def)
qed

lemma Append_simulates:
  assumes rel: "related s m" and fresh: "freshIDs es s"
  shows "simulates (map (returnedEvent s)) (pg_Append es) (Append es) s m"
proof (cases "es = []")
  case True
  then show ?thesis using rel by (simp add: simulates_def pg_Append_def Append_def op_simps)
next
  case False
  have "idsFor es (begun s) = idsFor es s" by (rule idsFor_cong) simp_all
  moreover have "returnedEvent (begun s) = returnedEvent s" by (rule stored_cong) simp_all
  moreover have "pg_net (begun s) = pg_net s" by (simp add: begun_def)
  ultimately obtain out t m' where run: "mapE insertEvent es (begun s) = (Inr (map (returnedEvent s) out), t)"
    "Append es m = (Inr out, m')" "healthy t" "represents t m'" "pg_net t = pg_net s" "pg_calls (begun s) \<le> pg_calls t"
    using Append_loop [of "begun s" m es] rel fresh by (auto simp: related_def freshIDs_def)
  have "pg_Append es s = (Inr (map (returnedEvent s) out), committed t)"
    using False rel run(1,3)
    by (simp add: related_def pg_Append_def transaction_app healthyD deferE_def bindE_def ctxE_def Commit_app op_simps
        Rollback_def committed_def)
  then show ?thesis
    by (rule simulatesI [where q = "Append es", OF rel preserves_wf_ops(1) _ run(2)]) (use run in \<open>simp_all add: committed_def begun_def\<close>)
qed

lemma filter_map_same: "(\<And>x. P (f x) = P x) \<Longrightarrow> filter P (map f xs) = map f (filter P xs)"
  by (simp add: filter_map comp_def)

lemma List_simulates:
  assumes rel: "related s m"
  shows "simulates (map (storedEvent s)) (pg_List f) (ListEvents f) s m"
proof -
  let ?P = "\<lambda>e. ef_AfterSeq f < ev_Seq e \<and>
    (ef_AggregateID f \<noteq> '''' \<longrightarrow> ev_AggregateID e = ef_AggregateID f) \<and> (0 < length (ef_Types f) \<longrightarrow> ev_Type e \<in> set (ef_Types f))"
  define rows where "rows = filter ?P (st_events m)"
  have es: "tb_events (pg_tables s) = map (storedEvent s) (st_events m)" using rel by (simp add: related_def represents_def)
  have "sorted_wrt (<) (map ev_Seq (tb_events (pg_tables s)))" using rel by (simp add: related_def pg_wf_def tables_wf_def)
  then have "sorted (map ev_Seq (st_events m))" by (simp add: es comp_def strict_sorted_iff)
  then have "sorted (map ev_Seq rows)" by (simp add: rows_def sorted_filter)
  then have "sort_key ev_Seq (map (storedEvent s) rows) = map (storedEvent s) rows"
    by (intro sort_key_id_if_sorted) (simp add: comp_def)
  moreover have "filter ?P (tb_events (pg_tables s)) = map (storedEvent s) rows"
    by (simp add: es rows_def filter_map_same)
  moreover have "?P = matchesFilter f" by (rule ext) (auto simp: matchesFilter_def)
  then have "ListEvents f m = (Inr (if 0 < ef_Limit f then take (nat (ef_Limit f)) rows else rows), m)"
    by (cases "0 < ef_Limit f") (simp_all add: ListEvents_limited ListEvents_unlimited rows_def)
  ultimately show ?thesis
    by (intro simulates_read [OF rel preserves_wf_ops(2) pg_List_def [unfolded sqlSelectEvents_def]])
      (auto simp: take_map Let_def)
qed

section \<open>Rule versions\<close>

lemma firsts_snoc: "firsts (xs @ [x]) = (if x \<in> set xs then firsts xs else firsts xs @ [x])"
  by (simp add: firsts_def)

lemma firsts_simps [simp]: "set (firsts xs) = set xs" "distinct (firsts xs)" "firsts [] = []"
  by (simp_all add: firsts_def)

lemma update_tabulate:
  "distinct ks \<Longrightarrow> AList.update k y (map (\<lambda>i. (i, g i)) ks) =
     map (\<lambda>i. (i, (g(k := y)) i)) (if k \<in> set ks then ks else ks @ [k])"
proof (induction ks)
  case (Cons i ks)
  then show ?case by (cases "i = k") auto
qed simp

lemma map_of_tabulate: "map_of (map (\<lambda>i. (i, g i)) ks) k = (if k \<in> set ks then Some (g k) else None)"
  by (induction ks) auto

lemma versionsByRule_lookup [simp]:
  "getOr [] (versionsByRule vs) i = sort_key rv_Version (filter (\<lambda>v. rv_RuleID v = i) vs)"
proof (cases "i \<in> rv_RuleID ` set vs")
  case False
  then have "filter (\<lambda>v. rv_RuleID v = i) vs = []" by (auto simp: filter_empty_conv)
  then show ?thesis using False by (simp add: versionsByRule_def getOr_def map_of_tabulate)
qed (simp add: versionsByRule_def getOr_def map_of_tabulate)

text \<open>Sorting by a key that tells the elements apart depends on the elements alone.\<close>

lemma sort_key_mset:
  assumes "mset xs = mset ys" and "distinct (map f xs)"
  shows "sort_key f xs = sort_key f ys"
proof -
  have "inj_on f (set xs)" using assms(2) by (simp add: distinct_map)
  then show ?thesis by (intro sort_key_inj_key_eq) (simp_all add: assms(1))
qed

definition keyed :: "RuleVersion list \<Rightarrow> bool" where
  "keyed vs \<longleftrightarrow> distinct (map (\<lambda>v. (rv_RuleID v, rv_Version v)) vs)"

lemma keyed_filter: "keyed vs \<Longrightarrow> distinct (map rv_Version (filter (\<lambda>v. rv_RuleID v = i) vs))"
  by (auto simp: keyed_def distinct_map inj_on_def)

definition published :: "instant \<Rightarrow> RuleVersion \<Rightarrow> RuleVersion list \<Rightarrow> RuleVersion list" where
  "published t v vs = map (closeRow t (rv_RuleID v)) vs @ [v]"

lemma closeRow_other: "rv_RuleID v \<noteq> i \<Longrightarrow> closeRow t i v = v"
  by (simp add: closeRow_def)

lemma closeRow_own: "rv_RuleID v = i \<Longrightarrow> closeRow t i v = closeOpen t v"
  by (simp add: closeRow_def closeOpen_def)

lemma filter_published:
  "filter (\<lambda>x. rv_RuleID x = i) (published t v vs) =
     (if i = rv_RuleID v then map (closeOpen t) (filter (\<lambda>x. rv_RuleID x = i) vs) @ [v]
      else filter (\<lambda>x. rv_RuleID x = i) vs)"
  by (auto simp: published_def filter_map comp_def closeRow_other closeRow_own intro!: map_cong [OF refl] map_idI)

lemma published_versions:
  assumes "keyed vs" and fresh: "\<not> list_ex (\<lambda>x. rv_RuleID x = rv_RuleID v \<and> rv_Version x = rv_Version v) vs"
  shows "versionsByRule (published t v vs) =
    AList.update (rv_RuleID v) (sort_key rv_Version (map (closeOpen t) (getOr [] (versionsByRule vs) (rv_RuleID v)) @ [v]))
      (versionsByRule vs)"
proof -
  let ?k = "rv_RuleID v"
  let ?xs = "filter (\<lambda>x. rv_RuleID x = ?k) vs"
  have "map rv_RuleID (published t v vs) = map rv_RuleID vs @ [?k]" by (simp add: published_def)
  then have keys: "firsts (map rv_RuleID (published t v vs)) =
      (if ?k \<in> set (firsts (map rv_RuleID vs)) then firsts (map rv_RuleID vs) else firsts (map rv_RuleID vs) @ [?k])"
    by (simp only: firsts_snoc firsts_simps)
  have "distinct (map rv_Version (map (closeOpen t) ?xs @ [v]))"
    using keyed_filter [OF assms(1), of ?k] fresh by (auto simp: comp_def list_ex_iff)
  then have own: "sort_key rv_Version (map (closeOpen t) ?xs @ [v]) = sort_key rv_Version (map (closeOpen t) (sort_key rv_Version ?xs) @ [v])"
    by (intro sort_key_mset) simp_all
  show ?thesis
    unfolding versionsByRule_def [of vs] update_tabulate [OF firsts_simps(2)] versionsByRule_def [of "published t v vs"] keys
    by (rule map_cong [OF refl]) (simp add: filter_published own flip: versionsByRule_def)
qed

definition bytewise :: "'z pgstore_scheme \<Rightarrow> bool" where
  "bytewise s \<longleftrightarrow> (\<forall>v \<in> set (tb_versions (pg_tables s)). pg_collate s (rv_RuleID v) = rv_RuleID v)"

lemma keyed_order: "keyed vs \<Longrightarrow> inj_on (versionOrder s) (set vs)"
  by (auto simp: keyed_def distinct_map inj_on_def versionOrder_def)

text \<open>The versions of one rule are in the order of the statement.\<close>

lemma sort_one_rule:
  assumes "keyed vs"
  shows "sort_key (versionOrder s) (filter (\<lambda>v. rv_RuleID v = i) vs) = sort_key rv_Version (filter (\<lambda>v. rv_RuleID v = i) vs)"
proof (rule sort_key_inj_key_eq)
  let ?xs = "filter (\<lambda>v. rv_RuleID v = i) vs"
  show "inj_on (versionOrder s) (set ?xs)" using keyed_order [OF assms] by (rule inj_on_subset) auto
  have "sorted_wrt (\<lambda>a b. rv_Version a \<le> rv_Version b) (sort_key rv_Version ?xs)"
    by (metis sorted_sort_key sorted_wrt_map)
  then have "sorted_wrt (\<lambda>a b. versionOrder s a \<le> versionOrder s b) (sort_key rv_Version ?xs)"
    by (rule sorted_wrt_mono_rel [rotated]) (auto simp: versionOrder_def less_eq_prod_def)
  then show "sorted (map (versionOrder s) (sort_key rv_Version ?xs))" by (simp add: sorted_wrt_map)
qed simp

text \<open>All versions: the rules in the order of their names, each with its versions.\<close>

lemma sort_all_rules:
  assumes "keyed vs" and "\<And>v. v \<in> set vs \<Longrightarrow> pg_collate s (rv_RuleID v) = rv_RuleID v"
  shows "sort_key (versionOrder s) vs =
    concat (map (\<lambda>i. sort_key rv_Version (filter (\<lambda>v. rv_RuleID v = i) vs)) (sort (firsts (map rv_RuleID vs))))"
proof (rule sort_key_inj_key_eq)
  let ?g = "\<lambda>i. sort_key rv_Version (filter (\<lambda>v. rv_RuleID v = i) vs)"
  let ?ks = "sort (firsts (map rv_RuleID vs))"
  show "inj_on (versionOrder s) (set vs)" by (rule keyed_order [OF assms(1)])
  have own: "set (?g i) = {v \<in> set vs. rv_RuleID v = i}" for i by auto
  have "mset (concat (map ?g ks)) = filter_mset (\<lambda>v. rv_RuleID v \<in> set ks) (mset vs)" if "distinct ks" for ks
    using that
  proof (induction ks)
    case (Cons k ks)
    have "filter_mset (\<lambda>v. rv_RuleID v = k \<or> rv_RuleID v \<in> set ks) (mset vs) =
        filter_mset (\<lambda>v. rv_RuleID v = k) (mset vs) + filter_mset (\<lambda>v. rv_RuleID v \<in> set ks) (mset vs)"
      using Cons.prems by (intro multiset_eqI) auto
    then show ?case using Cons by (simp add: mset_filter)
  qed simp
  from this [of ?ks] show "mset vs = mset (concat (map ?g ?ks))"
    using mset_filter [of "\<lambda>v. rv_RuleID v \<in> rv_RuleID ` set vs" vs] by simp
  have "sorted_wrt (\<lambda>a b. versionOrder s a \<le> versionOrder s b) (concat (map ?g ks))" if "sorted ks" "distinct ks" for ks
    using that
  proof (induction ks)
    case (Cons k ks)
    have "sorted_wrt (\<lambda>a b. versionOrder s a \<le> versionOrder s b) (?g k)"
      unfolding sort_one_rule [OF assms(1), of s, symmetric] by (metis sorted_sort_key sorted_wrt_map)
    moreover have "versionOrder s a \<le> versionOrder s b" if "a \<in> set (?g k)" "b \<in> set (concat (map ?g ks))" for a b
    proof -
      have "rv_RuleID a < rv_RuleID b" using that own Cons.prems by (auto simp: order.strict_iff_order)
      then show ?thesis using that own assms(2) by (auto simp: versionOrder_def less_eq_prod_def)
    qed
    ultimately show ?case using Cons by (simp add: sorted_wrt_append)
  qed simp
  then show "sorted (map (versionOrder s) (concat (map ?g ?ks)))" by (simp add: sorted_wrt_map)
qed

lemma versionOrder_row [simp]: "versionOrder s (versionRow s v) = versionOrder s v"
  by (simp add: versionOrder_def)

lemma sort_key_map_same: "(\<And>x. f (g x) = f x) \<Longrightarrow> sort_key f (map g xs) = map g (sort_key f xs)"
proof (induction xs)
  case (Cons x xs)
  have "insort_key f (g x) (map g ys) = map g (insort_key f x ys)" for ys
    by (induction ys) (simp_all add: Cons.prems)
  then show ?case using Cons by simp
qed simp

lemma published_rows:
  "map (closeRow (pg_time s t) (rv_RuleID v)) (map (versionRow s) vs) @ [versionRow s v] = map (versionRow s) (published t v vs)"
  by (simp add: published_def closeRow_def versionRow_def)

lemma related_versions:
  assumes "related s m"
  obtains vs where "tb_versions (pg_tables s) = map (versionRow s) vs" and "st_versions m = versionsByRule vs" and "keyed vs"
proof -
  obtain vs where vs: "tb_versions (pg_tables s) = map (versionRow s) vs" "st_versions m = versionsByRule vs"
    using assms by (auto simp: related_def represents_def)
  moreover have "keyed (tb_versions (pg_tables s))" using assms by (simp add: related_def pg_wf_def tables_wf_def keyed_def)
  then have "keyed vs" by (simp add: vs(1) keyed_def comp_def)
  ultimately show thesis using that by blast
qed

lemma pg_InsertRuleVersion_healthy:
  assumes "healthy s" and "in32 (rv_Version v)"
  defines "v' \<equiv> v\<lparr>rv_CreatedAt := (if rv_CreatedAt v = zeroTime then wall s else rv_CreatedAt v)\<rparr>"
  shows "pg_InsertRuleVersion v s =
    (if list_ex (\<lambda>x. rv_RuleID x = rv_RuleID v \<and> rv_Version x = rv_Version v) (tb_versions (pg_tables s))
     then (Inl ErrConflict, s\<lparr>pg_calls := pg_calls s + 3, pg_saved := None\<rparr>)
     else (Inr (), s\<lparr>pg_calls := pg_calls s + 4, pg_saved := None, pg_tables := (pg_tables s)\<lparr>tb_versions :=
       map (closeRow (pg_time s (rv_EffectiveFrom v)) (rv_RuleID v)) (tb_versions (pg_tables s)) @ [versionRow s v']\<rparr>\<rparr>))"
proof -
  have net: "pg_net s (pg_calls s) = Served" "pg_net s (Suc (pg_calls s)) = Served" "pg_net s (Suc (Suc (pg_calls s))) = Served"
    "pg_net s (Suc (Suc (Suc (pg_calls s)))) = Served"
    using assms(1) by (simp_all add: healthy_def)
  have "list_ex (\<lambda>x. rv_RuleID x = rv_RuleID v \<and> rv_Version x = rv_Version v) (map (closeRow t i) vs) =
      list_ex (\<lambda>x. rv_RuleID x = rv_RuleID v \<and> rv_Version x = rv_Version v) vs" for t i vs
    by (simp add: list_ex_iff)
  then show ?thesis
    using net assms(2) unfolding v'_def pg_InsertRuleVersion_def
    by (simp add: op_simps Let_def transaction_app deferE_def bindE_def ctxE_def mapErrE_def request_app begun_def sqlCloseVersion_def
        sqlInsertVersion_def onTables_def Commit_app committed_def Rollback_def conflictOr_def versionRow_def)
qed

lemma InsertRuleVersion_simulates:
  assumes rel: "related s m" and v: "in32 (rv_Version v)"
  shows "simulates (\<lambda>x. x) (pg_InsertRuleVersion v) (InsertRuleVersion v) s m"
proof -
  obtain vs where vs: "tb_versions (pg_tables s) = map (versionRow s) vs" "st_versions m = versionsByRule vs" and k: "keyed vs"
    by (rule related_versions [OF rel])
  define v' where "v' = v\<lparr>rv_CreatedAt := (if rv_CreatedAt v = zeroTime then wall s else rv_CreatedAt v)\<rparr>"
  let ?i = "rv_RuleID v" and ?t = "rv_EffectiveFrom v"
  let ?dup = "list_ex (\<lambda>x. rv_RuleID x = ?i \<and> rv_Version x = rv_Version v)"
  have rep: "represents s m" and net: "healthy s" using rel by (simp_all add: related_def)
  have v': "rv_RuleID v' = ?i" "rv_Version v' = rv_Version v" by (simp_all add: v'_def)
  have w: "wall m = wall s" using rep by (simp add: represents_def)
  have dup: "list_ex (\<lambda>x. rv_Version x = rv_Version v) (getOr [] (versionsByRule vs) ?i) \<longleftrightarrow> ?dup vs"
    "?dup (map (versionRow s) vs) \<longleftrightarrow> ?dup vs"
    by (auto simp: list_ex_iff)
  have mem: "InsertRuleVersion v m = (if ?dup vs then (Inl ErrConflict, m)
      else (Inr (), m\<lparr>st_versions := versionsByRule (published ?t v' vs)\<rparr>))"
    using published_versions [OF k, of v' ?t] dup(1) w vs(2)
    by (cases "rv_CreatedAt v = zeroTime") (simp_all add: InsertRuleVersion_app Let_def v'_def)
  note pg = pg_InsertRuleVersion_healthy [OF net v, folded v'_def, unfolded vs(1) dup(2)]
  show ?thesis
  proof (cases "?dup vs")
    case True
    show ?thesis by (rule simulatesI [where q = "InsertRuleVersion v", OF rel preserves_wf_ops(3) pg [unfolded if_P [OF True]] mem [unfolded if_P [OF True]]])
      (use rep in simp_all)
  next
    case False
    let ?s = "s\<lparr>pg_calls := pg_calls s + 4, pg_saved := None, pg_tables := (pg_tables s)\<lparr>tb_versions :=
       map (closeRow (pg_time s ?t) ?i) (map (versionRow s) vs) @ [versionRow s v']\<rparr>\<rparr>"
    have "storedEvent ?s = storedEvent s" "versionRow ?s = versionRow s" "appRow ?s = appRow s"
      by (rule stored_cong; simp)+
    moreover have "tb_versions (pg_tables ?s) = map (versionRow s) (published ?t v' vs)"
      using published_rows [of s ?t v' vs] by (simp add: v' del: map_map)
    ultimately have "represents ?s (m\<lparr>st_versions := versionsByRule (published ?t v' vs)\<rparr>)"
      using rep by (auto simp: represents_def simp del: map_map)
    then show ?thesis
      by (intro simulatesI [where q = "InsertRuleVersion v", OF rel preserves_wf_ops(3) pg [unfolded if_not_P [OF False]] mem [unfolded if_not_P [OF False]]])
        simp_all
  qed
qed

lemma ListRuleVersions_simulates:
  assumes rel: "related s m" and bytes: "i = '''' \<Longrightarrow> bytewise s"
  shows "simulates (map (versionRow s)) (pg_ListRuleVersions i) (ListRuleVersions i) s m"
proof -
  obtain vs where vs: "tb_versions (pg_tables s) = map (versionRow s) vs" "st_versions m = versionsByRule vs" and k: "keyed vs"
    by (rule related_versions [OF rel])
  let ?P = "\<lambda>v. i = '''' \<or> rv_RuleID v = i"
  have mem: "ListRuleVersions i m = (Inr (sort_key (versionOrder s) (filter ?P vs)), m)"
  proof (cases "i = ''''")
    case True
    have "sort_key (versionOrder s) vs =
        concat (map (\<lambda>i. sort_key rv_Version (filter (\<lambda>v. rv_RuleID v = i) vs)) (sort (firsts (map rv_RuleID vs))))"
      using bytes True by (intro sort_all_rules k) (auto simp: bytewise_def vs(1))
    moreover have "map fst (versionsByRule vs) = firsts (map rv_RuleID vs)" by (simp add: versionsByRule_def comp_def)
    moreover have "getOr [] (versionsByRule vs) = (\<lambda>i. sort_key rv_Version (filter (\<lambda>v. rv_RuleID v = i) vs))"
      by (rule ext) simp
    ultimately show ?thesis using True by (simp add: ListRuleVersions_def op_simps vs(2))
  qed (simp add: ListRuleVersions_def op_simps sort_one_rule [OF k] vs(2))
  have pg: "sort_key (versionOrder s) (filter ?P (tb_versions (pg_tables s))) = map (versionRow s) (sort_key (versionOrder s) (filter ?P vs))"
    by (simp add: vs(1) filter_map_same sort_key_map_same)
  have "versionOrder (s\<lparr>pg_calls := n\<rparr>) = versionOrder s" for n by (rule ext) (simp add: versionOrder_def)
  then show ?thesis
    by (intro simulates_read [where q = "ListRuleVersions i", OF rel preserves_wf_ops(4) pg_ListRuleVersions_def [unfolded sqlSelectVersions_def]])
      (simp_all add: pg mem)
qed

lemma GetRuleVersion_simulates:
  assumes rel: "related s m" and n: "in32 n"
  shows "simulates (versionRow s) (pg_GetRuleVersion i n) (GetRuleVersion i n) s m"
proof -
  obtain vs where vs: "tb_versions (pg_tables s) = map (versionRow s) vs" "st_versions m = versionsByRule vs" and k: "keyed vs"
    by (rule related_versions [OF rel])
  let ?P = "\<lambda>v. rv_RuleID v = i \<and> rv_Version v = n" and ?s = "s\<lparr>pg_calls := pg_calls s + 1\<rparr>"
  have inj: "inj_on (\<lambda>v. (rv_RuleID v, rv_Version v)) (set vs)" using k by (simp add: keyed_def distinct_map)
  have "find (\<lambda>v. rv_Version v = n) (sort_key rv_Version (filter (\<lambda>v. rv_RuleID v = i) vs)) = find ?P vs"
  proof (cases "find ?P vs")
    case None
    then have "find (\<lambda>v. rv_Version v = n) (sort_key rv_Version (filter (\<lambda>v. rv_RuleID v = i) vs)) = None"
      by (auto simp: find_None_iff)
    then show ?thesis using None by simp
  next
    case (Some v)
    then have v: "v \<in> set vs" "?P v" by (auto simp: find_Some_iff)
    have "find (\<lambda>v. rv_Version v = n) (sort_key rv_Version (filter (\<lambda>v. rv_RuleID v = i) vs)) = Some v"
      by (rule find_unique) (use v inj in \<open>auto simp: inj_on_def\<close>)
    then show ?thesis using Some by simp
  qed
  then have mem: "GetRuleVersion i n m = (ofOption ErrNotFound (find ?P vs), m)"
    by (simp add: GetRuleVersion_def op_simps vs(2))
  have "find ?P (map (versionRow s) vs) = map_option (versionRow s) (find ?P vs)"
    by (induction vs) simp_all
  then have pg: "pg_GetRuleVersion i n s = (map_sum (\<lambda>e. e) (versionRow s) (ofOption ErrNotFound (find ?P vs)), ?s)"
    using rel n by (cases "find ?P vs") (simp_all add: related_def pg_GetRuleVersion_def mapErrE_def healthy_request
        sqlSelectVersion_def op_simps ofOption_def notFoundIfNoRows_def vs(1))
  show ?thesis by (rule simulatesI [where q = "GetRuleVersion i n", OF rel preserves_wf_ops(5) pg mem]) (use rel in \<open>simp_all add: related_def\<close>)
qed

section \<open>Rule applications\<close>

definition newApp :: "'z pgstore_scheme \<Rightarrow> RuleApplication \<Rightarrow> bool" where
  "newApp s a \<longleftrightarrow> in32 (ra_Version a) \<and> (if ra_ID a = '''' then rand s (drawn s) else ra_ID a) \<notin> ra_ID ` set (tb_apps (pg_tables s))"

lemma InsertRuleApplication_simulates:
  assumes rel: "related s m" and new: "newApp s a"
  shows "simulates (\<lambda>x. x) (pg_InsertRuleApplication a) (InsertRuleApplication a) s m"
proof -
  define a' where "a' = a\<lparr>ra_ID := (if ra_ID a = '''' then rand s (drawn s) else ra_ID a),
    ra_RecordedAt := (if ra_RecordedAt a = zeroTime then wall s else ra_RecordedAt a)\<rparr>"
  let ?d = "drawnFor (ra_ID a) s" and ?as = "tb_apps (pg_tables s)"
  let ?s = "?d\<lparr>pg_calls := pg_calls s + 1, pg_tables := (pg_tables s)\<lparr>tb_apps := ?as @ [appRow s a']\<rparr>\<rparr>"
  let ?m = "m\<lparr>drawn := drawn ?d, st_apps := st_apps m @ [a']\<rparr>"
  have rep: "represents s m" and net: "pg_net ?d (pg_calls ?d) = Served" using rel by (simp_all add: related_def healthyD)
  have a': "in32 (ra_Version a')" "\<not> list_ex (\<lambda>x. ra_ID x = ra_ID a') ?as"
    using new unfolding newApp_def by (auto simp: a'_def not_list_ex)
  have row: "appRow (?d\<lparr>pg_calls := n\<rparr>) = appRow s" for n by (rule stored_cong) simp_all
  have "ctxE c (request (sqlInsertApp a')) ?d = (Inr (), ?s)" for c
    using a' net row by (simp add: ctxE_def request_app sqlInsertApp_def op_simps onTables_def)
  then have pg: "pg_InsertRuleApplication a s = (Inr a', ?s)"
    by (cases "ra_ID a = ''''"; cases "ra_RecordedAt a = zeroTime")
      (simp_all add: pg_InsertRuleApplication_def op_simps Let_def drawnFor_def a'_def bindE_def)
  have mem: "InsertRuleApplication a m = (Inr a', ?m)"
    using rep by (cases "ra_ID a = ''''"; cases "ra_RecordedAt a = zeroTime")
      (simp_all add: InsertRuleApplication_def op_simps Let_def a'_def drawnFor_def represents_def)
  have "storedEvent ?s = storedEvent s" "versionRow ?s = versionRow s" "appRow ?s = appRow s"
    by (rule stored_cong; simp)+
  then have "represents ?s ?m" using rep by (auto simp: represents_def)
  then show ?thesis by (intro simulatesI [where q = "InsertRuleApplication a", OF rel preserves_wf_ops(6) pg mem]) simp_all
qed

text \<open>The order of the listing is the one of recording, as far as the column tells the times apart.\<close>

definition appsInOrder :: "'z pgstore_scheme \<Rightarrow> bool" where
  "appsInOrder s \<longleftrightarrow> sorted (map (appOrder s) (tb_apps (pg_tables s)))"

lemma appsLoop_filter:
  "int (length out) \<le> limit \<Longrightarrow>
     appsLoop r e limit out as = out @ take (nat (limit - int (length out))) (filter (matchesApp r e) as)"
proof (induction as arbitrary: out)
  case (Cons a as)
  show ?case
  proof (cases "int (length out) < limit")
    case True
    then have "nat (limit - int (length out)) = Suc (nat (limit - int (length (out @ [a]))))" by simp
    then show ?thesis using True Cons.IH [of "out @ [a]"] Cons.IH [of out] by simp
  qed (use Cons.prems in simp)
qed simp

lemma appsInOrder_ascending: "sorted_wrt (<) (map ra_RecordedAt (tb_apps (pg_tables s))) \<Longrightarrow> appsInOrder s"
  unfolding appsInOrder_def sorted_wrt_map
  by (erule sorted_wrt_mono_rel [rotated]) (simp add: appOrder_def less_eq_prod_def)

lemma pg_ListRuleApplications_healthy:
  assumes "healthy s"
  shows "pg_ListRuleApplications i j limit s =
    (Inr (take (nat (if limit \<le> 0 then 100 else limit)) (rev (sort_key (appOrder s) (filter (matchesApp i j) (tb_apps (pg_tables s)))))),
     s\<lparr>pg_calls := pg_calls s + 1\<rparr>)"
proof -
  have "(\<lambda>a. (i = '''' \<or> ra_RuleID a = i) \<and> (j = '''' \<or> ra_EntityID a = j)) = matchesApp i j"
    by (rule ext) (auto simp: matchesApp_def)
  moreover have "appOrder (s\<lparr>pg_calls := n\<rparr>) = appOrder s" for n by (rule ext) (simp add: appOrder_def)
  ultimately show ?thesis
    using assms(1) by (simp add: pg_ListRuleApplications_def Let_def ctxE_def healthy_request sqlSelectApps_def op_simps)
qed

lemma ListRuleApplications_app:
  "ListRuleApplications i j limit m =
    (Inr (take (nat (if limit \<le> 0 then 100 else limit)) (filter (matchesApp i j) (rev (st_apps m)))), m)"
  using appsLoop_filter [of "[]" "if limit \<le> 0 then 100 else limit" i j "rev (st_apps m)"]
  by (simp add: ListRuleApplications_def Let_def op_simps split: if_splits)

lemma matchesApp_row [simp]: "matchesApp i j (appRow s a) = matchesApp i j a"
  by (simp add: matchesApp_def)

lemma ListRuleApplications_simulates:
  assumes rel: "related s m" and order: "appsInOrder s"
  shows "simulates (map (appRow s)) (pg_ListRuleApplications i j limit) (ListRuleApplications i j limit) s m"
proof -
  have as: "tb_apps (pg_tables s) = map (appRow s) (st_apps m)" using rel by (simp add: related_def represents_def)
  have "sort_key (appOrder s) (filter (matchesApp i j) (tb_apps (pg_tables s))) = filter (matchesApp i j) (tb_apps (pg_tables s))"
    using order by (intro sort_key_id_if_sorted sorted_filter) (simp add: appsInOrder_def)
  also have "\<dots> = map (appRow s) (filter (matchesApp i j) (st_apps m))" by (simp add: as filter_map_same)
  finally have rows: "sort_key (appOrder s) (filter (matchesApp i j) (tb_apps (pg_tables s))) =
      map (appRow s) (filter (matchesApp i j) (st_apps m))" .
  have "healthy s" using rel by (simp add: related_def)
  note pg = pg_ListRuleApplications_healthy [OF this, of i j limit, unfolded rows]
  show ?thesis
    by (rule simulatesI [where q = "ListRuleApplications i j limit", OF rel preserves_wf_ops(7) pg ListRuleApplications_app])
      (use rel in \<open>simp_all add: related_def rev_filter rev_map take_map\<close>)
qed

section \<open>The refinement\<close>

text \<open>C37: On a server that answers, the PostgreSQL store simulates the in-memory one, however its columns round times
  and normalise documents. From related states every operation ends in related states again, with the same error or
  with the result of the in-memory store as the columns keep it; \<open>Append\<close> returns the events of the caller
  with only the time of recording rounded. This holds of appending when no identifier occurs twice, of what names a
  version when the number fits the 32-bit column, and of inserting an application when its identifier is new. The
  versions of all rules come in the same order when the database compares names byte by byte, and the
  applications when their times of recording ascend as stored.\<close>

theorem pgstore_refines_memstore:
  assumes "related s m"
  shows "(freshIDs es s \<longrightarrow> simulates (map (returnedEvent s)) (pg_Append es) (Append es) s m) \<and>
    simulates (map (storedEvent s)) (pg_List f) (ListEvents f) s m \<and>
    (in32 (rv_Version v) \<longrightarrow> simulates (\<lambda>x. x) (pg_InsertRuleVersion v) (InsertRuleVersion v) s m) \<and>
    (i \<noteq> '''' \<or> bytewise s \<longrightarrow> simulates (map (versionRow s)) (pg_ListRuleVersions i) (ListRuleVersions i) s m) \<and>
    (in32 n \<longrightarrow> simulates (versionRow s) (pg_GetRuleVersion i n) (GetRuleVersion i n) s m) \<and>
    (newApp s a \<longrightarrow> simulates (\<lambda>x. x) (pg_InsertRuleApplication a) (InsertRuleApplication a) s m) \<and>
    (appsInOrder s \<longrightarrow>
       simulates (map (appRow s)) (pg_ListRuleApplications i j limit) (ListRuleApplications i j limit) s m)"
  using Append_simulates [OF assms] List_simulates [OF assms] InsertRuleVersion_simulates [OF assms]
    ListRuleVersions_simulates [OF assms] GetRuleVersion_simulates [OF assms] InsertRuleApplication_simulates [OF assms]
    ListRuleApplications_simulates [OF assms]
  by blast

text \<open>
  A server that keeps microseconds and, of a JSON object, the last value of each key in the order of the lengths and bytes
  of the keys. The database has one event and two versions of a rule, recorded at times with odd nanoseconds.
\<close>

definition sampleJsonb :: "json \<Rightarrow> json" where
  "sampleJsonb j =
     (case j of JObj ob \<Rightarrow> JObj (sort_key (\<lambda>(k, x). (length k, k)) (fold (\<lambda>(k, x). AList.update k x) ob [])) | _ \<Rightarrow> j)"

definition sampleEv :: "string \<Rightarrow> Event" where
  "sampleEv i = \<lparr>ev_ID = i, ev_Seq = 4, ev_Type = ''t'', ev_AggregateID = ''a'', ev_OccurredAt = 1234567, ev_RecordedAt = 1234890,
     ev_Payload = JObj [(''tx_id'', JStr ''x''), (''n'', JNum 1), (''n'', JNum 2)]\<rparr>"

definition sampleV :: "int \<Rightarrow> instant option \<Rightarrow> RuleVersion" where
  "sampleV n to = \<lparr>rv_RuleID = ''r'', rv_Version = n, rv_RuleType = ''t'', rv_Content = ''c'', rv_ContentHash = '''',
     rv_SourceCommit = '''', rv_Author = '''', rv_ChangeNote = '''', rv_EffectiveFrom = 1234567, rv_EffectiveTo = to,
     rv_CreatedAt = 1234890\<rparr>"

definition sampleMem :: memstore where
  "sampleMem = \<lparr>now = 0, listeners = [], notified = [], rand = (\<lambda>n. ''id'' @ natStr n), drawn = 0, wall = 7654321,
     st_events = [sampleEv ''e''], st_versions = [(''r'', [sampleV 1 (Some 5555), sampleV 2 None])], st_apps = [], st_seq = 6\<rparr>"

definition sampleDb :: pgstore where
  "sampleDb = \<lparr>now = 0, listeners = [], notified = [], rand = (\<lambda>n. ''id'' @ natStr n), drawn = 0, wall = 7654321,
     pg_tables = \<lparr>tb_events = [(sampleEv ''e'')\<lparr>ev_OccurredAt := 1234000, ev_RecordedAt := 1234000,
         ev_Payload := JObj [(''n'', JNum 2), (''tx_id'', JStr ''x'')]\<rparr>],
       tb_versions = map (\<lambda>v. v\<lparr>rv_EffectiveFrom := 1234000, rv_CreatedAt := 1234000\<rparr>) [sampleV 2 None, sampleV 1 (Some 5000)],
       tb_apps = [], tb_migrations = None, tb_ddl = []\<rparr>,
     pg_saved = None, pg_seq = 6, pg_calls = 0, pg_net = (\<lambda>_. Served), pg_time = (\<lambda>t. t div 1000 * 1000),
     pg_jsonb = sampleJsonb, pg_collate = (\<lambda>x. x), pg_accepts = (\<lambda>_ _. True)\<rparr>"

lemma sampleDb_related: "related sampleDb sampleMem"
proof -
  have "versionsByRule [sampleV 2 None, sampleV 1 (Some 5555)] = [(''r'', [sampleV 1 (Some 5555), sampleV 2 None])]"
    by (simp add: versionsByRule_def firsts_def sampleV_def)
  then have "represents sampleDb sampleMem"
    by (simp add: represents_def sampleDb_def sampleMem_def storedEvent_def sampleEv_def sampleJsonb_def versionRow_def sampleV_def
        less_eq_prod_def exI [of _ "[sampleV 2 None, sampleV 1 (Some 5555)]", unfolded sampleV_def])
  then show ?thesis
    by (auto simp: related_def healthy_def pg_wf_def tables_wf_def sampleDb_def sampleEv_def sampleV_def)
qed

theorem pgstore_refines_memstore_witness:
  "simulates (map (returnedEvent sampleDb)) (pg_Append [sampleEv ''f'']) (Append [sampleEv ''f'']) sampleDb sampleMem \<and>
   simulates (\<lambda>x. x) (pg_InsertRuleVersion (sampleV 3 None)) (InsertRuleVersion (sampleV 3 None)) sampleDb sampleMem \<and>
   simulates (map (versionRow sampleDb)) (pg_ListRuleVersions '''') (ListRuleVersions '''') sampleDb sampleMem"
proof -
  have "freshIDs [sampleEv ''f''] sampleDb"
    by (simp add: asked_def freshIDs_def sampleDb_def sampleEv_def)
  moreover have "in32 (rv_Version (sampleV 3 None))" by (simp add: in32_def sampleV_def)
  moreover have "bytewise sampleDb" by (simp add: bytewise_def sampleDb_def)
  ultimately show ?thesis using pgstore_refines_memstore [OF sampleDb_related, where i = "[]"] by simp
qed

end
