(* ===== verification/Pg_Migrate.thy ===== *)
theory Pg_Migrate
  imports Pg_Refine
begin

text \<open>
  The migrations of the database: each file is applied in a transaction of its own, in the order of the names, and
  once.
\<close>

definition pending :: "'z pgstore_scheme \<Rightarrow> string list \<Rightarrow> string list" where
  "pending s names = filter (\<lambda>n. n \<notin> set (migrated s)) names"

definition statementsOf :: "migrationFile list \<Rightarrow> string \<Rightarrow> string list" where
  "statementsOf entries name = (case readFile entries name of Inl _ \<Rightarrow> [] | Inr raw \<Rightarrow> splitStatements raw)"

text \<open>What is in the database besides the statements and the names of the migrations.\<close>

definition rowsOf :: "'z pgstore_scheme \<Rightarrow> Event list \<times> RuleVersion list \<times> RuleApplication list" where
  "rowsOf s = (tb_events (pg_tables s), tb_versions (pg_tables s), tb_apps (pg_tables s))"

text \<open>The migrations \<open>ns\<close>, and only they, have been applied between the two states.\<close>

definition movedBy :: "migrationFile list \<Rightarrow> string list \<Rightarrow> 'z pgstore_scheme \<Rightarrow> 'z pgstore_scheme \<Rightarrow> bool" where
  "movedBy entries ns s t \<longleftrightarrow> migrated t = migrated s @ ns \<and>
     tb_ddl (pg_tables t) = tb_ddl (pg_tables s) @ concat (map (statementsOf entries) ns) \<and> rowsOf t = rowsOf s \<and>
     (tb_migrations (pg_tables t) = None \<longrightarrow> tb_migrations (pg_tables s) = None)"

lemma movedBy_refl: "pg_tables t = pg_tables s \<Longrightarrow> movedBy entries [] s t"
  by (simp add: movedBy_def migrated_def rowsOf_def)

lemma movedBy_trans: "movedBy entries ns s t \<Longrightarrow> movedBy entries ms t u \<Longrightarrow> movedBy entries (ns @ ms) s u"
  by (simp add: movedBy_def)

lemma DDL_Inr:
  "foreachE stmts (\<lambda>stmt. ctxE c (request (sqlDDL stmt))) s = (Inr (), u) \<Longrightarrow>
     pg_tables u = (pg_tables s)\<lparr>tb_ddl := tb_ddl (pg_tables s) @ stmts\<rparr>"
proof (induction stmts arbitrary: s)
  case (Cons x stmts)
  then obtain t where t: "request (sqlDDL x) s = (Inr (), t)" and rest: "foreachE stmts (\<lambda>stmt. ctxE c (request (sqlDDL stmt))) t = (Inr (), u)"
    by (auto simp: bindE_eq_Inr ctxE_eq_Inr)
  have "pg_tables t = (pg_tables s)\<lparr>tb_ddl := tb_ddl (pg_tables s) @ [x]\<rparr>"
    using request_Inr [OF t] by (auto simp: sqlDDL_def op_simps onTables_def split: if_splits)
  then show ?case using Cons.IH [OF rest] by simp
qed (simp add: op_simps)

lemma record_Inr:
  assumes "request (sqlRecord name) s = (Inr (), u)"
  shows "pg_tables u = (pg_tables s)\<lparr>tb_migrations := Some (migrated s @ [name])\<rparr>"
  using request_Inr [OF assms] by (auto simp: sqlRecord_def op_simps onTables_def migrated_def split: if_splits)

text \<open>A migration that fails leaves nothing behind.\<close>

lemma applyMigration_outcome:
  assumes "applyMigration name sql s = (r, s')" and sql: "readFile entries name = Inr sql"
  shows "isl r \<and> movedBy entries [] s s' \<or> movedBy entries [name] s s'"
proof -
  let ?m = "bindE (foreachE (splitStatements sql) (\<lambda>stmt. ctxE ''pgstore: apply migration'' (request (sqlDDL stmt)))) (\<lambda>_.
        ctxE ''pgstore: record migration'' (request (sqlRecord name)))"
  have frame: "keeps pgFrame ?m" by (intro pres)
  show ?thesis
  proof (cases rule: transaction_cases [OF assms(1) [unfolded applyMigration_def] frame, case_names undone carried])
    case (undone e)
    then show ?thesis by (auto intro: movedBy_refl)
  next
    case (carried x u)
    then obtain t where ddl: "foreachE (splitStatements sql) (\<lambda>stmt. ctxE ''pgstore: apply migration'' (request (sqlDDL stmt))) (begun s) = (Inr (), t)"
      and rec: "request (sqlRecord name) t = (Inr (), u)"
      by (auto simp: bindE_eq_Inr ctxE_eq_Inr)
    show ?thesis
      using DDL_Inr [OF ddl] record_Inr [OF rec] carried(2) sql
      by (simp add: movedBy_def migrated_def rowsOf_def committed_def statementsOf_def)
  qed
qed

lemma migrateOne_outcome:
  assumes "migrateOne entries name s = (r, s')"
  shows "(isl r \<or> name \<in> set (migrated s)) \<and> movedBy entries [] s s' \<or> name \<notin> set (migrated s) \<and> movedBy entries [name] s s'"
proof -
  let ?s = "s\<lparr>pg_calls := pg_calls s + 1\<rparr>"
  have same: "movedBy entries [] s ?s" by (rule movedBy_refl) simp
  have mig: "migrated ?s = migrated s" by (simp add: migrated_def)
  show ?thesis
  proof (cases "pg_net s (pg_calls s) = Served")
    case False
    then have "migrateOne entries name s = (Inl (Ctx ''pgstore: check migration'' (EStore Unavailable)), ?s)"
      by (cases "pg_net s (pg_calls s)") (simp_all add: migrateOne_def request_app ctxE_def bindE_def sqlApplied_def op_simps)
    then show ?thesis using same assms by auto
  next
    case True
    then have run: "(if name \<in> set (migrated s) then returnE ()
        else bindE (liftE (ctxR ''pgstore: read migration'' (readFile entries name))) (applyMigration name)) ?s = (r, s')"
      using assms mig by (simp add: migrateOne_def request_app ctxE_def bindE_def sqlApplied_def op_simps)
    show ?thesis
    proof (cases "name \<in> set (migrated s)")
      case True
      then show ?thesis using run same by (simp add: op_simps)
    next
      case new: False
      show ?thesis
      proof (cases "readFile entries name")
        case (Inl e)
        then have "isl r" "s' = ?s" using run new by (auto simp: bindE_def op_simps ctxR_def)
        then show ?thesis using same by blast
      next
        case (Inr sql)
        then have "applyMigration name sql ?s = (r, s')" using run new by (simp add: op_simps)
        then show ?thesis
          using applyMigration_outcome [OF _ Inr] movedBy_trans [OF same] new by fastforce
      qed
    qed
  qed
qed

lemma migrateAll_outcome:
  "foreachE names (migrateOne entries) s = (r, s') \<Longrightarrow> distinct names \<Longrightarrow>
     \<exists>k. movedBy entries (take k (pending s names)) s s' \<and> (r = Inr () \<longrightarrow> length (pending s names) \<le> k)"
proof (induction names arbitrary: s)
  case Nil
  then show ?case by (auto simp: op_simps pending_def intro: movedBy_refl)
next
  case (Cons name names)
  obtain q t where one: "migrateOne entries name s = (q, t)" by (cases "migrateOne entries name s")
  note outcome = migrateOne_outcome [OF one]
  show ?case
  proof (cases q)
    case (Inl e)
    then have "r = Inl e" "s' = t" using Cons.prems(1) one by (simp_all add: bindE_def)
    moreover from outcome have "\<exists>k. movedBy entries (take k (pending s (name # names))) s t"
    proof (elim disjE conjE)
      assume "name \<notin> set (migrated s)" "movedBy entries [name] s t"
      then show ?thesis by (intro exI [where x = 1]) (simp add: pending_def)
    qed (auto intro: exI [where x = 0])
    ultimately show ?thesis by auto
  next
    case (Inr x)
    then have rest: "foreachE names (migrateOne entries) t = (r, s')" using Cons.prems(1) one by (simp add: bindE_def)
    have IH: "\<exists>k. movedBy entries (take k (pending t names)) t s' \<and> (r = Inr () \<longrightarrow> length (pending t names) \<le> k)"
      by (rule Cons.IH [OF rest]) (use Cons.prems(2) in simp)
    then obtain k where k: "movedBy entries (take k (pending t names)) t s'" "r = Inr () \<longrightarrow> length (pending t names) \<le> k" by blast
    from outcome show ?thesis
    proof (elim disjE conjE)
      assume "name \<notin> set (migrated s)" and m: "movedBy entries [name] s t"
      moreover from m have "pending t names = pending s names" using Cons.prems(2) by (auto simp: pending_def movedBy_def intro: filter_cong)
      ultimately show ?thesis
        using movedBy_trans [OF m k(1)] k(2) by (intro exI [where x = "Suc k"]) (simp add: pending_def)
    next
      assume "isl q" then show ?thesis using Inr by simp
    next
      assume "name \<in> set (migrated s)" and m: "movedBy entries [] s t"
      moreover from m have "pending t names = pending s names" by (simp add: pending_def movedBy_def)
      ultimately show ?thesis
        using movedBy_trans [OF m k(1)] k(2) by (intro exI [where x = k]) (simp add: pending_def)
    qed
  qed
qed

lemma migrateAll_done:
  "healthy s \<Longrightarrow> set names \<subseteq> set (migrated s) \<Longrightarrow>
     foreachE names (migrateOne entries) s = (Inr (), s\<lparr>pg_calls := pg_calls s + length names\<rparr>)"
proof (induction names arbitrary: s)
  case (Cons n ns)
  let ?s = "s\<lparr>pg_calls := pg_calls s + 1\<rparr>"
  have mig: "migrated ?s = migrated s" by (simp add: migrated_def)
  then have "migrateOne entries n s = (Inr (), ?s)"
    using Cons.prems by (simp add: migrateOne_def ctxE_def bindE_def healthy_request sqlApplied_def op_simps)
  then show ?case using Cons.IH [of ?s] Cons.prems mig by (simp add: op_simps)
qed (simp add: op_simps)

definition migrationNames :: "migrationFile list \<Rightarrow> string list" where
  "migrationNames entries = sort (map mf_Name (filter isMigration entries))"

text \<open>C40: Migrating applies every migration once. Whatever the connection does, what has been applied afterwards is what was
  before, then some first ones of the pending migrations in the order of their names, each with all of its statements
  and recorded under its name; no rows are touched. When \<open>Migrate\<close> succeeds these are all of them, and
  migrating again, when the server answers, succeeds and changes nothing.\<close>

theorem migrations_apply_once:
  assumes names: "distinct (map mf_Name entries)" and run: "Migrate (Inr entries) s = (r, s')"
  shows "\<exists>k. movedBy entries (take k (pending s (migrationNames entries))) s s' \<and>
    (r = Inr () \<longrightarrow> length (pending s (migrationNames entries)) \<le> k \<and>
       (healthy s' \<longrightarrow> fst (Migrate (Inr entries) s') = Inr () \<and> pg_tables (snd (Migrate (Inr entries) s')) = pg_tables s'))"
proof -
  let ?names = "migrationNames entries"
  have d: "distinct ?names" using names by (simp add: migrationNames_def distinct_map inj_on_def)
  obtain q t where ensure: "ctxE ''pgstore: ensure schema_migrations'' (request sqlEnsureMigrations) s = (q, t)"
    by (cases "ctxE ''pgstore: ensure schema_migrations'' (request sqlEnsureMigrations) s")
  have t: "movedBy entries [] s t \<and> (q = Inr () \<longrightarrow> tb_migrations (pg_tables t) \<noteq> None)"
    using ensure
    by (cases "pg_net s (pg_calls s)")
      (auto simp: request_app ctxE_def sqlEnsureMigrations_def op_simps onTables_def movedBy_def migrated_def rowsOf_def split: option.splits)
  then have pend: "pending t ?names = pending s ?names" by (simp add: movedBy_def pending_def)
  show ?thesis
  proof (cases q)
    case (Inl e)
    then have "r = Inl e" "s' = t" using run ensure by (simp_all add: Migrate_def bindE_def)
    then show ?thesis using t by (intro exI [where x = 0]) simp
  next
    case (Inr x)
    then have loop: "foreachE ?names (migrateOne entries) t = (r, s')"
      using run ensure by (simp add: Migrate_def bindE_def op_simps Let_def migrationNames_def)
    obtain k where k: "movedBy entries (take k (pending t ?names)) t s'" "r = Inr () \<longrightarrow> length (pending t ?names) \<le> k"
      using migrateAll_outcome [OF loop d] by blast
    have again: "fst (Migrate (Inr entries) s') = Inr () \<and> pg_tables (snd (Migrate (Inr entries) s')) = pg_tables s'"
      if "r = Inr ()" "healthy s'"
    proof -
      have all: "set ?names \<subseteq> set (migrated s')" using k that(1) by (auto simp: movedBy_def pending_def)
      obtain ns where some: "tb_migrations (pg_tables s') = Some ns" using k(1) t Inr by (auto simp: movedBy_def)
      let ?u = "s'\<lparr>pg_calls := pg_calls s' + 1\<rparr>"
      have ens: "ctxE ''pgstore: ensure schema_migrations'' (request sqlEnsureMigrations) s' = (Inr (), ?u)"
        using that(2) some by (simp add: healthy_request ctxE_def sqlEnsureMigrations_def op_simps onTables_def)
      have "migrated ?u = migrated s'" by (simp add: migrated_def)
      then have "foreachE ?names (migrateOne entries) ?u = (Inr (), ?u\<lparr>pg_calls := pg_calls ?u + length ?names\<rparr>)"
        using that(2) all by (intro migrateAll_done) simp_all
      then show ?thesis using ens by (simp add: Migrate_def bindE_def op_simps Let_def migrationNames_def)
    qed
    show ?thesis using movedBy_trans [of entries "[]" s t] t k pend again by (intro exI [where x = k]) simp
  qed
qed

definition sampleFS :: "migrationFile list" where
  "sampleFS =
     [\<lparr>mf_Name = ''2.sql'', mf_IsDir = False, mf_Content = Inr ''c''\<rparr>,
      \<lparr>mf_Name = ''embed.go'', mf_IsDir = False, mf_Content = Inr ''package''\<rparr>,
      \<lparr>mf_Name = ''1.sql'', mf_IsDir = False, mf_Content = Inr ''a; b;''\<rparr>]"

theorem migrations_apply_once_witness:
  "\<exists>k. movedBy sampleFS (take k [''1.sql'', ''2.sql'']) sampleDb (snd (Migrate (Inr sampleFS) sampleDb))"
proof -
  have "distinct (map mf_Name sampleFS)" by (simp add: sampleFS_def)
  moreover have "pending sampleDb (migrationNames sampleFS) = [''1.sql'', ''2.sql'']" by code_simp
  ultimately show ?thesis using migrations_apply_once [of sampleFS sampleDb, OF _ surjective_pairing] by auto
qed

end
