(* ===== verification/Store_Suite_Props.thy ===== *)
theory Store_Suite_Props
  imports Store_Suite Pg_Migrate
begin

text \<open>
  Both stores pass the conformance suite. The tests of events, versions and single applications are run
  symbolically on each of them; the two tests of the listing follow from the locale \<open>application_log\<close>, which both
  stores interpret.
\<close>

section \<open>The in-memory store\<close>

definition emptyMem :: "'z memstore_scheme \<Rightarrow> bool" where
  "emptyMem s \<longleftrightarrow> st_events s = [] \<and> st_versions s = [] \<and> st_apps s = [] \<and> st_seq s = 0 \<and>
     (\<forall>n. rand s n \<noteq> '''') \<and> wall s \<noteq> zeroTime"

lemma require_app [op_simps]: "bindE (require b w) f s = (if b then f () s else (Inl (EStore (TestFailed w)), s))"
  "require b w s = (if b then (Inr (), s) else (Inl (EStore (TestFailed w)), s))"
  by (simp_all add: require_def op_simps)

lemma ListEvents_app: "bindE (ListEvents f) k s = k (listLoop f [] (st_events s)) s"
  by (simp add: ListEvents_def op_simps)

lemma suite_times: "baseTime \<noteq> zeroTime" "baseTime + suiteHour \<noteq> zeroTime"
  by (simp_all add: baseTime_def zeroTime_def suiteHour_def nanosPerSecond_def)

lemma mem_events: "emptyMem s \<Longrightarrow> passes (testEvents memStore) s"
  using suite_times
  by (simp add: passes_def testEvents_def memStore_def emptyMem_def op_simps Append_def eventsIn_def suiteEvent_def
     ListEvents_app anyEvent_def matchesFilter_def assigned_def Let_def explicitEvent_def)

lemma expectErr_app [op_simps]:
  "m s = (Inl e', s') \<Longrightarrow> errors_Is e' e \<Longrightarrow> bindE (expectErr e m) f s = f () s'"
  by (simp add: expectErr_def attemptE_def bindE_def op_simps)

lemma mem_versions: "emptyMem s \<Longrightarrow> passes (testRuleVersions memStore) s"
  using suite_times
  by (simp add: passes_def testRuleVersions_def memStore_def emptyMem_def op_simps InsertRuleVersion_app GetRuleVersion_def
     ListRuleVersions_def fxV1_def fxV2_def otherV1_def suiteVersion_def Let_def getOr_def ofOption_def closeOpen_def v2From_def bindE_def expectErr_def attemptE_def)

lemma mem_auto: "emptyMem s \<Longrightarrow> passes (testAutoAssignment memStore) s"
  using suite_times
  by (simp add: passes_def testAutoAssignment_def memStore_def emptyMem_def op_simps InsertRuleApplication_def suiteApp_def Let_def bindE_def)

text \<open>A series of applications without identifiers.\<close>

primrec identified :: "(nat \<Rightarrow> string) \<Rightarrow> nat \<Rightarrow> RuleApplication list \<Rightarrow> RuleApplication list" where
  "identified ids d [] = []"
| "identified ids d (a # as) = a\<lparr>ra_ID := ids d\<rparr> # identified ids (Suc d) as"

definition anonymous :: "RuleApplication list \<Rightarrow> bool" where
  "anonymous as \<longleftrightarrow> (\<forall>a \<in> set as. ra_ID a = '''' \<and> ra_RecordedAt a \<noteq> zeroTime)"

lemma mem_series:
  "anonymous (map f xs) \<Longrightarrow> \<exists>t. mapE (\<lambda>x. InsertRuleApplication (f x)) xs s = (Inr (identified (rand s) (drawn s) (map f xs)), t) \<and>
     st_apps t = st_apps s @ identified (rand s) (drawn s) (map f xs)"
proof (induction xs arbitrary: s)
  case (Cons x xs)
  let ?a = "(f x)\<lparr>ra_ID := rand s (drawn s)\<rparr>"
  let ?t = "s\<lparr>drawn := drawn s + 1, st_apps := st_apps s @ [?a]\<rparr>"
  have one: "InsertRuleApplication (f x) s = (Inr ?a, ?t)"
    using Cons.prems by (simp add: InsertRuleApplication_def op_simps Let_def anonymous_def)
  obtain u where "mapE (\<lambda>x. InsertRuleApplication (f x)) xs ?t = (Inr (identified (rand ?t) (drawn ?t) (map f xs)), u)"
    "st_apps u = st_apps ?t @ identified (rand ?t) (drawn ?t) (map f xs)"
    using Cons.IH [of ?t] Cons.prems by (auto simp: anonymous_def)
  then show ?case using one by (simp add: op_simps)
qed (simp add: op_simps)

lemma mem_list_apps:
  "ListRuleApplications r e limit s =
     (Inr (take (nat (if limit \<le> 0 then 100 else limit)) (filter (matchesApp r e) (rev (st_apps s)))), s)"
  using appsLoop_filter [of "[]" "if limit \<le> 0 then 100 else limit" r e "rev (st_apps s)"]
  by (simp add: ListRuleApplications_def op_simps)

lemma seriesApp_simps [simp]:
  "ra_ID (seriesApp n i sp) = ''''" "ra_RuleID (seriesApp n i sp) = fst sp" "ra_EntityID (seriesApp n i sp) = snd sp"
  "ra_RecordedAt (seriesApp n i sp) \<noteq> zeroTime"
  by (simp_all add: seriesApp_def suiteApp_def baseTime_def zeroTime_def nanosPerSecond_def)

definition suiteApps :: "RuleApplication list" where
  "suiteApps = map (\<lambda>(i, sp). seriesApp 1 i sp) (enumerate 0 suiteSpecs)"

definition matching :: "string \<Rightarrow> string \<Rightarrow> int \<Rightarrow> RuleApplication list \<Rightarrow> RuleApplication list" where
  "matching r e limit as = take (nat (if limit \<le> 0 then 100 else limit)) (filter (matchesApp r e) (rev as))"

lemma suite_orders:
  "map ra_ID (matching '''' '''' 0 (identified ids d suiteApps)) = map (\<lambda>k. ids (d + k)) [4, 3, 2, 1, 0]"
  "map ra_ID (matching ''loan_underwriting'' '''' 0 (identified ids d suiteApps)) = map (\<lambda>k. ids (d + k)) [3, 1, 0]"
  "map ra_ID (matching '''' ''loan-1'' 0 (identified ids d suiteApps)) = map (\<lambda>k. ids (d + k)) [3, 2, 0]"
  "map ra_ID (matching ''loan_underwriting'' ''loan-1'' 0 (identified ids d suiteApps)) = map (\<lambda>k. ids (d + k)) [3, 0]"
  "map ra_ID (matching '''' '''' 2 (identified ids d suiteApps)) = map (\<lambda>k. ids (d + k)) [4, 3]"
  "matching ''no_such_rule'' '''' 0 (identified ids d suiteApps) = []"
  by (simp_all add: matching_def suiteApps_def suiteSpecs_def matchesApp_def numeral_eq_Suc)

section \<open>The PostgreSQL store\<close>

text \<open>
  An empty database, on a server that answers. Random identifiers are new and not those of the suite, the
  columns keep whole seconds, the present time is not lost, and texts are ordered by their bytes.
\<close>

definition emptyPg :: "'z pgstore_scheme \<Rightarrow> bool" where
  "emptyPg s \<longleftrightarrow> healthy s \<and> tb_events (pg_tables s) = [] \<and> tb_versions (pg_tables s) = [] \<and> tb_apps (pg_tables s) = [] \<and>
     0 \<le> pg_seq s \<and> inj (rand s) \<and> (\<forall>n. rand s n \<noteq> '''' \<and> rand s n \<noteq> ''evt-explicit'' \<and> rand s n \<noteq> ''app-explicit'') \<and>
     (\<forall>t. t mod nanosPerSecond = 0 \<longrightarrow> pg_time s t = t) \<and> wall s \<noteq> zeroTime \<and> pg_time s (wall s) \<noteq> zeroTime \<and>
     (\<forall>x. pg_collate s x = x)"

lemma suite_seconds: "baseTime mod nanosPerSecond = 0" "(baseTime + suiteHour) mod nanosPerSecond = 0"
   "(baseTime + suiteMinute) mod nanosPerSecond = 0" "(baseTime + 2 * suiteMinute) mod nanosPerSecond = 0"
  "(baseTime + 24 * suiteHour) mod nanosPerSecond = 0" 
  by (simp_all add: baseTime_def suiteHour_def suiteMinute_def nanosPerSecond_def)

lemma pg_events:
 assumes "emptyPg s" shows "passes (testEvents pgStore) s"
proof -
  have net: "\<And>n. pg_calls s \<le> n \<Longrightarrow> pg_net s n = Served" using assms by (simp add: emptyPg_def healthy_def)
  have e: "tb_events (pg_tables s) = []" "0 \<le> pg_seq s"  "inj (rand s)" "\<And>n. rand s n \<noteq> ''''" "\<And>n. rand s n \<noteq> ''evt-explicit''"
    "\<And>t. t mod nanosPerSecond = 0 \<Longrightarrow> pg_time s t = t" "wall s \<noteq> zeroTime" "pg_time s (wall s) \<noteq> zeroTime"
    using assms by (simp_all add: emptyPg_def)
  show ?thesis
  using suite_times suite_seconds net e
    by (simp add: passes_def testEvents_def pgStore_def eventsIn_def explicitEvent_def suiteEvent_def pg_Append_def
     transaction_app deferE_def bindE_def insertEvent_app asked_def drawnFor_def Commit_app request_app ctxE_def op_simps sqlInsertEvent_def eventRow_def
     onTables_def begun_def committed_def Rollback_def pg_List_def sqlSelectEvents_def anyEvent_def assigned_def Let_def inj_eq require_def
     cong: if_cong)
qed

lemma pg_versions:
  assumes "emptyPg s"
  shows "passes (testRuleVersions pgStore) s"
proof -
  have net: "\<And>n. pg_calls s \<le> n \<Longrightarrow> pg_net s n = Served" using assms by (simp add: emptyPg_def healthy_def)
  have e: "tb_versions (pg_tables s) = []" "\<And>t. t mod nanosPerSecond = 0 \<Longrightarrow> pg_time s t = t"
    "wall s \<noteq> zeroTime" "pg_time s (wall s) \<noteq> zeroTime" "\<And>x. pg_collate s x = x"
    using assms by (simp_all add: emptyPg_def)
  show ?thesis
    using suite_seconds net e
    by (simp add: passes_def testRuleVersions_def pgStore_def fxV1_def fxV2_def otherV1_def suiteVersion_def v2From_def
        pg_InsertRuleVersion_def transaction_app deferE_def bindE_def mapErrE_def Commit_app request_app ctxE_def op_simps
        sqlCloseVersion_def closeRow_def sqlInsertVersion_def versionRow_def in32_def conflictOr_def onTables_def begun_def
        committed_def Rollback_def pg_GetRuleVersion_def sqlSelectVersion_def notFoundIfNoRows_def ofOption_def
        pg_ListRuleVersions_def sqlSelectVersions_def versionOrder_def Let_def require_def expectErr_def attemptE_def
        less_eq_prod_def less_prod_def
        cong: if_cong)
qed

lemma pg_auto:
  assumes "emptyPg s"
  shows "passes (testAutoAssignment pgStore) s"
proof -
  have net: "\<And>n. pg_calls s \<le> n \<Longrightarrow> pg_net s n = Served" using assms by (simp add: emptyPg_def healthy_def)
  have e: "tb_apps (pg_tables s) = []" "\<And>n. rand s n \<noteq> []" "\<And>n. rand s n \<noteq> ''app-explicit''" "wall s \<noteq> zeroTime"
    using assms by (simp_all add: emptyPg_def)
  show ?thesis
    using suite_times net e
    by (simp add: passes_def testAutoAssignment_def pgStore_def suiteApp_def pg_InsertRuleApplication_def bindE_def request_app
        ctxE_def op_simps sqlInsertApp_def appRow_def in32_def onTables_def Let_def require_def cong: if_cong)
qed

section \<open>Series of applications\<close>

definition seriesRows :: "nat \<Rightarrow> RuleApplication list \<Rightarrow> bool" where
  "seriesRows start as \<longleftrightarrow> anonymous as \<and> (\<forall>a \<in> set as. in32 (ra_Version a)) \<and>
     map ra_RecordedAt as = map (\<lambda>i. baseTime + int (i + start) * nanosPerSecond) [0..<length as]"

lemma identified_length [simp]: "length (identified ids d as) = length as"
  by (induction as arbitrary: d) simp_all

lemma identified_map: "(\<And>a i. f (a\<lparr>ra_ID := i\<rparr>) = f a) \<Longrightarrow> map f (identified ids d as) = map f as"
  by (induction as arbitrary: d) simp_all

lemma pg_series:
  "healthy s \<Longrightarrow> inj (rand s) \<Longrightarrow> anonymous (map f xs) \<Longrightarrow> (\<forall>a \<in> set (map f xs). in32 (ra_Version a)) \<Longrightarrow>
     (\<forall>r \<in> set (tb_apps (pg_tables s)). \<forall>k. drawn s \<le> k \<longrightarrow> ra_ID r \<noteq> rand s k) \<Longrightarrow>
     \<exists>t. mapE (\<lambda>x. pg_InsertRuleApplication (f x)) xs s = (Inr (identified (rand s) (drawn s) (map f xs)), t) \<and>
       tb_apps (pg_tables t) = tb_apps (pg_tables s) @ map (appRow s) (identified (rand s) (drawn s) (map f xs)) \<and>
       healthy t \<and> pg_collate t = pg_collate s"
proof (induction xs arbitrary: s)
  case (Cons x xs)
  let ?a = "(f x)\<lparr>ra_ID := rand s (drawn s)\<rparr>"
  let ?t = "s\<lparr>drawn := drawn s + 1, pg_calls := pg_calls s + 1,
    pg_tables := (pg_tables s)\<lparr>tb_apps := tb_apps (pg_tables s) @ [appRow s ?a]\<rparr>\<rparr>"
  have "\<not> list_ex (\<lambda>y. ra_ID y = rand s (drawn s)) (tb_apps (pg_tables s))" using Cons.prems(5) by (auto simp: list_ex_iff)
  then have one: "pg_InsertRuleApplication (f x) s = (Inr ?a, ?t)"
    using Cons.prems(1,3,4)
    by (simp add: pg_InsertRuleApplication_def bindE_def op_simps Let_def ctxE_def request_app healthyD anonymous_def
        sqlInsertApp_def onTables_def appRow_def healthy_def)
  have row: "appRow ?t = appRow s" by (rule ext) (simp add: appRow_def)
  have "ra_ID (appRow s ?a) = rand s (drawn s)" by (simp add: appRow_def)
  moreover have "rand s (drawn s) \<noteq> rand s k" if "Suc (drawn s) \<le> k" for k
    using Cons.prems(2) that by (auto simp: inj_eq)
  ultimately have "\<forall>r \<in> set (tb_apps (pg_tables ?t)). \<forall>k. drawn ?t \<le> k \<longrightarrow> ra_ID r \<noteq> rand ?t k"
    using Cons.prems(5) by auto
  moreover have "healthy ?t" using Cons.prems(1) by (simp add: healthy_def)
  ultimately obtain u where "mapE (\<lambda>x. pg_InsertRuleApplication (f x)) xs ?t = (Inr (identified (rand ?t) (drawn ?t) (map f xs)), u)"
    "tb_apps (pg_tables u) = tb_apps (pg_tables ?t) @ map (appRow ?t) (identified (rand ?t) (drawn ?t) (map f xs))"
    "healthy u" "pg_collate u = pg_collate ?t"
    using Cons.IH [of ?t] Cons.prems(2,3,4) by (auto simp: anonymous_def)
  then show ?case using one row by (simp add: op_simps)
qed (simp add: op_simps)

text \<open>The rows are listed newest first.\<close>

lemma pg_list_series:
  assumes "healthy t" and rows: "tb_apps (pg_tables t) = as" and sorted: "sorted_wrt (<) (map ra_RecordedAt as)"
  shows "\<exists>u. pg_ListRuleApplications r e limit t = (Inr (matching r e limit as), u) \<and> healthy u \<and> tb_apps (pg_tables u) = as"
proof -
  have "appsInOrder t" using sorted by (intro appsInOrder_ascending) (simp add: rows)
  then have "sort_key (appOrder t) (filter (matchesApp r e) as) = filter (matchesApp r e) as"
    by (intro sort_key_id_if_sorted sorted_filter) (simp add: appsInOrder_def rows)
  then show ?thesis
    using assms(1) rows by (simp add: pg_ListRuleApplications_healthy matching_def rev_filter)
qed

text \<open>
  What the two tests of the listing need of a store: \<open>ready s\<close> is a store to start from, and \<open>holds s rows\<close> one with these
  applications, oldest first.
\<close>

lemma mapE_map: "mapE g (map f xs) = mapE (\<lambda>x. g (f x)) xs"
  by (induction xs) simp_all

definition appKey :: "RuleApplication \<Rightarrow> string \<times> string \<times> string" where
  "appKey a = (ra_ID a, ra_RuleID a, ra_EntityID a)"

locale application_log =
  fixes st :: "'s Store"
    and ready :: "'s \<Rightarrow> bool"
    and holds :: "'s \<Rightarrow> RuleApplication list \<Rightarrow> bool"
  assumes insert_series: "ready s \<Longrightarrow> seriesRows start as \<Longrightarrow>
      \<exists>ids d t rows. mapE (so_InsertRuleApplication st) as s = (Inr (identified ids d as), t) \<and>
        holds t rows \<and> map appKey rows = map appKey (identified ids d as)"
    and list_newest: "holds s rows \<Longrightarrow>
      \<exists>t. so_ListRuleApplications st r e limit s = (Inr (matching r e limit rows), t) \<and> holds t rows"
begin

lemma list_ids:
  assumes "holds s rows" and "map appKey rows = map appKey as"
  shows "\<exists>got t. so_ListRuleApplications st r e limit s = (Inr got, t) \<and> holds t rows \<and>
    map ra_ID got = map ra_ID (matching r e limit as)"
proof -
  have "map ra_ID (matching r e limit xs) = map fst (take (nat (if limit \<le> 0 then 100 else limit))
      (filter (\<lambda>(_, i, j). (r = [] \<or> i = r) \<and> (e = [] \<or> j = e)) (rev (map appKey xs))))" for xs
  proof -
    have "matchesApp r e = (\<lambda>a. case appKey a of (_, i, j) \<Rightarrow> (r = [] \<or> i = r) \<and> (e = [] \<or> j = e))"
      by (rule ext) (auto simp: matchesApp_def appKey_def)
    then show ?thesis by (simp add: matching_def rev_map filter_map comp_def take_map appKey_def)
  qed
  then show ?thesis using list_newest [OF assms(1), of r e limit] assms(2) by metis
qed

lemma listing_step:
  assumes "holds s rows" and "map appKey rows = map appKey as"
    and "map ra_ID (matching r e limit as) = map (\<lambda>w. ra_ID (as ! w)) want"
    and "\<And>t. holds t rows \<Longrightarrow> fst (k t) = Inr ()"
  shows "fst (bindE (so_ListRuleApplications st r e limit) (\<lambda>got. bindE (assertOrder as got want) (\<lambda>_. k)) s) = Inr ()"
proof -
  obtain got t where got: "so_ListRuleApplications st r e limit s = (Inr got, t)" "holds t rows"
    "map ra_ID got = map (\<lambda>w. ra_ID (as ! w)) want"
    using list_ids [OF assms(1,2), of r e limit] assms(3) by auto
  have "length got = length want" using got(3) by (rule map_eq_imp_length_eq)
  moreover have "list_all2 (\<lambda>g w. ra_ID g = ra_ID (as ! w)) got want"
    using got(3) by (simp add: list_all2_conv_all_nth list_eq_iff_nth_eq)
  ultimately show ?thesis using got(1,2) assms(4) by (simp add: assertOrder_def op_simps)
qed

lemma order_test:
  assumes "ready s"
  shows "passes (testFilteringAndOrdering st) s"
proof -
  have "seriesRows 1 suiteApps"
    by (simp add: seriesRows_def suiteApps_def suiteSpecs_def anonymous_def seriesApp_def suiteApp_def in32_def zeroTime_def
        baseTime_def nanosPerSecond_def)
  then obtain ids d t rows where run: "mapE (so_InsertRuleApplication st) suiteApps s = (Inr (identified ids d suiteApps), t)"
    and t: "holds t rows" and keys: "map appKey rows = map appKey (identified ids d suiteApps)"
    using insert_series [OF assms] by blast
  let ?as = "identified ids d suiteApps"
  have loop: "mapE (\<lambda>(i, sp). so_InsertRuleApplication st (seriesApp 1 i sp)) (enumerate 0 suiteSpecs) s = (Inr ?as, t)"
    using run by (simp add: suiteApps_def mapE_map split_def)
  have nth: "ra_ID (?as ! 0) = ids d" "ra_ID (?as ! 1) = ids (d + 1)" "ra_ID (?as ! 2) = ids (d + 2)"
    "ra_ID (?as ! 3) = ids (d + 3)" "ra_ID (?as ! 4) = ids (d + 4)"
    by (simp_all add: suiteApps_def suiteSpecs_def numeral_eq_Suc)
  note step = listing_step [OF _ keys]
  have last: "fst (bindE (so_ListRuleApplications st ''no_such_rule'' [] 0) (\<lambda>none. require (length none = 0) ''no match'') u) = Inr ()"
    if u: "holds u rows" for u
  proof -
    obtain got u' where got: "so_ListRuleApplications st ''no_such_rule'' [] 0 u = (Inr got, u')"
      and "map ra_ID got = map ra_ID (matching ''no_such_rule'' [] 0 ?as)"
      using list_ids [OF u keys] by blast
    then have "got = []" by (simp add: suite_orders)
    then show ?thesis using got by (simp add: op_simps)
  qed
  show ?thesis
    unfolding passes_def testFilteringAndOrdering_def
      bindE_Inr [where m = "mapE (\<lambda>(i, sp). so_InsertRuleApplication st (seriesApp 1 i sp)) (enumerate 0 suiteSpecs)", OF loop]
    by (intro step last t) (simp_all only: suite_orders nth list.map add_0_right)
qed

lemma limit_test:
  assumes "ready s"
  shows "passes (testDefaultLimit st) s"
proof -
  let ?f = "\<lambda>i. seriesApp 0 i (''loan_servicing'', ''loan-1'')"
  have "seriesRows 0 (map ?f [0..<105])"
    by (auto simp: seriesRows_def anonymous_def seriesApp_def suiteApp_def in32_def zeroTime_def baseTime_def nanosPerSecond_def simp del: upt_Suc)
  then obtain ids d t rows where run: "mapE (so_InsertRuleApplication st) (map ?f [0..<105]) s =
      (Inr (identified ids d (map ?f [0..<105])), t)"
    and t: "holds t rows" and keys: "map appKey rows = map appKey (identified ids d (map ?f [0..<105]))"
    using insert_series [OF assms] by blast
  let ?as = "identified ids d (map ?f [0..<105])"
  obtain got u where got: "so_ListRuleApplications st [] [] 0 t = (Inr got, u)" "map ra_ID got = map ra_ID (matching [] [] 0 ?as)"
    using list_ids [OF t keys] by blast
  have all: "matching [] [] 0 ?as = take 100 (rev ?as)" by (simp add: matching_def matchesApp_def del: upt_rec_numeral)
  have "length (map ra_ID got) = 100" unfolding got(2) all by (simp del: upt_rec_numeral)
  then have len: "length got = 100" by simp
  moreover have "ra_ID (got ! 0) = ra_ID (?as ! 104)"
  proof -
    have "ra_ID (got ! 0) = map ra_ID got ! 0" using len by simp
    also have "\<dots> = ra_ID (rev ?as ! 0)" by (simp add: got(2) all del: upt_rec_numeral)
    also have "\<dots> = ra_ID (?as ! 104)" by (simp add: rev_nth del: upt_rec_numeral)
    finally show ?thesis .
  qed
  ultimately show ?thesis using run [unfolded mapE_map] got(1)
    by (simp add: passes_def testDefaultLimit_def op_simps del: upt_rec_numeral)
qed

end

section \<open>Both stores\<close>

lemma appKey_appRow [simp]: "appKey (appRow s a) = appKey a"
  by (simp add: appKey_def appRow_def)

interpretation mem_apps: application_log memStore emptyMem "\<lambda>s rows. st_apps s = rows"
proof unfold_locales
  fix s :: "'a memstore_scheme" and start as
  assume "emptyMem s" and "seriesRows start as"
  then show "\<exists>ids d t rows. mapE (so_InsertRuleApplication memStore) as s = (Inr (identified ids d as), t) \<and>
      st_apps t = rows \<and> map appKey rows = map appKey (identified ids d as)"
    using mem_series [of "\<lambda>a. a" as s]
    by (intro exI [where x = "rand s"] exI [where x = "drawn s"]) (auto simp: memStore_def seriesRows_def emptyMem_def)
qed (simp add: memStore_def mem_list_apps matching_def)

interpretation pg_apps: application_log pgStore emptyPg
  "\<lambda>s rows. healthy s \<and> tb_apps (pg_tables s) = rows \<and> sorted_wrt (<) (map ra_RecordedAt rows)"
proof unfold_locales
  fix s :: "'a pgstore_scheme" and start as
  assume s: "emptyPg s" and as: "seriesRows start as"
  let ?out = "identified (rand s) (drawn s) as"
  obtain t where run: "mapE pg_InsertRuleApplication as s = (Inr ?out, t)"
    and t: "tb_apps (pg_tables t) = map (appRow s) ?out" "healthy t"
    using pg_series [of s "\<lambda>a. a" as] s as by (auto simp: emptyPg_def seriesRows_def)
  have "map ra_RecordedAt (map (appRow s) ?out) = map (pg_time s) (map ra_RecordedAt as)"
    by (simp add: appRow_def comp_def identified_map [of "\<lambda>a. pg_time s (ra_RecordedAt a)"])
  also have "\<dots> = map (\<lambda>i. baseTime + int (i + start) * nanosPerSecond) [0..<length as]"
    using s as by (simp add: seriesRows_def emptyPg_def baseTime_def nanosPerSecond_def comp_def)
  finally have "sorted_wrt (<) (map ra_RecordedAt (map (appRow s) ?out))"
    by (simp add: sorted_wrt_map nanosPerSecond_def del: map_map)
  then show "\<exists>ids d t rows. mapE (so_InsertRuleApplication pgStore) as s = (Inr (identified ids d as), t) \<and>
      (healthy t \<and> tb_apps (pg_tables t) = rows \<and> sorted_wrt (<) (map ra_RecordedAt rows)) \<and>
      map appKey rows = map appKey (identified ids d as)"
    using run t by (intro exI [where x = "rand s"] exI [where x = "drawn s"]) (auto simp: pgStore_def)
next
  fix s :: "'a pgstore_scheme" and rows r e limit
  assume "healthy s \<and> tb_apps (pg_tables s) = rows \<and> sorted_wrt (<) (map ra_RecordedAt rows)"
  then show "\<exists>t. so_ListRuleApplications pgStore r e limit s = (Inr (matching r e limit rows), t) \<and>
      healthy t \<and> tb_apps (pg_tables t) = rows \<and> sorted_wrt (<) (map ra_RecordedAt rows)"
    using pg_list_series [of s rows r e limit] by (auto simp: pgStore_def)
qed

text \<open>C39: Both stores pass the conformance suite of \<open>storetest.Run\<close>: the in-memory store from every empty state, with any
  random identifiers that are not empty; the PostgreSQL store on every empty database on a server that answers, wherever
  its sequence stands, when the identifiers drawn are new and whole seconds are kept.\<close>

theorem conformance_suite_passes:
  fixes newMem :: "nat \<Rightarrow> 'y memstore_scheme" and newPg :: "nat \<Rightarrow> 'z pgstore_scheme"
  shows "((\<forall>k. emptyMem (newMem k)) \<longrightarrow> Run_suite memStore newMem) \<and> ((\<forall>k. emptyPg (newPg k)) \<longrightarrow> Run_suite pgStore newPg)"
  by (simp add: Run_suite_def mem_events mem_versions mem_auto mem_apps.order_test mem_apps.limit_test
      pg_events pg_versions pg_auto pg_apps.order_test pg_apps.limit_test)

theorem conformance_suite_passes_witness:
  "Run_suite memStore (\<lambda>_. sampleStore\<lparr>st_events := [], st_seq := 0\<rparr>) \<and>
   Run_suite pgStore (\<lambda>_. sampleDb\<lparr>pg_tables := pg_tables faultyDb, wall := 7000\<rparr>)"
proof -
  have "emptyMem (sampleStore\<lparr>st_events := [], st_seq := 0\<rparr>)"
    by (simp add: emptyMem_def sampleStore_def zeroTime_def)
  moreover have "t div 1000 * 1000 = t" if "t mod 1000000000 = 0" for t :: int
  proof -
    have "(1000 :: int) dvd 1000000000" by simp
    then have "1000 dvd t" using that dvd_trans by (metis mod_0_imp_dvd)
    then show ?thesis by simp
  qed
  then have "emptyPg (sampleDb\<lparr>pg_tables := pg_tables faultyDb, wall := 7000\<rparr>)"
    by (auto simp: emptyPg_def healthy_def sampleDb_def faultyDb_def zeroTime_def nanosPerSecond_def intro!: injI
        dest: arg_cong [where f = decVal])
  ultimately show ?thesis
    using conformance_suite_passes [of "\<lambda>_. sampleStore\<lparr>st_events := [], st_seq := 0\<rparr>"
      "\<lambda>_. sampleDb\<lparr>pg_tables := pg_tables faultyDb, wall := 7000\<rparr>"] by simp
qed

end
