(* ===== verification/Loan_Tick.thy ===== *)
theory Loan_Tick
  imports Loan_Props
begin

text \<open>
  What one \<open>Tick\<close> leaves: every loan that is still active has no scheduled installment past its due
  date and grace. A tick after it therefore finds nothing to do.
\<close>

section \<open>Due dates ascend\<close>

text \<open>The number of the first day of a month, the months counted from March of the year 0.\<close>

definition monthStart :: "int \<Rightarrow> int" where
  "monthStart q =
     (let y = q div 12 in 365 * y + y div 4 - y div 100 + y div 400 + (153 * (q mod 12) + 2) div 5 - 719468)"

lemma div_mod_by: "(q :: int) = 12 * a + b \<Longrightarrow> 0 \<le> b \<Longrightarrow> b < 12 \<Longrightarrow> q div 12 = a \<and> q mod 12 = b"
  by auto

lemma years_and_eras:
  fixes y d :: int
  shows "y div 400 * 146097 + (y mod 400 * 365 + y mod 400 div 4 - y mod 400 div 100 + d) =
    365 * y + y div 4 - y div 100 + y div 400 + d"
proof -
  define e r where "e = y div 400" and "r = y mod 400"
  then have y: "y = r + 400 * e" by simp
  have "y div 4 = 100 * e + r div 4" "y div 100 = 4 * e + r div 100"
    using div_mult_self2 [of 4 r "100 * e"] div_mult_self2 [of 100 r "4 * e"] by (simp_all add: y)
  then show ?thesis by (simp add: e_def [symmetric] r_def [symmetric]) (simp add: y)
qed

lemma daysFromCivil_month: "daysFromCivil (y + k div 12) (k mod 12 + 1) 1 = monthStart (12 * y + k - 2)"
proof -
  let ?m = "k mod 12" and ?q = "12 * y + k - 2"
  have m: "0 \<le> ?m" "?m < 12" "k = 12 * (k div 12) + ?m" by simp_all
  have "?q div 12 = (if ?m \<le> 1 then y + k div 12 - 1 else y + k div 12) \<and>
      ?q mod 12 = (if ?m \<le> 1 then ?m + 10 else ?m - 2)"
    by (rule div_mod_by) (use m in auto)
  moreover have "(?m + 1 + 9) mod 12 = (if ?m \<le> 1 then ?m + 10 else ?m - 2)"
    using m div_mod_by [of "10 + ?m" 1 "?m - 2"] by (simp add: mod_pos_pos_trivial add.commute)
  moreover have "?m + 1 \<le> 2 \<longleftrightarrow> ?m \<le> 1" by simp
  ultimately show ?thesis
    unfolding daysFromCivil_def monthStart_def Let_def years_and_eras by (simp only: add_diff_cancel_right')
qed

lemma later: "y + 1 \<le> y' \<Longrightarrow> a - b \<le> a' - b' \<Longrightarrow> c \<le> c' \<Longrightarrow> e \<le> 337 \<Longrightarrow> 0 \<le> e' \<Longrightarrow>
  365 * y + a - b + c + e \<le> 365 * y' + a' - b' + c' + (e' :: int)"
  by linarith

lemma monthStart_mono:
  assumes "q \<le> q'"
  shows "monthStart q \<le> monthStart q'"
proof -
  define y m y' m' where "y = q div 12" and "m = q mod 12" and "y' = q' div 12" and "m' = q' mod 12"
  note defs = this
  have m: "0 \<le> m" "m < 12" "0 \<le> m'" "m' < 12" by (simp_all add: defs)
  have "q = 12 * y + m" "q' = 12 * y' + m'" by (simp_all add: defs)
  then have lex: "y < y' \<or> y = y' \<and> m \<le> m'" using assms m by linarith
  have leap: "x div 4 - x div 100 \<le> x' div 4 - x' div 100" "x div 400 \<le> x' div 400" if "x \<le> x'" for x x' :: int
  proof -
    have "v div 25 \<le> u div 25 + (v - u)" if "u \<le> v" for u v :: int
      using zdiv_mono1 [of v "u + 25 * (v - u)" 25] div_mult_self2 [of 25 u "v - u"] that by simp
    note less = this [of "x div 4" "x' div 4"]
    have "z div 100 = z div 4 div 25" for z :: int using zdiv_zmult2_eq [of 25 z 4] by simp
    with less show "x div 4 - x div 100 \<le> x' div 4 - x' div 100"
      using zdiv_mono1 [OF that, of 4] by simp
  qed (use that in \<open>simp add: zdiv_mono1\<close>)
  have "365 * y + y div 4 - y div 100 + y div 400 + (153 * m + 2) div 5 \<le>
      365 * y' + y' div 4 - y' div 100 + y' div 400 + (153 * m' + 2) div 5"
  proof (cases "y = y'")
    case True
    then show ?thesis using lex by (simp add: zdiv_mono1)
  next
    case False
    then have "y + 1 \<le> y'" using lex by simp
    moreover have "(153 * m + 2) div 5 \<le> 337" "0 \<le> (153 * m' + 2) div 5" using m by simp_all
    ultimately show ?thesis by (intro later leap) simp_all
  qed
  then show ?thesis by (simp add: monthStart_def Let_def defs)
qed

lemma addMonths_mono: "n \<le> n' \<Longrightarrow> addMonths t n \<le> addMonths t n'"
proof -
  assume n: "n \<le> n'"
  obtain y m d where civil: "civilFromDays (t div nanosPerDay) = (y, m, d)" by (cases "civilFromDays (t div nanosPerDay)")
  have "addMonths t k = (monthStart (12 * y + (m - 1 + k) - 2) + d - 1) * nanosPerDay + t mod nanosPerDay" for k
    by (simp only: addMonths_def civil prod.case Let_def daysFromCivil_month)
  moreover have "monthStart (12 * y + (m - 1 + n) - 2) \<le> monthStart (12 * y + (m - 1 + n') - 2)"
    by (rule monthStart_mono) (simp add: n)
  ultimately show ?thesis by (simp add: nanosPerDay_def)
qed

lemma scheduleLoop_rows:
  "map (\<lambda>x. (in_No x, in_DueDate x, in_Status x)) (scheduleLoop r pay n t nos out) = map (\<lambda>no. (no, addMonths t no, StatusScheduled)) nos"
  by (induction nos arbitrary: out) (simp_all add: Let_def mkInstallment_def)

lemma Schedule_rows:
  "sorted_wrt (\<lambda>x y. in_DueDate x \<le> in_DueDate y) (Schedule p r n t)" "x \<in> set (Schedule p r n t) \<Longrightarrow> in_Status x = StatusScheduled"
proof -
  have rows: "map (\<lambda>x. (in_No x, in_DueDate x, in_Status x)) (Schedule p r n t) =
      map (\<lambda>no. (no, addMonths t no, StatusScheduled)) (if n \<le> 0 then [] else [1..n])"
    by (simp add: Schedule_def scheduleLoop_rows)
  have "map in_DueDate (Schedule p r n t) = map (addMonths t) (if n \<le> 0 then [] else [1..n])"
    using arg_cong [OF rows, of "map (\<lambda>p. fst (snd p))"] by (simp add: comp_def)
  moreover have "sorted_wrt (\<lambda>i j. addMonths t i \<le> addMonths t j) [a..b]" for a b
    by (rule sorted_wrt_mono_rel [OF _ sorted_wrt_upto]) (simp add: addMonths_mono)
  ultimately have "sorted_wrt (\<le>) (map in_DueDate (Schedule p r n t))"
    by (simp add: sorted_wrt_map)
  then show "sorted_wrt (\<lambda>x y. in_DueDate x \<le> in_DueDate y) (Schedule p r n t)" by (simp add: sorted_wrt_map)
  assume "x \<in> set (Schedule p r n t)"
  then have "(in_No x, in_DueDate x, in_Status x) \<in> set (map (\<lambda>no. (no, addMonths t no, StatusScheduled)) (if n \<le> 0 then [] else [1..n]))"
    unfolding rows [symmetric] by simp
  then show "in_Status x = StatusScheduled" by (auto split: if_splits)
qed

section \<open>Installments that are late\<close>

definition lateRow :: "int64 \<Rightarrow> instant \<Rightarrow> Installment \<Rightarrow> bool" where
  "lateRow grace t x \<longleftrightarrow> in_Status x = StatusScheduled \<and> addDays (in_DueDate x) grace < t"

definition paidNos :: "'z loanbook_scheme \<Rightarrow> loanState \<Rightarrow> int64 list" where
  "paidNos s st = map (\<lambda>tx. ParseIntVal (metaOf tx ''installment_no'')) (repayments s (lr_ReceivableAccountID (ls_record st)))"

definition scheduleOf :: "loanState \<Rightarrow> Installment list" where
  "scheduleOf st = Schedule (lr_PrincipalCents (ls_record st)) (lr_AnnualRateBps (ls_record st))
     (lr_TermMonths (ls_record st)) (lr_OriginatedAt (ls_record st))"

definition openRow :: "'z loanbook_scheme \<Rightarrow> loanState \<Rightarrow> Installment \<Rightarrow> bool" where
  "openRow s st x \<longleftrightarrow> in_No x \<notin> set (paidNos s st) \<and> in_No x \<notin> set (ls_missed st)"

text \<open>The late rows of a loan, by its schedule, what was paid and what was missed.\<close>

definition lateRows :: "int64 \<Rightarrow> instant \<Rightarrow> 'z loanbook_scheme \<Rightarrow> loanState \<Rightarrow> Installment list" where
  "lateRows grace t s st = filter (\<lambda>x. openRow s st x \<and> addDays (in_DueDate x) grace < t) (scheduleOf st)"

lemma overlay_open:
  "x \<in> set (scheduleOf st) \<Longrightarrow> in_Status (overlay (paidNos s st) (ls_missed st) x) = StatusScheduled \<longleftrightarrow> openRow s st x"
  using Schedule_rows(2) by (auto simp: scheduleOf_def overlay_def openRow_def StatusPaid_def StatusMissed_def StatusScheduled_def)

lemma overlay_same: "openRow s st x \<Longrightarrow> overlay (paidNos s st) (ls_missed st) x = x"
  by (simp add: openRow_def overlay_def)

lemma overlay_due [simp]: "in_DueDate (overlay a b x) = in_DueDate x"
  by (simp add: overlay_def)

lemma schedule_view: "ln_Schedule (loanView s st acc) = map (overlay (paidNos s st) (ls_missed st)) (scheduleOf st)"
  by (simp add: loanView_schedule paidNos_def scheduleOf_def)

lemma late_view: "filter (lateRow grace t) (ln_Schedule (loanView s st acc)) = lateRows grace t s st"
proof -
  let ?ov = "overlay (paidNos s st) (ls_missed st)"
  have "filter (lateRow grace t) (map ?ov (scheduleOf st)) = map ?ov (lateRows grace t s st)"
    unfolding lateRows_def filter_map comp_def
    by (rule arg_cong [where f = "map ?ov"], rule filter_cong [OF refl]) (simp add: lateRow_def overlay_open)
  also have "\<dots> = lateRows grace t s st" by (rule map_idI) (simp add: lateRows_def overlay_same)
  finally show ?thesis by (simp add: schedule_view)
qed

text \<open>The first open row is late when any is, as due dates ascend; once it is missed there is one late row less.\<close>

lemma first_open:
  assumes "firstScheduled (ln_Schedule (loanView s st acc)) = Some x"
  shows "openRow s st x" and "x \<in> set (scheduleOf st)" and "lateRows grace t s st \<noteq> [] \<Longrightarrow> x \<in> set (lateRows grace t s st)"
proof -
  let ?ov = "overlay (paidNos s st) (ls_missed st)"
  obtain n where n: "n < length (scheduleOf st)" "in_Status (?ov (scheduleOf st ! n)) = StatusScheduled" "x = ?ov (scheduleOf st ! n)"
    and least: "\<And>k. k < n \<Longrightarrow> in_Status (?ov (scheduleOf st ! k)) \<noteq> StatusScheduled"
    using assms by (auto simp: firstScheduled_def schedule_view find_Some_iff)
  have op: "openRow s st (scheduleOf st ! n)" using n(1,2) by (simp add: overlay_open)
  then have x: "x = scheduleOf st ! n" by (simp add: n(3) overlay_same)
  with op n(1) show "openRow s st x" "x \<in> set (scheduleOf st)" by simp_all
  assume "lateRows grace t s st \<noteq> []"
  then obtain y where "y \<in> set (lateRows grace t s st)" by (cases "lateRows grace t s st") auto
  then have "y \<in> set (scheduleOf st)" and y: "openRow s st y" "addDays (in_DueDate y) grace < t"
    by (auto simp: lateRows_def)
  then obtain k where k: "k < length (scheduleOf st)" "y = scheduleOf st ! k" by (auto simp: in_set_conv_nth)
  have "n \<le> k" using least [of k] y(1) k by (force simp: overlay_open)
  then have "in_DueDate x \<le> in_DueDate y"
    using sorted_wrt_nth_less [OF Schedule_rows(1)] k n(1) unfolding x k(2)
    by (cases "n = k") (simp_all add: scheduleOf_def)
  then have "addDays (in_DueDate x) grace < t" using y(2) by (simp add: addDays_def)
  then show "x \<in> set (lateRows grace t s st)" using op n(1) by (simp add: lateRows_def x)
qed

lemma fewer_late:
  assumes "firstScheduled (ln_Schedule (loanView s st acc)) = Some x"
    and "set (repayments s' (lr_ReceivableAccountID (ls_record st))) = set (repayments s (lr_ReceivableAccountID (ls_record st)))"
    and "ls_record st' = ls_record st" and "insert (in_No x) (set (ls_missed st)) \<subseteq> set (ls_missed st')"
  shows "length (lateRows grace t s' st') \<le> length (lateRows grace t s st) - 1"
proof (cases "lateRows grace t s st = []")
  case True
  then show ?thesis using assms(2-4)
    by (auto simp: lateRows_def openRow_def paidNos_def scheduleOf_def filter_empty_conv)
next
  case False
  let ?rest = "filter (\<lambda>y. in_No y \<noteq> in_No x) (lateRows grace t s st)"
  have "lateRows grace t s' st' = filter (openRow s' st') ?rest"
    unfolding lateRows_def filter_filter scheduleOf_def assms(3)
    by (rule filter_cong [OF refl]) (use assms(2-4) in \<open>auto simp: openRow_def paidNos_def\<close>)
  then have "length (lateRows grace t s' st') \<le> length ?rest" by (metis length_filter_le)
  moreover have "length ?rest < length (lateRows grace t s st)"
    by (rule length_filter_less [OF first_open(3) [OF assms(1) False]]) simp
  ultimately show ?thesis by linarith
qed

section \<open>What servicing one loan leaves alone\<close>

text \<open>An identifier drawn from now on is that of no recorded repayment.\<close>

definition newIDs :: "'z loanbook_scheme \<Rightarrow> bool" where
  "newIDs s \<longleftrightarrow> (\<forall>n \<ge> drawn s. rand s n \<notin> fst ` repaid s)"

definition feeAccounts :: "string set" where
  "feeAccounts = {''fee-income-usd'', ''loan-loss-expense-usd''}"

text \<open>\<open>serviced i s s'\<close>: from \<open>s\<close> to \<open>s'\<close> only the loan \<open>i\<close> has changed, its record not at all, and its receivable.\<close>

definition serviced :: "string \<Rightarrow> 'z loanbook_scheme \<Rightarrow> 'z loanbook_scheme \<Rightarrow> bool" where
  "serviced i s s' \<longleftrightarrow> loan_inv s' \<and> now s' = now s \<and> en_cache s' = en_cache s \<and> rand s' = rand s \<and> drawn s \<le> drawn s' \<and>
     pj_accounts (lg_proj s') = pj_accounts (lg_proj s) \<and> lp_order (lb_proj s') = lp_order (lb_proj s) \<and> repaid s' = repaid s \<and>
     (\<forall>acc. ac_ID acc \<notin> insert (receivableID i) feeAccounts \<longrightarrow> naturalBalance (lg_proj s') acc = naturalBalance (lg_proj s) acc) \<and>
     (\<forall>j. j \<noteq> i \<longrightarrow> map_of (lp_loans (lb_proj s')) j = map_of (lp_loans (lb_proj s)) j) \<and>
     (\<forall>st. map_of (lp_loans (lb_proj s)) i = Some st \<longrightarrow>
       (\<exists>st'. map_of (lp_loans (lb_proj s')) i = Some st' \<and> ls_record st' = ls_record st \<and>
          set (ls_missed st) \<subseteq> set (ls_missed st') \<and> (ls_defaulted st \<longrightarrow> ls_defaulted st')))"

lemma serviced_refl [simp]: "loan_inv s \<Longrightarrow> serviced i s s"
  by (simp add: serviced_def)

lemma serviced_inv: "serviced i s s' \<Longrightarrow> loan_inv s'"
  by (simp add: serviced_def)

lemma serviced_loan:
  assumes "serviced i s s'" and "map_of (lp_loans (lb_proj s)) i = Some st"
  obtains st' where "map_of (lp_loans (lb_proj s')) i = Some st'" and "ls_record st' = ls_record st"
    and "set (ls_missed st) \<subseteq> set (ls_missed st')" and "ls_defaulted st \<Longrightarrow> ls_defaulted st'"
  using assms unfolding serviced_def by blast

lemma serviced_trans [trans]:
  assumes 1: "serviced i s t" and 2: "serviced i t u"
  shows "serviced i s u"
proof -
  have "\<exists>st'. map_of (lp_loans (lb_proj u)) i = Some st' \<and> ls_record st' = ls_record st \<and>
      set (ls_missed st) \<subseteq> set (ls_missed st') \<and> (ls_defaulted st \<longrightarrow> ls_defaulted st')"
    if st: "map_of (lp_loans (lb_proj s)) i = Some st" for st
  proof -
    obtain st1 where st1: "map_of (lp_loans (lb_proj t)) i = Some st1" "ls_record st1 = ls_record st"
      "set (ls_missed st) \<subseteq> set (ls_missed st1)" "ls_defaulted st \<Longrightarrow> ls_defaulted st1"
      by (rule serviced_loan [OF 1 st]) blast
    moreover obtain st2 where "map_of (lp_loans (lb_proj u)) i = Some st2" "ls_record st2 = ls_record st1"
      "set (ls_missed st1) \<subseteq> set (ls_missed st2)" "ls_defaulted st1 \<Longrightarrow> ls_defaulted st2"
      by (rule serviced_loan [OF 2 st1(1)]) blast
    ultimately show ?thesis by auto
  qed
  then show ?thesis using 1 2 by (simp add: serviced_def)
qed

lemma serviced_newIDs: "serviced i s s' \<Longrightarrow> newIDs s \<Longrightarrow> newIDs s'"
  by (simp add: serviced_def newIDs_def)

lemma repayments_repaid:
  "ledger_inv s \<Longrightarrow> set (repayments s a) = {tx. (\<exists>j. (j, tx) \<in> repaid s) \<and> matchesTx (txFilterBy a ''loan.repayment'') tx}"
  by (auto simp: in_repayments repaid_def matchesTx_def txFilterBy_def)

lemma serviced_repayments: "serviced i s s' \<Longrightarrow> loan_inv s \<Longrightarrow> set (repayments s' a) = set (repayments s a)"
  by (simp add: repayments_repaid serviced_def)

lemma balance_frame:
  assumes "ledger_synced s" and "ledger_synced s'" and "journal (st_events s') = journal (st_events s) @ es"
    and "ac_ID acc \<notin> et_AccountID ` set es"
  shows "naturalBalance (lg_proj s') acc = naturalBalance (lg_proj s) acc"
  using assms by (simp add: naturalBalance_spec specBalance_def sumFor_none Let_def)

lemma serviced_post:
  assumes s: "loan_inv s" "newIDs s" and ty: "tx_typed tx" and run: "PostAndFinalize tx s = (Inr t, s')"
    and kind: "tx_Kind tx \<noteq> ''loan.repayment''" "tx_ID tx = ''''"
    and accs: "et_AccountID ` set (tx_Entries tx) \<subseteq> insert (receivableID i) feeAccounts"
  shows "serviced i s s'" and "lb_proj s' = lb_proj s"
proof -
  note p = loan_posts(1,2) [OF s(1) ty run]
  have inv: "ledger_inv s" using s(1) by simp
  note app = PostAndFinalize_app [OF inv ty]
  have v: "validate (lg_proj s) tx = Inr ()" using app(1) run by (cases "validate (lg_proj s) tx") auto
  moreover have "timeOK (now s)" using app(2) [OF v] run by (cases "timeOK (now s)") auto
  ultimately have w: "withProj (finalProj (pending tx s) (lg_proj s)) (tx_Entries tx) s s'"
    using app(3) run by auto
  have id: "postID tx s = rand s (drawn s)" by (simp add: postID_def kind)
  have "\<not> (\<exists>u. map_of (pj_txs (lg_proj s)) (rand s (drawn s)) = Some u \<and> tx_Kind u = ''loan.repayment'')"
    using s(2) by (force simp: newIDs_def repaid_def)
  then have "repaid s' = repaid s"
    using posted_txs [OF inv ty run] kind(1) by (auto simp: repaid_def id pending_def split: if_splits)
  moreover have "naturalBalance (lg_proj s') acc = naturalBalance (lg_proj s) acc"
    if "ac_ID acc \<notin> insert (receivableID i) feeAccounts" for acc
    using balance_frame [of s s' "tx_Entries tx" acc] p(1) s(1) accs that by (auto simp: booked_def)
  ultimately show "serviced i s s'" using p w by (simp add: serviced_def booked_def withProj_def)
  show "lb_proj s' = lb_proj s" by (rule p(2))
qed

lemma serviced_evaluate:
  assumes s: "loan_inv s" and run: "Evaluate r ty j input s = (Inr d, s')"
  shows "serviced i s s'" and "lb_proj s' = lb_proj s" and "lg_proj s' = lg_proj s"
proof -
  have q: "quietView s' = quietView s"
    using preserves_result [OF quiet_Evaluate, of "quietView s" s] run by (auto simp: quiet_def)
  obtain a where "s' = s\<lparr>drawn := drawn s + 1, st_apps := st_apps s @ [a]\<rparr>" by (rule Evaluate_written [OF run])
  then show "serviced i s s'" "lb_proj s' = lb_proj s" "lg_proj s' = lg_proj s"
    using loan_inv_quiet [OF q s] by (simp_all add: serviced_def repaid_def)
qed

lemma serviced_emitted:
  assumes s: "loan_inv s" and e: "ev_Type e \<in> set loanEventTypes" "good_loan e"
    and app: "snd (apply_loan (stored s e) (lb_proj s)) = seenLoan (stored s e) (onLoan i f (lb_proj s))"
    and f: "\<And>st. ls_record (f st) = ls_record st" "\<And>st. set (ls_missed st) \<subseteq> set (ls_missed (f st))"
      "\<And>st. ls_defaulted st \<Longrightarrow> ls_defaulted (f st)"
  shows "serviced i s (emitted s e)"
proof -
  have b: "booked [] s (emitted s e)" by (rule emitted_booked [OF s e])
  have "map_of (lp_loans (onLoan i f (lb_proj s))) j = map_of (lp_loans (lb_proj s)) j" if "j \<noteq> i" for j
    using that by (simp add: onLoan_def split: option.split)
  moreover have "map_of (lp_loans (lb_proj s)) i = Some st \<Longrightarrow> map_of (lp_loans (onLoan i f (lb_proj s))) i = Some (f st)" for st
    by (simp add: onLoan_def)
  moreover have "drawn (emitted s e) = drawn s + 1" by (simp add: emitted_def)
  ultimately show ?thesis
    using b app f by (auto simp: serviced_def booked_def repaid_def)
qed

text \<open>A transfer between the receivable of a loan and the accounts for fees and losses, and events on the loan.\<close>

lemma serviced_transfer:
  assumes s: "loan_inv s" "newIDs s" and n: "in64 n" and run: "PostAndFinalize (usdTransfer k d a b n) s = (Inr t, s')"
    and k: "k \<noteq> ''loan.repayment''" and ab: "{a, b} \<subseteq> insert (receivableID i) feeAccounts"
  shows "serviced i s s'" and "lb_proj s' = lb_proj s"
  using serviced_post [OF s _ run, of i] n k ab
  by (simp_all add: typed_usdTransfer) (simp_all add: usdTransfer_def newTx_def mkEntry_def)

lemma own_account:
  assumes "loan_inv s" and "map_of (lp_loans (lb_proj s)) i = Some st"
  shows "lr_ReceivableAccountID (ls_record st) = receivableID i" and "lr_ID (ls_record st) = i"
  using loan_inv_wf [OF assms(1)] assms(2) by (auto simp: loans_wf_def ownReceivable_def)

lemma serviced_missed:
  fixes i :: string and t :: instant
  assumes s: "loan_inv s" and p: "encMissed p = Inr j"
    "in64 (pm_InstallmentNo p)" "in64 (pm_DaysPastDue p)" "in64 (pm_MissedPaymentsSoFar p)" "in64 (pm_LateFeeCents p)"
    and st: "map_of (lp_loans (lb_proj s)) (pm_LoanID p) = Some st"
  defines "s' \<equiv> emitted s (newEvent eventLoanPaymentMissed i t j)"
  shows "serviced (pm_LoanID p) s s'"
    and "map_of (lp_loans (lb_proj s')) (pm_LoanID p) = Some (st\<lparr>ls_missed := List.insert (pm_InstallmentNo p) (ls_missed st)\<rparr>)"
proof -
  note dec = encMissed_good [OF p]
  let ?e = "newEvent eventLoanPaymentMissed i t j"
  have app: "snd (apply_loan (stored s ?e) (lb_proj s)) = seenLoan (stored s ?e)
      (onLoan (pm_LoanID p) (\<lambda>st. st\<lparr>ls_missed := List.insert (pm_InstallmentNo p) (ls_missed st)\<rparr>) (lb_proj s))"
    by (rule apply_loan_eqs(2)) (simp_all add: dec)
  show "serviced (pm_LoanID p) s s'" unfolding s'_def
    by (rule serviced_emitted [OF s _ _ app]) (auto simp: good_loan_events dec)
  show "map_of (lp_loans (lb_proj s')) (pm_LoanID p) = Some (st\<lparr>ls_missed := List.insert (pm_InstallmentNo p) (ls_missed st)\<rparr>)"
    unfolding s'_def by (rule emitted_loans [OF st app])
qed

lemma recordMissed_serviced:
  assumes s: "loan_inv s" "newIDs s" and st: "map_of (lp_loans (lb_proj s)) i = Some st"
    and args: "ln_ReceivableAccountID loan = receivableID i" "in64 (in_No x)" "in64 days"
      "in64 (int64Or (gget (de_Output d) ''late_fee_cents''))"
    and run: "recordMissed i loan x days d s = (Inr r, s')"
  obtains st' where "serviced i s s'" and "map_of (lp_loans (lb_proj s')) i = Some st'" and "ls_record st' = ls_record st"
    and "ls_missed st' = List.insert (in_No x) (ls_missed st)"
proof -
  let ?fee = "int64Or (gget (de_Output d) ''late_fee_cents'')"
  let ?post = "if 0 < ?fee then bindE (PostAndFinalize (lateFeeTx i loan x ?fee)) (\<lambda>_. returnE ()) else returnE ()"
  obtain s1 where fee: "?post s = (Inr (), s1)"
    and rest: "bindE Now (\<lambda>t. bindE (liftE (encMissed \<lparr>pm_LoanID = i, pm_InstallmentNo = in_No x, pm_DaysPastDue = days,
          pm_MissedPaymentsSoFar = wrap64 (ln_MissedPayments loan + 1), pm_LateFeeCents = ?fee, pm_OccurredAt = t\<rparr>)) (\<lambda>payload.
        bindE (emitLoan eventLoanPaymentMissed i t payload) (\<lambda>_. bindE (GetLoan i) (\<lambda>updated.
        returnE (updated, boolOr (gget (de_Output d) ''should_default'')))))) s1 = (Inr r, s')"
    using run unfolding recordMissed_def Let_def by (auto elim: bindE_InrE)
  have 1: "serviced i s s1 \<and> lb_proj s1 = lb_proj s"
  proof (cases "0 < ?fee")
    case True
    then obtain t where t: "PostAndFinalize (lateFeeTx i loan x ?fee) s = (Inr t, s1)"
      using fee by (auto simp: bindE_eq_Inr op_simps)
    show ?thesis
      using serviced_transfer [OF s args(4) t [unfolded lateFeeTx_def], of i] args(1) by (simp add: feeAccounts_def)
  qed (use fee s in \<open>simp add: op_simps\<close>)
  let ?p = "\<lparr>pm_LoanID = i, pm_InstallmentNo = in_No x, pm_DaysPastDue = days,
    pm_MissedPaymentsSoFar = wrap64 (ln_MissedPayments loan + 1), pm_LateFeeCents = ?fee, pm_OccurredAt = now s1\<rparr>"
  obtain j where j: "encMissed ?p = Inr j"
    using rest by (cases "encMissed ?p") (auto simp: Now_def op_simps)
  let ?s = "emitted s1 (newEvent eventLoanPaymentMissed i (now s1) j)"
  have 2: "serviced i s1 ?s" "map_of (lp_loans (lb_proj ?s)) i = Some (st\<lparr>ls_missed := List.insert (in_No x) (ls_missed st)\<rparr>)"
    using serviced_missed [where p = ?p and t = "now s1" and st = st and i = i, OF serviced_inv [OF conjunct1 [OF 1]] j] 1 st args by simp_all
  have "GetLoan i ?s = (r', s') \<Longrightarrow> s' = ?s" for r'
    using GetLoan_app [OF serviced_inv [OF 2(1)], of i] by (auto split: option.splits)
  moreover have "\<exists>r'. GetLoan i ?s = (r', s')"
    using rest j by (auto simp: Now_def op_simps bindE_eq_Inr)
  ultimately have "s' = ?s" by blast
  then show thesis
    using that [of "st\<lparr>ls_missed := List.insert (in_No x) (ls_missed st)\<rparr>"] serviced_trans [OF conjunct1 [OF 1] 2(1)] 2(2)
    by simp
qed

section \<open>A loan with nothing late\<close>

text \<open>The loan, if it is active, has at most \<open>k\<close> late rows.\<close>

definition settled :: "int64 \<Rightarrow> instant \<Rightarrow> nat \<Rightarrow> 'z loanbook_scheme \<Rightarrow> string \<Rightarrow> bool" where
  "settled grace t k s i \<longleftrightarrow>
     (\<forall>st acc. map_of (lp_loans (lb_proj s)) i = Some st \<longrightarrow>
        map_of (pj_accounts (lg_proj s)) (receivableID i) = Some acc \<longrightarrow>
        loanStatus st (naturalBalance (lg_proj s) acc) = LoanActive \<longrightarrow> length (lateRows grace t s st) \<le> k)"

lemma receivableID_apart: "receivableID i \<notin> feeAccounts" "receivableID i = receivableID j \<longleftrightarrow> i = j"
proof -
  have "last (receivableID i) = CHR ''e''" by (simp add: receivableID_def)
  then show "receivableID i \<notin> feeAccounts"
    by (auto simp: feeAccounts_def receivableID_def dest!: arg_cong [where f = last])
qed (simp add: receivableID_def)

lemma lateRows_cong:
  "serviced i s s' \<Longrightarrow> loan_inv s \<Longrightarrow> lateRows grace t s' st = lateRows grace t s st"
  by (simp add: lateRows_def openRow_def paidNos_def serviced_repayments)

text \<open>Servicing another loan changes nothing that is shown of this one.\<close>

lemma serviced_other:
  assumes "serviced i s s'" and "loan_inv s" and "j \<noteq> i" and acc: "map_of (pj_accounts (lg_proj s)) (receivableID j) = Some acc"
  shows "map_of (lp_loans (lb_proj s')) j = map_of (lp_loans (lb_proj s)) j"
    and "naturalBalance (lg_proj s') acc = naturalBalance (lg_proj s) acc"
proof -
  have "ac_ID acc = receivableID j" by (rule accounts_id [OF _ acc]) (use assms in simp)
  then show "naturalBalance (lg_proj s') acc = naturalBalance (lg_proj s) acc"
    "map_of (lp_loans (lb_proj s')) j = map_of (lp_loans (lb_proj s)) j"
    using assms receivableID_apart [of j] by (simp_all add: serviced_def)
qed

lemma settled_other:
  assumes "serviced i s s'" and "loan_inv s" and "j \<noteq> i" and "settled grace t k s j"
  shows "settled grace t k s' j"
  using assms serviced_other [OF assms(1-3)] lateRows_cong [OF assms(1,2)]
  by (auto simp: settled_def serviced_def)

section \<open>A payment missed, and a default\<close>

lemma missPaymentInternal_serviced:
  assumes s: "loan_inv s" "newIDs s" and run: "missPaymentInternal i s = (Inr (l, b), s')"
  obtains st acc st' where "map_of (lp_loans (lb_proj s)) i = Some st"
    and "map_of (pj_accounts (lg_proj s)) (receivableID i) = Some acc"
    and "loanStatus st (naturalBalance (lg_proj s) acc) = LoanActive"
    and "serviced i s s'" and "map_of (lp_loans (lb_proj s')) i = Some st'" and "ls_record st' = ls_record st"
    and "length (lateRows grace t s' st') \<le> length (lateRows grace t s st) - 1"
proof -
  obtain loan s0 x d s1 where get: "GetLoan i s = (Inr loan, s0)" and act: "ln_Status loan = LoanActive"
    and x: "firstScheduled (ln_Schedule loan) = Some x"
    and ev: "Evaluate ''loan_servicing'' ''loan'' i (servicingInput (daysPastDue (now s0) (in_DueDate x)) (ln_MissedPayments loan)) s0 = (Inr d, s1)"
    and rec: "recordMissed i loan x (daysPastDue (now s0) (in_DueDate x)) d s1 = (Inr (l, b), s')"
    using run by (auto simp: missPaymentInternal_def bindE_eq_Inr op_simps Now_def ofOption_def Let_def split: option.splits if_splits)
  obtain st acc where s0: "s0 = s" and st: "map_of (lp_loans (lb_proj s)) i = Some st" "loan = loanView s st acc"
    and acc: "map_of (pj_accounts (lg_proj s)) (lr_ReceivableAccountID (ls_record st)) = Some acc"
    by (rule GetLoan_InrE [OF s(1) get])
  note own = own_account [OF s(1) st(1)]
  note e = serviced_evaluate(1) [OF s(1) ev [unfolded s0], of i] serviced_evaluate(2) [OF s(1) ev [unfolded s0]]
  obtain st' where 1: "serviced i s1 s'" "map_of (lp_loans (lb_proj s')) i = Some st'" "ls_record st' = ls_record st"
    "ls_missed st' = List.insert (in_No x) (ls_missed st)"
  proof (rule recordMissed_serviced [OF serviced_inv [OF e(1)] serviced_newIDs [OF e(1) s(2)] _ _ _ _ _ rec])
    show "map_of (lp_loans (lb_proj s1)) i = Some st" using st(1) e(2) by simp
    show "ln_ReceivableAccountID loan = receivableID i" using own(1) by (simp add: st(2))
    show "in64 (in_No x)" using loanView_rows(1) [OF s(1) st(1)] x by (simp add: st(2) row_typed_def)
    show "in64 (int64Or (gget (de_Output d) ''late_fee_cents''))"
      using Evaluate_decided [OF ev] loan_inv_decided(3) [OF s(1)] servicing_typed by (auto simp: s0)
  qed (use that in simp_all)
  have s': "serviced i s s'" by (rule serviced_trans [OF e(1) 1(1)])
  have "length (lateRows grace t s' st') \<le> length (lateRows grace t s st) - 1"
    by (rule fewer_late [OF x [unfolded st(2)]]) (use serviced_repayments [OF s' s(1)] 1 in \<open>simp_all add: subset_insertI\<close>)
  then show thesis
    using that [OF st(1) _ _ s' 1(2,3)] acc act own by (simp add: st(2))
qed

lemma defaulted_settled:
  "map_of (lp_loans (lb_proj s)) i = Some st \<Longrightarrow> ls_defaulted st \<Longrightarrow> settled grace t k s i"
  by (simp add: settled_def)

lemma serviced_defaulted:
  fixes i :: string and t :: instant
  assumes s: "loan_inv s" and p: "encDefaulted p = Inr j" "in64 (dp_WrittenOffCents p)"
    and st: "map_of (lp_loans (lb_proj s)) (dp_LoanID p) = Some st"
  defines "s' \<equiv> emitted s (newEvent eventLoanDefaulted i t j)"
  shows "serviced (dp_LoanID p) s s'" and "settled grace t' k s' (dp_LoanID p)"
proof -
  note dec = encDefaulted_good [OF p]
  let ?e = "newEvent eventLoanDefaulted i t j"
  have app: "snd (apply_loan (stored s ?e) (lb_proj s)) = seenLoan (stored s ?e)
      (onLoan (dp_LoanID p) (\<lambda>st. st\<lparr>ls_defaulted := True, ls_defaultReason := dp_Reason p\<rparr>) (lb_proj s))"
    by (rule apply_loan_eqs(3)) (simp_all add: dec)
  show "serviced (dp_LoanID p) s s'" unfolding s'_def
    by (rule serviced_emitted [OF s _ _ app]) (auto simp: good_loan_events dec)
  show "settled grace t' k s' (dp_LoanID p)" unfolding s'_def
    by (rule defaulted_settled [OF emitted_loans [OF st app]]) simp
qed

lemma Default_serviced:
  assumes s: "loan_inv s" "newIDs s" and run: "Default i reason s = (Inr l, s')"
  shows "serviced i s s' \<and> settled grace t k s' i"
proof -
  obtain loan s0 where get: "GetLoan i s = (Inr loan, s0)"
    using run by (auto simp: Default_def elim: bindE_InrE)
  obtain st acc where s0: "s0 = s" and st: "map_of (lp_loans (lb_proj s)) i = Some st" "loan = loanView s st acc"
    and acc: "map_of (pj_accounts (lg_proj s)) (lr_ReceivableAccountID (ls_record st)) = Some acc"
    by (rule GetLoan_InrE [OF s(1) get])
  note get = get [unfolded s0] and own = own_account [OF s(1) st(1)]
  show ?thesis
  proof (cases "ln_Status loan = LoanDefaulted")
    case True
    then have "s' = s" using run by (simp add: Default_def bindE_Inr [where m = "GetLoan i", OF get] op_simps)
    moreover have "ls_defaulted st" using True by (simp add: st(2))
    ultimately show ?thesis using s st(1) by (simp add: defaulted_settled)
  next
    case False
    let ?n = "naturalBalance (lg_proj s) acc"
    let ?post = "if 0 < ?n then bindE (PostAndFinalize (writeoffTx i loan ?n)) (\<lambda>_. returnE ()) else returnE ()"
    have n: "in64 ?n" by (simp add: naturalBalance_def Let_def)
    obtain s1 where post: "?post s = (Inr (), s1)"
      and rest: "bindE Now (\<lambda>t. bindE (liftE (encDefaulted \<lparr>dp_LoanID = i, dp_Reason = reason, dp_WrittenOffCents = ?n,
            dp_OccurredAt = t\<rparr>)) (\<lambda>payload. bindE (emitLoan eventLoanDefaulted i t payload) (\<lambda>_. GetLoan i))) s1 = (Inr l, s')"
      using run False acc s(1) unfolding Default_def Let_def bindE_Inr [where m = "GetLoan i", OF get]
      by (auto simp: op_simps ofOption_def st(2) elim!: bindE_InrE split: if_splits)
    have 1: "serviced i s s1 \<and> lb_proj s1 = lb_proj s"
    proof (cases "0 < ?n")
      case True
      then obtain t where t: "PostAndFinalize (writeoffTx i loan ?n) s = (Inr t, s1)"
        using post by (auto simp: bindE_eq_Inr op_simps)
      show ?thesis
        using serviced_transfer [OF s n t [unfolded writeoffTx_def], of i] own by (simp add: feeAccounts_def st(2))
    qed (use post s in \<open>simp add: op_simps\<close>)
    let ?p = "\<lparr>dp_LoanID = i, dp_Reason = reason, dp_WrittenOffCents = ?n, dp_OccurredAt = now s1\<rparr>"
    obtain j where j: "encDefaulted ?p = Inr j"
      using rest by (cases "encDefaulted ?p") (auto simp: Now_def op_simps)
    let ?s = "emitted s1 (newEvent eventLoanDefaulted i (now s1) j)"
    have 2: "serviced i s1 ?s" "settled grace t k ?s i"
      using serviced_defaulted [where p = ?p and t = "now s1" and st = st and i = i, OF serviced_inv [OF conjunct1 [OF 1]] j] 1 st n
      by simp_all
    have "GetLoan i ?s = (Inr l, s')"
      using rest j by (simp add: Now_def op_simps)
    then have "s' = ?s" by (rule GetLoan_InrE [OF serviced_inv [OF 2(1)]])
    then show ?thesis using 2 serviced_trans [OF conjunct1 [OF 1] 2(1)] by simp
  qed
qed

section \<open>The loops of \<open>Tick\<close>\<close>

text \<open>Every row that was late when the loan was listed takes one late row away.\<close>

lemma settled_miss:
  assumes "loan_inv s" "newIDs s" and "missPaymentInternal i s = (Inr r, s')" and "settled grace t k s i"
  shows "settled grace t (k - 1) s' i"
proof (cases r)
  case (Pair l b)
  show ?thesis
    by (rule missPaymentInternal_serviced [OF assms(1,2) assms(3) [unfolded Pair], where grace = grace and t = t])
      (use assms(4) in \<open>force simp: settled_def serviced_def\<close>)
qed

lemma tickInstallments_serviced:
  assumes "loan_inv s" "newIDs s" and "tickInstallments grace t i rows rep s = (Inr rep', s')"
  shows "serviced i s s' \<and> (settled grace t k s i \<longrightarrow> settled grace t (k - length (filter (lateRow grace t) rows)) s' i)"
  using assms
proof (induction rows arbitrary: rep s k)
  case Nil
  then show ?case by (simp add: op_simps)
next
  case (Cons x rows)
  show ?case
  proof (cases "lateRow grace t x")
    case False
    then have "tickInstallments grace t i rows rep s = (Inr rep', s')"       using Cons.prems(3) by (cases "in_Status x = StatusScheduled") (auto simp: lateRow_def)
    from Cons.IH [OF Cons.prems(1,2) this] show ?thesis using False by simp
  next
    case True
    let ?rep = "rep\<lparr>tr_MissedPayments := tr_MissedPayments rep @ [i]\<rparr>"
    obtain l b s1 where miss: "missPaymentInternal i s = (Inr (l, b), s1)"
      and rest: "(if b then bindE (Default i missedReason) (\<lambda>_. returnE (?rep\<lparr>tr_Defaults := tr_Defaults ?rep @ [i]\<rparr>))
          else tickInstallments grace t i rows ?rep) s1 = (Inr rep', s')"
      using Cons.prems(3) True unfolding lateRow_def tickInstallments.simps Let_def
      by (auto elim!: bindE_InrE split: if_splits)
    have 1: "serviced i s s1" by (rule missPaymentInternal_serviced [OF Cons.prems(1,2) miss])
    note inv = serviced_inv [OF 1] serviced_newIDs [OF 1 Cons.prems(2)]
    show ?thesis
    proof (cases b)
      case True
      then obtain l' where "Default i missedReason s1 = (Inr l', s')" using rest by (auto elim!: bindE_InrE simp: op_simps)
      from Default_serviced [OF inv this] show ?thesis using serviced_trans [OF 1] by blast
    next
      case False
      then have run: "tickInstallments grace t i rows ?rep s1 = (Inr rep', s')" using rest by simp
      show ?thesis
        using Cons.IH [OF inv run, of "k - 1"] serviced_trans [OF 1] settled_miss [OF Cons.prems(1,2) miss] True by auto
    qed
  qed
qed

lemma settled_serviced:
  assumes "serviced i s s'" and "loan_inv s" and "settled grace t k s j" and "j = i \<Longrightarrow> settled grace t k s' i"
  shows "settled grace t k s' j"
  using assms settled_other by (cases "j = i") blast+

lemma settled_mono: "settled grace t k s i \<Longrightarrow> k \<le> n \<Longrightarrow> settled grace t n s i"
  by (auto simp: settled_def)

text \<open>What a listing shows of a loan.\<close>

definition shown :: "'z loanbook_scheme \<Rightarrow> string \<Rightarrow> Loan \<Rightarrow> bool" where
  "shown s i loan \<longleftrightarrow> (\<exists>st acc. map_of (lp_loans (lb_proj s)) i = Some st \<and>
     map_of (pj_accounts (lg_proj s)) (receivableID i) = Some acc \<and> loan = loanView s st acc)"

lemma ListLoans_shown:
  assumes s: "loan_inv s"
  shows "ListLoans s = (Inr loans, s') \<longleftrightarrow> s' = s \<and> list_all2 (shown s) (lp_order (lb_proj s)) loans"
proof -
  have one: "listedLoan i s = (Inr loan, s') \<longleftrightarrow> s' = s \<and> shown s i loan" for i loan s'
    using s own_account(1) [OF s, of i]
    by (auto simp: listedLoan_def op_simps ofOption_def shown_def split: option.split)
  have "mapE listedLoan is s = (Inr loans, s') \<longleftrightarrow> s' = s \<and> list_all2 (shown s) is loans" for "is" loans s'
    by (induction "is" arbitrary: loans s') (auto simp: bindE_eq_Inr op_simps one list_all2_Cons1)
  then show ?thesis
    using s loan_inv_synced [OF s] by (simp add: ListLoans_def op_simps)
qed

lemma shown_late:
  assumes "loan_inv s" and "shown s i loan"
  shows "ln_ID loan = i"
    and "settled grace t (if ln_Status loan = LoanActive then length (filter (lateRow grace t) (ln_Schedule loan)) else 0) s i"
    and "settled grace t 0 s i \<Longrightarrow> ln_Status loan = LoanActive \<Longrightarrow> filter (lateRow grace t) (ln_Schedule loan) = []"
  using assms own_account [OF assms(1)] by (auto simp: shown_def settled_def late_view)

text \<open>What a whole tick keeps.\<close>

definition ticked :: "'z loanbook_scheme \<Rightarrow> 'z loanbook_scheme \<Rightarrow> bool" where
  "ticked s s' \<longleftrightarrow> loan_inv s' \<and> newIDs s' \<and> now s' = now s \<and> en_cache s' = en_cache s \<and>
     pj_accounts (lg_proj s') = pj_accounts (lg_proj s) \<and> lp_order (lb_proj s') = lp_order (lb_proj s) \<and>
     (\<forall>i. map_of (lp_loans (lb_proj s)) i \<noteq> None \<longrightarrow> map_of (lp_loans (lb_proj s')) i \<noteq> None)"

lemma serviced_ticked: "serviced i s s' \<Longrightarrow> newIDs s \<Longrightarrow> ticked s s'"
  using serviced_newIDs [of i s s'] serviced_loan [of i s s']
  by (auto simp: ticked_def) (auto simp: serviced_def, metis option.exhaust)

lemma ticked_refl: "loan_inv s \<Longrightarrow> newIDs s \<Longrightarrow> ticked s s"
  by (simp add: ticked_def)

lemma ticked_trans: "ticked s t \<Longrightarrow> ticked t u \<Longrightarrow> ticked s u"
  by (simp add: ticked_def)

lemma tickLoans_settles:
  assumes "loan_inv s" "newIDs s" and "tickLoans grace t loans rep s = (Inr rep', s')"
    and "\<And>loan. loan \<in> set loans \<Longrightarrow> settled grace t
      (if ln_Status loan = LoanActive then length (filter (lateRow grace t) (ln_Schedule loan)) else 0) s (ln_ID loan)"
  shows "ticked s s' \<and> (\<forall>i. settled grace t 0 s i \<or> i \<in> ln_ID ` set loans \<longrightarrow> settled grace t 0 s' i)"
  using assms
proof (induction loans arbitrary: rep s)
  case Nil
  then show ?case by (simp add: op_simps ticked_refl)
next
  case (Cons loan loans)
  let ?k = "\<lambda>loan. if ln_Status loan = LoanActive then length (filter (lateRow grace t) (ln_Schedule loan)) else 0"
  note head = Cons.prems(4) [OF list.set_intros(1)]
  show ?case
  proof (cases "ln_Status loan = LoanActive")
    case False
    then have run: "tickLoans grace t loans rep s = (Inr rep', s')" using Cons.prems(3) by simp
    then show ?thesis using Cons.IH [OF Cons.prems(1,2) run Cons.prems(4)] head False by auto
  next
    case True
    then obtain rep1 s1 where 1: "tickInstallments grace t (ln_ID loan) (ln_Schedule loan) rep s = (Inr rep1, s1)"
      and run: "tickLoans grace t loans rep1 s1 = (Inr rep', s')"
      using Cons.prems(3) by (auto elim: bindE_InrE)
    note tick = tickInstallments_serviced [OF Cons.prems(1,2) 1]
    have sv: "serviced (ln_ID loan) s s1" using tick by blast
    have keeps: "settled grace t k s1 j" if j: "settled grace t k s j" for k j
    proof (rule settled_serviced [OF sv Cons.prems(1) j])
      assume "j = ln_ID loan"
      then have "settled grace t (k - length (filter (lateRow grace t) (ln_Schedule loan))) s1 (ln_ID loan)"
        using tick j by blast
      then show "settled grace t k s1 (ln_ID loan)" by (rule settled_mono) simp
    qed
    have "settled grace t 0 s1 (ln_ID loan)" using tick head True by fastforce
    moreover have "ticked s1 s' \<and> (\<forall>i. settled grace t 0 s1 i \<or> i \<in> ln_ID ` set loans \<longrightarrow> settled grace t 0 s' i)"
      by (rule Cons.IH [OF serviced_inv [OF sv] serviced_newIDs [OF sv Cons.prems(2)] run])
        (rule keeps, rule Cons.prems(4), simp)
    ultimately show ?thesis
      using ticked_trans [OF serviced_ticked [OF sv Cons.prems(2)]] keeps by auto
  qed
qed

lemma tickInstallments_idle:
  "filter (lateRow grace t) rows = [] \<Longrightarrow> tickInstallments grace t i rows rep s = (Inr rep, s)"
  by (induction rows) (auto simp: op_simps lateRow_def filter_empty_conv)

lemma tickLoans_idle:
  "(\<And>loan. loan \<in> set loans \<Longrightarrow> ln_Status loan = LoanActive \<Longrightarrow> filter (lateRow grace t) (ln_Schedule loan) = []) \<Longrightarrow>
   tickLoans grace t loans rep s = (Inr rep, s)"
  by (induction loans) (simp_all add: op_simps tickInstallments_idle bindE_Inr [where m = "tickInstallments _ _ _ _ _"])

lemma list_all2_choice: "(\<And>x. x \<in> set xs \<Longrightarrow> \<exists>y. P x y) \<Longrightarrow> \<exists>ys. list_all2 P xs ys"
  by (induction xs) (auto simp: list_all2_Cons1)

lemma list_all2_member:
  "list_all2 P xs ys \<Longrightarrow> y \<in> set ys \<Longrightarrow> \<exists>x \<in> set xs. P x y"
  "list_all2 P xs ys \<Longrightarrow> x \<in> set xs \<Longrightarrow> \<exists>y \<in> set ys. P x y"
  by (induction rule: list_all2_induct) auto

text \<open>A tick leaves no active loan with a late row, and so the next one does nothing.\<close>

lemma Tick_again:
  assumes s: "loan_inv s" "newIDs s" and run: "Tick s = (Inr rep, s')"
  obtains loans rule g where "Tick s' = (Inr \<lparr>tr_MissedPayments = [], tr_Defaults = []\<rparr>, s')"
    and "ListLoans s' = (Inr loans, s')" and "GetRule s ''loan_servicing'' = Inr rule"
    and "requireNum (ru_Content rule) ''grace_period_days'' = Inr g"
    and "\<forall>l \<in> set loans. ln_Status l = LoanActive \<longrightarrow> filter (lateRow (float_to_int64 g) (now s)) (ln_Schedule l) = []"
proof -
  obtain loans s0 rule g where list: "ListLoans s = (Inr loans, s0)"
    and rule: "GetRule s0 ''loan_servicing'' = Inr rule" "requireNum (ru_Content rule) ''grace_period_days'' = Inr g"
    and loop: "tickLoans (float_to_int64 g) (now s0) loans \<lparr>tr_MissedPayments = [], tr_Defaults = []\<rparr> s0 = (Inr rep, s')"
    using run by (auto simp: Tick_def bindE_eq_Inr op_simps Now_def)
  let ?g = "float_to_int64 g"
  have s0: "s0 = s" and loans: "list_all2 (shown s) (lp_order (lb_proj s)) loans"
    using list ListLoans_shown [OF s(1)] by simp_all
  have late: "settled ?g (now s) (if ln_Status l = LoanActive then length (filter (lateRow ?g (now s)) (ln_Schedule l)) else 0)
      s (ln_ID l)" if "l \<in> set loans" for l
    using list_all2_member(1) [OF loans that] shown_late(1,2) [OF s(1)] by metis
  have ids: "ln_ID ` set loans = set (lp_order (lb_proj s))"
    using loans shown_late(1) [OF s(1)]
    by (induction rule: list_all2_induct) auto
  have t: "ticked s s'" and done0: "\<And>i. i \<in> set (lp_order (lb_proj s)) \<Longrightarrow> settled ?g (now s) 0 s' i"
    using tickLoans_settles [OF s loop [unfolded s0] late] ids by auto
  have inv: "loan_inv s'" using t by (simp add: ticked_def)
  have "\<exists>l. shown s' i l" if i: "i \<in> set (lp_order (lb_proj s))" for i
  proof -
    obtain l where "shown s i l" using list_all2_member(2) [OF loans i] by blast
    then show ?thesis using t by (auto simp: shown_def ticked_def)
  qed
  then obtain loans' where loans': "list_all2 (shown s') (lp_order (lb_proj s')) loans'"
    using list_all2_choice [of "lp_order (lb_proj s)" "shown s'"] t by (auto simp: ticked_def)
  have idle: "filter (lateRow ?g (now s)) (ln_Schedule l) = []" if l: "l \<in> set loans'" "ln_Status l = LoanActive" for l
  proof -
    obtain i where "i \<in> set (lp_order (lb_proj s'))" "shown s' i l"
      using list_all2_member(1) [OF loans' l(1)] by blast
    then show ?thesis using shown_late(3) [OF inv] done0 l(2) t by (simp add: ticked_def)
  qed
  then have "tickLoans ?g (now s) loans' r s' = (Inr r, s')" for r by (rule tickLoans_idle)
  moreover have list': "ListLoans s' = (Inr loans', s')" using loans' ListLoans_shown [OF inv] by simp
  ultimately have "Tick s' = (Inr \<lparr>tr_MissedPayments = [], tr_Defaults = []\<rparr>, s')"
    using rule t s0 by (simp add: Tick_def op_simps Now_def GetRule_def ticked_def bindE_Inr [where m = ListLoans])
  then show thesis using that list' rule idle s0 by blast
qed

end
