(* ===== verification/Sim_Tick.thy ===== *)
theory Sim_Tick
  imports Loan_Tick Sim_Props
begin

text \<open>
  The loop \<open>tickUntilStable\<close> (\<open>internal/simulate/service.go\<close>) over the tick of the loan book
  (\<open>internal/loan/service.go\<close>): one round does all the work. The witness is a bank with one loan that has
  fallen behind.
\<close>

text \<open>C27: After a tick that succeeds, no active loan has a scheduled installment past its due date and the grace of
  the servicing rule, so the next tick neither misses a payment nor defaults a loan and changes nothing. The loop
  \<open>tickUntilStable\<close> therefore ends after the second tick at the latest, never by its cap of twelve rounds, and
  its outcome is that of the first tick. Identifiers drawn from now on are assumed to be new (that of no recorded
  repayment); the rest is the invariant of the loan book.\<close>

theorem one_tick_settles:
  assumes s: "loan_inv s" "newIDs s" and run: "Tick s = (Inr rep, s')"
  shows "Tick s' = (Inr \<lparr>tr_MissedPayments = [], tr_Defaults = []\<rparr>, s') \<and> tickUntilStable s = (Inr rep, s') \<and>
    (\<exists>loans rule g. ListLoans s' = (Inr loans, s') \<and> GetRule s ''loan_servicing'' = Inr rule \<and>
       requireNum (ru_Content rule) ''grace_period_days'' = Inr g \<and>
       (\<forall>loan \<in> set loans. ln_Status loan = LoanActive \<longrightarrow> (\<forall>x \<in> set (ln_Schedule loan).
          in_Status x = StatusScheduled \<longrightarrow> now s \<le> addDays (in_DueDate x) (float_to_int64 g))))"
proof -
  let ?none = "\<lparr>tr_MissedPayments = [], tr_Defaults = []\<rparr> :: TickReport"
  obtain loans rule g where again: "Tick s' = (Inr ?none, s')"
    and grace: "ListLoans s' = (Inr loans, s')" "GetRule s ''loan_servicing'' = Inr rule"
      "requireNum (ru_Content rule) ''grace_period_days'' = Inr g"
    and idle: "\<forall>l \<in> set loans. ln_Status l = LoanActive \<longrightarrow> filter (lateRow (float_to_int64 g) (now s)) (ln_Schedule l) = []"
    by (rule Tick_again [OF s run])
  have two: "tickLoop (Suc (Suc n)) ?none s = (Inr rep, s')" for n
    using run again by (cases rep) (simp add: bindE_Inr [where m = Tick] op_simps)
  have cap: "maxTickIterations = Suc (Suc 10)" by (simp add: maxTickIterations_def)
  have "tickUntilStable s = (Inr rep, s')" unfolding tickUntilStable_def cap by (rule two)
  moreover have "now s \<le> addDays (in_DueDate x) (float_to_int64 g)"
    if "l \<in> set loans" "ln_Status l = LoanActive" "x \<in> set (ln_Schedule l)" "in_Status x = StatusScheduled" for l x
    using idle that by (fastforce simp: filter_empty_conv lateRow_def)
  ultimately show ?thesis using again grace by blast
qed

section \<open>A loan that has fallen behind\<close>

text \<open>The sample loan ninety days on, with a servicing rule that charges no fee.\<close>

definition lateServicing :: gmap where
  "lateServicing = [(''rule_type'', GStr ''loan_servicing''), (''grace_period_days'', num 5),
     (''missed_payments_to_default'', num 3), (''late_fee_cents'', num 0)]"

definition lateBook :: loanbook where
  "lateBook = sampleLoan\<lparr>now := 90 * nanosPerDay, en_cache := [(''loan_servicing'', ruleFromContent '''' lateServicing)],
     en_evaluators := [(''loan_servicing'', EvaluateServicing)]\<rparr>"

lemma lateBook_inv: "loan_inv lateBook"
proof -
  have "ledger_inv lateBook"
    using loan_inv_ledger(1) [OF sampleLoan_inv] by (rule iffD1 [OF ledger_inv_cong, rotated 3]) (simp_all add: lateBook_def)
  moreover have "loan_ok (loanSide lateBook)"
    using sampleLoan_inv
    by (simp add: loan_inv_def loan_ok_def loanSide_def lateBook_def decidedBy_def ruleFromContent_def strField_def lateServicing_def)
  ultimately show ?thesis by (simp add: loan_inv_def)
qed

lemma lateServicing_decides:
  "\<exists>b. EvaluateServicing lateServicing (servicingInput days 0) =
     Inr [(''is_missed'', GBool b), (''late_fee_cents'', GInt64 0), (''should_default'', GBool False)]"
  by (simp add: EvaluateServicing_def lateServicing_def servicingInput_def evaluation)

lemma late_row: "addDays (in_DueDate (mkInstallment 0 1 101000 100000 1000 0)) 5 < 90 * nanosPerDay" "timeOK (90 * nanosPerDay)"
  by code_simp+

lemma lateBook_misses:
  assumes st: "map_of (lp_loans (lb_proj lateBook)) i = Some st"
    and acc: "map_of (pj_accounts (lg_proj lateBook)) (lr_ReceivableAccountID (ls_record st)) = Some acc"
    and loan: "ln_Status (loanView lateBook st acc) = LoanActive" "ls_missed st = []"
      "ln_Schedule (loanView lateBook st acc) = [mkInstallment 0 1 101000 100000 1000 0]"
  shows "\<exists>l s'. missPaymentInternal i lateBook = (Inr (l, False), s')"
proof -
  let ?row = "mkInstallment 0 1 101000 100000 1000 0" and ?loan = "loanView lateBook st acc"
  let ?days = "daysPastDue (now lateBook) (in_DueDate ?row)"
  have get: "GetLoan i lateBook = (Inr ?loan, lateBook)" by (rule GetLoan_at [OF lateBook_inv st acc])
  have first: "firstScheduled [?row] = Some ?row" by (simp add: firstScheduled_def mkInstallment_def)
  have missed: "ln_MissedPayments ?loan = 0" using loan(2) by (simp add: loanView_def loanOf_def Let_def)
  obtain b where out: "EvaluateServicing lateServicing (servicingInput ?days 0) =
      Inr [(''is_missed'', GBool b), (''late_fee_cents'', GInt64 0), (''should_default'', GBool False)]"
    using lateServicing_decides by blast
  obtain d s1 where ev: "Evaluate ''loan_servicing'' ''loan'' i (servicingInput ?days 0) lateBook = (Inr d, s1)"
    and d: "de_Output d = [(''is_missed'', GBool b), (''late_fee_cents'', GInt64 0), (''should_default'', GBool False)]"
    using Evaluate_runs [of lateBook "''loan_servicing''" _ EvaluateServicing "servicingInput ?days 0" _ "''loan''" i] out
    by (fastforce simp: lateBook_def getEvaluator_def ruleFromContent_def strField_def lateServicing_def servicingInput_def)
  note e = serviced_evaluate(1) [OF lateBook_inv ev, of i] serviced_evaluate(2,3) [OF lateBook_inv ev]
  let ?p = "\<lparr>pm_LoanID = i, pm_InstallmentNo = in_No ?row, pm_DaysPastDue = ?days,
    pm_MissedPaymentsSoFar = wrap64 (0 + 1), pm_LateFeeCents = 0, pm_OccurredAt = now s1\<rparr>"
  have now: "now s1 = 90 * nanosPerDay" using e(1) by (simp add: serviced_def lateBook_def)
  obtain j where j: "encMissed ?p = Inr j" using late_row(2) by (auto simp: encMissed_def now)
  let ?s = "emitted s1 (newEvent eventLoanPaymentMissed i (now s1) j)"
  have small: "in64 0" "in64 1" by (simp_all add: in64_def min64_def max64_def)
  have m: "serviced i s1 ?s" "map_of (lp_loans (lb_proj ?s)) i = Some (st\<lparr>ls_missed := List.insert 1 (ls_missed st)\<rparr>)"
    using serviced_missed [where p = ?p and t = "now s1" and st = st and i = i, OF serviced_inv [OF e(1)] j] st e small
    by (simp_all add: mkInstallment_def)
  have "\<exists>l. GetLoan i ?s = (Inr l, ?s)"
    using GetLoan_at [OF serviced_inv [OF m(1)] m(2)] acc e by simp
  then have "\<exists>l. missPaymentInternal i lateBook = (Inr (l, False), ?s)"
    using get loan first missed ev d j
    by (auto simp: missPaymentInternal_def recordMissed_def op_simps ofOption_def Now_def Let_def gget_def getOr_def int64Or_def boolOr_def)
  then show ?thesis by blast
qed

lemma lateBook_Tick:
  obtains i s' where "Tick lateBook = (Inr \<lparr>tr_MissedPayments = [i], tr_Defaults = []\<rparr>, s')" and "newIDs lateBook"
proof -
  let ?row = "mkInstallment 0 1 101000 100000 1000 0"
  obtain i loan where get: "GetLoan i sampleLoan = (Inr loan, sampleLoan)" and loan: "ln_Status loan = LoanActive"
    "ln_Schedule loan = [?row]" "ln_MissedPayments loan = 0" and order: "lp_order (lb_proj sampleLoan) = [i]"
    and none: "repaid sampleLoan = {}"
    by (rule sampleLoan_facts)
  obtain st acc where st: "map_of (lp_loans (lb_proj sampleLoan)) i = Some st"
    and acc: "map_of (pj_accounts (lg_proj sampleLoan)) (lr_ReceivableAccountID (ls_record st)) = Some acc"
    and view: "loan = loanView sampleLoan st acc"
    by (rule GetLoan_InrE [OF sampleLoan_inv get])
  note own = own_account [OF sampleLoan_inv st]
  have same: "lb_proj lateBook = lb_proj sampleLoan" "lg_proj lateBook = lg_proj sampleLoan" "loanView lateBook st acc = loan"
    by (simp_all add: lateBook_def view loanView_def repayments_def)
  have "ls_missed st = []" using loan(3) by (simp add: view loanView_def loanOf_def Let_def)
  then obtain l s' where miss: "missPaymentInternal i lateBook = (Inr (l, False), s')"
    using lateBook_misses [of i st acc] st acc loan(1,2) unfolding same by blast
  have id: "ln_ID loan = i" using own by (simp add: view loanView_def loanOf_def Let_def)
  have "shown lateBook i loan" using st acc own(1) same by (auto simp: shown_def)
  then have list: "ListLoans lateBook = (Inr [loan], lateBook)" by (simp add: ListLoans_shown [OF lateBook_inv] same order)
  have rule: "GetRule lateBook ''loan_servicing'' = Inr (ruleFromContent '''' lateServicing)"
    "requireNum (ru_Content (ruleFromContent '''' lateServicing)) ''grace_period_days'' = Inr (Fin 5)"
    by (simp_all add: lateBook_def GetRule_def ofOption_def ruleFromContent_def lateServicing_def evaluation)
  have now: "now lateBook = 90 * nanosPerDay" "float_to_int64 (Fin 5) = 5"
    by (simp_all add: lateBook_def evaluation)
  have "in_Status ?row = StatusScheduled" by (simp add: mkInstallment_def)
  then have inner: "tickInstallments 5 (90 * nanosPerDay) i [?row] \<lparr>tr_MissedPayments = [], tr_Defaults = []\<rparr> lateBook =
      (Inr \<lparr>tr_MissedPayments = [i], tr_Defaults = []\<rparr>, s')"
    using late_row(1) by (simp add: bindE_Inr [where m = "missPaymentInternal i", OF miss] op_simps)
  have "tickLoans 5 (90 * nanosPerDay) [loan] \<lparr>tr_MissedPayments = [], tr_Defaults = []\<rparr> lateBook =
      (Inr \<lparr>tr_MissedPayments = [i], tr_Defaults = []\<rparr>, s')"
    by (simp only: tickLoans.simps loan id simp_thms if_False returnE_def
        bindE_Inr [where m = "tickInstallments 5 (90 * nanosPerDay) i [?row] \<lparr>tr_MissedPayments = [], tr_Defaults = []\<rparr>", OF inner])
  then have "Tick lateBook = (Inr \<lparr>tr_MissedPayments = [i], tr_Defaults = []\<rparr>, s')"
    using rule now by (simp add: Tick_def bindE_Inr [where m = ListLoans, OF list] op_simps Now_def del: tickLoans.simps)
  moreover have "repaid lateBook = {}" using none same by (simp add: repaid_def)
  then have "newIDs lateBook" by (simp add: newIDs_def)
  ultimately show thesis by (rule that)
qed

theorem one_tick_settles_witness:
  "\<exists>i s'. tickUntilStable lateBook = (Inr \<lparr>tr_MissedPayments = [i], tr_Defaults = []\<rparr>, s') \<and>
     Tick s' = (Inr \<lparr>tr_MissedPayments = [], tr_Defaults = []\<rparr>, s')"
proof -
  obtain i s' where t: "Tick lateBook = (Inr \<lparr>tr_MissedPayments = [i], tr_Defaults = []\<rparr>, s')" and n: "newIDs lateBook"
    by (rule lateBook_Tick)
  show ?thesis using one_tick_settles [OF lateBook_inv n t] by blast
qed

end
