(* ===== verification/Spec2Isabelle.thy ===== *)
theory Spec2Isabelle
  imports Demo_Props Http_Rules_Props App_Props Store_Suite_Props Sim_Tick
begin

text \<open>
  \<^bold>\<open>A verification of stableBank.\<close>

  \<^bold>\<open>The program.\<close> stableBank is a small bank with dollar and stablecoin accounts, written in Go. One
  process holds a simulated clock (\<open>internal/simclock\<close>), a store of events and rule versions
  (\<open>internal/store\<close>), a rules engine that serves versioned YAML rules from a cache
  (\<open>internal/rules\<close>) and an event-sourced double-entry ledger with foreign exchange
  (\<open>internal/ledger\<close>). On them stand customer accounts with purchases (\<open>internal/account\<close>) and loans
  (\<open>internal/loan\<close>, read by others through \<open>internal/portfolio\<close>). The dashboard
  (\<open>internal/dashboard\<close>) reports on both, the simulation (\<open>internal/simulate\<close>) drives both forward in
  time, and the demo mode (\<open>internal/demo\<close>) plays scripts that edit rules and call the bank.

  \<^bold>\<open>The state.\<close> The services share one store, one clock and one engine, so the state of the process
  is one record, extended service by service: \<open>sim_clock\<close>, \<open>entropy\<close> (random identifiers and
  the wall clock, drawn from outside), \<open>memstore\<close>, \<open>engine\<close>, \<open>ledger\<close>, \<open>loanbook\<close>, \<open>simulation\<close>; \<open>demo\<close> extends
  \<open>engine\<close> with the scripts and their run states. Customer accounts and the dashboard have no state
  of their own. An operation of a service is a function from the state to a result or an error and
  the next state; the state is kept on error paths, so what a failing call leaves behind is part of
  the model. Operations are polymorphic in the rest of the record, so that the ones of a lower
  service run unchanged inside a higher one. Every service guards its state with a mutex and the
  model is sequential: one call runs at a time.

  \<^bold>\<open>The theories, by layer.\<close>
  \<^item> \<open>Bank_Prelude\<close>: 64-bit integers with their wrap-around, errors, operations, loops over lists,
    preservation of a predicate, association lists for Go maps.
  \<^item> \<open>Go_Strings\<close>, \<open>Go_Values\<close>, \<open>Go_Float\<close>, \<open>Go_Decimal\<close>, \<open>Go_Time\<close>, \<open>Go_Timestamp\<close>: what the code uses of Go's
    strings, \<open>map[string]any\<close> and JSON, \<open>float64\<close> arithmetic rounded once per operation, shortest and
    fixed decimals, calendar arithmetic, and RFC 3339 timestamps.
  \<^item> \<open>Sim_Clock\<close>: \<open>simclock/clock.go\<close>. The clock only moves forward.
  \<^item> \<open>Store_Mem\<close>: \<open>store.go\<close> and \<open>memstore.go\<close>. The log is append-only without gaps; rule versions
    ascend with one open. The locales \<open>event_log\<close> and \<open>version_table\<close> are what the services rely on.
  \<^item> \<open>Pg_Store\<close>, \<open>Pg_Inv\<close>, \<open>Pg_Props\<close>, \<open>Pg_Refine\<close>, \<open>Pg_Migrate\<close>: \<open>internal/store/pgstore\<close> on the tables of \<open>migrations/\<close>,
    with transactions and a connection that may fail at any request. Appends and publications are atomic,
    migrations are applied once, and on a server that answers the store simulates the in-memory one, up to what its
    columns keep of times and documents.
  \<^item> \<open>Store_Suite\<close>, \<open>Store_Suite_Props\<close>: \<open>internal/store/storetest\<close>, the conformance suite, which both stores pass.
  \<^item> \<open>Event_Sourcing\<close>: the locale \<open>event_projection\<close>, shared by the services that fold events; the
    ledger and the loan book interpret it.
  \<^item> \<open>Rules_Diff\<close>, \<open>Rules_Match\<close>, \<open>Rules_Engine\<close>: \<open>internal/rules\<close>. The diff is faithful and minimal,
    example matching decides containment, publishing adds one version and serves it.
  \<^item> \<open>Ledger_Amount\<close>: \<open>ledger/amount.go\<close>. Rendering and parsing are inverse.
  \<^item> \<open>Ledger_Core\<close>, \<open>Ledger_Inv\<close>, \<open>Ledger_Fx\<close>, \<open>Ledger_Steps\<close>, \<open>Ledger_Client\<close>: the rest of \<open>internal/ledger\<close>,
    its invariant, foreign exchange, the step relation with the properties of its reachable states,
    and the locale of the transfers that the services above make.
  \<^item> \<open>Acct_Waterfall\<close>, \<open>Acct_Service\<close>, \<open>Acct_Props\<close>: \<open>internal/account\<close>. The spend waterfall approves only
    what is covered; a purchase debits the customer what its receipt says.
  \<^item> \<open>Loan_Amortize\<close>, \<open>Loan_State\<close>, \<open>Loan_Evaluators\<close>, \<open>Loan_Service\<close>, \<open>Loan_Forecast\<close>, \<open>Loan_Inv\<close>, \<open>Loan_Props\<close>:
    \<open>internal/loan\<close>. Schedules close and pay down, the payment is the annuity; the loan book is the
    replay of its events; what origination, repayment and default do to the books.
  \<^item> \<open>Bank_Steps\<close>, \<open>Bank_Props\<close>: ledger, accounts and loan book as one state machine with restarts
    (\<open>bank_step\<close>, \<open>bank_reachable\<close>); its invariant, what it means for the books, and a sample bank.
  \<^item> \<open>Dash_Evaluators\<close>, \<open>Dash_Service\<close>, \<open>Dash_Props\<close>: \<open>internal/dashboard\<close>. It only reads; its flows reconcile
    with their breakdowns; its percentages are the exact ones, rounded.
  \<^item> \<open>Sim_Scenario\<close>, \<open>Sim_Props\<close>: \<open>internal/simulate\<close>. Scenarios run in order or not at all and stay within
    the reachable states of the bank; the time only moves forward.
  \<^item> \<open>Loan_Tick\<close>, \<open>Sim_Tick\<close>: the daily tick of the loan book and the loop of the simulation that repeats it. Due
    dates ascend, every late row of a loan is missed once, servicing one loan leaves the others alone; so one tick
    leaves nothing late and the loop ends by itself.
  \<^item> \<open>Demo_Fieldpath\<close>, \<open>Demo_Service\<close>, \<open>Demo_Props\<close>: \<open>internal/demo\<close>. An edit publishes one changed field, a
    reset brings every edited rule back, steps run in order.
  \<^item> \<open>Http_Core\<close>: \<open>internal/httpx\<close>: requests as path values, query and JSON body, the decoding of a body into
    the fields of a struct, and responses as a status with a value or an error.
  \<^item> \<open>Http_Mux\<close>: the patterns of Go's \<open>http.ServeMux\<close>, their precedence, the conflicts that make a
    registration panic, and the dispatch of a request.
  \<^item> \<open>Http_Bank\<close>, \<open>Http_Rules\<close>, \<open>Http_Demo\<close>: the routes and handlers of the packages (\<open>http.go\<close> in each of
    them). \<open>Http_Rules_Props\<close>: what publishing answers, case by case, from what a dry run says.
  \<^item> \<open>App_Main\<close>, \<open>App_Props\<close>: \<open>cmd/stablebank/main.go\<close>, the start of the process and its router. Every
    request has one handler, \<open>GET\<close> requests only read, and from the start on every sequence of requests
    to the bank (ledger, accounts, loans, simulation, dashboard) keeps the books. The handlers of rules and demo are
    modelled in theories of their own; in these sequences they change nothing.

  \<^bold>\<open>Parameters.\<close> Code outside the repository is a field of the state or an argument of the operations:
  YAML decoding, parsing and printing, the compiled JSON schemas, SHA-256, the files under \<open>rules/\<close> and
  the demo script, the environment, the connection to the PostgreSQL server and how the server rounds times,
  normalises documents and collates strings, random identifiers, the wall clock, \<open>math/rand\<close>, and what the
  demo gets back when it calls the process over HTTP. Nothing is assumed of them unless a theorem says so;
  in particular identifiers are fresh only where that is a hypothesis.

  \<^bold>\<open>Data.\<close> Go's \<open>int64\<close> and \<open>int\<close> are integers with the wrap-around written out (\<open>wrap64\<close>). A \<open>float64\<close> is
  an exact rational or one of the special values; the sign of zero is not kept. Strings are
  lists of bytes, taken to be valid UTF-8 where the code decodes runes. Go maps are association lists;
  where the code ranges over a map the order of the model is the order of insertion. Times are
  nanoseconds since the Unix epoch; times and the sequence numbers of the stores are not bounded to 64 bits.
  A nil and an empty map are the same. The texts of errors are shortened to constructors that keep
  what the code distinguishes. Pointers that the code shares (the run states of the demo) are
  addresses into a list.

  \<^bold>\<open>Bounds.\<close> Every loop of the model is structural recursion over a list or has a termination proof; the
  only counter is the code's own \<open>maxTickIterations\<close>, and \<open>Sim_Tick\<close> shows that it is never what ends the loop.

  \<^bold>\<open>Not modelled.\<close> The services run on the in-memory store, also in the model of the process; the PostgreSQL
  store is related to it by its refinement. The reading of bodies off the wire and the writing of
  responses as bytes, the cleaning of paths and the redirects of the router, the listening and the
  logging of \<open>cmd/stablebank/main.go\<close>, the embedded web assets and migration files, panics of the HTTP
  test library on malformed paths of a demo script, the panic of a bulk purchase whose count is too large to
  allocate, PostgreSQL's refusal of text with a NUL byte or invalid UTF-8, fractions such as \<open>1/2\<close> as decimal
  strings of rates, and the interleaving of concurrent calls.
\<close>

end
